(* ===== verification/Prelude.thy ===== *)
theory Prelude
  imports Complex_Main "HOL-Library.Multiset" "HOL-Library.List_Lexorder"
    "HOL-Library.AList"
begin

text \<open>
  What every component shares: the errors a Python statement can raise, results as sums,
  guard chains (the \<open>if ...: raise\<close> ladders of the constructors), IEEE floats where the
  code asks whether a value is finite, stable sorting by a key that may itself raise,
  and the order statistics (\<open>statistics.median\<close>, nearest rank) used by several parts.

  Conventions. A Python \<open>int\<close> is an \<open>int\<close>. A Python \<open>float\<close> is a \<open>real\<close>: finite and
  without rounding; where the source tests \<open>math.isfinite\<close> the argument is a \<open>pyfloat\<close>.
  A function that may raise returns \<open>'a result\<close>, with \<open>Inl\<close> for the exception.
\<close>

section \<open>Errors and results\<close>

datatype py_error =
    ValueError string
  | RuntimeError string
  | NotImplementedError string
  | StatisticsError string
  | ZeroDivisionError string
  | KeyError string
  | InvalidStateError string
  | ValidationError string
  | IndexError string
  | StopIteration string
  | TypeError string
  | ExpLIntegrityError string
  | PreRegistrationFailure string

type_synonym 'a result = "py_error + 'a"

named_theorems raise_simps \<open>facts that decide guard chains\<close>
named_theorems wf_intros \<open>introduction rules for well-formedness of the components\<close>
named_theorems order_facts \<open>facts about orderings produced by sorting\<close>

fun raise_if :: "(bool \<times> py_error) list \<Rightarrow> py_error option" where
  "raise_if [] = None"
| "raise_if ((c, e) # cs) = (if c then Some e else raise_if cs)"

declare raise_if.simps(2) [simp del]

definition checked :: "(bool \<times> py_error) list \<Rightarrow> 'a \<Rightarrow> 'a result" where
  "checked cs x = (case raise_if cs of Some e \<Rightarrow> Inl e | None \<Rightarrow> Inr x)"

fun and_then :: "'a result \<Rightarrow> ('a \<Rightarrow> 'b result) \<Rightarrow> 'b result" where
  "and_then (Inl e) f = Inl e"
| "and_then (Inr x) f = f x"

lemma raise_if_None [raise_simps]: "raise_if cs = None \<longleftrightarrow> (\<forall>c \<in> set cs. \<not> fst c)"
  by (induction cs rule: raise_if.induct) (auto simp: raise_if.simps)

lemma raise_if_Some: "raise_if cs = Some e \<Longrightarrow> (True, e) \<in> set cs"
  by (induction cs rule: raise_if.induct) (auto simp: raise_if.simps split: if_splits)

lemma checked_Inr [raise_simps]: "checked cs x = Inr y \<longleftrightarrow> y = x \<and> raise_if cs = None"
  by (auto simp: checked_def split: option.splits)

lemma checked_Inl [raise_simps]: "checked cs x = Inl e \<longleftrightarrow> raise_if cs = Some e"
  by (auto simp: checked_def split: option.splits)

lemma and_then_Inr: "and_then r f = Inr y \<longleftrightarrow> (\<exists>x. r = Inr x \<and> f x = Inr y)"
  by (cases r) auto

lemma and_then_Inl: "and_then r f = Inl e \<longleftrightarrow> r = Inl e \<or> (\<exists>x. r = Inr x \<and> f x = Inl e)"
  by (cases r) auto

fun map_result :: "('a \<Rightarrow> 'b result) \<Rightarrow> 'a list \<Rightarrow> 'b list result" where
  "map_result f [] = Inr []"
| "map_result f (x # xs) =
     and_then (f x) (\<lambda>y. and_then (map_result f xs) (\<lambda>ys. Inr (y # ys)))"

lemma map_result_Inr:
  "map_result f xs = Inr ys \<longleftrightarrow> list_all2 (\<lambda>x y. f x = Inr y) xs ys"
  by (induction xs arbitrary: ys) (auto simp: and_then_Inr list_all2_Cons1)

lemma map_result_total: "(\<And>x. x \<in> set xs \<Longrightarrow> f x = Inr (g x)) \<Longrightarrow> map_result f xs = Inr (map g xs)"
  by (induction xs) auto

lemma map_result_returns:
  assumes "\<And>x. x \<in> set xs \<Longrightarrow> \<exists>y. f x = Inr y \<and> P x y"
  shows "\<exists>ys. map_result f xs = Inr ys \<and> list_all2 P xs ys"
  using assms
proof (induction xs)
  case (Cons x xs)
  obtain y where "f x = Inr y" "P x y" using Cons.prems [of x] by auto
  moreover obtain ys where "map_result f xs = Inr ys" "list_all2 P xs ys" using Cons by auto
  ultimately show ?case by simp
qed simp

lemma map_filter_append: "List.map_filter f (xs @ ys) = List.map_filter f xs @ List.map_filter f ys"
  by (simp add: List.map_filter_def)

text \<open>Python's \<open>a or b\<close> on an optional integer: \<open>None\<close> and \<open>0\<close> are both false.\<close>

definition or_int :: "int option \<Rightarrow> int \<Rightarrow> int" where
  "or_int a b = (case a of None \<Rightarrow> b | Some v \<Rightarrow> if v = 0 then b else v)"

lemma or_int_simps [simp]:
  "or_int None b = b" "v \<noteq> 0 \<Longrightarrow> or_int (Some v) b = v" "or_int (Some 0) b = b"
  by (simp_all add: or_int_def)

section \<open>IEEE floats at the boundaries\<close>

datatype pyfloat = Fin real | PosInf | NegInf | NaN

fun isfinite :: "pyfloat \<Rightarrow> bool" where
  "isfinite (Fin _) = True"
| "isfinite _ = False"

fun real_of :: "pyfloat \<Rightarrow> real" where
  "real_of (Fin r) = r"
| "real_of _ = 0"

text \<open>\<open>a < b\<close> on floats; every comparison with NaN is false.\<close>

fun pf_less :: "pyfloat \<Rightarrow> pyfloat \<Rightarrow> bool" where
  "pf_less NaN _ = False"
| "pf_less _ NaN = False"
| "pf_less (Fin a) (Fin b) = (a < b)"
| "pf_less NegInf NegInf = False"
| "pf_less NegInf _ = True"
| "pf_less _ NegInf = False"
| "pf_less PosInf _ = False"
| "pf_less _ PosInf = True"

lemma isfinite_iff: "isfinite x \<longleftrightarrow> (\<exists>r. x = Fin r)"
  by (cases x) auto

lemma isfinite_real_of: "isfinite x \<Longrightarrow> x = Fin (real_of x)"
  by (cases x) auto

section \<open>Sorting by a key\<close>

text \<open>
  \<open>sorted(xs, key=f)\<close> computes every key first, in order, so the first key that raises
  aborts the sort; then it sorts stably by key. A key is a tuple of numbers, compared
  lexicographically, which is the order \<open>List_Lexorder\<close> puts on lists.
\<close>

type_synonym key = "real list"

definition sorted_by :: "('a \<Rightarrow> ('k::linorder) result) \<Rightarrow> 'a list \<Rightarrow> 'a list result" where
  "sorted_by f xs =
     and_then (map_result f xs) (\<lambda>ks. Inr (map snd (sort_key fst (zip ks xs))))"

lemma sort_key_map: "sort_key f (map g xs) = map g (sort_key (f \<circ> g) xs)"
proof (induction xs)
  case (Cons x xs)
  have "insort_key f (g x) (map g ys) = map g (insort_key (f \<circ> g) x ys)" for ys
    by (induction ys) auto
  with Cons show ?case by (simp add: comp_def)
qed simp

lemma sorted_by_total:
  assumes "\<And>x. x \<in> set xs \<Longrightarrow> f x = Inr (g x)"
  shows "sorted_by f xs = Inr (sort_key g xs)"
proof -
  have zip: "zip (map g xs) xs = map (\<lambda>x. (g x, x)) xs"
    by (induction xs) auto
  have "map_result f xs = Inr (map g xs)"
    using assms by (rule map_result_total)
  then show ?thesis
    by (simp add: sorted_by_def zip sort_key_map comp_def)
qed

lemma sorted_by_mset: "sorted_by f xs = Inr ys \<Longrightarrow> mset ys = mset xs"
proof -
  assume "sorted_by f xs = Inr ys"
  then obtain ks where ks: "map_result f xs = Inr ks"
    and ys: "ys = map snd (sort_key fst (zip ks xs))"
    by (auto simp: sorted_by_def and_then_Inr)
  from ks have "length ks = length xs"
    by (auto simp: map_result_Inr dest: list_all2_lengthD)
  then show ?thesis
    by (metis ys map_snd_zip mset_map mset_sort)
qed

lemma sort_key_hd_min [order_facts]:
  assumes "y \<in> set xs"
  shows "f (hd (sort_key f xs)) \<le> f y"
proof -
  have "sorted (map f (sort_key f xs))" by simp
  moreover have "y \<in> set (sort_key f xs)" using assms by simp
  ultimately show ?thesis
    by (cases "sort_key f xs") auto
qed

lemma hd_filter_sat: "filter P xs \<noteq> [] \<Longrightarrow> P (hd (filter P xs))"
  using list.set_sel(1) [of "filter P xs"] by simp

text \<open>Stability: the head of the sorted list is the earliest element with the least key.\<close>

lemma sort_key_hd_first [order_facts]:
  assumes "xs \<noteq> []"
  shows "hd (sort_key f xs) = hd (filter (\<lambda>x. f x = f (hd (sort_key f xs))) xs)"
proof -
  let ?h = "hd (sort_key f xs)"
  have ne: "sort_key f xs \<noteq> []"
    using assms by (metis length_0_conv length_sort)
  then have "hd (filter (\<lambda>x. f x = f ?h) (sort_key f xs)) = ?h"
    by (cases "sort_key f xs") auto
  then show ?thesis
    by (simp add: sort_key_stable)
qed

text \<open>Sorting depends on a key only through the order it induces.\<close>

lemma sort_key_cong_le:
  assumes "\<And>x y. x \<in> set xs \<Longrightarrow> y \<in> set xs \<Longrightarrow> f x \<le> f y \<longleftrightarrow> g x \<le> g y"
  shows "sort_key f xs = sort_key g xs"
  using assms
proof (induction xs)
  case (Cons x xs)
  have insort: "set ys \<subseteq> set (x # xs) \<Longrightarrow> insort_key f x ys = insort_key g x ys" for ys
    using Cons.prems by (induction ys) auto
  have "sort_key f xs = sort_key g xs" using Cons by simp
  then show ?case using insort [of "sort_key g xs"] by auto
qed simp

lemma sort_key_strict [order_facts]:
  assumes "ys = sort_key f xs" and "i < length ys" and "j < length ys" and "f (ys ! i) < f (ys ! j)"
  shows "i < j"
proof (rule ccontr)
  assume "\<not> i < j"
  moreover have "sorted (map f ys)" by (simp add: assms(1))
  ultimately have "f (ys ! j) \<le> f (ys ! i)"
    using assms(2,3) by (auto simp: sorted_iff_nth_mono)
  with assms(4) show False by simp
qed

section \<open>Order statistics\<close>

text \<open>\<open>statistics.median\<close>: the middle value, or the mean of the two middle values.\<close>

definition median :: "real list \<Rightarrow> real result" where
  "median xs =
     (let s = sort xs; n = length xs in
      if n = 0 then Inl (StatisticsError ''no median for empty data'')
      else if odd n then Inr (s ! (n div 2))
      else Inr ((s ! (n div 2 - 1) + s ! (n div 2)) / 2))"

text \<open>
  \<open>sorted_values[math.ceil(p * len(sorted_values)) - 1]\<close>: for \<open>p \<le> 0\<close> the index is \<open>-1\<close> or
  less, which Python reads from the end; the code only passes \<open>0 < p \<le> 1\<close>.
\<close>

definition nearest_rank :: "real list \<Rightarrow> real \<Rightarrow> real option" where
  "nearest_rank s p =
     (if s = [] then None else Some (s ! nat (\<lceil>p * real (length s)\<rceil> - 1)))"

lemma nearest_rank_index:
  assumes "s \<noteq> []" and "0 < p" and "p \<le> 1"
  shows "nat (\<lceil>p * real (length s)\<rceil> - 1) < length s"
proof -
  have "\<lceil>p * real (length s)\<rceil> \<le> int (length s)"
    using assms by (simp add: ceiling_le_iff mult_left_le_one_le)
  with assms(1) show ?thesis by (cases s) auto
qed

lemma nearest_rank_mem:
  "nearest_rank s p = Some v \<Longrightarrow> 0 < p \<Longrightarrow> p \<le> 1 \<Longrightarrow> v \<in> set s"
  using nearest_rank_index [of s p] by (auto simp: nearest_rank_def split: if_splits)

lemma nearest_rank_mono:
  assumes "sorted s" and "nearest_rank s p = Some u" and "nearest_rank s q = Some v"
    and "0 < p" and "p \<le> q" and "q \<le> 1"
  shows "u \<le> v"
proof -
  have "\<lceil>p * real (length s)\<rceil> \<le> \<lceil>q * real (length s)\<rceil>"
    using assms(5) by (intro ceiling_mono mult_right_mono) auto
  then have "nat (\<lceil>p * real (length s)\<rceil> - 1) \<le> nat (\<lceil>q * real (length s)\<rceil> - 1)"
    by simp
  moreover have "nat (\<lceil>q * real (length s)\<rceil> - 1) < length s"
    using assms by (intro nearest_rank_index) (auto simp: nearest_rank_def)
  ultimately show ?thesis
    using assms(1-3) by (auto simp: nearest_rank_def sorted_iff_nth_mono split: if_splits)
qed

lemma median_bounds:
  assumes "median xs = Inr m" and "\<And>x. x \<in> set xs \<Longrightarrow> l \<le> x \<and> x \<le> u"
  shows "l \<le> m \<and> m \<le> u"
proof -
  have ne: "length xs \<noteq> 0"
    using assms(1) by (auto simp: median_def Let_def split: if_splits)
  have nth: "l \<le> sort xs ! i \<and> sort xs ! i \<le> u" if "i < length xs" for i
    using assms(2) that by (metis length_sort nth_mem set_sort)
  have "length xs div 2 < length xs" and "length xs div 2 - 1 < length xs" using ne by arith+
  then have "l \<le> sort xs ! (length xs div 2) \<and> sort xs ! (length xs div 2) \<le> u"
    and "l \<le> sort xs ! (length xs div 2 - 1) \<and> sort xs ! (length xs div 2 - 1) \<le> u"
    using nth by blast+
  with assms(1) ne show ?thesis
    by (auto simp: median_def Let_def field_simps split: if_splits)
qed

section \<open>Iteration helpers\<close>

text \<open>\<open>itertools.pairwise\<close> and \<open>zip(xs, xs[1:], xs[2:])\<close>.\<close>

definition pairwise :: "'a list \<Rightarrow> ('a \<times> 'a) list" where
  "pairwise xs = zip xs (tl xs)"

definition triplewise :: "'a list \<Rightarrow> ('a \<times> 'a \<times> 'a) list" where
  "triplewise xs = zip xs (zip (tl xs) (tl (tl xs)))"

lemma pairwise_nth: "(a, b) \<in> set (pairwise xs) \<longleftrightarrow> (\<exists>i. Suc i < length xs \<and> xs ! i = a \<and> xs ! Suc i = b)"
  by (force simp: pairwise_def in_set_zip nth_tl)

text \<open>
  A \<open>defaultdict(list)\<close> filled in a loop: the groups in the order of their first element, each
  with its elements in order.
\<close>

definition first_occurrences :: "'a list \<Rightarrow> 'a list" where
  "first_occurrences xs = rev (remdups (rev xs))"

definition group_by :: "('a \<Rightarrow> 'k) \<Rightarrow> 'a list \<Rightarrow> ('k \<times> 'a list) list" where
  "group_by key xs = map (\<lambda>k. (k, filter (\<lambda>x. key x = k) xs)) (first_occurrences (map key xs))"

lemma first_occurrences_set [simp]: "set (first_occurrences xs) = set xs"
  by (simp add: first_occurrences_def)

lemma first_occurrences_distinct [simp]: "distinct (first_occurrences xs)"
  by (simp add: first_occurrences_def)

lemma group_by_mem:
  "(k, ys) \<in> set (group_by key xs) \<longleftrightarrow> k \<in> key ` set xs \<and> ys = filter (\<lambda>x. key x = k) xs"
  by (auto simp: group_by_def)

text \<open>A dict comprehension: a repeated key keeps its place and takes the last value.\<close>

definition dict_by :: "('a \<Rightarrow> 'k) \<Rightarrow> 'a list \<Rightarrow> ('k \<times> 'a) list" where
  "dict_by key xs = fold (\<lambda>x d. AList.update (key x) x d) xs []"

lemma dict_by_snoc: "dict_by key (xs @ [x]) = AList.update (key x) x (dict_by key xs)"
  by (simp add: dict_by_def)

lemma dict_by_keys: "distinct (map fst (dict_by key xs)) \<and> fst ` set (dict_by key xs) = key ` set xs"
proof (induction xs rule: rev_induct)
  case (snoc x xs)
  then show ?case by (auto simp: dict_by_snoc distinct_update dom_update)
qed (simp add: dict_by_def)

lemma dict_by_length: "length (dict_by key xs) = card (key ` set xs)"
  using dict_by_keys [of key xs] by (metis distinct_card length_map set_map)

lemma dict_by_lookup:
  assumes "distinct (map key xs)" and "x \<in> set xs"
  shows "map_of (dict_by key xs) (key x) = Some x"
  using assms
proof (induction xs rule: rev_induct)
  case (snoc y xs)
  then show ?case by (cases "x = y") (auto simp: dict_by_snoc update_conv' rev_image_eqI)
qed simp

lemma dict_by_member: "map_of (dict_by key xs) k = Some x \<Longrightarrow> x \<in> set xs \<and> key x = k"
proof (induction xs rule: rev_induct)
  case (snoc y xs)
  then show ?case by (auto simp: dict_by_snoc update_conv' split: if_splits)
qed (simp add: dict_by_def)

text \<open>A loop whose body may raise.\<close>

fun fold_result :: "('a \<Rightarrow> 's \<Rightarrow> 's result) \<Rightarrow> 'a list \<Rightarrow> 's \<Rightarrow> 's result" where
  "fold_result f [] s = Inr s"
| "fold_result f (x # xs) s = and_then (f x s) (fold_result f xs)"

text \<open>\<open>statistics.fmean\<close> of a list the caller knows to be non-empty, \<open>min\<close> and \<open>max\<close>.\<close>

definition average :: "real list \<Rightarrow> real" where
  "average xs = sum_list xs / real (length xs)"

lemma average_bounds:
  assumes "xs \<noteq> []" and "\<And>x. x \<in> set xs \<Longrightarrow> l \<le> x \<and> x \<le> u"
  shows "l \<le> average xs" and "average xs \<le> u"
proof -
  have "l * real (length xs) \<le> sum_list xs \<and> sum_list xs \<le> u * real (length xs)"
    using assms(2)
  proof (induction xs)
    case (Cons x xs)
    have "l \<le> x" "x \<le> u" using Cons.prems [of x] by simp_all
    moreover have "l * real (length xs) \<le> sum_list xs \<and> sum_list xs \<le> u * real (length xs)"
      using Cons.prems by (intro Cons.IH) simp
    ultimately show ?case by (simp add: algebra_simps)
  qed simp
  with assms(1) show "l \<le> average xs" "average xs \<le> u"
    by (simp_all add: average_def pos_le_divide_eq pos_divide_le_eq)
qed

end
