(* ===== verification/Models.thy ===== *)
theory Models
  imports Prelude
begin

text \<open>
  The request metadata shared by all components (src/sloserve/router/models.py) and the
  terminal statuses (src/sloserve/workload/dispatcher.py). \<open>RequestEnvelope_init\<close> is the
  dataclass constructor with its \<open>__post_init__\<close>; \<open>valid_envelope\<close> is the fact every
  constructed envelope satisfies, and \<open>replace_backend_cap\<close> is \<open>dataclasses.replace\<close>,
  which runs the constructor again.
\<close>

datatype RequestClass = INTERACTIVE | BATCH

fun class_value :: "RequestClass \<Rightarrow> string" where
  "class_value INTERACTIVE = ''interactive''"
| "class_value BATCH = ''batch''"

lemma class_value_inject [simp]: "class_value a = class_value b \<longleftrightarrow> a = b"
  by (cases a; cases b) auto

text \<open>\<open>RequestClass(value)\<close>: the enum member with this value, or a \<open>ValueError\<close>.\<close>

definition class_of_value :: "string \<Rightarrow> RequestClass result" where
  "class_of_value v =
     (if v = ''interactive'' then Inr INTERACTIVE
      else if v = ''batch'' then Inr BATCH
      else Inl (ValueError ''not a valid RequestClass''))"

lemma class_of_value_value [simp]: "class_of_value (class_value c) = Inr c"
  by (cases c) (auto simp: class_of_value_def)

datatype DispatchStatus = SUCCESS | ERROR | TIMEOUT | CANCELLED | REJECTED

fun status_value :: "DispatchStatus \<Rightarrow> string" where
  "status_value SUCCESS = ''success''"
| "status_value ERROR = ''error''"
| "status_value TIMEOUT = ''timeout''"
| "status_value CANCELLED = ''cancelled''"
| "status_value REJECTED = ''rejected''"

definition status_of_value :: "string \<Rightarrow> DispatchStatus result" where
  "status_of_value v =
     (if v = ''success'' then Inr SUCCESS
      else if v = ''error'' then Inr ERROR
      else if v = ''timeout'' then Inr TIMEOUT
      else if v = ''cancelled'' then Inr CANCELLED
      else if v = ''rejected'' then Inr REJECTED
      else Inl (ValueError ''not a valid DispatchStatus''))"

lemma status_of_value_value [simp]: "status_of_value (status_value s) = Inr s"
  by (cases s) (auto simp: status_of_value_def)

record RequestEnvelope =
  request_id :: string
  sequence_id :: int
  request_class :: RequestClass
  arrival_time_s :: real
  input_tokens :: int
  max_output_tokens :: int
  deadline_time_s :: real
  advertised_cap_tokens :: "int option"
  prompt_kind :: "string option"
  backend_max_output_tokens :: "int option"
  force_exact_output_tokens :: bool

definition envelope_guards :: "RequestEnvelope \<Rightarrow> (bool \<times> py_error) list" where
  "envelope_guards e =
    [(request_id e = [], ValueError ''request_id must not be empty''),
     (sequence_id e < 0, ValueError ''sequence_id must be non-negative''),
     (arrival_time_s e < 0, ValueError ''arrival_time_s must be non-negative''),
     (input_tokens e < 1, ValueError ''input_tokens must be positive''),
     (max_output_tokens e < 1, ValueError ''max_output_tokens must be positive''),
     (deadline_time_s e < arrival_time_s e,
        ValueError ''deadline_time_s must not precede arrival_time_s''),
     ((case advertised_cap_tokens e of None \<Rightarrow> False | Some c \<Rightarrow> c < 1),
        ValueError ''advertised_cap_tokens must be positive''),
     ((case backend_max_output_tokens e of None \<Rightarrow> False | Some c \<Rightarrow> c < 1),
        ValueError ''backend_max_output_tokens must be positive''),
     ((case backend_max_output_tokens e of None \<Rightarrow> False | Some c \<Rightarrow> c > max_output_tokens e),
        ValueError ''backend_max_output_tokens must not exceed the requested target'')]"

definition RequestEnvelope_init :: "RequestEnvelope \<Rightarrow> RequestEnvelope result" where
  "RequestEnvelope_init e = checked (envelope_guards e) e"

definition valid_envelope :: "RequestEnvelope \<Rightarrow> bool" where
  "valid_envelope e \<longleftrightarrow>
     request_id e \<noteq> [] \<and> 0 \<le> sequence_id e \<and> 0 \<le> arrival_time_s e \<and>
     1 \<le> input_tokens e \<and> 1 \<le> max_output_tokens e \<and>
     arrival_time_s e \<le> deadline_time_s e \<and>
     (\<forall>c. advertised_cap_tokens e = Some c \<longrightarrow> 1 \<le> c) \<and>
     (\<forall>c. backend_max_output_tokens e = Some c \<longrightarrow> 1 \<le> c \<and> c \<le> max_output_tokens e)"

definition effective_max_output_tokens :: "RequestEnvelope \<Rightarrow> int" where
  "effective_max_output_tokens e = or_int (backend_max_output_tokens e) (max_output_tokens e)"

definition clip_applied :: "RequestEnvelope \<Rightarrow> bool" where
  "clip_applied e \<longleftrightarrow> effective_max_output_tokens e < max_output_tokens e"

definition replace_backend_cap :: "RequestEnvelope \<Rightarrow> int \<Rightarrow> RequestEnvelope result" where
  "replace_backend_cap e cap =
     RequestEnvelope_init (e\<lparr>backend_max_output_tokens := Some cap\<rparr>)"

lemma RequestEnvelope_init_Inr:
  "RequestEnvelope_init e = Inr e' \<longleftrightarrow> e' = e \<and> valid_envelope e"
  by (auto simp: RequestEnvelope_init_def raise_simps envelope_guards_def valid_envelope_def
      split: option.splits)

lemma effective_bounds:
  assumes "valid_envelope e"
  shows "1 \<le> effective_max_output_tokens e" and "effective_max_output_tokens e \<le> max_output_tokens e"
  using assms
  by (cases "backend_max_output_tokens e";
      auto simp: valid_envelope_def effective_max_output_tokens_def or_int_def)+

lemma clip_applied_iff:
  assumes "valid_envelope e"
  shows "clip_applied e \<longleftrightarrow>
    (\<exists>c. backend_max_output_tokens e = Some c \<and> c < max_output_tokens e)"
  using assms
  by (cases "backend_max_output_tokens e")
     (auto simp: valid_envelope_def clip_applied_def effective_max_output_tokens_def or_int_def)

lemma replace_backend_cap_valid:
  assumes "valid_envelope e" and "1 \<le> cap" and "cap \<le> max_output_tokens e"
  shows "replace_backend_cap e cap = Inr (e\<lparr>backend_max_output_tokens := Some cap\<rparr>)"
    and "valid_envelope (e\<lparr>backend_max_output_tokens := Some cap\<rparr>)"
  using assms by (auto simp: replace_backend_cap_def RequestEnvelope_init_Inr valid_envelope_def)

text \<open>Two envelopes that differ at most in the backend cap, the one thing clipping changes.\<close>

definition same_request :: "RequestEnvelope \<Rightarrow> RequestEnvelope \<Rightarrow> bool" where
  "same_request e e' \<longleftrightarrow>
     e'\<lparr>backend_max_output_tokens := None\<rparr> = e\<lparr>backend_max_output_tokens := None\<rparr>"

lemma same_request_refl [simp]: "same_request e e"
  by (simp add: same_request_def)

lemma same_request_trans: "same_request a b \<Longrightarrow> same_request b c \<Longrightarrow> same_request a c"
  by (simp add: same_request_def)

lemma same_request_capped [simp]: "same_request e (e\<lparr>backend_max_output_tokens := c\<rparr>)"
  by (simp add: same_request_def)

lemma same_request_fields:
  assumes "same_request e e'"
  shows "request_id e' = request_id e" "sequence_id e' = sequence_id e"
    "request_class e' = request_class e" "arrival_time_s e' = arrival_time_s e"
    "input_tokens e' = input_tokens e" "max_output_tokens e' = max_output_tokens e"
  using assms by (cases e; cases e'; simp add: same_request_def)+

end
