(* ===== verification/Config.thy ===== *)
theory Config
  imports Models
begin

text \<open>
  The validated configuration (src/sloserve/config.py). A pydantic model is a record; its
  \<open>Field\<close> constraints and its \<open>model_validator\<close>s, in source order, are the guards of its
  constructor. Pydantic itself is a library: of its behaviour the model uses only that the
  field constraints are checked before the \<open>mode="after"\<close> validators, and that a model whose
  checks all pass is constructed unchanged.
\<close>

section \<open>Enumerations\<close>

datatype SchedulerPolicyName = FCFS | STATIC_PRIORITY | SLO_AWARE
datatype TorchDtype = DTYPE_AUTO | BFLOAT16 | FLOAT16
datatype ArrivalProcess = FIXED | POISSON | BURST
datatype LengthModel = UNIFORM_CAP | REALISTIC
datatype LengthSource = LENGTH_TRUE | LENGTH_ADVERTISED | LENGTH_LEARNED
datatype ClipSource = CLIP_ADVERTISED | CLIP_LEARNED
datatype AdaptiveClipSignal = QUEUE_DEPTH_EWMA | IN_SYSTEM | RHO_HAT

fun policy_value :: "SchedulerPolicyName \<Rightarrow> string" where
  "policy_value FCFS = ''fcfs''"
| "policy_value STATIC_PRIORITY = ''static_priority''"
| "policy_value SLO_AWARE = ''slo_aware''"

definition policy_of_value :: "string \<Rightarrow> SchedulerPolicyName result" where
  "policy_of_value v =
     (if v = ''fcfs'' then Inr FCFS
      else if v = ''static_priority'' then Inr STATIC_PRIORITY
      else if v = ''slo_aware'' then Inr SLO_AWARE
      else Inl (ValueError ''not a valid SchedulerPolicyName''))"

lemma policy_of_value_value [simp]: "policy_of_value (policy_value p) = Inr p"
  by (cases p) (auto simp: policy_of_value_def)

fun dtype_value :: "TorchDtype \<Rightarrow> string" where
  "dtype_value DTYPE_AUTO = ''auto''"
| "dtype_value BFLOAT16 = ''bfloat16''"
| "dtype_value FLOAT16 = ''float16''"

section \<open>Admission control\<close>

record AdmissionControlConfig =
  clip_enabled :: bool
  clip_max_tokens :: int
  clip_source :: ClipSource
  clip_estimator_path :: "string option"
  adaptive_clip_enabled :: bool
  adaptive_clip_signal :: AdaptiveClipSignal
  adaptive_clip_caps :: "int list"
  adaptive_clip_tighten_thresholds :: "real list"
  adaptive_clip_relax_thresholds :: "real list"
  adaptive_clip_ewma_tau_s :: real
  adaptive_clip_tighten_hold_s :: real
  adaptive_clip_relax_hold_s :: real
  adaptive_clip_capacity_rps :: "real option"

definition default_admission :: AdmissionControlConfig where
  "default_admission =
    \<lparr>clip_enabled = False, clip_max_tokens = 2048, clip_source = CLIP_ADVERTISED,
     clip_estimator_path = None, adaptive_clip_enabled = False,
     adaptive_clip_signal = QUEUE_DEPTH_EWMA, adaptive_clip_caps = [1536, 1024, 512],
     adaptive_clip_tighten_thresholds = [1, 2, 3],
     adaptive_clip_relax_thresholds = [1/4, 3/4, 3/2],
     adaptive_clip_ewma_tau_s = 6, adaptive_clip_tighten_hold_s = 4,
     adaptive_clip_relax_hold_s = 30, adaptive_clip_capacity_rps = None\<rparr>"

fun strictly_decreasing :: "int list \<Rightarrow> bool" where
  "strictly_decreasing (a # b # xs) = (a > b \<and> strictly_decreasing (b # xs))"
| "strictly_decreasing _ = True"

fun strictly_increasing :: "real list \<Rightarrow> bool" where
  "strictly_increasing (a # b # xs) = (a < b \<and> strictly_increasing (b # xs))"
| "strictly_increasing _ = True"

definition admission_field_guards :: "AdmissionControlConfig \<Rightarrow> (bool \<times> py_error) list" where
  "admission_field_guards c =
    [(clip_max_tokens c < 1, ValidationError ''clip_max_tokens''),
     (adaptive_clip_ewma_tau_s c \<le> 0, ValidationError ''adaptive_clip_ewma_tau_s''),
     (adaptive_clip_tighten_hold_s c < 0, ValidationError ''adaptive_clip_tighten_hold_s''),
     (adaptive_clip_relax_hold_s c < 0, ValidationError ''adaptive_clip_relax_hold_s''),
     ((case adaptive_clip_capacity_rps c of None \<Rightarrow> False | Some r \<Rightarrow> r \<le> 0),
        ValidationError ''adaptive_clip_capacity_rps'')]"

definition learned_clip_source_has_estimator ::
    "AdmissionControlConfig \<Rightarrow> (bool \<times> py_error) list" where
  "learned_clip_source_has_estimator c =
    [(clip_enabled c \<and> clip_source c = CLIP_LEARNED \<and> clip_estimator_path c = None,
        ValueError ''learned clip source requires clip_estimator_path'')]"

definition validate_adaptive_clip_contract ::
    "AdmissionControlConfig \<Rightarrow> (bool \<times> py_error) list" where
  "validate_adaptive_clip_contract c =
    (let caps = adaptive_clip_caps c; tighten = adaptive_clip_tighten_thresholds c;
         relax = adaptive_clip_relax_thresholds c in
    [(length caps \<noteq> 3,
        ValueError ''adaptive_clip_caps must contain exactly 3 values for L1-L3''),
     (list_ex (\<lambda>cap. cap \<le> 0) caps,
        ValueError ''adaptive_clip_caps must contain only positive values''),
     (\<not> strictly_decreasing caps, ValueError ''adaptive_clip_caps must be strictly decreasing''),
     (list_ex (\<lambda>cap. cap < 512) caps,
        ValueError ''minimum adaptive clip cap must be at least 512 tokens''),
     (length tighten \<noteq> 3,
        ValueError ''adaptive_clip_tighten_thresholds must contain exactly 3 values for L1-L3''),
     (list_ex (\<lambda>v. v < 0) tighten,
        ValueError ''adaptive_clip_tighten_thresholds must contain finite non-negative values''),
     (\<not> strictly_increasing tighten,
        ValueError ''adaptive_clip_tighten_thresholds must be strictly increasing''),
     (length relax \<noteq> 3,
        ValueError ''adaptive_clip_relax_thresholds must contain exactly 3 values for L1-L3''),
     (list_ex (\<lambda>v. v < 0) relax,
        ValueError ''adaptive_clip_relax_thresholds must contain finite non-negative values''),
     (\<not> strictly_increasing relax,
        ValueError ''adaptive_clip_relax_thresholds must be strictly increasing''),
     (list_ex (\<lambda>(r, t). r \<ge> t) (zip relax tighten),
        ValueError ''each adaptive clip relax threshold must be below its tighten threshold''),
     (adaptive_clip_enabled c \<and> \<not> clip_enabled c,
        ValueError ''adaptive clipping requires clip_enabled=true''),
     (adaptive_clip_enabled c \<and> adaptive_clip_signal c = RHO_HAT \<and>
        adaptive_clip_capacity_rps c = None,
        ValueError ''rho_hat adaptive clipping requires adaptive_clip_capacity_rps'')])"

definition AdmissionControlConfig_init ::
    "AdmissionControlConfig \<Rightarrow> AdmissionControlConfig result" where
  "AdmissionControlConfig_init c =
     checked (admission_field_guards c @ learned_clip_source_has_estimator c @
              validate_adaptive_clip_contract c) c"

definition valid_admission :: "AdmissionControlConfig \<Rightarrow> bool" where
  "valid_admission c \<longleftrightarrow> AdmissionControlConfig_init c = Inr c"

text \<open>
  What validation gives the controller: three caps, positive and at least 512, and three
  strictly increasing tighten thresholds, each above the relax threshold of its level.
\<close>

lemma length_3_iff: "length xs = 3 \<longleftrightarrow> (\<exists>a b c. xs = [a, b, c])"
  by (auto simp: numeral_3_eq_3 length_Suc_conv)

lemma valid_admission_caps:
  assumes "valid_admission c"
  obtains a b d where "adaptive_clip_caps c = [a, b, d]" "a > b" "b > d" "d \<ge> 512"
  using assms
  by (auto simp: valid_admission_def AdmissionControlConfig_init_def raise_simps Let_def
      validate_adaptive_clip_contract_def length_3_iff)

lemma valid_admission_thresholds:
  assumes "valid_admission c"
  obtains t1 t2 t3 r1 r2 r3
  where "adaptive_clip_tighten_thresholds c = [t1, t2, t3]"
    "adaptive_clip_relax_thresholds c = [r1, r2, r3]"
    "0 \<le> t1" "t1 < t2" "t2 < t3" "0 \<le> r1" "r1 < r2" "r2 < r3" "r1 < t1" "r2 < t2" "r3 < t3"
  using assms
  by (auto simp: valid_admission_def AdmissionControlConfig_init_def raise_simps Let_def
      validate_adaptive_clip_contract_def length_3_iff)

lemma valid_admission_fields:
  assumes "valid_admission c"
  shows "1 \<le> clip_max_tokens c" and "0 < adaptive_clip_ewma_tau_s c"
    and "0 \<le> adaptive_clip_tighten_hold_s c" and "0 \<le> adaptive_clip_relax_hold_s c"
  using assms
  by (auto simp: valid_admission_def AdmissionControlConfig_init_def raise_simps
      admission_field_guards_def)

lemma default_admission_valid: "valid_admission default_admission"
  by (simp add: valid_admission_def AdmissionControlConfig_init_def checked_def raise_if.simps
      admission_field_guards_def learned_clip_source_has_estimator_def
      validate_adaptive_clip_contract_def default_admission_def Let_def)

section \<open>SLO-aware scoring\<close>

record SloAwareConfig =
  input_token_seconds :: real
  output_token_seconds :: real
  cost_weight :: real
  slack_weight :: real
  waiting_weight :: real
  aging_threshold_s :: real
  disable_length_estimate :: bool
  aging_levels :: int
  adaptive_ceiling :: bool
  ceiling_margin :: real
  ceiling_floor_s :: real
  ceiling_cap_s :: real
  length_source :: LengthSource
  length_estimator_path :: "string option"

definition slo_aware_guards :: "SloAwareConfig \<Rightarrow> (bool \<times> py_error) list" where
  "slo_aware_guards c =
    [(input_token_seconds c < 0, ValidationError ''input_token_seconds''),
     (output_token_seconds c < 0, ValidationError ''output_token_seconds''),
     (cost_weight c < 0, ValidationError ''cost_weight''),
     (slack_weight c < 0, ValidationError ''slack_weight''),
     (waiting_weight c < 0, ValidationError ''waiting_weight''),
     (aging_threshold_s c \<le> 0, ValidationError ''aging_threshold_s''),
     (aging_levels c < 1, ValidationError ''aging_levels''),
     (ceiling_margin c \<le> 0, ValidationError ''ceiling_margin''),
     (ceiling_floor_s c \<le> 0, ValidationError ''ceiling_floor_s''),
     (ceiling_cap_s c \<le> 0, ValidationError ''ceiling_cap_s''),
     (cost_weight c + slack_weight c + waiting_weight c = 0,
        ValueError ''at least one SLO-aware scoring weight must be positive''),
     (ceiling_floor_s c > ceiling_cap_s c, ValueError ''ceiling floor must not exceed ceiling cap''),
     (length_source c = LENGTH_LEARNED \<and> length_estimator_path c = None,
        ValueError ''learned length source requires length_estimator_path'')]"

definition SloAwareConfig_init :: "SloAwareConfig \<Rightarrow> SloAwareConfig result" where
  "SloAwareConfig_init c = checked (slo_aware_guards c) c"

definition valid_slo_aware :: "SloAwareConfig \<Rightarrow> bool" where
  "valid_slo_aware c \<longleftrightarrow> SloAwareConfig_init c = Inr c"

lemma valid_slo_aware_fields:
  assumes "valid_slo_aware c"
  shows "0 < aging_threshold_s c" and "1 \<le> aging_levels c" and "0 < ceiling_margin c"
    and "0 < ceiling_floor_s c" and "ceiling_floor_s c \<le> ceiling_cap_s c"
    and "0 \<le> cost_weight c" and "0 \<le> slack_weight c" and "0 \<le> waiting_weight c"
    and "0 \<le> input_token_seconds c" and "0 \<le> output_token_seconds c"
    and "length_source c = LENGTH_LEARNED \<Longrightarrow> length_estimator_path c \<noteq> None"
  using assms
  by (auto simp: valid_slo_aware_def SloAwareConfig_init_def raise_simps slo_aware_guards_def)

section \<open>Workload\<close>

record TokenRangeConfig =
  minimum :: int
  maximum :: int

definition TokenRangeConfig_init :: "TokenRangeConfig \<Rightarrow> TokenRangeConfig result" where
  "TokenRangeConfig_init c = checked
    [(minimum c < 1, ValidationError ''minimum''),
     (maximum c < 1, ValidationError ''maximum''),
     (maximum c < minimum c,
        ValueError ''maximum token count must be greater than or equal to minimum'')] c"

record RequestProfileConfig =
  profile_input_tokens :: TokenRangeConfig
  profile_output_tokens :: TokenRangeConfig
  ttft_slo_ms :: real
  end_to_end_slo_ms :: real

definition RequestProfileConfig_init :: "RequestProfileConfig \<Rightarrow> RequestProfileConfig result" where
  "RequestProfileConfig_init c =
    and_then (TokenRangeConfig_init (profile_input_tokens c)) (\<lambda>_.
    and_then (TokenRangeConfig_init (profile_output_tokens c)) (\<lambda>_. checked
    [(ttft_slo_ms c \<le> 0, ValidationError ''ttft_slo_ms''),
     (end_to_end_slo_ms c \<le> 0, ValidationError ''end_to_end_slo_ms'')] c))"

record RealisticLengthConfig =
  kinds :: "string list"
  kind_fractions :: "real list"
  log_mu_by_kind :: "real list"
  log_sigma :: real
  realistic_advertised_cap_tokens :: int
  clamp_min :: int
  clamp_max :: int
  realistic_force_exact :: bool

definition RealisticLengthConfig_init :: "RealisticLengthConfig \<Rightarrow> RealisticLengthConfig result" where
  "RealisticLengthConfig_init c = checked
    [(log_sigma c \<le> 0, ValidationError ''log_sigma''),
     (realistic_advertised_cap_tokens c < 1, ValidationError ''advertised_cap_tokens''),
     (clamp_min c < 1, ValidationError ''clamp_min''),
     (clamp_max c < 1, ValidationError ''clamp_max''),
     (\<not> (length (kind_fractions c) = length (kinds c) \<and>
         length (kinds c) = length (log_mu_by_kind c)),
        ValueError ''kinds, kind_fractions, and log_mu_by_kind must have equal lengths''),
     (list_ex (\<lambda>k. k = []) (kinds c), ValueError ''realistic length kinds must not be empty''),
     (list_ex (\<lambda>f. f < 0) (kind_fractions c),
        ValueError ''realistic length kind fractions must be non-negative''),
     (\<not> \<bar>sum_list (kind_fractions c) - 1\<bar> \<le> 1 / 1000000,
        ValueError ''realistic length kind fractions must sum to 1.0''),
     (clamp_min c > clamp_max c,
        ValueError ''realistic length clamp_min must not exceed clamp_max'')] c"

record WorkloadConfig =
  arrival_process :: ArrivalProcess
  request_rate_rps :: real
  total_requests :: int
  interactive_fraction :: real
  random_seed :: int
  warmup_requests :: int
  repetitions :: int
  interactive_profile :: RequestProfileConfig
  batch_profile :: RequestProfileConfig
  length_model :: LengthModel
  realistic_length :: "RealisticLengthConfig option"

definition WorkloadConfig_init :: "WorkloadConfig \<Rightarrow> WorkloadConfig result" where
  "WorkloadConfig_init c =
    and_then (RequestProfileConfig_init (interactive_profile c)) (\<lambda>_.
    and_then (RequestProfileConfig_init (batch_profile c)) (\<lambda>_.
    and_then (case realistic_length c of None \<Rightarrow> Inr None
              | Some r \<Rightarrow> and_then (RealisticLengthConfig_init r) (\<lambda>r. Inr (Some r))) (\<lambda>_. checked
    [(request_rate_rps c \<le> 0, ValidationError ''request_rate_rps''),
     (total_requests c < 1, ValidationError ''total_requests''),
     (interactive_fraction c < 0 \<or> interactive_fraction c > 1,
        ValidationError ''interactive_fraction''),
     (random_seed c < 0, ValidationError ''random_seed''),
     (warmup_requests c < 0, ValidationError ''warmup_requests''),
     (repetitions c < 1, ValidationError ''repetitions''),
     (length_model c = REALISTIC \<and> realistic_length c = None,
        ValueError ''realistic length model requires realistic_length'')] c)))"

text \<open>
  \<open>_profile_for_class\<close>, which the generator and the metrics both define.
\<close>

definition profile_for_class :: "WorkloadConfig \<Rightarrow> RequestClass \<Rightarrow> RequestProfileConfig" where
  "profile_for_class c k = (if k = INTERACTIVE then interactive_profile c else batch_profile c)"

section \<open>Backend, server, router and metrics\<close>

text \<open>The pattern \<open>^[0-9a-f]{40}$\<close> of a commit hash.\<close>

definition is_revision :: "string \<Rightarrow> bool" where
  "is_revision v \<longleftrightarrow> length v = 40 \<and> list_all (\<lambda>ch. ch \<in> set ''0123456789abcdef'') v"

record BackendConfig =
  base_url :: string
  backend_model :: string
  model_revision :: string
  tokenizer_revision :: string
  request_timeout_s :: real

definition BackendConfig_init :: "BackendConfig \<Rightarrow> BackendConfig result" where
  "BackendConfig_init c = checked
    [(base_url c = [], ValidationError ''base_url''),
     (backend_model c = [], ValidationError ''model''),
     (\<not> is_revision (model_revision c), ValidationError ''model_revision''),
     (\<not> is_revision (tokenizer_revision c), ValidationError ''tokenizer_revision''),
     (request_timeout_s c \<le> 0, ValidationError ''request_timeout_s'')] c"

record ServerConfig =
  server_host :: string
  server_port :: int
  gpu_memory_utilization :: real
  max_model_len :: int
  max_num_seqs :: int
  max_num_batched_tokens :: "int option"
  enable_chunked_prefill :: "bool option"
  enable_prefix_caching :: "bool option"
  server_dtype :: TorchDtype
  enforce_eager :: bool

definition ServerConfig_init :: "ServerConfig \<Rightarrow> ServerConfig result" where
  "ServerConfig_init c = checked
    [(server_host c = [], ValidationError ''host''),
     (server_port c < 1 \<or> server_port c > 65535, ValidationError ''port''),
     (gpu_memory_utilization c \<le> 0 \<or> gpu_memory_utilization c > 1,
        ValidationError ''gpu_memory_utilization''),
     (max_model_len c < 1, ValidationError ''max_model_len''),
     (max_num_seqs c < 1, ValidationError ''max_num_seqs''),
     ((case max_num_batched_tokens c of None \<Rightarrow> False | Some n \<Rightarrow> n < 1),
        ValidationError ''max_num_batched_tokens'')] c"

record RouterConfig =
  router_policy :: SchedulerPolicyName
  listen_host :: string
  listen_port :: int
  max_in_flight :: int
  queue_capacity :: int

definition RouterConfig_init :: "RouterConfig \<Rightarrow> RouterConfig result" where
  "RouterConfig_init c = checked
    [(listen_host c = [], ValidationError ''listen_host''),
     (listen_port c < 1 \<or> listen_port c > 65535, ValidationError ''listen_port''),
     (max_in_flight c < 1, ValidationError ''max_in_flight''),
     (queue_capacity c < 1, ValidationError ''queue_capacity'')] c"

record MetricsConfig =
  output_directory :: string
  gpu_sample_interval_s :: real
  save_jsonl :: bool
  save_csv :: bool

definition MetricsConfig_init :: "MetricsConfig \<Rightarrow> MetricsConfig result" where
  "MetricsConfig_init c = checked
    [(gpu_sample_interval_s c \<le> 0, ValidationError ''gpu_sample_interval_s''),
     (\<not> save_jsonl c \<and> \<not> save_csv c,
        ValueError ''at least one raw result format must be enabled'')] c"

section \<open>The experiment\<close>

record ExperimentConfig =
  exp_backend :: BackendConfig
  exp_server :: ServerConfig
  exp_router :: RouterConfig
  exp_admission :: AdmissionControlConfig
  exp_slo_aware :: SloAwareConfig
  exp_workload :: WorkloadConfig
  exp_metrics :: MetricsConfig

text \<open>
  \<open>urlsplit\<close> stands for the host name and port \<open>urllib.parse.urlsplit\<close> finds in a URL.
\<close>

definition server_matches_backend_url ::
    "(string \<Rightarrow> string option \<times> int option) \<Rightarrow> ExperimentConfig \<Rightarrow> (bool \<times> py_error) list" where
  "server_matches_backend_url urlsplit c =
    (let (host, port) = urlsplit (base_url (exp_backend c)) in
    [(host \<noteq> Some (server_host (exp_server c)) \<or> port \<noteq> Some (server_port (exp_server c)),
        ValueError ''server host/port must match backend.base_url host/port'')])"

definition server_admits_router_concurrency :: "ExperimentConfig \<Rightarrow> (bool \<times> py_error) list" where
  "server_admits_router_concurrency c =
    [(max_num_seqs (exp_server c) < max_in_flight (exp_router c),
        ValueError ''server.max_num_seqs must be >= router.max_in_flight'')]"

definition ExperimentConfig_init ::
    "(string \<Rightarrow> string option \<times> int option) \<Rightarrow> ExperimentConfig \<Rightarrow> ExperimentConfig result" where
  "ExperimentConfig_init urlsplit c =
    and_then (BackendConfig_init (exp_backend c)) (\<lambda>_.
    and_then (ServerConfig_init (exp_server c)) (\<lambda>_.
    and_then (RouterConfig_init (exp_router c)) (\<lambda>_.
    and_then (AdmissionControlConfig_init (exp_admission c)) (\<lambda>_.
    and_then (SloAwareConfig_init (exp_slo_aware c)) (\<lambda>_.
    and_then (WorkloadConfig_init (exp_workload c)) (\<lambda>_.
    and_then (MetricsConfig_init (exp_metrics c)) (\<lambda>_.
    checked (server_matches_backend_url urlsplit c @ server_admits_router_concurrency c) c)))))))"

text \<open>\<open>str(n)\<close> of an integer.\<close>

fun nat_digits :: "nat \<Rightarrow> string" where
  "nat_digits n =
     (if n < 10 then [char_of (48 + n)] else nat_digits (n div 10) @ [char_of (48 + n mod 10)])"

declare nat_digits.simps [simp del]

definition int_str :: "int \<Rightarrow> string" where
  "int_str n = (if n < 0 then CHR ''-'' # nat_digits (nat (- n)) else nat_digits (nat n))"

text \<open>\<open>repr_float\<close> stands for \<open>str\<close> of a float.\<close>

definition vllm_serve_args :: "(real \<Rightarrow> string) \<Rightarrow> ExperimentConfig \<Rightarrow> string list" where
  "vllm_serve_args repr_float c =
    (let server = exp_server c; backend = exp_backend c in
     [''serve'', backend_model backend,
      ''--revision'', model_revision backend,
      ''--tokenizer-revision'', tokenizer_revision backend,
      ''--served-model-name'', backend_model backend,
      ''--host'', server_host server,
      ''--port'', int_str (server_port server),
      ''--gpu-memory-utilization'', repr_float (gpu_memory_utilization server),
      ''--max-model-len'', int_str (max_model_len server),
      ''--max-num-seqs'', int_str (max_num_seqs server),
      ''--dtype'', dtype_value (server_dtype server)]
     @ (if enforce_eager server then [''--enforce-eager''] else [])
     @ (case max_num_batched_tokens server of None \<Rightarrow> []
        | Some n \<Rightarrow> [''--max-num-batched-tokens'', int_str n])
     @ (case enable_chunked_prefill server of None \<Rightarrow> []
        | Some b \<Rightarrow> [if b then ''--enable-chunked-prefill'' else ''--no-enable-chunked-prefill''])
     @ (case enable_prefix_caching server of None \<Rightarrow> []
        | Some b \<Rightarrow> [if b then ''--enable-prefix-caching'' else ''--no-enable-prefix-caching'']))"

text \<open>What a validated experiment guarantees to the components built from it.\<close>

definition valid_experiment ::
    "(string \<Rightarrow> string option \<times> int option) \<Rightarrow> ExperimentConfig \<Rightarrow> bool" where
  "valid_experiment urlsplit c \<longleftrightarrow> ExperimentConfig_init urlsplit c = Inr c"

lemma valid_experiment_parts:
  assumes "valid_experiment urlsplit c"
  shows "valid_admission (exp_admission c)" and "valid_slo_aware (exp_slo_aware c)"
    and "1 \<le> max_in_flight (exp_router c)" and "1 \<le> queue_capacity (exp_router c)"
    and "0 < request_timeout_s (exp_backend c)"
    and "max_in_flight (exp_router c) \<le> max_num_seqs (exp_server c)"
proof -
  have *: "ExperimentConfig_init urlsplit c = Inr c"
    using assms by (simp add: valid_experiment_def)
  obtain a s where a: "AdmissionControlConfig_init (exp_admission c) = Inr a"
      and s: "SloAwareConfig_init (exp_slo_aware c) = Inr s"
    using * by (auto simp: ExperimentConfig_init_def and_then_Inr)
  then show "valid_admission (exp_admission c)" "valid_slo_aware (exp_slo_aware c)"
    by (auto simp: valid_admission_def valid_slo_aware_def AdmissionControlConfig_init_def
        SloAwareConfig_init_def raise_simps)
  show "1 \<le> max_in_flight (exp_router c)" "1 \<le> queue_capacity (exp_router c)"
    "0 < request_timeout_s (exp_backend c)" "max_in_flight (exp_router c) \<le> max_num_seqs (exp_server c)"
    using * by (auto simp: ExperimentConfig_init_def and_then_Inr raise_simps BackendConfig_init_def
        RouterConfig_init_def server_admits_router_concurrency_def)
qed

end
