(* ===== verification/LengthPredictor.thy ===== *)
theory LengthPredictor
  imports Config "HOL-Library.AList" "HOL-Library.Char_ord"
begin

text \<open>
  The output-length predictor (src/sloserve/workload/length_predictor.py). Its state is a
  dictionary from (class value, prompt kind) to a median; a Python \<open>dict\<close> is an association
  list with distinct keys in insertion order, and \<open>d[k] = v\<close> is \<open>AList.update\<close>. The
  artifact is modelled at the level of the decoded JSON value: the text encoding belongs to
  the \<open>json\<close> library.
\<close>

section \<open>JSON values\<close>

datatype json =
    JNull
  | JBool bool
  | JInt int
  | JFloat real
  | JString string
  | JArray "json list"
  | JObject "(string \<times> json) list"

text \<open>\<open>isinstance(v, (int, float))\<close> and the value; \<open>bool\<close> is a subclass of \<open>int\<close>.\<close>

fun json_number :: "json \<Rightarrow> real option" where
  "json_number (JBool b) = Some (if b then 1 else 0)"
| "json_number (JInt i) = Some (of_int i)"
| "json_number (JFloat r) = Some r"
| "json_number _ = None"

text \<open>\<open>d.get(key)\<close> on a decoded object, with \<open>None\<close> for a missing key.\<close>

definition json_get :: "(string \<times> json) list \<Rightarrow> string \<Rightarrow> json" where
  "json_get d k = (case map_of d k of None \<Rightarrow> JNull | Some v \<Rightarrow> v)"

section \<open>The predictor\<close>

type_synonym bucket = "string \<times> string option"

record LengthPredictor =
  bucket_medians :: "(bucket \<times> real) list"
  global_median :: real

record LengthTrainingPair =
  pair_class :: RequestClass
  pair_input_tokens :: int
  pair_prompt_kind :: "string option"
  pair_advertised_cap :: "int option"
  pair_target_tokens :: int

definition LengthPredictor_init :: "(bucket \<times> real) list \<Rightarrow> real \<Rightarrow> LengthPredictor result" where
  "LengthPredictor_init buckets g = checked
    [(buckets = [], ValueError ''length predictor requires at least one bucket''),
     (g \<le> 0, ValueError ''global median must be positive'')]
    \<lparr>bucket_medians = buckets, global_median = g\<rparr>"

text \<open>\<open>buckets[key].append(v)\<close> on a \<open>defaultdict(list)\<close>.\<close>

definition bucket_append :: "bucket \<Rightarrow> int \<Rightarrow> (bucket \<times> int list) list \<Rightarrow> (bucket \<times> int list) list"
where
  "bucket_append k v d =
     AList.update k ((case map_of d k of None \<Rightarrow> [] | Some vs \<Rightarrow> vs) @ [v]) d"

fun collect_buckets ::
  "LengthTrainingPair list \<Rightarrow> (bucket \<times> int list) list \<Rightarrow> int list \<Rightarrow>
   ((bucket \<times> int list) list \<times> int list) result" where
  "collect_buckets [] buckets targets = Inr (buckets, targets)"
| "collect_buckets (p # ps) buckets targets =
     (if pair_target_tokens p < 1
      then Inl (ValueError ''training target_tokens must be positive'')
      else collect_buckets ps
             (bucket_append (class_value (pair_class p), pair_prompt_kind p)
                (pair_target_tokens p) buckets)
             (targets @ [pair_target_tokens p]))"

definition int_median :: "int list \<Rightarrow> real result" where
  "int_median vs = median (map of_int vs)"

definition LengthPredictor_train :: "LengthTrainingPair list \<Rightarrow> LengthPredictor result" where
  "LengthPredictor_train ps =
    (if ps = [] then Inl (ValueError ''length predictor training pairs must not be empty'')
     else and_then (collect_buckets ps [] []) (\<lambda>(buckets, targets).
          and_then (map_result (\<lambda>(k, vs). and_then (int_median vs) (\<lambda>m. Inr (k, m))) buckets)
            (\<lambda>meds. and_then (int_median targets) (LengthPredictor_init meds))))"

definition predict :: "LengthPredictor \<Rightarrow> RequestClass \<Rightarrow> string option \<Rightarrow> real" where
  "predict p c kind =
     (case map_of (bucket_medians p) (class_value c, kind) of
        None \<Rightarrow> global_median p | Some m \<Rightarrow> m)"

text \<open>
  Every predictor the program holds has positive medians: the constructor and \<open>load\<close>
  check the values they are given, and \<open>train\<close> takes medians of positive targets.
\<close>

definition valid_predictor :: "LengthPredictor \<Rightarrow> bool" where
  "valid_predictor p \<longleftrightarrow>
     bucket_medians p \<noteq> [] \<and> 0 < global_median p \<and> distinct (map fst (bucket_medians p)) \<and>
     (\<forall>(k, m) \<in> set (bucket_medians p). 0 < m)"

lemma predict_positive: "valid_predictor p \<Longrightarrow> 0 < predict p c kind"
  by (auto simp: valid_predictor_def predict_def dest!: map_of_SomeD split: option.splits)

section \<open>The artifact\<close>

definition bucket_sort_key :: "bucket \<times> real \<Rightarrow> string list" where
  "bucket_sort_key = (\<lambda>((c, kind), _). [c, case kind of None \<Rightarrow> [] | Some k \<Rightarrow> k])"

definition optional_string :: "string option \<Rightarrow> json" where
  "optional_string s = (case s of None \<Rightarrow> JNull | Some x \<Rightarrow> JString x)"

definition bucket_to_json :: "bucket \<times> real \<Rightarrow> json" where
  "bucket_to_json = (\<lambda>((c, kind), m). JObject
     [(''request_class'', JString c), (''prompt_kind'', optional_string kind),
      (''median_tokens'', JFloat m)])"

definition to_json :: "LengthPredictor \<Rightarrow> json" where
  "to_json p = JObject
     [(''artifact_version'', JInt 1),
      (''global_median_tokens'', JFloat (global_median p)),
      (''bucket_medians'',
         JArray (map bucket_to_json (sort_key bucket_sort_key (bucket_medians p))))]"

fun load_bucket :: "json \<Rightarrow> (bucket \<times> real) result" where
  "load_bucket (JObject b) =
     (case (json_get b ''request_class'', json_get b ''prompt_kind'',
            json_number (json_get b ''median_tokens'')) of
        (JString c, kind, Some m) \<Rightarrow>
          (case kind of
             JNull \<Rightarrow> if m \<le> 0 then Inl (ValueError ''invalid length predictor bucket'')
                      else and_then (class_of_value c) (\<lambda>_. Inr ((c, None), m))
           | JString k \<Rightarrow> if m \<le> 0 then Inl (ValueError ''invalid length predictor bucket'')
                      else and_then (class_of_value c) (\<lambda>_. Inr ((c, Some k), m))
           | _ \<Rightarrow> Inl (ValueError ''invalid length predictor bucket''))
      | _ \<Rightarrow> Inl (ValueError ''invalid length predictor bucket''))"
| "load_bucket _ = Inl (ValueError ''invalid length predictor bucket'')"

fun load_buckets :: "json list \<Rightarrow> (bucket \<times> real) list \<Rightarrow> (bucket \<times> real) list result" where
  "load_buckets [] d = Inr d"
| "load_buckets (b # bs) d =
     and_then (load_bucket b) (\<lambda>(k, m). load_buckets bs (AList.update k m d))"

text \<open>\<open>LengthPredictor.load\<close> from the decoded artifact on.\<close>

fun load_json :: "json \<Rightarrow> LengthPredictor result" where
  "load_json (JObject raw) =
     (if json_number (json_get raw ''artifact_version'') \<noteq> Some 1
      then Inl (ValueError ''unsupported length predictor artifact version'')
      else (case (json_get raw ''bucket_medians'',
                  json_number (json_get raw ''global_median_tokens'')) of
              (JArray bs, Some g) \<Rightarrow>
                and_then (load_buckets bs []) (\<lambda>d. LengthPredictor_init d g)
            | _ \<Rightarrow> Inl (ValueError ''invalid length predictor artifact structure'')))"
| "load_json _ = Inl (ValueError ''unsupported length predictor artifact version'')"

section \<open>Quality\<close>

definition fmean :: "real list \<Rightarrow> real result" where
  "fmean xs = (if xs = [] then Inl (StatisticsError ''fmean requires at least one data point'')
               else Inr (sum_list xs / real (length xs)))"

definition predict_advertised_cap :: "int option \<Rightarrow> real result" where
  "predict_advertised_cap cap =
     (case cap of
        None \<Rightarrow> Inl (ValueError ''advertised-cap baseline requires advertised_cap_tokens'')
      | Some c \<Rightarrow> Inr (of_int c))"

definition mean_absolute_error :: "real list \<Rightarrow> real list \<Rightarrow> real result" where
  "mean_absolute_error actual predicted =
     (if length actual \<noteq> length predicted then Inl (ValueError ''zip() argument lengths differ'')
      else fmean (map (\<lambda>(obs, est). \<bar>obs - est\<bar>) (zip actual predicted)))"

definition centered :: "real \<Rightarrow> real list \<Rightarrow> real list" where
  "centered m xs = map (\<lambda>x. x - m) xs"

definition dot :: "real list \<Rightarrow> real list \<Rightarrow> real" where
  "dot xs ys = sum_list (map (\<lambda>(x, y). x * y) (zip xs ys))"

definition pearson_corr :: "real list \<Rightarrow> real list \<Rightarrow> real result" where
  "pearson_corr actual predicted =
     and_then (fmean actual) (\<lambda>am. and_then (fmean predicted) (\<lambda>pm.
       let ac = centered am actual; pc = centered pm predicted;
           denominator = sqrt (dot ac ac * dot pc pc) in
       if denominator = 0 then Inr 0
       else if length ac \<noteq> length pc then Inl (ValueError ''zip() argument lengths differ'')
       else Inr (dot ac pc / denominator)))"

record PredictorQuality =
  learned_mae :: real
  learned_pearson_corr :: real
  naive_mae :: real
  naive_pearson_corr :: real

definition evaluate_predictor_quality ::
    "LengthPredictor \<Rightarrow> LengthTrainingPair list \<Rightarrow> PredictorQuality result" where
  "evaluate_predictor_quality p pairs =
    (if pairs = [] then Inl (ValueError ''held-out evaluation pairs must not be empty'')
     else let actual = map (\<lambda>q. of_int (pair_target_tokens q)) pairs;
              learned = map (\<lambda>q. predict p (pair_class q) (pair_prompt_kind q)) pairs in
       and_then (map_result (\<lambda>q. predict_advertised_cap (pair_advertised_cap q)) pairs) (\<lambda>naive.
       and_then (mean_absolute_error actual learned) (\<lambda>lm.
       and_then (pearson_corr actual learned) (\<lambda>lp.
       and_then (mean_absolute_error actual naive) (\<lambda>nm.
       and_then (pearson_corr actual naive) (\<lambda>np.
       Inr \<lparr>learned_mae = lm, learned_pearson_corr = lp,
            naive_mae = nm, naive_pearson_corr = np\<rparr>))))))"

end
