(* ===== verification/Policies.thy ===== *)
theory Policies
  imports LengthPredictor
begin

text \<open>
  The scheduling policies (src/sloserve/router/policies/). The class hierarchy is the
  datatype \<open>SchedulingPolicy\<close>: its constructors are the three classes with their state, and
  a method is a function by cases on the class. \<open>order\<close> is the one operation the admission
  queue and the dispatcher call.
\<close>

section \<open>Keys and orders\<close>

datatype SchedulingPolicy =
    FcfsPolicy
  | StaticPriorityPolicy
  | SloAwarePolicy SloAwareConfig "LengthPredictor option"

definition fcfs_priority_key :: "RequestEnvelope \<Rightarrow> key" where
  "fcfs_priority_key r = [arrival_time_s r, of_int (sequence_id r)]"

definition static_priority_key :: "RequestEnvelope \<Rightarrow> key" where
  "static_priority_key r =
     (let class_rank = (if request_class r = INTERACTIVE then 0 else 1) in
      [class_rank, arrival_time_s r, of_int (sequence_id r)])"

definition slo_estimated_output_tokens ::
    "SloAwareConfig \<Rightarrow> LengthPredictor option \<Rightarrow> RequestEnvelope \<Rightarrow> real result" where
  "slo_estimated_output_tokens c lp r =
     and_then
       (case length_source c of
          LENGTH_TRUE \<Rightarrow> Inr (of_int (max_output_tokens r))
        | LENGTH_ADVERTISED \<Rightarrow> Inr (of_int (or_int (advertised_cap_tokens r) (max_output_tokens r)))
        | LENGTH_LEARNED \<Rightarrow>
            (case lp of
               None \<Rightarrow> Inl (RuntimeError ''learned length predictor was not loaded'')
             | Some p \<Rightarrow> Inr (predict p (request_class r) (prompt_kind r))))
       (\<lambda>estimate.
          if clip_applied r then Inr (min estimate (of_int (effective_max_output_tokens r)))
          else Inr estimate)"

definition slo_service_time ::
    "SloAwareConfig \<Rightarrow> LengthPredictor option \<Rightarrow> RequestEnvelope \<Rightarrow> real result" where
  "slo_service_time c lp r =
     (if disable_length_estimate c then Inr 0
      else and_then (slo_estimated_output_tokens c lp r) (\<lambda>est.
        Inr (input_token_seconds c * of_int (input_tokens r) + output_token_seconds c * est)))"

definition slo_score :: "SloAwareConfig \<Rightarrow> RequestEnvelope \<Rightarrow> real \<Rightarrow> real \<Rightarrow> real" where
  "slo_score c r now_s service_time =
     (let budget = (if deadline_time_s r - arrival_time_s r \<le> 0 then 1 / 10 ^ 9
                    else deadline_time_s r - arrival_time_s r);
          slack = deadline_time_s r - now_s - service_time;
          waiting = now_s - arrival_time_s r in
      cost_weight c * (service_time / budget) + slack_weight c * (slack / budget)
        - waiting_weight c * (waiting / budget))"

definition slo_age_tier :: "SloAwareConfig \<Rightarrow> RequestEnvelope \<Rightarrow> real \<Rightarrow> real \<Rightarrow> int" where
  "slo_age_tier c r now_s threshold =
     min \<lfloor>(now_s - arrival_time_s r) / (threshold / of_int (aging_levels c))\<rfloor> (aging_levels c)"

definition slo_key ::
    "SloAwareConfig \<Rightarrow> LengthPredictor option \<Rightarrow> RequestEnvelope \<Rightarrow> real \<Rightarrow> real \<Rightarrow> key result" where
  "slo_key c lp r now_s threshold =
     and_then (slo_service_time c lp r) (\<lambda>service_time.
       if threshold / of_int (aging_levels c) \<le> 0
       then Inl (ValueError ''aging tier step must be positive'')
       else let age_tier = slo_age_tier c r now_s threshold in
         if age_tier = aging_levels c
         then Inr [0, arrival_time_s r, of_int (sequence_id r)]
         else Inr [of_int (aging_levels c - age_tier), slo_score c r now_s service_time,
                   of_int (sequence_id r)])"

fun priority_key :: "SchedulingPolicy \<Rightarrow> RequestEnvelope \<Rightarrow> real \<Rightarrow> key result" where
  "priority_key FcfsPolicy r now_s = Inr (fcfs_priority_key r)"
| "priority_key StaticPriorityPolicy r now_s = Inr (static_priority_key r)"
| "priority_key (SloAwarePolicy c lp) r now_s = slo_key c lp r now_s (aging_threshold_s c)"

definition base_order ::
    "SchedulingPolicy \<Rightarrow> RequestEnvelope list \<Rightarrow> real \<Rightarrow> RequestEnvelope list result" where
  "base_order p rs now_s = sorted_by (\<lambda>r. priority_key p r now_s) rs"

definition effective_threshold :: "SloAwareConfig \<Rightarrow> real list \<Rightarrow> real result" where
  "effective_threshold c waits =
     and_then (median waits) (\<lambda>congestion.
       Inr (min (ceiling_cap_s c) (max (ceiling_floor_s c) (ceiling_margin c * congestion))))"

fun order :: "SchedulingPolicy \<Rightarrow> RequestEnvelope list \<Rightarrow> real \<Rightarrow> RequestEnvelope list result" where
  "order (SloAwarePolicy c lp) rs now_s =
     (if \<not> adaptive_ceiling c then base_order (SloAwarePolicy c lp) rs now_s
      else if rs = [] then Inr []
      else and_then (effective_threshold c (map (\<lambda>r. now_s - arrival_time_s r) rs))
             (\<lambda>threshold. sorted_by (\<lambda>r. slo_key c lp r now_s threshold) rs))"
| "order p rs now_s = base_order p rs now_s"

declare order.simps [simp del]

section \<open>Construction\<close>

text \<open>
  \<open>SloAwarePolicy.__init__\<close> loads the predictor artifact when the length source is learned;
  \<open>load\<close> stands for reading and decoding the file at a path.
\<close>

definition SloAwarePolicy_init ::
    "(string \<Rightarrow> LengthPredictor result) \<Rightarrow> SloAwareConfig \<Rightarrow> SchedulingPolicy result" where
  "SloAwarePolicy_init load c =
     (if length_source c = LENGTH_LEARNED
      then (case length_estimator_path c of
              None \<Rightarrow> Inl (ValueError ''learned length source requires length_estimator_path'')
            | Some path \<Rightarrow> and_then (load path) (\<lambda>p. Inr (SloAwarePolicy c (Some p))))
      else Inr (SloAwarePolicy c None))"

definition build_policy ::
    "(string \<Rightarrow> LengthPredictor result) \<Rightarrow> RouterConfig \<Rightarrow> SloAwareConfig \<Rightarrow> SchedulingPolicy result"
where
  "build_policy load router slo =
     (case router_policy router of
        FCFS \<Rightarrow> Inr FcfsPolicy
      | STATIC_PRIORITY \<Rightarrow> Inr StaticPriorityPolicy
      | SLO_AWARE \<Rightarrow> SloAwarePolicy_init load slo)"

fun valid_policy :: "SchedulingPolicy \<Rightarrow> bool" where
  "valid_policy FcfsPolicy = True"
| "valid_policy StaticPriorityPolicy = True"
| "valid_policy (SloAwarePolicy c lp) =
     (valid_slo_aware c \<and> (length_source c = LENGTH_LEARNED \<longrightarrow> lp \<noteq> None))"

lemma build_policy_valid:
  assumes "valid_slo_aware slo" and "build_policy load router slo = Inr p"
  shows "valid_policy p"
  using assms
  by (auto simp: build_policy_def SloAwarePolicy_init_def and_then_Inr
      split: SchedulerPolicyName.splits if_splits option.splits)

end
