(* ===== verification/PolicyOrder.thy ===== *)
theory PolicyOrder
  imports Policies
begin

text \<open>
  What the queue may rely on from a scheduling policy, as the locale \<open>keyed_policy\<close>, its
  interpretation on \<open>order\<close>, and what distinguishes the three policies: FCFS, class priority,
  and hard aging of the SLO-aware policy.
\<close>

section \<open>The interface\<close>

locale keyed_policy =
  fixes ord :: "'p \<Rightarrow> 'r list \<Rightarrow> real \<Rightarrow> 'r list result"
    and ok :: "'p \<Rightarrow> bool"
    and rank :: "'p \<Rightarrow> 'r list \<Rightarrow> real \<Rightarrow> 'r \<Rightarrow> key"
  assumes ord_spec: "ok p \<Longrightarrow> ord p rs now = Inr (sort_key (rank p rs now) rs)"
begin

lemma ord_total: "ok p \<Longrightarrow> \<exists>ys. ord p rs now = Inr ys"
  by (simp add: ord_spec)

lemma ord_permutes: "ok p \<Longrightarrow> ord p rs now = Inr ys \<Longrightarrow> mset ys = mset rs"
  by (auto simp: ord_spec)

lemma ord_ranked:
  "ok p \<Longrightarrow> ord p rs now = Inr ys \<Longrightarrow> i \<le> j \<Longrightarrow> j < length ys \<Longrightarrow>
   rank p rs now (ys ! i) \<le> rank p rs now (ys ! j)"
  using sorted_nth_mono [of "map (rank p rs now) ys" i j] by (auto simp: ord_spec)

lemma ord_before:
  "ok p \<Longrightarrow> ord p rs now = Inr ys \<Longrightarrow> i < length ys \<Longrightarrow> j < length ys \<Longrightarrow>
   rank p rs now (ys ! i) < rank p rs now (ys ! j) \<Longrightarrow> i < j"
  using sort_key_strict [of ys "rank p rs now" rs i j] by (auto simp: ord_spec)

lemma ord_mem: "ok p \<Longrightarrow> ord p rs now = Inr ys \<Longrightarrow> i < length ys \<Longrightarrow> ys ! i \<in> set rs"
  by (metis nth_mem ord_permutes set_mset_mset)

lemma ord_head:
  assumes "ok p" and "rs \<noteq> []"
  obtains y ys where "ord p rs now = Inr (y # ys)" "y \<in> set rs"
    "\<And>r. r \<in> set rs \<Longrightarrow> rank p rs now y \<le> rank p rs now r"
    "y = hd (filter (\<lambda>x. rank p rs now x = rank p rs now y) rs)"
proof -
  let ?s = "sort_key (rank p rs now) rs"
  have ne: "?s \<noteq> []" using assms(2) by (metis length_0_conv length_sort)
  show thesis
  proof (rule that [of "hd ?s" "tl ?s"])
    show "ord p rs now = Inr (hd ?s # tl ?s)" using ne assms(1) by (simp add: ord_spec)
    show "hd ?s \<in> set rs" using ne by (metis list.set_sel(1) set_sort)
    show "rank p rs now (hd ?s) \<le> rank p rs now r" if "r \<in> set rs" for r
      using that by (rule sort_key_hd_min)
    show "hd ?s = hd (filter (\<lambda>x. rank p rs now x = rank p rs now (hd ?s)) rs)"
      using assms(2) by (rule sort_key_hd_first)
  qed
qed

end

section \<open>The policies have total keys\<close>

text \<open>
  For a validated policy no key raises. \<open>the_estimate\<close>, \<open>the_threshold\<close> and \<open>the_key\<close> are the
  values the fallible functions return then, and \<open>policy_rank\<close> the key \<open>order\<close> sorts by.
\<close>

definition right :: "'a result \<Rightarrow> 'a" where
  "right r = (case r of Inr x \<Rightarrow> x)"

lemma right_Inr [simp]: "right (Inr x) = x"
  by (simp add: right_def)

definition policy_threshold :: "SloAwareConfig \<Rightarrow> RequestEnvelope list \<Rightarrow> real \<Rightarrow> real" where
  "policy_threshold c rs now_s =
     (if adaptive_ceiling c \<and> rs \<noteq> []
      then right (effective_threshold c (map (\<lambda>r. now_s - arrival_time_s r) rs))
      else aging_threshold_s c)"

fun policy_rank :: "SchedulingPolicy \<Rightarrow> RequestEnvelope list \<Rightarrow> real \<Rightarrow> RequestEnvelope \<Rightarrow> key" where
  "policy_rank (SloAwarePolicy c lp) rs now_s r =
     right (slo_key c lp r now_s (policy_threshold c rs now_s))"
| "policy_rank p rs now_s r = right (priority_key p r now_s)"

lemma median_total: "xs \<noteq> [] \<Longrightarrow> \<exists>m. median xs = Inr m"
  by (cases "median xs") (auto simp: median_def Let_def split: if_splits)

lemma effective_threshold_total:
  "waits \<noteq> [] \<Longrightarrow> \<exists>t. effective_threshold c waits = Inr t"
  using median_total [of waits] by (auto simp: effective_threshold_def)

lemma effective_threshold_clamped:
  assumes "valid_slo_aware c" and "effective_threshold c waits = Inr t"
  shows "ceiling_floor_s c \<le> t" and "t \<le> ceiling_cap_s c"
  using assms valid_slo_aware_fields(5) [of c]
  by (auto simp: effective_threshold_def and_then_Inr)

lemma policy_threshold_pos:
  assumes "valid_slo_aware c"
  shows "0 < policy_threshold c rs now_s"
proof (cases "adaptive_ceiling c \<and> rs \<noteq> []")
  case True
  then obtain t where t: "effective_threshold c (map (\<lambda>r. now_s - arrival_time_s r) rs) = Inr t"
    using effective_threshold_total by (metis map_is_Nil_conv)
  show ?thesis
    using effective_threshold_clamped(1) [OF assms t] valid_slo_aware_fields(4) [OF assms] t True
    by (simp add: policy_threshold_def)
next
  case False
  then show ?thesis
    using valid_slo_aware_fields(1) [OF assms] by (auto simp: policy_threshold_def)
qed

lemma slo_service_time_total:
  assumes "valid_policy (SloAwarePolicy c lp)"
  shows "\<exists>t. slo_service_time c lp r = Inr t"
  using assms
  by (auto simp: slo_service_time_def slo_estimated_output_tokens_def split: LengthSource.splits)

lemma slo_key_total:
  assumes "valid_policy (SloAwarePolicy c lp)" and "0 < threshold"
  shows "slo_key c lp r now_s threshold = Inr (right (slo_key c lp r now_s threshold))"
proof -
  obtain t where "slo_service_time c lp r = Inr t"
    using slo_service_time_total [OF assms(1)] by blast
  moreover have "0 < threshold / of_int (aging_levels c)"
    using assms valid_slo_aware_fields(2) [of c] by simp
  ultimately show ?thesis by (simp add: slo_key_def Let_def)
qed

lemma order_spec:
  assumes "valid_policy p"
  shows "order p rs now_s = Inr (sort_key (policy_rank p rs now_s) rs)"
proof (cases p)
  case (SloAwarePolicy c lp)
  then have c: "valid_slo_aware c" using assms by simp
  note key = slo_key_total [OF assms [unfolded SloAwarePolicy] policy_threshold_pos [OF c]]
  show ?thesis
  proof (cases "adaptive_ceiling c \<and> rs \<noteq> []")
    case True
    then obtain t where t: "effective_threshold c (map (\<lambda>r. now_s - arrival_time_s r) rs) = Inr t"
      using effective_threshold_total by (metis map_is_Nil_conv)
    with True have thr: "policy_threshold c rs now_s = t" by (simp add: policy_threshold_def)
    have "slo_key c lp r now_s t = Inr (right (slo_key c lp r now_s t))" for r
      using key [of r now_s rs now_s] unfolding thr .
    with thr have "sorted_by (\<lambda>r. slo_key c lp r now_s t) rs
        = Inr (sort_key (policy_rank p rs now_s) rs)"
      by (intro sorted_by_total) (metis SloAwarePolicy policy_rank.simps(1))
    with True t show ?thesis by (simp add: SloAwarePolicy order.simps)
  next
    case False
    have fixed: "policy_threshold c rs now_s = aging_threshold_s c"
      using False by (auto simp: policy_threshold_def)
    have "priority_key p r now_s = Inr (policy_rank p rs now_s r)" for r
      using key [of r now_s rs now_s] unfolding SloAwarePolicy fixed by (simp add: fixed)
    then have "base_order p rs now_s = Inr (sort_key (policy_rank p rs now_s) rs)"
      unfolding base_order_def by (intro sorted_by_total)
    with False show ?thesis by (auto simp: SloAwarePolicy order.simps)
  qed
qed (auto simp: base_order_def order.simps intro!: sorted_by_total)

lemma policy_rank_fcfs: "policy_rank FcfsPolicy rs now_s = fcfs_priority_key"
  by (simp add: fun_eq_iff)

lemma policy_rank_static: "policy_rank StaticPriorityPolicy rs now_s = static_priority_key"
  by (simp add: fun_eq_iff)

interpretation pol: keyed_policy order valid_policy policy_rank
  by unfold_locales (rule order_spec)

section \<open>Keys of the SLO-aware policy\<close>

definition aged :: "SloAwareConfig \<Rightarrow> real \<Rightarrow> real \<Rightarrow> RequestEnvelope \<Rightarrow> bool" where
  "aged c threshold now_s r \<longleftrightarrow> threshold \<le> now_s - arrival_time_s r"

lemma age_tier_top:
  assumes "1 \<le> aging_levels c" and "0 < threshold"
  shows "slo_age_tier c r now_s threshold = aging_levels c \<longleftrightarrow> aged c threshold now_s r"
proof -
  let ?w = "now_s - arrival_time_s r" and ?L = "aging_levels c"
  have "slo_age_tier c r now_s threshold = ?L \<longleftrightarrow> ?L \<le> \<lfloor>?w / (threshold / of_int ?L)\<rfloor>"
    by (auto simp: slo_age_tier_def)
  also have "\<dots> \<longleftrightarrow> of_int ?L \<le> ?w / (threshold / of_int ?L)"
    by (simp add: le_floor_iff)
  also have "\<dots> \<longleftrightarrow> of_int ?L * (threshold / of_int ?L) \<le> ?w"
    using assms by (intro pos_le_divide_eq) simp
  also have "of_int ?L * (threshold / of_int ?L) = threshold"
    using assms(1) by simp
  finally show ?thesis by (simp add: aged_def)
qed

lemma slo_key_aged:
  assumes "valid_policy (SloAwarePolicy c lp)" and "0 < threshold" and "aged c threshold now_s r"
  shows "slo_key c lp r now_s threshold = Inr [0, arrival_time_s r, of_int (sequence_id r)]"
proof -
  have L: "1 \<le> aging_levels c" using assms(1) valid_slo_aware_fields(2) by simp
  obtain t where "slo_service_time c lp r = Inr t"
    using slo_service_time_total [OF assms(1)] by blast
  with L assms(2,3) age_tier_top [OF L assms(2)] show ?thesis
    by (simp add: slo_key_def Let_def divide_le_0_iff)
qed

lemma slo_key_fresh:
  assumes "valid_policy (SloAwarePolicy c lp)" and "0 < threshold" and "\<not> aged c threshold now_s r"
  obtains k where "slo_key c lp r now_s threshold = Inr (of_int (aging_levels c
      - slo_age_tier c r now_s threshold) # k)"
    and "0 < aging_levels c - slo_age_tier c r now_s threshold"
proof -
  have L: "1 \<le> aging_levels c" using assms(1) valid_slo_aware_fields(2) by simp
  obtain t where t: "slo_service_time c lp r = Inr t"
    using slo_service_time_total [OF assms(1)] by blast
  have "slo_age_tier c r now_s threshold \<noteq> aging_levels c"
    using age_tier_top [OF L assms(2)] assms(3) by simp
  moreover have "slo_age_tier c r now_s threshold \<le> aging_levels c"
    by (simp add: slo_age_tier_def)
  ultimately show thesis
    using t L assms(2) that
    by (auto simp: slo_key_def Let_def divide_le_0_iff)
qed

text \<open>Among requests with the same threshold, an aged one ranks before a fresh one.\<close>

lemma rank_aged_fresh:
  assumes "valid_policy (SloAwarePolicy c lp)" and "0 < threshold"
    and "aged c threshold now_s a" and "\<not> aged c threshold now_s b"
  shows "right (slo_key c lp a now_s threshold) < right (slo_key c lp b now_s threshold)"
  using slo_key_fresh [OF assms(1,2,4)] slo_key_aged [OF assms(1-3)]
  by (metis Cons_less_Cons of_int_0_less_iff right_Inr)

lemma rank_aged_aged:
  assumes "valid_policy (SloAwarePolicy c lp)" and "0 < threshold"
    and "aged c threshold now_s a" and "aged c threshold now_s b"
    and "arrival_time_s a < arrival_time_s b \<or>
      arrival_time_s a = arrival_time_s b \<and> sequence_id a < sequence_id b"
  shows "right (slo_key c lp a now_s threshold) < right (slo_key c lp b now_s threshold)"
  using assms(5) slo_key_aged [OF assms(1-3)] slo_key_aged [OF assms(1,2,4)] by auto

end
