(* ===== verification/Clipping.thy ===== *)
theory Clipping
  imports LengthPredictor
begin

text \<open>
  The output clipper (src/sloserve/router/clipping.py): \<open>apply\<close> is the fixed cap used before
  the queue, \<open>apply_adaptive_cap\<close> the cap chosen at dispatch. Both go through
  \<open>dataclasses.replace\<close>, so both may raise what the envelope constructor raises.
\<close>

record OutputClipper =
  clip_config :: AdmissionControlConfig
  clip_predictor :: "LengthPredictor option"

definition OutputClipper_init ::
    "(string \<Rightarrow> LengthPredictor result) \<Rightarrow> AdmissionControlConfig \<Rightarrow> OutputClipper result" where
  "OutputClipper_init load c =
     (if clip_enabled c \<and> clip_source c = CLIP_LEARNED
      then (case clip_estimator_path c of
              None \<Rightarrow> Inl (ValueError ''learned clip source requires clip_estimator_path'')
            | Some path \<Rightarrow> and_then (load path) (\<lambda>p.
                Inr \<lparr>clip_config = c, clip_predictor = Some p\<rparr>))
      else Inr \<lparr>clip_config = c, clip_predictor = None\<rparr>)"

definition clip_estimated_output_tokens :: "OutputClipper \<Rightarrow> RequestEnvelope \<Rightarrow> real result" where
  "clip_estimated_output_tokens k r =
     (case clip_source (clip_config k) of
        CLIP_ADVERTISED \<Rightarrow> Inr (of_int (or_int (advertised_cap_tokens r) (max_output_tokens r)))
      | CLIP_LEARNED \<Rightarrow>
          (case clip_predictor k of
             None \<Rightarrow> Inl (RuntimeError ''learned clip predictor was not loaded'')
           | Some p \<Rightarrow> Inr (predict p (request_class r) (prompt_kind r))))"

definition clip_apply :: "OutputClipper \<Rightarrow> RequestEnvelope \<Rightarrow> RequestEnvelope result" where
  "clip_apply k r =
     (if \<not> clip_enabled (clip_config k) then Inr r
      else let cap = clip_max_tokens (clip_config k) in
        and_then (clip_estimated_output_tokens k r) (\<lambda>est.
          if est \<le> of_int cap \<or> max_output_tokens r \<le> cap then Inr r
          else replace_backend_cap r cap))"

definition apply_adaptive_cap ::
    "OutputClipper \<Rightarrow> RequestEnvelope \<Rightarrow> int option \<Rightarrow> RequestEnvelope result" where
  "apply_adaptive_cap k r cap_tokens =
     (if \<not> adaptive_clip_enabled (clip_config k)
      then Inl (ValueError ''adaptive cap application requires adaptive_clip_enabled=true'')
      else case cap_tokens of
        None \<Rightarrow> Inr r
      | Some cap \<Rightarrow>
          if cap < 1 then Inl (ValueError ''adaptive cap must be positive'')
          else and_then (clip_estimated_output_tokens k r) (\<lambda>est.
            if est \<le> of_int cap \<or> max_output_tokens r \<le> cap then Inr r
            else replace_backend_cap r cap))"

text \<open>A clipper the program builds from a validated configuration.\<close>

definition valid_clipper :: "OutputClipper \<Rightarrow> bool" where
  "valid_clipper k \<longleftrightarrow> valid_admission (clip_config k) \<and>
     (clip_enabled (clip_config k) \<and> clip_source (clip_config k) = CLIP_LEARNED \<longrightarrow>
        clip_predictor k \<noteq> None)"

lemma OutputClipper_init_valid:
  assumes "valid_admission c" and "OutputClipper_init load c = Inr k"
  shows "valid_clipper k" and "clip_config k = c"
  using assms
  by (auto simp: OutputClipper_init_def valid_clipper_def and_then_Inr
      split: if_splits option.splits)

lemma clip_estimate_total:
  assumes "valid_clipper k" and "clip_enabled (clip_config k)"
  shows "\<exists>est. clip_estimated_output_tokens k r = Inr est"
  using assms
  by (auto simp: valid_clipper_def clip_estimated_output_tokens_def split: ClipSource.splits)

lemma valid_adaptive_needs_clip:
  "valid_admission c \<Longrightarrow> adaptive_clip_enabled c \<Longrightarrow> clip_enabled c"
  by (auto simp: valid_admission_def AdmissionControlConfig_init_def raise_simps Let_def
      validate_adaptive_clip_contract_def)

text \<open>
  The outcome of either operation, in one place: the request unchanged, or the request with
  the cap as its backend limit, which then is smaller than its target.
\<close>

definition clip_outcome :: "RequestEnvelope \<Rightarrow> int \<Rightarrow> RequestEnvelope \<Rightarrow> bool" where
  "clip_outcome r cap r' \<longleftrightarrow>
     r' = r \<or> r' = r\<lparr>backend_max_output_tokens := Some cap\<rparr> \<and> cap < max_output_tokens r"

lemma clip_outcome_valid:
  "valid_envelope r \<Longrightarrow> 1 \<le> cap \<Longrightarrow> clip_outcome r cap r' \<Longrightarrow> valid_envelope r'"
  by (auto simp: clip_outcome_def valid_envelope_def)

lemma clip_apply_outcome:
  assumes "valid_clipper k" and "valid_envelope r"
  shows "\<exists>r'. clip_apply k r = Inr r' \<and> clip_outcome r (clip_max_tokens (clip_config k)) r'"
proof (cases "clip_enabled (clip_config k)")
  case True
  let ?cap = "clip_max_tokens (clip_config k)"
  obtain est where est: "clip_estimated_output_tokens k r = Inr est"
    using clip_estimate_total [OF assms(1) True] by blast
  have cap: "1 \<le> ?cap"
    using assms(1) valid_admission_fields(1) by (auto simp: valid_clipper_def)
  show ?thesis
    using True est replace_backend_cap_valid(1) [OF assms(2) cap]
    by (auto simp: clip_apply_def clip_outcome_def Let_def)
qed (simp add: clip_apply_def clip_outcome_def)

lemma apply_adaptive_cap_outcome:
  assumes "valid_clipper k" and "adaptive_clip_enabled (clip_config k)" and "valid_envelope r"
    and "\<And>cap. cap_tokens = Some cap \<Longrightarrow> 1 \<le> cap"
  shows "\<exists>r'. apply_adaptive_cap k r cap_tokens = Inr r' \<and>
    (case cap_tokens of None \<Rightarrow> r' = r | Some cap \<Rightarrow> clip_outcome r cap r')"
proof (cases cap_tokens)
  case (Some cap)
  have "clip_enabled (clip_config k)"
    using assms(1,2) valid_adaptive_needs_clip by (auto simp: valid_clipper_def)
  then obtain est where "clip_estimated_output_tokens k r = Inr est"
    using clip_estimate_total [OF assms(1)] by blast
  with assms(2,4) Some replace_backend_cap_valid(1) [OF assms(3), of cap] show ?thesis
    by (auto simp: apply_adaptive_cap_def clip_outcome_def)
qed (simp add: apply_adaptive_cap_def assms(2))

text \<open>
  The fixed clip is sound: on a valid request that carries no cap yet, \<open>apply\<close> never
  raises, changes nothing but the backend limit and keeps the request valid. The backend is
  then asked for the cap exactly when clipping is enabled and both the visible estimate and
  the real target exceed it; otherwise for the whole target.
\<close>

theorem clip_apply_sound:
  assumes "valid_clipper k" and "valid_envelope r" and "backend_max_output_tokens r = None"
  shows "\<exists>r'. clip_apply k r = Inr r' \<and> valid_envelope r' \<and>
    r'\<lparr>backend_max_output_tokens := None\<rparr> = r \<and>
    effective_max_output_tokens r' =
      (if clip_enabled (clip_config k) \<and>
          (\<exists>est. clip_estimated_output_tokens k r = Inr est \<and>
             of_int (clip_max_tokens (clip_config k)) < est) \<and>
          clip_max_tokens (clip_config k) < max_output_tokens r
       then clip_max_tokens (clip_config k) else max_output_tokens r)"
proof (cases "clip_enabled (clip_config k)")
  case True
  let ?cap = "clip_max_tokens (clip_config k)"
  obtain est where est: "clip_estimated_output_tokens k r = Inr est"
    using clip_estimate_total [OF assms(1) True] by blast
  have cap: "1 \<le> ?cap"
    using assms(1) valid_admission_fields(1) by (auto simp: valid_clipper_def)
  have none: "r\<lparr>backend_max_output_tokens := None\<rparr> = r" using assms(3) by simp
  show ?thesis
    using True est none assms(2,3) cap replace_backend_cap_valid [OF assms(2) cap]
    by (auto simp: clip_apply_def Let_def effective_max_output_tokens_def)
qed (use assms in \<open>auto simp: clip_apply_def effective_max_output_tokens_def\<close>)

definition sample_envelope :: RequestEnvelope where
  "sample_envelope =
    \<lparr>request_id = ''r'', sequence_id = 0, request_class = BATCH, arrival_time_s = 0,
     input_tokens = 1, max_output_tokens = 1500, deadline_time_s = 9,
     advertised_cap_tokens = Some 2048, prompt_kind = None, backend_max_output_tokens = None,
     force_exact_output_tokens = False\<rparr>"

definition sample_clip_config :: AdmissionControlConfig where
  "sample_clip_config = default_admission\<lparr>clip_enabled := True, clip_max_tokens := 512,
     adaptive_clip_enabled := True\<rparr>"

lemma sample_clip_config_valid: "valid_admission sample_clip_config"
  by (simp add: valid_admission_def AdmissionControlConfig_init_def checked_def raise_if.simps
      admission_field_guards_def learned_clip_source_has_estimator_def sample_clip_config_def
      validate_adaptive_clip_contract_def default_admission_def Let_def)

theorem clip_apply_sound_witness:
  "\<exists>r'. clip_apply \<lparr>clip_config = sample_clip_config, clip_predictor = None\<rparr> sample_envelope = Inr r'
     \<and> effective_max_output_tokens r' = 512"
proof -
  let ?k = "\<lparr>clip_config = sample_clip_config, clip_predictor = None\<rparr>"
  have "valid_clipper ?k"
    using sample_clip_config_valid
    by (simp add: valid_clipper_def sample_clip_config_def default_admission_def)
  moreover have "valid_envelope sample_envelope"
    by (simp add: valid_envelope_def sample_envelope_def)
  ultimately show ?thesis
    using clip_apply_sound [of ?k sample_envelope]
    by (auto simp: sample_envelope_def sample_clip_config_def default_admission_def
        clip_estimated_output_tokens_def)
qed

text \<open>
  The dispatch-time cap is sound: with adaptive clipping enabled and a positive cap,
  \<open>apply_adaptive_cap\<close> never raises on a valid request, the result is valid, keeps the original
  target, asks the backend for at least one token and never for more than the request did, and
  for no more than the cap if both its visible estimate and its target exceed the cap.
\<close>

theorem apply_adaptive_cap_sound:
  assumes "valid_clipper k" and "adaptive_clip_enabled (clip_config k)" and "valid_envelope r"
    and "1 \<le> cap"
  shows "\<exists>r'. apply_adaptive_cap k r (Some cap) = Inr r' \<and> valid_envelope r' \<and>
    max_output_tokens r' = max_output_tokens r \<and>
    1 \<le> effective_max_output_tokens r' \<and>
    effective_max_output_tokens r' \<le> max (effective_max_output_tokens r) cap \<and>
    ((\<exists>est. clip_estimated_output_tokens k r = Inr est \<and> of_int cap < est) \<and>
       cap < max_output_tokens r \<longrightarrow> effective_max_output_tokens r' = cap) \<and>
    (max_output_tokens r \<le> cap \<longrightarrow> r' = r)"
proof -
  obtain r' where r': "apply_adaptive_cap k r (Some cap) = Inr r'" and out: "clip_outcome r cap r'"
    using apply_adaptive_cap_outcome [OF assms(1-3), of "Some cap"] assms(4) by auto
  have v: "valid_envelope r'" using clip_outcome_valid [OF assms(3,4) out] .
  have "effective_max_output_tokens r' \<le> max (effective_max_output_tokens r) cap"
    and "max_output_tokens r' = max_output_tokens r" and "max_output_tokens r \<le> cap \<longrightarrow> r' = r"
    using out assms(4) by (auto simp: clip_outcome_def effective_max_output_tokens_def)
  moreover have "effective_max_output_tokens r' = cap"
    if "clip_estimated_output_tokens k r = Inr est" "of_int cap < est" "cap < max_output_tokens r"
    for est
    using r' that assms replace_backend_cap_valid(1) [OF assms(3,4)]
    by (auto simp: apply_adaptive_cap_def effective_max_output_tokens_def)
  ultimately show ?thesis using r' v effective_bounds(1) [OF v] by blast
qed

theorem apply_adaptive_cap_sound_witness:
  "\<exists>r'. apply_adaptive_cap \<lparr>clip_config = sample_clip_config, clip_predictor = None\<rparr>
       sample_envelope (Some 1024) = Inr r' \<and> effective_max_output_tokens r' = 1024"
proof -
  let ?k = "\<lparr>clip_config = sample_clip_config, clip_predictor = None\<rparr>"
  have "valid_clipper ?k" "adaptive_clip_enabled (clip_config ?k)"
    using sample_clip_config_valid
    by (simp_all add: valid_clipper_def sample_clip_config_def default_admission_def)
  moreover have "valid_envelope sample_envelope"
    by (simp add: valid_envelope_def sample_envelope_def)
  ultimately show ?thesis
    using apply_adaptive_cap_sound [of ?k sample_envelope 1024]
    by (auto simp: sample_envelope_def sample_clip_config_def default_admission_def
        clip_estimated_output_tokens_def)
qed

end
