(* ===== verification/AdaptiveClipping.thy ===== *)
theory AdaptiveClipping
  imports Config
begin

text \<open>
  The adaptive cap controller (src/sloserve/router/adaptive_clipping.py). Its mutable
  attributes are the record \<open>AdaptiveClipController\<close>; its configuration stays in the
  \<open>AdmissionControlConfig\<close> it was built from. \<open>update\<close> takes the clock reading of its one
  \<open>self._clock()\<close> call as an argument and returns the state the call leaves behind together
  with the decision or the exception, since an exception does not undo what was assigned.

  The exponential weight is real arithmetic (\<open>exp\<close>); time and depth are exact.
\<close>

section \<open>Levels\<close>

datatype AdaptiveClipLevel = L0 | L1 | L2 | L3

fun level_int :: "AdaptiveClipLevel \<Rightarrow> nat" where
  "level_int L0 = 0"
| "level_int L1 = 1"
| "level_int L2 = 2"
| "level_int L3 = 3"

text \<open>An \<open>IntEnum\<close> compares by value.\<close>

instantiation AdaptiveClipLevel :: linorder
begin
definition less_eq_AdaptiveClipLevel :: "AdaptiveClipLevel \<Rightarrow> AdaptiveClipLevel \<Rightarrow> bool" where
  "less_eq_AdaptiveClipLevel a b \<longleftrightarrow> level_int a \<le> level_int b"
definition less_AdaptiveClipLevel :: "AdaptiveClipLevel \<Rightarrow> AdaptiveClipLevel \<Rightarrow> bool" where
  "less_AdaptiveClipLevel a b \<longleftrightarrow> level_int a < level_int b"
instance
proof
  fix x y z :: AdaptiveClipLevel
  show "x \<le> y \<Longrightarrow> y \<le> x \<Longrightarrow> x = y"
    by (cases x; cases y) (auto simp: less_eq_AdaptiveClipLevel_def)
qed (auto simp: less_eq_AdaptiveClipLevel_def less_AdaptiveClipLevel_def)
end

text \<open>\<open>AdaptiveClipLevel(v)\<close>: the level with this value, or a \<open>ValueError\<close>.\<close>

definition level_of :: "nat \<Rightarrow> AdaptiveClipLevel result" where
  "level_of n =
     (if n = 0 then Inr L0 else if n = 1 then Inr L1 else if n = 2 then Inr L2
      else if n = 3 then Inr L3 else Inl (ValueError ''not a valid AdaptiveClipLevel''))"

lemma level_of_int [simp]: "level_of (level_int l) = Inr l"
  by (cases l) (auto simp: level_of_def)

lemma level_of_Inr: "level_of n = Inr l \<longleftrightarrow> level_int l = n"
  by (cases l) (auto simp: level_of_def)

lemma level_int_le_3 [simp]: "level_int l \<le> 3"
  by (cases l) auto

lemma level_int_inject [simp]: "level_int a = level_int b \<longleftrightarrow> a = b"
  by (cases a; cases b) auto

lemma level_int_0 [simp]: "level_int l = 0 \<longleftrightarrow> l = L0" "0 < level_int l \<longleftrightarrow> l \<noteq> L0"
  by (cases l; simp)+

datatype AdaptiveClipTrigger =
    NO_CHANGE
  | TIGHTEN_HOLD_STARTED
  | TIGHTEN_HOLD_PENDING
  | TIGHTEN_HOLD_RESET
  | TIGHTEN_HOLD_ELAPSED
  | RELAX_HOLD_STARTED
  | RELAX_HOLD_PENDING
  | RELAX_HOLD_RESET
  | RELAX_HOLD_ELAPSED

record AdaptiveClipDecision =
  decision_time_s :: real
  decision_q_inst :: int
  decision_q_bar :: real
  old_level :: AdaptiveClipLevel
  new_level :: AdaptiveClipLevel
  decision_selected_cap :: "int option"
  trigger_reason :: AdaptiveClipTrigger

section \<open>State\<close>

record AdaptiveClipController =
  level :: AdaptiveClipLevel
  q_inst :: int
  q_bar :: real
  last_update_s :: "real option"
  tighten_since_s :: "real option list"
  relax_since_s :: "real option"

definition controller_start :: "AdmissionControlConfig \<Rightarrow> AdaptiveClipController" where
  "controller_start c =
    \<lparr>level = L0, q_inst = 0, q_bar = 0, last_update_s = None,
     tighten_since_s = replicate (length (adaptive_clip_tighten_thresholds c)) None,
     relax_since_s = None\<rparr>"

definition AdaptiveClipController_init ::
    "AdmissionControlConfig \<Rightarrow> AdaptiveClipController result" where
  "AdaptiveClipController_init c = checked
    [(\<not> adaptive_clip_enabled c,
        ValueError ''adaptive clip controller requires adaptive_clip_enabled=true''),
     (adaptive_clip_signal c \<noteq> QUEUE_DEPTH_EWMA,
        ValueError ''queue-depth controller requires adaptive_clip_signal=queue_depth_ewma'')]
    (controller_start c)"

definition build_adaptive_clip_controller ::
    "AdmissionControlConfig \<Rightarrow> AdaptiveClipController option result" where
  "build_adaptive_clip_controller c =
     (if \<not> adaptive_clip_enabled c then Inr None
      else and_then (AdaptiveClipController_init c) (\<lambda>s. Inr (Some s)))"

definition pressure :: "AdaptiveClipController \<Rightarrow> real" where
  "pressure s = max (of_int (q_inst s)) (q_bar s)"

definition selected_cap ::
    "AdmissionControlConfig \<Rightarrow> AdaptiveClipController \<Rightarrow> int option" where
  "selected_cap c s =
     (if level s = L0 then None else Some (adaptive_clip_caps c ! (level_int (level s) - 1)))"

section \<open>Steps\<close>

text \<open>\<open>bisect_right(xs, p)\<close> on a sorted list: how many entries are at most \<open>p\<close>.\<close>

fun bisect_right :: "real list \<Rightarrow> real \<Rightarrow> nat" where
  "bisect_right [] p = 0"
| "bisect_right (x # xs) p = (if p < x then 0 else Suc (bisect_right xs p))"

text \<open>
  The loop over the tighten thresholds: the flags and the list of levels whose hold has
  elapsed, and the list of start times as it is rewritten, entry by entry.
\<close>

record tighten_scan =
  since :: "real option list"
  tighten_started :: bool
  tighten_pending :: bool
  tighten_reset :: bool
  elapsed_levels :: "nat list"

definition scan_entry ::
    "real \<Rightarrow> real \<Rightarrow> real \<Rightarrow> nat \<Rightarrow> nat \<Rightarrow> real \<Rightarrow> tighten_scan \<Rightarrow> tighten_scan" where
  "scan_entry hold now_s p lvl level_value threshold sc =
     (if level_value \<le> lvl
      then sc\<lparr>since := (since sc)[level_value - 1 := None]\<rparr>
      else (let tighten_since = since sc ! (level_value - 1) in
        if threshold \<le> p
        then (let started = (tighten_since = None);
                  t0 = (case tighten_since of None \<Rightarrow> now_s | Some t \<Rightarrow> t);
                  sc' = (if started
                         then sc\<lparr>since := (since sc)[level_value - 1 := Some now_s],
                                 tighten_started := True\<rparr>
                         else sc\<lparr>tighten_pending := True\<rparr>) in
              if hold \<le> now_s - t0
              then sc'\<lparr>elapsed_levels := elapsed_levels sc' @ [level_value]\<rparr>
              else sc')
        else if tighten_since \<noteq> None
        then sc\<lparr>since := (since sc)[level_value - 1 := None], tighten_reset := True\<rparr>
        else sc))"

fun scan_loop ::
    "real \<Rightarrow> real \<Rightarrow> real \<Rightarrow> nat \<Rightarrow> nat \<Rightarrow> real list \<Rightarrow> tighten_scan \<Rightarrow> tighten_scan" where
  "scan_loop hold now_s p lvl level_value [] sc = sc"
| "scan_loop hold now_s p lvl level_value (threshold # ts) sc =
     scan_loop hold now_s p lvl (Suc level_value) ts
       (scan_entry hold now_s p lvl level_value threshold sc)"

definition run_scan :: "AdmissionControlConfig \<Rightarrow> AdaptiveClipController \<Rightarrow> real \<Rightarrow> tighten_scan" where
  "run_scan c s now_s =
     scan_loop (adaptive_clip_tighten_hold_s c) now_s (pressure s) (level_int (level s)) 1
       (adaptive_clip_tighten_thresholds c)
       \<lparr>since = tighten_since_s s, tighten_started = False, tighten_pending = False,
        tighten_reset = False, elapsed_levels = []\<rparr>"

text \<open>What \<open>_update_level\<close> does when no hold has elapsed; \<open>s\<close> already carries the scan's list.\<close>

definition hold_or_relax ::
    "AdmissionControlConfig \<Rightarrow> AdaptiveClipController \<Rightarrow> nat \<Rightarrow> tighten_scan \<Rightarrow> real \<Rightarrow>
     AdaptiveClipController \<times> AdaptiveClipTrigger result" where
  "hold_or_relax c s target sc now_s =
     (let quiet = (if tighten_reset sc then TIGHTEN_HOLD_RESET else NO_CHANGE) in
      if target > level_int (level s)
      then (s\<lparr>relax_since_s := None\<rparr>,
            if tighten_reset sc then Inr TIGHTEN_HOLD_RESET
            else if tighten_started sc then Inr TIGHTEN_HOLD_STARTED
            else if tighten_pending sc then Inr TIGHTEN_HOLD_PENDING
            else Inl (RuntimeError ''tighten target has no hold state''))
      else if level s = L0 then (s\<lparr>relax_since_s := None\<rparr>, Inr quiet)
      else let relax_threshold = adaptive_clip_relax_thresholds c ! (level_int (level s) - 1) in
        if relax_threshold \<le> pressure s
        then (if relax_since_s s \<noteq> None
              then (s\<lparr>relax_since_s := None\<rparr>, Inr RELAX_HOLD_RESET)
              else (s, Inr quiet))
        else let (t0, trigger) =
                   (case relax_since_s s of
                      None \<Rightarrow> (now_s, RELAX_HOLD_STARTED)
                    | Some t \<Rightarrow> (t, RELAX_HOLD_PENDING)) in
          if adaptive_clip_relax_hold_s c \<le> now_s - t0
          then (case level_of (level_int (level s) - 1) of
                  Inr l \<Rightarrow> (s\<lparr>level := l, relax_since_s := None\<rparr>, Inr RELAX_HOLD_ELAPSED)
                | Inl e \<Rightarrow> (s\<lparr>relax_since_s := Some t0\<rparr>, Inl e))
          else (s\<lparr>relax_since_s := Some t0\<rparr>, Inr trigger))"

definition update_level ::
    "AdmissionControlConfig \<Rightarrow> AdaptiveClipController \<Rightarrow> real \<Rightarrow>
     AdaptiveClipController \<times> AdaptiveClipTrigger result" where
  "update_level c s now_s =
     (case level_of (bisect_right (adaptive_clip_tighten_thresholds c) (pressure s)) of
        Inl e \<Rightarrow> (s, Inl e)
      | Inr target \<Rightarrow>
          (let sc = run_scan c s now_s; s1 = s\<lparr>tighten_since_s := since sc\<rparr> in
           if elapsed_levels sc \<noteq> []
           then (case level_of (Max (set (elapsed_levels sc))) of
                   Inl e \<Rightarrow> (s1, Inl e)
                 | Inr l \<Rightarrow>
                     (s1\<lparr>level := l,
                         tighten_since_s := map (\<lambda>(i, t). if i < level_int l then None else t)
                           (zip [0..<length (since sc)] (since sc)),
                         relax_since_s := None\<rparr>, Inr TIGHTEN_HOLD_ELAPSED))
           else hold_or_relax c s1 (level_int target) sc now_s))"

definition ewma :: "real \<Rightarrow> real \<Rightarrow> real \<Rightarrow> int \<Rightarrow> real" where
  "ewma tau delta_t qb qi =
     (let decay = exp (- delta_t / tau) in decay * qb + (1 - decay) * of_int qi)"

definition update ::
    "AdmissionControlConfig \<Rightarrow> AdaptiveClipController \<Rightarrow> int \<Rightarrow> pyfloat \<Rightarrow>
     AdaptiveClipController \<times> AdaptiveClipDecision result" where
  "update c s q clock =
     (if q < 0 then (s, Inl (ValueError ''q_inst must be a non-negative integer''))
      else if \<not> isfinite clock then (s, Inl (ValueError ''clock must return a finite timestamp''))
      else let now_s = real_of clock in
        if (case last_update_s s of None \<Rightarrow> False | Some t \<Rightarrow> now_s - t < 0)
        then (s, Inl (ValueError ''clock must be monotonic''))
        else let qb = (case last_update_s s of None \<Rightarrow> q_bar s
                       | Some t \<Rightarrow> ewma (adaptive_clip_ewma_tau_s c) (now_s - t) (q_bar s) (q_inst s));
                 s1 = s\<lparr>q_bar := qb, last_update_s := Some now_s, q_inst := q\<rparr>;
                 (s2, r) = update_level c s1 now_s in
          (s2, and_then r (\<lambda>trigger. Inr
             \<lparr>decision_time_s = now_s, decision_q_inst = q_inst s2, decision_q_bar = q_bar s2,
              old_level = level s1, new_level = level s2,
              decision_selected_cap = selected_cap c s2, trigger_reason = trigger\<rparr>)))"

text \<open>Successive updates, with the decisions taken; the run stops at the first exception.\<close>

fun run_updates ::
    "AdmissionControlConfig \<Rightarrow> AdaptiveClipController \<Rightarrow> (int \<times> pyfloat) list \<Rightarrow>
     AdaptiveClipController \<times> AdaptiveClipDecision list result" where
  "run_updates c s [] = (s, Inr [])"
| "run_updates c s ((q, t) # us) =
     (case update c s q t of
        (s1, Inl e) \<Rightarrow> (s1, Inl e)
      | (s1, Inr d) \<Rightarrow> (case run_updates c s1 us of
                         (s2, r) \<Rightarrow> (s2, and_then r (\<lambda>ds. Inr (d # ds)))))"

end
