(* ===== verification/Admission.thy ===== *)
theory Admission
  imports PolicyOrder Clipping AdaptiveClipping
begin

text \<open>
  The admission queue (src/sloserve/router/admission.py) as a state machine.

  Every method of \<open>AdmissionQueue\<close> does its work in one \<open>async with self._condition\<close> block that
  contains no \<open>await\<close>; on the one thread of an event loop such a block runs to its end once
  entered. So each block, with the code up to the next \<open>await\<close>, is one atomic operation here,
  and an interleaving of coroutines is a sequence of operations.

  \<open>objects\<close> holds every \<open>_QueueEntry\<close> ever allocated; its index stands for the object, so two
  entries are the same object iff their indices are equal. A future is an optional result. A
  task is known by what it can still do: \<open>runner_tasks\<close> and \<open>timeout_tasks\<close> list the entries
  whose runner or watcher has not finished. \<open>clock k\<close> is what the k-th call of \<open>self._clock()\<close>
  returns and \<open>reads\<close> counts the calls, so the order of clock readings is the code's. An
  exception leaves the state as the statements before it left it: an operation returns the
  state with its result. \<open>sent\<close> records the calls of \<open>backend.send\<close>.
\<close>

section \<open>State\<close>

record AdmissionResult =
  res_request_id :: string
  res_sequence_id :: int
  res_status :: DispatchStatus
  res_enqueue_time_s :: real
  res_dispatch_time_s :: "real option"
  res_completion_time_s :: "real option"
  res_effective_envelope :: RequestEnvelope
  res_error_message :: "string option"

record AdaptiveAdmissionDecision =
  decided_request_id :: string
  decided :: AdaptiveClipDecision

datatype RequestState = WAITING | IN_FLIGHT | DONE

datatype task =
    Running
  | CancelRequested

record QueueEntry =
  envelope :: RequestEnvelope
  enqueue_time_s :: real
  result_future :: "AdmissionResult option"
  state :: RequestState
  dispatch_time_s :: "real option"
  backend_task :: "task option"
  timeout_task :: "task option"
  forced_status :: "DispatchStatus option"

record QueueSettings =
  capacity :: int
  in_flight_limit :: int
  timeout_s :: real
  timeout_message :: string
  scheduling :: SchedulingPolicy
  adaptive_clipper :: "OutputClipper option"

record AdmissionQueue =
  objects :: "QueueEntry list"
  waiting :: "nat list"
  entries :: "nat list"
  runner_tasks :: "nat list"
  timeout_tasks :: "nat list"
  started :: bool
  closing :: bool
  closed :: bool
  adaptive_controller :: "(AdmissionControlConfig \<times> AdaptiveClipController) option"
  adaptive_decisions :: "AdaptiveAdmissionDecision list"
  reads :: nat
  sent :: "(nat \<times> RequestEnvelope) list"

type_synonym 'a step_result = "AdmissionQueue \<times> 'a result"

definition queue_start ::
    "(AdmissionControlConfig \<times> AdaptiveClipController) option \<Rightarrow> AdmissionQueue" where
  "queue_start controller =
    \<lparr>objects = [], waiting = [], entries = [], runner_tasks = [], timeout_tasks = [],
     started = False, closing = False, closed = False, adaptive_controller = controller,
     adaptive_decisions = [], reads = 0, sent = []\<rparr>"

text \<open>
  The constructor. \<open>describe\<close> stands for the formatting of the timeout in the f-string of
  \<open>_timeout_error_message\<close>.
\<close>

definition AdmissionQueue_init ::
    "(real \<Rightarrow> string) \<Rightarrow> RouterConfig \<Rightarrow> BackendConfig \<Rightarrow> SchedulingPolicy option \<Rightarrow>
     AdmissionControlConfig option \<Rightarrow> OutputClipper option \<Rightarrow>
     (QueueSettings \<times> AdmissionQueue) result" where
  "AdmissionQueue_init describe router backend policy admission clipper =
     and_then
       (case policy of
          Some p \<Rightarrow> Inr p
        | None \<Rightarrow>
            if router_policy router \<noteq> FCFS
            then Inl (NotImplementedError
                        (policy_value (router_policy router) @ '' admission is outside Week 1 step 6''))
            else Inr FcfsPolicy) (\<lambda>p.
     let settings = \<lambda>k. \<lparr>capacity = queue_capacity router, in_flight_limit = max_in_flight router,
           timeout_s = request_timeout_s backend,
           timeout_message = ''request exceeded total timeout of ''
             @ describe (request_timeout_s backend) @ ''s'',
           scheduling = p, adaptive_clipper = k\<rparr> in
     case admission of
       None \<Rightarrow> Inr (settings None, queue_start None)
     | Some c \<Rightarrow>
         if \<not> adaptive_clip_enabled c then Inr (settings None, queue_start None)
         else case clipper of
           None \<Rightarrow> Inl (ValueError ''enabled adaptive clipping requires an OutputClipper'')
         | Some k \<Rightarrow> and_then (build_adaptive_clip_controller c) (\<lambda>controller.
             Inr (settings (Some k), queue_start (map_option (Pair c) controller))))"

section \<open>Primitive operations\<close>

definition and_do :: "'a step_result \<Rightarrow> ('a \<Rightarrow> AdmissionQueue \<Rightarrow> 'b step_result) \<Rightarrow> 'b step_result" where
  "and_do m f = (case m of (s, Inl e) \<Rightarrow> (s, Inl e) | (s, Inr x) \<Rightarrow> f x s)"

definition upd_entry :: "nat \<Rightarrow> (QueueEntry \<Rightarrow> QueueEntry) \<Rightarrow> AdmissionQueue \<Rightarrow> AdmissionQueue" where
  "upd_entry i f s = s\<lparr>objects := (objects s)[i := f (objects s ! i)]\<rparr>"

definition tick :: "AdmissionQueue \<Rightarrow> AdmissionQueue" where
  "tick s = s\<lparr>reads := Suc (reads s)\<rparr>"

definition request_cancel :: "task option \<Rightarrow> task option" where
  "request_cancel t = (case t of None \<Rightarrow> None | Some _ \<Rightarrow> Some CancelRequested)"

definition in_flight_entries :: "AdmissionQueue \<Rightarrow> nat list" where
  "in_flight_entries s = filter (\<lambda>i. state (objects s ! i) = IN_FLIGHT) (entries s)"

text \<open>\<open>_stable_waiting_depth_after_selected_locked\<close>\<close>

definition stable_waiting_depth :: "QueueSettings \<Rightarrow> AdmissionQueue \<Rightarrow> int" where
  "stable_waiting_depth q s =
     (let in_flight_count = int (length (in_flight_entries s));
          remaining_free_slots = in_flight_limit q - in_flight_count - 1 in
      max 0 (int (length (waiting s)) - remaining_free_slots))"

text \<open>\<open>self._waiting.remove(entry)\<close>; entries hold distinct futures, so \<open>==\<close> is identity.\<close>

definition remove_waiting :: "nat \<Rightarrow> AdmissionQueue \<Rightarrow> unit step_result" where
  "remove_waiting i s =
     (if i \<in> set (waiting s) then (s\<lparr>waiting := remove1 i (waiting s)\<rparr>, Inr ())
      else (s, Inl (ValueError ''list.remove(x): x not in list'')))"

text \<open>
  \<open>_complete_locked\<close>; \<open>own_watcher\<close> says that the current task is the entry's timeout task.
  The result is built, with a reading of the clock, before the future is set.
\<close>

definition entry_result ::
    "QueueEntry \<Rightarrow> DispatchStatus \<Rightarrow> string option \<Rightarrow> real \<Rightarrow> AdmissionResult" where
  "entry_result e status message t =
    \<lparr>res_request_id = request_id (envelope e), res_sequence_id = sequence_id (envelope e),
     res_status = status, res_enqueue_time_s = enqueue_time_s e,
     res_dispatch_time_s = dispatch_time_s e, res_completion_time_s = Some t,
     res_effective_envelope = envelope e, res_error_message = message\<rparr>"

definition complete_locked ::
    "(nat \<Rightarrow> real) \<Rightarrow> bool \<Rightarrow> nat \<Rightarrow> DispatchStatus \<Rightarrow> string option \<Rightarrow> AdmissionQueue \<Rightarrow>
     unit step_result" where
  "complete_locked clock own_watcher i status message s =
     (if state (objects s ! i) = DONE then (s, Inr ())
      else let s1 = upd_entry i (\<lambda>e. e\<lparr>state := DONE\<rparr>) s;
               s2 = s1\<lparr>entries := removeAll i (entries s1)\<rparr>;
               s3 = (if own_watcher then s2
                     else upd_entry i (\<lambda>e. e\<lparr>timeout_task := request_cancel (timeout_task e)\<rparr>) s2);
               result = entry_result (objects s3 ! i) status message (clock (reads s3));
               s4 = tick s3 in
           case result_future (objects s4 ! i) of
             None \<Rightarrow> (upd_entry i (\<lambda>e. e\<lparr>result_future := Some result\<rparr>) s4, Inr ())
           | Some _ \<Rightarrow> (s4, Inl (InvalidStateError ''invalid state'')))"

section \<open>Admission\<close>

text \<open>
  \<open>next(index for index, entry in enumerate(self._waiting) if entry.envelope is selected)\<close>.
  The policies sort stably, so of several equal envelopes the selected one is the first in
  waiting order, and the first index with an equal envelope is the index of that object.
\<close>

fun index_of :: "RequestEnvelope \<Rightarrow> RequestEnvelope list \<Rightarrow> nat option" where
  "index_of e [] = None"
| "index_of e (x # xs) = (if x = e then Some 0 else map_option Suc (index_of e xs))"

definition select_waiting ::
    "QueueSettings \<Rightarrow> (nat \<Rightarrow> real) \<Rightarrow> AdmissionQueue \<Rightarrow> nat step_result" where
  "select_waiting q clock s =
     (let envelopes = map (\<lambda>i. envelope (objects s ! i)) (waiting s) in
      case order (scheduling q) envelopes (clock (reads s)) of
        Inl e \<Rightarrow> (tick s, Inl e)
      | Inr [] \<Rightarrow> (tick s, Inl (IndexError ''list index out of range''))
      | Inr (selected # _) \<Rightarrow>
          (case index_of selected envelopes of
             None \<Rightarrow> (tick s, Inl (StopIteration ''''))
           | Some k \<Rightarrow>
               ((tick s)\<lparr>waiting := take k (waiting s) @ drop (Suc k) (waiting s)\<rparr>,
                Inr (waiting s ! k))))"

text \<open>
  The adaptive part of the loop body: \<open>update\<close> makes its own reading of the clock. The
  controller is kept with the configuration it was built from.
\<close>

definition adapt_entry ::
    "QueueSettings \<Rightarrow> (nat \<Rightarrow> real) \<Rightarrow> nat \<Rightarrow> AdmissionQueue \<Rightarrow> unit step_result" where
  "adapt_entry q clock i s =
     (case adaptive_controller s of
        None \<Rightarrow> (s, Inr ())
      | Some (c, controller) \<Rightarrow>
          (case adaptive_clipper q of
             None \<Rightarrow> (s, Inl (RuntimeError ''adaptive clipper was not configured''))
           | Some k \<Rightarrow>
               (case update c controller (stable_waiting_depth q s)
                       (Fin (clock (reads s))) of
                  (controller', Inl e) \<Rightarrow> ((tick s)\<lparr>adaptive_controller := Some (c, controller')\<rparr>, Inl e)
                | (controller', Inr decision) \<Rightarrow>
                    let s1 = (tick s)\<lparr>adaptive_controller := Some (c, controller')\<rparr> in
                    (case apply_adaptive_cap k (envelope (objects s1 ! i))
                            (decision_selected_cap decision) of
                       Inl e \<Rightarrow> (s1, Inl e)
                     | Inr env \<Rightarrow>
                         ((upd_entry i (\<lambda>e. e\<lparr>envelope := env\<rparr>) s1)
                            \<lparr>adaptive_decisions := adaptive_decisions s1 @
                               [\<lparr>decided_request_id = request_id env, decided = decision\<rparr>]\<rparr>,
                          Inr ())))))"

definition launch_entry :: "(nat \<Rightarrow> real) \<Rightarrow> nat \<Rightarrow> AdmissionQueue \<Rightarrow> AdmissionQueue" where
  "launch_entry clock i s =
     (let s1 = upd_entry i (\<lambda>e. e\<lparr>state := IN_FLIGHT, dispatch_time_s := Some (clock (reads s)),
                                 backend_task := Some Running\<rparr>) (tick s) in
      s1\<lparr>sent := sent s1 @ [(i, envelope (objects s1 ! i))],
         runner_tasks := runner_tasks s1 @ [i]\<rparr>)"

text \<open>One turn of the loop of \<open>_admit_available_locked\<close>.\<close>

definition admit_one :: "QueueSettings \<Rightarrow> (nat \<Rightarrow> real) \<Rightarrow> AdmissionQueue \<Rightarrow> unit step_result" where
  "admit_one q clock s = and_do (select_waiting q clock s) (\<lambda>i s1.
     let now_s = clock (reads s1); s2 = tick s1 in
     if timeout_s q \<le> now_s - enqueue_time_s (objects s2 ! i)
     then complete_locked clock False i TIMEOUT (Some (timeout_message q)) s2
     else and_do (adapt_entry q clock i s2) (\<lambda>_ s3. (launch_entry clock i s3, Inr ())))"

definition admissible :: "QueueSettings \<Rightarrow> AdmissionQueue \<Rightarrow> bool" where
  "admissible q s \<longleftrightarrow> \<not> closing s \<and> waiting s \<noteq> [] \<and>
     int (length (in_flight_entries s)) < in_flight_limit q"


lemma index_of_nth: "index_of e xs = Some k \<Longrightarrow> k < length xs \<and> xs ! k = e"
  by (induction xs arbitrary: k) (auto split: if_splits)

lemma index_of_mem: "e \<in> set xs \<Longrightarrow> \<exists>k. index_of e xs = Some k"
  by (induction xs) auto

lemma select_waiting_length:
  "select_waiting q clock s = (s', Inr i) \<Longrightarrow> length (waiting s') < length (waiting s)"
  by (auto simp: select_waiting_def Let_def tick_def dest!: index_of_nth
      split: sum.splits list.splits option.splits)

lemma complete_locked_waiting:
  "complete_locked clock own i status m s = (s', r) \<Longrightarrow> waiting s' = waiting s"
  by (auto simp: complete_locked_def upd_entry_def tick_def Let_def split: if_splits option.splits)

lemma adapt_entry_waiting: "adapt_entry q clock i s = (s', r) \<Longrightarrow> waiting s' = waiting s"
  by (auto simp: adapt_entry_def upd_entry_def tick_def Let_def
      split: option.splits sum.splits prod.splits)

lemma admit_one_length:
  assumes "admit_one q clock s = (s', Inr ())"
  shows "length (waiting s') < length (waiting s)"
proof -
  obtain i s1 where sel: "select_waiting q clock s = (s1, Inr i)"
    using assms by (auto simp: admit_one_def and_do_def split: prod.splits sum.splits)
  have "waiting s' = waiting s1"
    using assms sel complete_locked_waiting [of clock False i TIMEOUT _ "tick s1" s' "Inr ()"]
      adapt_entry_waiting [of q clock i "tick s1"]
    by (auto simp: admit_one_def and_do_def Let_def launch_entry_def tick_def upd_entry_def
        split: prod.splits sum.splits if_splits)
  with select_waiting_length [OF sel] show ?thesis by simp
qed

function admit_available :: "QueueSettings \<Rightarrow> (nat \<Rightarrow> real) \<Rightarrow> AdmissionQueue \<Rightarrow> unit step_result" where
  "admit_available q clock s =
     (if \<not> admissible q s then (s, Inr ())
      else case admit_one q clock s of
        (s', Inl e) \<Rightarrow> (s', Inl e)
      | (s', Inr _) \<Rightarrow> admit_available q clock s')"
  by pat_completeness auto
termination
  by (relation "measure (\<lambda>(q, clock, s). length (waiting s))") (auto dest: admit_one_length [OF sym])

declare admit_available.simps [simp del]

section \<open>Operations of the queue\<close>

definition start :: "AdmissionQueue \<Rightarrow> unit step_result" where
  "start s =
     (if closed s then (s, Inl (RuntimeError ''admission queue is closed''))
      else if started s then (s, Inr ()) else (s\<lparr>started := True\<rparr>, Inr ()))"

text \<open>\<open>submit\<close> up to its wait: the request is rejected with a result, or it has an entry.\<close>

datatype submitted =
    Rejected AdmissionResult
  | Enqueued nat

definition rejection :: "RequestEnvelope \<Rightarrow> real \<Rightarrow> real \<Rightarrow> AdmissionResult" where
  "rejection env enqueue completion =
    \<lparr>res_request_id = request_id env, res_sequence_id = sequence_id env, res_status = REJECTED,
     res_enqueue_time_s = enqueue, res_dispatch_time_s = None,
     res_completion_time_s = Some completion, res_effective_envelope = env,
     res_error_message = Some ''admission waiting queue is full''\<rparr>"

definition new_entry :: "RequestEnvelope \<Rightarrow> real \<Rightarrow> QueueEntry" where
  "new_entry env t =
    \<lparr>envelope = env, enqueue_time_s = t, result_future = None, state = WAITING,
     dispatch_time_s = None, backend_task = None, timeout_task = None, forced_status = None\<rparr>"

definition enqueue :: "RequestEnvelope \<Rightarrow> real \<Rightarrow> AdmissionQueue \<Rightarrow> AdmissionQueue" where
  "enqueue env t s =
     (let i = length (objects s);
          s1 = s\<lparr>objects := objects s @ [new_entry env t], waiting := waiting s @ [i],
                 entries := entries s @ [i]\<rparr> in
      (upd_entry i (\<lambda>e. e\<lparr>timeout_task := Some Running\<rparr>) s1)
        \<lparr>timeout_tasks := timeout_tasks s1 @ [i]\<rparr>)"

definition submit ::
    "QueueSettings \<Rightarrow> (nat \<Rightarrow> real) \<Rightarrow> RequestEnvelope \<Rightarrow> AdmissionQueue \<Rightarrow> submitted step_result" where
  "submit q clock env s =
     (let enqueue_time = clock (reads s); s1 = tick s in
      if \<not> started s1 \<or> closing s1 \<or> closed s1
      then (s1, Inl (RuntimeError ''admission queue is not accepting requests''))
      else if capacity q \<le> int (length (waiting s1))
      then (tick s1, Inr (Rejected (rejection env enqueue_time (clock (reads s1)))))
      else let i = length (objects s1) in
        and_do (admit_available q clock (enqueue env enqueue_time s1)) (\<lambda>_ s2. (s2, Inr (Enqueued i))))"

text \<open>
  How the awaited backend task ends. When the runner itself is cancelled it cancels the backend,
  waits for it and runs the same final block with the status \<open>CANCELLED\<close>.
\<close>

datatype backend_end =
    Returned
  | Raised string
  | Cancelled

fun backend_status :: "backend_end \<Rightarrow> DispatchStatus" where
  "backend_status Returned = SUCCESS"
| "backend_status (Raised m) = ERROR"
| "backend_status Cancelled = CANCELLED"

fun backend_message :: "backend_end \<Rightarrow> string option" where
  "backend_message (Raised m) = Some m"
| "backend_message _ = None"

definition final_message :: "QueueSettings \<Rightarrow> DispatchStatus \<Rightarrow> string option \<Rightarrow> string option" where
  "final_message q status message =
     (if status = TIMEOUT then Some (timeout_message q)
      else if status = CANCELLED \<and> message = None then Some ''request was cancelled'' else message)"

text \<open>
  The final block of \<open>_run_backend\<close>: the clock is read only when no status was forced. The
  runner then ends.
\<close>

definition run_backend ::
    "QueueSettings \<Rightarrow> (nat \<Rightarrow> real) \<Rightarrow> nat \<Rightarrow> backend_end \<Rightarrow> AdmissionQueue \<Rightarrow> unit step_result" where
  "run_backend q clock i ending s0 =
     (let s = s0\<lparr>runner_tasks := removeAll i (runner_tasks s0)\<rparr>; e = objects s ! i;
          (status, s1) =
            (case forced_status e of
               Some forced \<Rightarrow> (forced, s)
             | None \<Rightarrow> (if timeout_s q \<le> clock (reads s) - enqueue_time_s e then TIMEOUT
                        else backend_status ending, tick s)) in
      and_do (complete_locked clock False i status
                (final_message q status (backend_message ending)) s1)
        (\<lambda>_ s2. admit_available q clock s2))"

definition cancel_backend :: "nat \<Rightarrow> DispatchStatus \<Rightarrow> AdmissionQueue \<Rightarrow> AdmissionQueue" where
  "cancel_backend i status =
     upd_entry i (\<lambda>e. e\<lparr>forced_status := Some status, backend_task := request_cancel (backend_task e)\<rparr>)"

text \<open>
  One awakening of \<open>_watch_timeout\<close>: before the deadline it sleeps again, otherwise it takes the
  lock and ends.
\<close>

definition watch_timeout ::
    "QueueSettings \<Rightarrow> (nat \<Rightarrow> real) \<Rightarrow> nat \<Rightarrow> AdmissionQueue \<Rightarrow> unit step_result" where
  "watch_timeout q clock i s =
     (let deadline_s = enqueue_time_s (objects s ! i) + timeout_s q;
          remaining_s = deadline_s - clock (reads s); s1 = tick s in
      if remaining_s > 0 then (s1, Inr ())
      else let s2 = s1\<lparr>timeout_tasks := removeAll i (timeout_tasks s1)\<rparr> in
        (case state (objects s2 ! i) of
           DONE \<Rightarrow> (s2, Inr ())
         | WAITING \<Rightarrow> and_do (remove_waiting i s2) (\<lambda>_ s3.
             complete_locked clock True i TIMEOUT (Some (timeout_message q)) s3)
         | IN_FLIGHT \<Rightarrow> (cancel_backend i TIMEOUT s2, Inr ())))"

text \<open>A cancelled watcher ends.\<close>

definition watcher_cancelled :: "nat \<Rightarrow> AdmissionQueue \<Rightarrow> AdmissionQueue" where
  "watcher_cancelled i s = s\<lparr>timeout_tasks := removeAll i (timeout_tasks s)\<rparr>"

definition cancel_from_submitter ::
    "(nat \<Rightarrow> real) \<Rightarrow> nat \<Rightarrow> AdmissionQueue \<Rightarrow> unit step_result" where
  "cancel_from_submitter clock i s =
     (case state (objects s ! i) of
        WAITING \<Rightarrow> and_do (remove_waiting i s) (\<lambda>_ s1.
          complete_locked clock False i CANCELLED
            (Some ''submit caller cancelled before dispatch'') s1)
      | IN_FLIGHT \<Rightarrow> (cancel_backend i CANCELLED s, Inr ())
      | DONE \<Rightarrow> (s, Inr ()))"

text \<open>\<open>aclose\<close>: its first locked block, and the block it runs when every task has ended.\<close>

fun drain_waiting :: "(nat \<Rightarrow> real) \<Rightarrow> nat list \<Rightarrow> AdmissionQueue \<Rightarrow> unit step_result" where
  "drain_waiting clock [] s = (s, Inr ())"
| "drain_waiting clock (i # is) s =
     and_do (remove_waiting i s) (\<lambda>_ s1.
     and_do (complete_locked clock False i CANCELLED
               (Some ''admission queue closed before dispatch'') s1) (\<lambda>_ s2.
     drain_waiting clock is s2))"

definition aclose_begin :: "(nat \<Rightarrow> real) \<Rightarrow> AdmissionQueue \<Rightarrow> unit step_result" where
  "aclose_begin clock s =
     (if closed s then (s, Inr ())
      else if \<not> started s then (s\<lparr>closed := True\<rparr>, Inr ())
      else and_do (drain_waiting clock (waiting s) (s\<lparr>closing := True\<rparr>)) (\<lambda>_ s1.
        (fold (\<lambda>i. cancel_backend i CANCELLED) (in_flight_entries s1) s1, Inr ())))"

definition aclose_end :: "AdmissionQueue \<Rightarrow> AdmissionQueue" where
  "aclose_end s = s\<lparr>closed := True, closing := False\<rparr>"

section \<open>The machine\<close>

datatype event =
    Start
  | Submit RequestEnvelope
  | BackendEnds nat backend_end
  | WatcherWakes nat
  | WatcherCancelled nat
  | SubmitterCancelled nat
  | CloseBegins
  | CloseEnds

text \<open>When the event loop may run each operation.\<close>

fun enabled :: "AdmissionQueue \<Rightarrow> event \<Rightarrow> bool" where
  "enabled s Start = True"
| "enabled s (Submit env) = True"
| "enabled s (BackendEnds i ending) = (i \<in> set (runner_tasks s))"
| "enabled s (WatcherWakes i) =
     (i \<in> set (timeout_tasks s) \<and> timeout_task (objects s ! i) = Some Running)"
| "enabled s (WatcherCancelled i) =
     (i \<in> set (timeout_tasks s) \<and> timeout_task (objects s ! i) = Some CancelRequested)"
| "enabled s (SubmitterCancelled i) = (i < length (objects s))"
| "enabled s CloseBegins = True"
| "enabled s CloseEnds = (closing s \<and> runner_tasks s = [] \<and> timeout_tasks s = [])"

definition quiet :: "'a step_result \<Rightarrow> submitted option step_result" where
  "quiet m = and_do m (\<lambda>_ s. (s, Inr None))"

fun perform ::
    "QueueSettings \<Rightarrow> (nat \<Rightarrow> real) \<Rightarrow> event \<Rightarrow> AdmissionQueue \<Rightarrow> submitted option step_result" where
  "perform q clock Start s = quiet (start s)"
| "perform q clock (Submit env) s = and_do (submit q clock env s) (\<lambda>r s1. (s1, Inr (Some r)))"
| "perform q clock (BackendEnds i ending) s = quiet (run_backend q clock i ending s)"
| "perform q clock (WatcherWakes i) s = quiet (watch_timeout q clock i s)"
| "perform q clock (WatcherCancelled i) s = (watcher_cancelled i s, Inr None)"
| "perform q clock (SubmitterCancelled i) s = quiet (cancel_from_submitter clock i s)"
| "perform q clock CloseBegins s = quiet (aclose_begin clock s)"
| "perform q clock CloseEnds s = (aclose_end s, Inr None)"

text \<open>A submitted envelope is one its constructor accepted.\<close>

fun valid_event :: "event \<Rightarrow> bool" where
  "valid_event (Submit env) = valid_envelope env"
| "valid_event _ = True"

text \<open>A sequence of events and what each returned or raised.\<close>

inductive admission_run ::
    "QueueSettings \<Rightarrow> (nat \<Rightarrow> real) \<Rightarrow> AdmissionQueue \<Rightarrow>
     (event \<times> submitted option result) list \<Rightarrow> AdmissionQueue \<Rightarrow> bool"
  for q clock s0 where
  run_start: "admission_run q clock s0 [] s0"
| run_event: "admission_run q clock s0 tr s \<Longrightarrow> enabled s ev \<Longrightarrow>
    valid_event ev \<Longrightarrow> perform q clock ev s = (s', r) \<Longrightarrow> admission_run q clock s0 (tr @ [(ev, r)]) s'"

end
