(* ===== verification/AdmissionShape.thy ===== *)
theory AdmissionShape
  imports Admission
begin

text \<open>
  The structural invariant of the queue and what each primitive operation does to it. The
  invariant is stated for a state with at most one entry "in hand" (\<open>H\<close>): an operation takes an
  entry out of the waiting list, or a runner off the task set, and puts it back under its new
  state before it releases the lock.
\<close>

section \<open>Shape\<close>

definition entry_shape :: "nat option \<Rightarrow> AdmissionQueue \<Rightarrow> nat \<Rightarrow> QueueEntry \<Rightarrow> bool" where
  "entry_shape H s i e \<longleftrightarrow>
     (i \<in> set (entries s) \<longleftrightarrow> state e \<noteq> DONE) \<and>
     (i \<in> set (waiting s) \<longleftrightarrow> state e = WAITING \<and> H \<noteq> Some i) \<and>
     (i \<in> set (runner_tasks s) \<longleftrightarrow> state e = IN_FLIGHT \<and> H \<noteq> Some i) \<and>
     (result_future e = None \<longleftrightarrow> state e \<noteq> DONE) \<and>
     (H = Some i \<longrightarrow> state e \<noteq> DONE) \<and>
     (state e = WAITING \<longrightarrow> dispatch_time_s e = None \<and> backend_task e = None \<and> forced_status e = None) \<and>
     (state e = IN_FLIGHT \<longrightarrow> dispatch_time_s e \<noteq> None \<and> backend_task e \<noteq> None \<and>
        (forced_status e \<noteq> None \<longrightarrow> backend_task e = Some CancelRequested)) \<and>
     (map_of (sent s) i = (if dispatch_time_s e = None then None else Some (envelope e))) \<and>
     timeout_task e \<noteq> None \<and>
     (state e = DONE \<and> i \<in> set (timeout_tasks s) \<longrightarrow> timeout_task e = Some CancelRequested) \<and>
     (state e \<noteq> DONE \<and> forced_status e = None \<and> H \<noteq> Some i \<longrightarrow>
        i \<in> set (timeout_tasks s) \<and> timeout_task e = Some Running)"

definition lists_ok :: "nat option \<Rightarrow> AdmissionQueue \<Rightarrow> bool" where
  "lists_ok H s \<longleftrightarrow>
     distinct (waiting s) \<and> distinct (entries s) \<and> distinct (runner_tasks s) \<and>
     distinct (timeout_tasks s) \<and> distinct (map fst (sent s)) \<and>
     (\<forall>i \<in> set (waiting s) \<union> set (entries s) \<union> set (runner_tasks s) \<union> set (timeout_tasks s) \<union>
        fst ` set (sent s) \<union> set_option H. i < length (objects s))"

definition shape :: "nat option \<Rightarrow> AdmissionQueue \<Rightarrow> bool" where
  "shape H s \<longleftrightarrow> lists_ok H s \<and>
     (\<forall>i < length (objects s). entry_shape H s i (objects s ! i))"

definition in_flight_set :: "AdmissionQueue \<Rightarrow> nat set" where
  "in_flight_set s = {i. i < length (objects s) \<and> state (objects s ! i) = IN_FLIGHT}"

definition watched :: "AdmissionQueue \<Rightarrow> nat \<Rightarrow> bool" where
  "watched s i \<longleftrightarrow> i \<in> set (timeout_tasks s) \<and> timeout_task (objects s ! i) = Some Running"

lemma finite_in_flight_set [simp]: "finite (in_flight_set s)"
  by (simp add: in_flight_set_def)

lemma shape_entry: "shape H s \<Longrightarrow> i < length (objects s) \<Longrightarrow> entry_shape H s i (objects s ! i)"
  by (simp add: shape_def)

lemma shape_lists: "shape H s \<Longrightarrow> lists_ok H s"
  by (simp add: shape_def)

lemma shape_hand: "shape (Some i) s \<Longrightarrow> i < length (objects s)"
  by (simp add: shape_def lists_ok_def)

lemma shape_bound:
  "shape H s \<Longrightarrow> i \<in> set (waiting s) \<union> set (entries s) \<union> set (runner_tasks s) \<union> set (timeout_tasks s)
    \<Longrightarrow> i < length (objects s)"
  by (auto simp: shape_def lists_ok_def)

lemma shapeI [intro?]:
  assumes "lists_ok H s" and "\<And>j. j < length (objects s) \<Longrightarrow> entry_shape H s j (objects s ! j)"
  shows "shape H s"
  using assms by (simp add: shape_def)

lemma in_flight_entries_set:
  assumes "shape H s"
  shows "set (in_flight_entries s) = in_flight_set s"
proof -
  have "i \<in> set (in_flight_entries s) \<longleftrightarrow> i \<in> in_flight_set s" for i
  proof (cases "i < length (objects s)")
    case True
    then have "i \<in> set (entries s) \<longleftrightarrow> state (objects s ! i) \<noteq> DONE"
      using shape_entry [OF assms True] by (simp only: entry_shape_def)
    with True show ?thesis by (auto simp: in_flight_entries_def in_flight_set_def)
  next
    case False
    with shape_bound [OF assms, of i] have "i \<notin> set (entries s)" by blast
    with False show ?thesis
      by (simp add: in_flight_entries_def in_flight_set_def)
  qed
  then show ?thesis by blast
qed

lemma in_flight_entries_card:
  assumes "shape H s"
  shows "length (in_flight_entries s) = card (in_flight_set s)"
proof -
  have "distinct (in_flight_entries s)"
    using shape_lists [OF assms] by (simp add: lists_ok_def in_flight_entries_def)
  then show ?thesis using in_flight_entries_set [OF assms] by (metis distinct_card)
qed

lemma shape_reads [simp]:
  "shape H (s\<lparr>reads := n\<rparr>) = shape H s" "in_flight_set (s\<lparr>reads := n\<rparr>) = in_flight_set s"
  "in_flight_set (s\<lparr>waiting := w\<rparr>) = in_flight_set s"
  "in_flight_set (s\<lparr>timeout_tasks := w\<rparr>) = in_flight_set s"
  "in_flight_set (s\<lparr>runner_tasks := w\<rparr>) = in_flight_set s"
  "in_flight_set (s\<lparr>closing := b\<rparr>) = in_flight_set s"
  "shape H (s\<lparr>adaptive_controller := k\<rparr>) = shape H s"
  "shape H (s\<lparr>adaptive_decisions := ds\<rparr>) = shape H s"
  "shape H (s\<lparr>closing := b\<rparr>) = shape H s" "shape H (s\<lparr>closed := b\<rparr>) = shape H s"
  "shape H (s\<lparr>started := b\<rparr>) = shape H s"
  by (simp_all add: shape_def lists_ok_def entry_shape_def in_flight_set_def)

lemma tick_simps [simp]:
  "objects (tick s) = objects s" "waiting (tick s) = waiting s" "entries (tick s) = entries s"
  "runner_tasks (tick s) = runner_tasks s" "timeout_tasks (tick s) = timeout_tasks s"
  "started (tick s) = started s" "closing (tick s) = closing s" "closed (tick s) = closed s"
  "adaptive_controller (tick s) = adaptive_controller s"
  "adaptive_decisions (tick s) = adaptive_decisions s"
  "reads (tick s) = Suc (reads s)" "sent (tick s) = sent s"
  "shape H (tick s) = shape H s" "in_flight_set (tick s) = in_flight_set s"
  "watched (tick s) i = watched s i"
  by (simp_all add: tick_def watched_def)

section \<open>Taking an entry in hand\<close>

lemma shape_take_waiting:
  assumes "shape None s" and "i \<in> set (waiting s)"
  shows "shape (Some i) (s\<lparr>waiting := remove1 i (waiting s)\<rparr>)"
    and "in_flight_set (s\<lparr>waiting := remove1 i (waiting s)\<rparr>) = in_flight_set s"
    and "watched s i" and "state (objects s ! i) = WAITING"
proof -
  have i: "i < length (objects s)" using assms shape_bound by blast
  note ls = shape_lists [OF assms(1)]
  show "shape (Some i) (s\<lparr>waiting := remove1 i (waiting s)\<rparr>)"
  proof
    show "lists_ok (Some i) (s\<lparr>waiting := remove1 i (waiting s)\<rparr>)"
      using ls i by (auto simp: lists_ok_def dest: notin_set_remove1)
    fix j assume "j < length (objects (s\<lparr>waiting := remove1 i (waiting s)\<rparr>))"
    then have "entry_shape None s j (objects s ! j)" by (simp add: shape_entry [OF assms(1)])
    then show "entry_shape (Some i) (s\<lparr>waiting := remove1 i (waiting s)\<rparr>) j
        (objects (s\<lparr>waiting := remove1 i (waiting s)\<rparr>) ! j)"
      using assms(2) ls by (cases "j = i") (auto simp: entry_shape_def lists_ok_def)
  qed
  show "in_flight_set (s\<lparr>waiting := remove1 i (waiting s)\<rparr>) = in_flight_set s"
    by (simp add: in_flight_set_def)
  show "state (objects s ! i) = WAITING" "watched s i"
    using shape_entry [OF assms(1) i] assms(2) by (auto simp: entry_shape_def watched_def)
qed

lemma shape_take_runner:
  assumes "shape None s" and "i \<in> set (runner_tasks s)"
  shows "shape (Some i) (s\<lparr>runner_tasks := removeAll i (runner_tasks s)\<rparr>)"
    and "state (objects s ! i) = IN_FLIGHT"
proof -
  have i: "i < length (objects s)" using assms shape_bound by blast
  note ls = shape_lists [OF assms(1)]
  show "shape (Some i) (s\<lparr>runner_tasks := removeAll i (runner_tasks s)\<rparr>)"
  proof
    show "lists_ok (Some i) (s\<lparr>runner_tasks := removeAll i (runner_tasks s)\<rparr>)"
      using ls i by (auto simp: lists_ok_def distinct_removeAll)
    fix j assume "j < length (objects (s\<lparr>runner_tasks := removeAll i (runner_tasks s)\<rparr>))"
    then have "entry_shape None s j (objects s ! j)" by (simp add: shape_entry [OF assms(1)])
    then show "entry_shape (Some i) (s\<lparr>runner_tasks := removeAll i (runner_tasks s)\<rparr>) j
        (objects (s\<lparr>runner_tasks := removeAll i (runner_tasks s)\<rparr>) ! j)"
      using assms(2) by (cases "j = i") (auto simp: entry_shape_def)
  qed
  show "state (objects s ! i) = IN_FLIGHT"
    using shape_entry [OF assms(1) i] assms(2) by (simp add: entry_shape_def)
qed

section \<open>Completing it\<close>

definition completed ::
    "(nat \<Rightarrow> real) \<Rightarrow> bool \<Rightarrow> nat \<Rightarrow> DispatchStatus \<Rightarrow> string option \<Rightarrow> AdmissionQueue \<Rightarrow> QueueEntry" where
  "completed clock own i status message s =
     (let e = objects s ! i in
      e\<lparr>state := DONE, timeout_task := (if own then timeout_task e else request_cancel (timeout_task e)),
        result_future := Some (entry_result e status message (clock (reads s)))\<rparr>)"

lemma complete_locked_eq:
  assumes "shape (Some i) s"
  shows "complete_locked clock own i status message s =
    (s\<lparr>objects := (objects s)[i := completed clock own i status message s],
       entries := removeAll i (entries s), reads := Suc (reads s)\<rparr>, Inr ())"
proof -
  have i: "i < length (objects s)" using assms(1) by (rule shape_hand)
  have "state (objects s ! i) \<noteq> DONE" "result_future (objects s ! i) = None"
    using shape_entry [OF assms i] by (auto simp: entry_shape_def)
  with i show ?thesis
    by (simp add: complete_locked_def completed_def entry_result_def upd_entry_def tick_def Let_def)
qed

lemma shape_complete:
  assumes "shape (Some i) s" and "own \<Longrightarrow> i \<notin> set (timeout_tasks s)"
    and "\<not> own \<Longrightarrow> timeout_task (objects s ! i) \<noteq> None"
    and "complete_locked clock own i status message s = (s', r)"
  shows "shape None s'" and "in_flight_set s' = in_flight_set s - {i}" and "r = Inr ()"
proof -
  have i: "i < length (objects s)" using assms(1) by (rule shape_hand)
  note eq = complete_locked_eq [OF assms(1), of clock own status message]
  have s': "s' = s\<lparr>objects := (objects s)[i := completed clock own i status message s],
      entries := removeAll i (entries s), reads := Suc (reads s)\<rparr>" and "r = Inr ()"
    using assms(4) eq by auto
  show "r = Inr ()" by fact
  show "in_flight_set s' = in_flight_set s - {i}"
    using i by (auto simp: s' in_flight_set_def completed_def Let_def nth_list_update)
  have "entry_shape None s' j (objects s' ! j)" if "j < length (objects s)" for j
  proof (cases "j = i")
    case True
    then show ?thesis
      using shape_entry [OF assms(1) i] assms(2,3) i
      by (auto simp: s' entry_shape_def completed_def Let_def request_cancel_def split: option.splits)
  next
    case False
    then show ?thesis
      using shape_entry [OF assms(1) that] by (simp add: s' entry_shape_def)
  qed
  then show "shape None s'"
    using shape_lists [OF assms(1)] by (intro shapeI) (auto simp: s' lists_ok_def distinct_removeAll)
qed

section \<open>Launching it\<close>

lemma shape_launch:
  assumes "shape (Some i) s" and "state (objects s ! i) = WAITING" and "watched s i"
  shows "shape None (launch_entry clock i s)"
    and "in_flight_set (launch_entry clock i s) = insert i (in_flight_set s)"
    and "i \<notin> in_flight_set s"
proof -
  have i: "i < length (objects s)" using assms(1) by (rule shape_hand)
  have ei: "entry_shape (Some i) s i (objects s ! i)" using shape_entry [OF assms(1) i] .
  show "i \<notin> in_flight_set s" using assms(2) by (simp add: in_flight_set_def)
  show "in_flight_set (launch_entry clock i s) = insert i (in_flight_set s)"
    using i by (auto simp: launch_entry_def upd_entry_def in_flight_set_def Let_def nth_list_update)
  have new: "i \<notin> set (runner_tasks s)" "i \<notin> fst ` set (sent s)" "map_of (sent s) i = None"
    using ei assms(2) by (simp_all add: entry_shape_def map_of_eq_None_iff [symmetric])
  let ?s' = "launch_entry clock i s"
  have s': "waiting ?s' = waiting s" "entries ?s' = entries s" "timeout_tasks ?s' = timeout_tasks s"
      "runner_tasks ?s' = runner_tasks s @ [i]" "sent ?s' = sent s @ [(i, envelope (objects s ! i))]"
      "objects ?s' = (objects s)[i := (objects s ! i)\<lparr>state := IN_FLIGHT,
         dispatch_time_s := Some (clock (reads s)), backend_task := Some Running\<rparr>]"
    using i by (simp_all add: launch_entry_def upd_entry_def Let_def)
  have "entry_shape None ?s' j (objects ?s' ! j)" if "j < length (objects s)" for j
  proof (cases "j = i")
    case True
    then show ?thesis
      using ei assms(2,3) i new
      by (auto simp: s' entry_shape_def watched_def map_add_def split: option.splits)
  next
    case False
    then show ?thesis
      using shape_entry [OF assms(1) that]
      by (auto simp: s' entry_shape_def map_add_def split: option.splits)
  qed
  then show "shape None ?s'"
    using shape_lists [OF assms(1)] i new by (intro shapeI) (auto simp: s' lists_ok_def)
qed

section \<open>Enqueueing and cancelling\<close>

lemma shape_enqueue:
  assumes "shape None s"
  shows "shape None (enqueue env t s)" and "in_flight_set (enqueue env t s) = in_flight_set s"
proof -
  let ?i = "length (objects s)" and ?s' = "enqueue env t s"
  have s': "waiting ?s' = waiting s @ [?i]" "entries ?s' = entries s @ [?i]"
      "timeout_tasks ?s' = timeout_tasks s @ [?i]" "runner_tasks ?s' = runner_tasks s"
      "sent ?s' = sent s"
      "objects ?s' = objects s @ [(new_entry env t)\<lparr>timeout_task := Some Running\<rparr>]"
    by (simp_all add: enqueue_def upd_entry_def Let_def)
  have fresh: "?i \<notin> set (waiting s)" "?i \<notin> set (entries s)" "?i \<notin> set (timeout_tasks s)"
      "?i \<notin> set (runner_tasks s)" "?i \<notin> fst ` set (sent s)"
    using shape_lists [OF assms] by (auto simp: lists_ok_def)
  have "entry_shape None ?s' j (objects ?s' ! j)" if "j < Suc ?i" for j
  proof (cases "j = ?i")
    case True
    then show ?thesis
      using fresh by (auto simp: s' entry_shape_def new_entry_def map_of_eq_None_iff)
  next
    case False
    then have "j < ?i" using that by simp
    with shape_entry [OF assms this] show ?thesis
      by (simp add: s' entry_shape_def nth_append)
  qed
  then show "shape None ?s'"
    using shape_lists [OF assms] fresh by (intro shapeI) (auto simp: s' lists_ok_def less_SucI)
  show "in_flight_set ?s' = in_flight_set s"
    by (auto simp: s' in_flight_set_def new_entry_def nth_append less_Suc_eq)
qed

lemma shape_cancel_backend:
  assumes "shape None s" and "i < length (objects s)" and "state (objects s ! i) = IN_FLIGHT"
  shows "shape None (cancel_backend i status s)"
    and "in_flight_set (cancel_backend i status s) = in_flight_set s"
    and "forced_status (objects (cancel_backend i status s) ! i) = Some status"
proof -
  let ?s' = "cancel_backend i status s"
  have "entry_shape None ?s' j (objects ?s' ! j)" if "j < length (objects s)" for j
    using shape_entry [OF assms(1) that] assms(2,3)
    by (cases "j = i")
       (auto simp: cancel_backend_def upd_entry_def entry_shape_def request_cancel_def
         split: option.splits)
  then show "shape None ?s'"
    using shape_lists [OF assms(1)]
    by (intro shapeI) (simp_all add: lists_ok_def cancel_backend_def upd_entry_def)
  show "in_flight_set ?s' = in_flight_set s"
    using assms(2,3) by (auto simp: cancel_backend_def upd_entry_def in_flight_set_def nth_list_update)
  show "forced_status (objects ?s' ! i) = Some status"
    using assms(2) by (simp add: cancel_backend_def upd_entry_def)
qed

text \<open>A watcher may leave the task set when its entry is done or already has a forced status.\<close>

lemma shape_drop_watcher:
  assumes "shape H s" and "i < length (objects s) \<Longrightarrow>
      state (objects s ! i) = DONE \<or> forced_status (objects s ! i) \<noteq> None \<or> H = Some i"
  shows "shape H (s\<lparr>timeout_tasks := removeAll i (timeout_tasks s)\<rparr>)"
proof
  show "lists_ok H (s\<lparr>timeout_tasks := removeAll i (timeout_tasks s)\<rparr>)"
    using shape_lists [OF assms(1)] by (auto simp: lists_ok_def distinct_removeAll)
  fix j assume j: "j < length (objects (s\<lparr>timeout_tasks := removeAll i (timeout_tasks s)\<rparr>))"
  then have "entry_shape H s j (objects s ! j)" by (simp add: shape_entry [OF assms(1)])
  then show "entry_shape H (s\<lparr>timeout_tasks := removeAll i (timeout_tasks s)\<rparr>) j
      (objects (s\<lparr>timeout_tasks := removeAll i (timeout_tasks s)\<rparr>) ! j)"
    using assms(2) j by (cases "j = i") (auto simp: entry_shape_def)
qed

end
