(* ===== verification/ControllerLemmas.thy ===== *)
theory ControllerLemmas
  imports AdaptiveClipping
begin

text \<open>
  Lemmas on the controller: what one scan of the tighten thresholds computes, the three
  outcomes of an update (tighten, relax one level, stay), and the invariant that ties the
  state to the decisions taken so far.
\<close>

section \<open>The scan\<close>

definition start_of :: "real \<Rightarrow> real option \<Rightarrow> real" where
  "start_of now_s a = (case a of None \<Rightarrow> now_s | Some t \<Rightarrow> t)"

definition next_since :: "real \<Rightarrow> real \<Rightarrow> nat \<Rightarrow> nat \<Rightarrow> real \<Rightarrow> real option \<Rightarrow> real option" where
  "next_since now_s p lvl v threshold a =
     (if v \<le> lvl then None else if threshold \<le> p then Some (start_of now_s a) else None)"

definition hold_elapsed :: "real \<Rightarrow> real \<Rightarrow> real \<Rightarrow> nat \<Rightarrow> nat \<Rightarrow> real \<Rightarrow> real option \<Rightarrow> bool" where
  "hold_elapsed hold now_s p lvl v threshold a \<longleftrightarrow>
     lvl < v \<and> threshold \<le> p \<and> hold \<le> now_s - start_of now_s a"

lemma scan_entry_since:
  assumes "v - 1 < length (since sc)"
  shows "since (scan_entry hold now_s p lvl v threshold sc)
    = (since sc)[v - 1 := next_since now_s p lvl v threshold (since sc ! (v - 1))]"
  using assms
  by (cases "since sc ! (v - 1)")
     (auto simp: scan_entry_def next_since_def start_of_def Let_def list_update_id
       intro!: nth_equalityI simp: nth_list_update)

lemma scan_entry_elapsed:
  "elapsed_levels (scan_entry hold now_s p lvl v threshold sc) = elapsed_levels sc @
    (if hold_elapsed hold now_s p lvl v threshold (since sc ! (v - 1)) then [v] else [])"
  by (cases "since sc ! (v - 1)")
     (auto simp: scan_entry_def hold_elapsed_def start_of_def Let_def)

lemma scan_entry_flags:
  "tighten_started (scan_entry hold now_s p lvl v threshold sc) \<or>
   tighten_pending (scan_entry hold now_s p lvl v threshold sc)
   \<longleftrightarrow> tighten_started sc \<or> tighten_pending sc \<or> (lvl < v \<and> threshold \<le> p)"
  by (cases "since sc ! (v - 1)") (auto simp: scan_entry_def Let_def)

lemma scan_loop_length:
  "length (since (scan_loop hold now_s p lvl v ts sc)) = length (since sc)"
proof (induction ts arbitrary: v sc)
  case (Cons t ts)
  have "length (since (scan_entry hold now_s p lvl v t sc)) = length (since sc)"
    by (auto simp: scan_entry_def Let_def)
  with Cons show ?case by simp
qed simp

lemma scan_loop_since:
  assumes "0 < v" and "v - 1 + length ts \<le> length (since sc)" and "i < length (since sc)"
  shows "since (scan_loop hold now_s p lvl v ts sc) ! i =
    (if v - 1 \<le> i \<and> i < v - 1 + length ts
     then next_since now_s p lvl (Suc i) (ts ! (i - (v - 1))) (since sc ! i) else since sc ! i)"
  using assms
proof (induction ts arbitrary: v sc)
  case (Cons t ts)
  let ?sc = "scan_entry hold now_s p lvl v t sc"
  have eq: "since ?sc = (since sc)[v - 1 := next_since now_s p lvl v t (since sc ! (v - 1))]"
    using Cons.prems by (intro scan_entry_since) simp
  then have len: "length (since ?sc) = length (since sc)" by simp
  have "since (scan_loop hold now_s p lvl (Suc v) ts ?sc) ! i =
    (if v \<le> i \<and> i < v + length ts
     then next_since now_s p lvl (Suc i) (ts ! (i - v)) (since ?sc ! i) else since ?sc ! i)"
    using Cons.prems len Cons.IH [of "Suc v" ?sc] by simp
  then show ?case
    using Cons.prems by (auto simp: eq nth_list_update nth_Cons' Suc_diff_le split: if_splits)
qed auto

lemma scan_loop_elapsed:
  assumes "0 < v" and "v - 1 + length ts \<le> length (since sc)"
  shows "n \<in> set (elapsed_levels (scan_loop hold now_s p lvl v ts sc)) \<longleftrightarrow>
    n \<in> set (elapsed_levels sc) \<or>
    v \<le> n \<and> n < v + length ts \<and>
      hold_elapsed hold now_s p lvl n (ts ! (n - v)) (since sc ! (n - 1))"
  using assms
proof (induction ts arbitrary: v sc)
  case (Cons t ts)
  let ?sc = "scan_entry hold now_s p lvl v t sc"
  have eq: "since ?sc = (since sc)[v - 1 := next_since now_s p lvl v t (since sc ! (v - 1))]"
    using Cons.prems by (intro scan_entry_since) simp
  have other: "since ?sc ! (n - 1) = since sc ! (n - 1)" if "Suc v \<le> n"
    using that Cons.prems(1) by (simp add: eq)
  have IH: "n \<in> set (elapsed_levels (scan_loop hold now_s p lvl (Suc v) ts ?sc)) \<longleftrightarrow>
    n \<in> set (elapsed_levels ?sc) \<or>
    Suc v \<le> n \<and> n < Suc v + length ts \<and>
      hold_elapsed hold now_s p lvl n (ts ! (n - Suc v)) (since sc ! (n - 1))"
    using Cons.prems Cons.IH [of "Suc v" ?sc] other by (auto simp: eq)
  have entry: "n \<in> set (elapsed_levels ?sc) \<longleftrightarrow> n \<in> set (elapsed_levels sc) \<or>
    n = v \<and> hold_elapsed hold now_s p lvl v t (since sc ! (v - 1))"
    by (auto simp: scan_entry_elapsed)
  show ?case
  proof (cases "Suc v \<le> n")
    case True
    then have "(t # ts) ! (n - v) = ts ! (n - Suc v)"
      by (simp add: nth_Cons')
    with True show ?thesis by (simp add: IH entry)
  next
    case False
    then show ?thesis by (auto simp: IH entry not_less_eq_eq)
  qed
qed auto

lemma scan_loop_flags:
  "tighten_started (scan_loop hold now_s p lvl v ts sc) \<or>
   tighten_pending (scan_loop hold now_s p lvl v ts sc)
   \<longleftrightarrow> tighten_started sc \<or> tighten_pending sc \<or> (\<exists>i < length ts. lvl < v + i \<and> ts ! i \<le> p)"
proof (induction ts arbitrary: v sc)
  case (Cons t ts)
  have split: "(\<exists>i < length (t # ts). lvl < v + i \<and> (t # ts) ! i \<le> p) \<longleftrightarrow>
    lvl < v \<and> t \<le> p \<or> (\<exists>i < length ts. lvl < Suc v + i \<and> ts ! i \<le> p)"
    unfolding list.size(4) add_0_right add_Suc_right Suc_eq_plus1 [symmetric]
    by (subst Ex_less_Suc2) simp
  show ?case
    unfolding split scan_loop.simps Cons.IH
    using scan_entry_flags [of hold now_s p lvl v t sc] by blast
qed simp

lemma bisect_right_prefix: "k < bisect_right xs p \<Longrightarrow> xs ! k \<le> p"
  by (induction xs p arbitrary: k rule: bisect_right.induct)
     (auto simp: nth_Cons' split: if_splits)

lemma bisect_right_le: "bisect_right xs p \<le> length xs"
  by (induction xs p rule: bisect_right.induct) auto

section \<open>One update\<close>

lemma thresholds_length:
  assumes "valid_admission c"
  shows "length (adaptive_clip_tighten_thresholds c) = 3"
    and "length (adaptive_clip_relax_thresholds c) = 3"
  by (rule valid_admission_thresholds [OF assms]; simp)+

lemma level_of_le: "n \<le> 3 \<Longrightarrow> \<exists>l. level_of n = Inr l \<and> level_int l = n"
  by (auto simp: level_of_def numeral_eq_Suc le_Suc_eq)

abbreviation thr :: "AdmissionControlConfig \<Rightarrow> nat \<Rightarrow> real" where
  "thr c i \<equiv> adaptive_clip_tighten_thresholds c ! i"

abbreviation relax_thr :: "AdmissionControlConfig \<Rightarrow> nat \<Rightarrow> real" where
  "relax_thr c i \<equiv> adaptive_clip_relax_thresholds c ! i"

lemma thresholds_order:
  assumes "valid_admission c"
  shows "i \<le> j \<Longrightarrow> j < 3 \<Longrightarrow> thr c i \<le> thr c j" and "i < 3 \<Longrightarrow> relax_thr c i < thr c i"
proof -
  obtain t1 t2 t3 r1 r2 r3 where t: "adaptive_clip_tighten_thresholds c = [t1, t2, t3]"
    "adaptive_clip_relax_thresholds c = [r1, r2, r3]" "t1 < t2" "t2 < t3" "r1 < t1" "r2 < t2" "r3 < t3"
    using valid_admission_thresholds [OF assms] by metis
  show "i \<le> j \<Longrightarrow> j < 3 \<Longrightarrow> thr c i \<le> thr c j"
    using t by (auto simp: less_Suc_eq le_Suc_eq numeral_3_eq_3)
  show "i < 3 \<Longrightarrow> relax_thr c i < thr c i"
    using t by (auto simp: less_Suc_eq numeral_3_eq_3)
qed

text \<open>The start list after the scan, and after a tightening to \<open>l\<close>.\<close>

definition scanned ::
    "AdmissionControlConfig \<Rightarrow> AdaptiveClipController \<Rightarrow> real \<Rightarrow> nat \<Rightarrow> real option" where
  "scanned c s now_s i =
     next_since now_s (pressure s) (level_int (level s)) (Suc i) (thr c i) (tighten_since_s s ! i)"

datatype outcome =
    Tighten
  | Relax
  | Stay

fun outcome_rel ::
  "AdmissionControlConfig \<Rightarrow> real \<Rightarrow> AdaptiveClipController \<Rightarrow> outcome \<Rightarrow> AdaptiveClipController \<Rightarrow> bool"
where
  "outcome_rel c now_s s Tighten s' \<longleftrightarrow>
     level s < level s' \<and> relax_since_s s' = None \<and>
     thr c (level_int (level s') - 1) \<le> pressure s \<and>
     adaptive_clip_tighten_hold_s c
       \<le> now_s - start_of now_s (tighten_since_s s ! (level_int (level s') - 1)) \<and>
     (\<forall>i < 3. tighten_since_s s' ! i = (if i < level_int (level s') then None else scanned c s now_s i))"
| "outcome_rel c now_s s Relax s' \<longleftrightarrow>
     level s \<noteq> L0 \<and> level_int (level s') = level_int (level s) - 1 \<and> relax_since_s s' = None \<and>
     pressure s < relax_thr c (level_int (level s) - 1) \<and>
     adaptive_clip_relax_hold_s c \<le> now_s - start_of now_s (relax_since_s s) \<and>
     (\<forall>i < 3. tighten_since_s s' ! i = scanned c s now_s i)"
| "outcome_rel c now_s s Stay s' \<longleftrightarrow>
     level s' = level s \<and>
     (relax_since_s s' = None \<or>
      level s \<noteq> L0 \<and> pressure s < relax_thr c (level_int (level s) - 1) \<and>
      relax_since_s s' = Some (start_of now_s (relax_since_s s))) \<and>
     (\<forall>i < 3. tighten_since_s s' ! i = scanned c s now_s i)"

lemma run_scan_facts:
  assumes "valid_admission c" and "length (tighten_since_s s) = 3"
  shows "length (since (run_scan c s now_s)) = 3"
    and "i < 3 \<Longrightarrow> since (run_scan c s now_s) ! i = scanned c s now_s i"
    and "n \<in> set (elapsed_levels (run_scan c s now_s)) \<longleftrightarrow>
      1 \<le> n \<and> n \<le> 3 \<and> hold_elapsed (adaptive_clip_tighten_hold_s c) now_s (pressure s)
         (level_int (level s)) n (thr c (n - 1)) (tighten_since_s s ! (n - 1))"
    and "tighten_started (run_scan c s now_s) \<or> tighten_pending (run_scan c s now_s) \<longleftrightarrow>
      (\<exists>i < 3. level_int (level s) \<le> i \<and> thr c i \<le> pressure s)"
  using assms thresholds_length(1) [OF assms(1)]
  by (auto simp: run_scan_def scan_loop_length scan_loop_since scan_loop_elapsed scan_loop_flags
      scanned_def less_Suc_eq_le)

text \<open>Below the relax threshold of a raised level the relax hold starts, runs on, or has elapsed.\<close>

lemma hold_or_relax_below:
  assumes len: "length (tighten_since_s s) = 3" and scan: "\<forall>i < 3. since sc ! i = scanned c s now_s i"
    and low: "\<not> level_int (level s) < target"
    and raised: "\<not> (level s = L0 \<or> relax_thr c (level_int (level s) - 1) \<le> pressure s)"
    and res: "hold_or_relax c (s\<lparr>tighten_since_s := since sc\<rparr>) target sc now_s = (s', r)"
  shows "\<exists>trigger k. r = Inr trigger \<and> outcome_rel c now_s s k s' \<and> k \<noteq> Tighten \<and>
    s' = s\<lparr>level := level s', tighten_since_s := since sc, relax_since_s := relax_since_s s'\<rparr>"
proof -
  have press [simp]: "pressure (s\<lparr>tighten_since_s := since sc\<rparr>) = pressure s"
    by (simp add: pressure_def)
  obtain l where l: "level_of (level_int (level s) - 1) = Inr l" "level_int l = level_int (level s) - 1"
    using level_of_le [of "level_int (level s) - 1"] level_int_le_3 [of "level s"]
    by (meson diff_le_self order_trans)
  show ?thesis
  proof (cases "adaptive_clip_relax_hold_s c \<le> now_s - start_of now_s (relax_since_s s)")
    case True
    with raised low res scan l show ?thesis
      by (intro exI [of _ RELAX_HOLD_ELAPSED] exI [of _ Relax])
         (auto simp: hold_or_relax_def Let_def start_of_def split: option.splits)
  next
    case waiting: False
    with raised low res scan show ?thesis
      by (intro exI [of _ "if relax_since_s s = None then RELAX_HOLD_STARTED else RELAX_HOLD_PENDING"]
          exI [of _ Stay])
         (auto simp: hold_or_relax_def Let_def start_of_def split: option.splits)
  qed
qed

lemma hold_or_relax_outcome:
  assumes "valid_admission c" and "length (tighten_since_s s) = 3"
    and sc: "sc = run_scan c s now_s"
    and target: "target = bisect_right (adaptive_clip_tighten_thresholds c) (pressure s)"
    and res: "hold_or_relax c (s\<lparr>tighten_since_s := since sc\<rparr>) target sc now_s = (s', r)"
  shows "\<exists>trigger k. r = Inr trigger \<and> outcome_rel c now_s s k s' \<and> k \<noteq> Tighten \<and>
    s' = s\<lparr>level := level s', tighten_since_s := since sc, relax_since_s := relax_since_s s'\<rparr>"
proof -
  have scan: "\<forall>i < 3. since sc ! i = scanned c s now_s i"
    using run_scan_facts(2) [OF assms(1,2)] sc by simp
  have press [simp]: "pressure (s\<lparr>tighten_since_s := since sc\<rparr>) = pressure s"
    by (simp add: pressure_def)
  consider "level_int (level s) < target"
    | "\<not> level_int (level s) < target" "level s = L0 \<or> relax_thr c (level_int (level s) - 1) \<le> pressure s"
    | "\<not> level_int (level s) < target" "\<not> (level s = L0 \<or> relax_thr c (level_int (level s) - 1) \<le> pressure s)"
    by blast
  then show ?thesis
  proof cases
    case 1
    then have "target - 1 < 3" "level_int (level s) \<le> target - 1" "thr c (target - 1) \<le> pressure s"
      using bisect_right_le [of "adaptive_clip_tighten_thresholds c" "pressure s"]
        thresholds_length(1) [OF assms(1)] bisect_right_prefix [of "target - 1"] target
      by auto
    then have "tighten_started sc \<or> tighten_pending sc"
      using run_scan_facts(4) [OF assms(1,2)] sc by blast
    with 1 res scan show ?thesis
      by (intro exI [of _ "if tighten_reset sc then TIGHTEN_HOLD_RESET
            else if tighten_started sc then TIGHTEN_HOLD_STARTED else TIGHTEN_HOLD_PENDING"]
          exI [of _ Stay])
         (auto simp: hold_or_relax_def)
  next
    case 2
    with res scan have "outcome_rel c now_s s Stay s' \<and> (\<exists>trigger. r = Inr trigger) \<and>
        s' = s\<lparr>level := level s', tighten_since_s := since sc, relax_since_s := relax_since_s s'\<rparr>"
      by (auto simp: hold_or_relax_def Let_def split: if_splits)
    then show ?thesis by blast
  next
    case 3
    show ?thesis by (rule hold_or_relax_below [OF assms(2) scan 3 res])
  qed
qed

lemma update_level_outcome:
  assumes c: "valid_admission c" and len: "length (tighten_since_s s) = 3"
    and res: "update_level c s now_s = (s', r)"
  shows "\<exists>trigger k. r = Inr trigger \<and> outcome_rel c now_s s k s' \<and>
    length (tighten_since_s s') = 3 \<and>
    s' = s\<lparr>level := level s', tighten_since_s := tighten_since_s s', relax_since_s := relax_since_s s'\<rparr>"
proof -
  let ?sc = "run_scan c s now_s"
  note facts = run_scan_facts [OF c len, where now_s = now_s]
  have "bisect_right (adaptive_clip_tighten_thresholds c) (pressure s) \<le> 3"
    using bisect_right_le thresholds_length(1) [OF c] by metis
  then obtain target where target:
      "level_of (bisect_right (adaptive_clip_tighten_thresholds c) (pressure s)) = Inr target"
    using level_of_le by blast
  show ?thesis
  proof (cases "elapsed_levels ?sc = []")
    case True
    with res target have h: "hold_or_relax c (s\<lparr>tighten_since_s := since ?sc\<rparr>)
        (bisect_right (adaptive_clip_tighten_thresholds c) (pressure s)) ?sc now_s = (s', r)"
      by (simp add: update_level_def Let_def level_of_Inr)
    obtain trigger k where "r = Inr trigger" "outcome_rel c now_s s k s'"
      and s': "s' = s\<lparr>level := level s', tighten_since_s := since ?sc, relax_since_s := relax_since_s s'\<rparr>"
      using hold_or_relax_outcome [OF c len refl refl h] by blast
    moreover have "tighten_since_s s' = since ?sc" by (subst s') simp
    ultimately show ?thesis using facts(1) by auto
  next
    case False
    let ?n = "Max (set (elapsed_levels ?sc))"
    have "?n \<in> set (elapsed_levels ?sc)" using False by simp
    then have n: "1 \<le> ?n" "?n \<le> 3" and el: "hold_elapsed (adaptive_clip_tighten_hold_s c) now_s
        (pressure s) (level_int (level s)) ?n (thr c (?n - 1)) (tighten_since_s s ! (?n - 1))"
      using facts(3) by blast+
    obtain l where l: "level_of ?n = Inr l" "level_int l = ?n"
      using level_of_le n(2) by blast
    have s': "s' = s\<lparr>level := l, tighten_since_s := map (\<lambda>(i, t). if i < level_int l then None else t)
           (zip [0..<3] (since ?sc)), relax_since_s := None\<rparr>" "r = Inr TIGHTEN_HOLD_ELAPSED"
      using res target False l(1) facts(1) by (auto simp: update_level_def Let_def)
    have "tighten_since_s s' ! i = (if i < level_int l then None else scanned c s now_s i)"
      if "i < 3" for i
      using that facts(1,2) by (simp add: s')
    with el l(2) show ?thesis
      by (intro exI [of _ TIGHTEN_HOLD_ELAPSED] exI [of _ Tighten])
         (auto simp: s' facts(1) hold_elapsed_def less_AdaptiveClipLevel_def)
  qed
qed

text \<open>The level rules do not touch the observation.\<close>

lemma hold_or_relax_observation:
  "hold_or_relax c s target sc now_s = (s', r) \<Longrightarrow>
   q_bar s' = q_bar s \<and> q_inst s' = q_inst s \<and> last_update_s s' = last_update_s s"
  by (auto simp: hold_or_relax_def Let_def split: if_splits option.splits sum.splits)

lemma update_level_observation:
  "update_level c s now_s = (s', r) \<Longrightarrow>
   q_bar s' = q_bar s \<and> q_inst s' = q_inst s \<and> last_update_s s' = last_update_s s"
  by (auto simp: update_level_def Let_def split: if_splits sum.splits
      dest!: hold_or_relax_observation)

text \<open>No elapsed hold is left unanswered: the level reaches every level whose hold has run out.\<close>

lemma update_level_catches:
  assumes c: "valid_admission c" and len: "length (tighten_since_s s) = 3"
    and res: "update_level c s now_s = (s', r)" and "i < 3" and "level_int (level s) \<le> i"
    and "thr c i \<le> pressure s"
    and "adaptive_clip_tighten_hold_s c \<le> now_s - start_of now_s (tighten_since_s s ! i)"
  shows "i < level_int (level s')"
proof -
  let ?sc = "run_scan c s now_s"
  note facts = run_scan_facts [OF c len, where now_s = now_s]
  have mem: "Suc i \<in> set (elapsed_levels ?sc)"
    using assms facts(3) [of "Suc i"] by (simp add: hold_elapsed_def)
  then have "Max (set (elapsed_levels ?sc)) \<in> set (elapsed_levels ?sc)"
    by (intro Max_in) auto
  then have "Max (set (elapsed_levels ?sc)) \<le> 3" using facts(3) by blast
  then obtain l where l: "level_of (Max (set (elapsed_levels ?sc))) = Inr l"
      "level_int l = Max (set (elapsed_levels ?sc))"
    using level_of_le by blast
  have "bisect_right (adaptive_clip_tighten_thresholds c) (pressure s) \<le> 3"
    using bisect_right_le thresholds_length(1) [OF c] by metis
  then obtain target where
      "level_of (bisect_right (adaptive_clip_tighten_thresholds c) (pressure s)) = Inr target"
    using level_of_le by blast
  moreover have "elapsed_levels ?sc \<noteq> []" using mem by auto
  ultimately have "level s' = l"
    using res l(1) by (auto simp: update_level_def Let_def)
  then show ?thesis using l(2) Max_ge [OF _ mem] by simp
qed

definition next_q_bar :: "AdmissionControlConfig \<Rightarrow> AdaptiveClipController \<Rightarrow> real \<Rightarrow> real" where
  "next_q_bar c s t =
     (case last_update_s s of None \<Rightarrow> q_bar s
      | Some t0 \<Rightarrow> ewma (adaptive_clip_ewma_tau_s c) (t - t0) (q_bar s) (q_inst s))"

definition observed :: "AdmissionControlConfig \<Rightarrow> AdaptiveClipController \<Rightarrow> int \<Rightarrow> real \<Rightarrow>
    AdaptiveClipController" where
  "observed c s q t = s\<lparr>q_bar := next_q_bar c s t, last_update_s := Some t, q_inst := q\<rparr>"

lemma observed_simps [simp]:
  "level (observed c s q t) = level s" "q_inst (observed c s q t) = q"
  "q_bar (observed c s q t) = next_q_bar c s t" "last_update_s (observed c s q t) = Some t"
  "tighten_since_s (observed c s q t) = tighten_since_s s"
  "relax_since_s (observed c s q t) = relax_since_s s"
  by (simp_all add: observed_def)

text \<open>The checks \<open>update\<close> makes before it assigns anything.\<close>

definition accepted :: "AdaptiveClipController \<Rightarrow> int \<Rightarrow> real \<Rightarrow> bool" where
  "accepted s q t \<longleftrightarrow> 0 \<le> q \<and> (\<forall>t0. last_update_s s = Some t0 \<longrightarrow> t0 \<le> t)"

lemma update_accepted:
  "update c s q clock = (s', Inr d) \<Longrightarrow> \<exists>t. clock = Fin t \<and> accepted s q t"
  by (cases clock)
     (auto simp: update_def accepted_def Let_def not_less split: if_splits option.splits)

lemma update_eq:
  assumes "accepted s q t"
  shows "update c s q (Fin t) =
    (let (s2, r) = update_level c (observed c s q t) t in
     (s2, and_then r (\<lambda>trigger. Inr
        \<lparr>decision_time_s = t, decision_q_inst = q_inst s2, decision_q_bar = q_bar s2,
         old_level = level s, new_level = level s2,
         decision_selected_cap = selected_cap c s2, trigger_reason = trigger\<rparr>)))"
  using assms
  by (auto simp: update_def accepted_def observed_def next_q_bar_def Let_def not_less
      split: option.splits)

lemma update_outcome:
  assumes "valid_admission c" and "length (tighten_since_s s) = 3" and "accepted s q t"
  obtains s' d k where "update c s q (Fin t) = (s', Inr d)"
    and "outcome_rel c t (observed c s q t) k s'"
    and "length (tighten_since_s s') = 3"
    and "q_inst s' = q" "q_bar s' = next_q_bar c s t" "last_update_s s' = Some t"
    and "decision_time_s d = t" "decision_q_inst d = q" "decision_q_bar d = next_q_bar c s t"
      "old_level d = level s" "new_level d = level s'" "decision_selected_cap d = selected_cap c s'"
proof -
  obtain s2 r where r: "update_level c (observed c s q t) t = (s2, r)" by fastforce
  obtain trigger k where "r = Inr trigger" "outcome_rel c t (observed c s q t) k s2"
      "length (tighten_since_s s2) = 3"
    and s2: "s2 = (observed c s q t)\<lparr>level := level s2, tighten_since_s := tighten_since_s s2,
        relax_since_s := relax_since_s s2\<rparr>"
    using update_level_outcome [OF assms(1) _ r] assms(2) by auto
  moreover have "q_inst s2 = q" "q_bar s2 = next_q_bar c s t" "last_update_s s2 = Some t"
    by (subst s2, simp)+
  ultimately show thesis
    using that r by (simp add: update_eq [OF assms(3)])
qed

text \<open>The selected cap is one of the configured caps.\<close>

lemma selected_cap_mem:
  assumes "valid_admission c" and "selected_cap c s = Some cap"
  shows "cap \<in> set (adaptive_clip_caps c)" and "1 \<le> cap"
proof -
  obtain a b d where caps: "adaptive_clip_caps c = [a, b, d]" and "a > b" "b > d" "d \<ge> 512"
    using valid_admission_caps [OF assms(1)] by metis
  moreover have "cap \<in> {a, b, d}"
    using assms(2) caps by (cases "level s") (auto simp: selected_cap_def)
  ultimately show "cap \<in> set (adaptive_clip_caps c)" and "1 \<le> cap" by auto
qed

end
