(* ===== verification/ControllerContract.thy ===== *)
theory ControllerContract
  imports ControllerLemmas
begin

text \<open>
  What a dispatcher may rely on from a depth controller, as the locale \<open>depth_controller\<close>, and its
  interpretation on the controller of src/sloserve/router/adaptive_clipping.py. Its clients are the
  admission queue, the low-load probe and the runs of updates: they read a clock that never goes back and
  show depths that are not negative, so they are never refused.
\<close>

section \<open>The interface\<close>

locale depth_controller =
  fixes usable :: "'c \<Rightarrow> bool"
    and initial :: "'c \<Rightarrow> 's"
    and decide :: "'c \<Rightarrow> 's \<Rightarrow> int \<Rightarrow> pyfloat \<Rightarrow> 's \<times> 'd result"
    and ready_at :: "'s \<Rightarrow> real \<Rightarrow> bool"
    and seen :: "'d \<Rightarrow> int \<times> real"
    and cap :: "'d \<Rightarrow> int option"
    and acting :: "'d \<Rightarrow> bool"
  assumes initial_ready: "usable c \<Longrightarrow> ready_at (initial c) t"
    and ready_mono: "ready_at s t \<Longrightarrow> t \<le> u \<Longrightarrow> ready_at s u"
    and decide_ready: "usable c \<Longrightarrow> ready_at s t \<Longrightarrow> 0 \<le> q \<Longrightarrow> \<exists>s' d. decide c s q (Fin t) = (s', Inr d) \<and>
      ready_at s' t \<and> seen d = (q, t) \<and> (\<forall>x. cap d = Some x \<longrightarrow> 1 \<le> x \<and> acting d)"
begin

lemma decides:
  assumes "usable c" and "ready_at s t" and "0 \<le> q" and "t \<le> u"
  obtains s' d where "decide c s q (Fin t) = (s', Inr d)" and "seen d = (q, t)" and "ready_at s' u"
    and "\<And>x. cap d = Some x \<Longrightarrow> 1 \<le> x" and "cap d \<noteq> None \<Longrightarrow> acting d"
  using decide_ready [OF assms(1-3)] ready_mono assms(4) by (metis not_None_eq)

text \<open>A client: any sequence of readings, until one is refused.\<close>

fun decisions :: "'c \<Rightarrow> 's \<Rightarrow> (int \<times> pyfloat) list \<Rightarrow> 's \<times> 'd list result" where
  "decisions c s [] = (s, Inr [])"
| "decisions c s ((q, t) # us) =
     (case decide c s q t of
        (s1, Inl e) \<Rightarrow> (s1, Inl e)
      | (s1, Inr d) \<Rightarrow> (case decisions c s1 us of (s2, r) \<Rightarrow> (s2, and_then r (\<lambda>ds. Inr (d # ds)))))"

lemma decisions_total:
  assumes "usable c" and "ready_at s t" and "\<forall>(q, clock) \<in> set us. 0 \<le> q \<and> isfinite clock \<and> t \<le> real_of clock"
    and "sorted (map (\<lambda>u. real_of (snd u)) us)"
  shows "\<exists>s' ds. decisions c s us = (s', Inr ds) \<and> map seen ds = map (\<lambda>(q, clock). (q, real_of clock)) us"
  using assms(2-4)
proof (induction us arbitrary: s t)
  case (Cons u us)
  obtain q t' where u: "u = (q, Fin t')" and le: "0 \<le> q" "t \<le> t'"
    using Cons.prems(2) by (cases u) (auto simp: isfinite_iff)
  obtain s1 d where d: "decide c s q (Fin t') = (s1, Inr d)" "seen d = (q, t')" "ready_at s1 t'"
    using decides [OF assms(1) ready_mono [OF Cons.prems(1) le(2)] le(1) order_refl] by metis
  have "\<forall>(q, clock) \<in> set us. 0 \<le> q \<and> isfinite clock \<and> t' \<le> real_of clock"
    using Cons.prems(2,3) u by fastforce
  from Cons.IH [OF d(3) this] Cons.prems(3) obtain s' ds
    where "decisions c s1 us = (s', Inr ds)" "map seen ds = map (\<lambda>(q, clock). (q, real_of clock)) us" by auto
  then show ?case using u d by simp
qed simp

end

section \<open>The controller keeps it\<close>

definition controller_ready :: "AdaptiveClipController \<Rightarrow> real \<Rightarrow> bool" where
  "controller_ready s t \<longleftrightarrow>
     length (tighten_since_s s) = 3 \<and> (\<forall>t0. last_update_s s = Some t0 \<longrightarrow> t0 \<le> t)"

lemma update_ready:
  assumes "valid_admission c" and "controller_ready s t" and "0 \<le> q"
  shows "\<exists>s' d. update c s q (Fin t) = (s', Inr d) \<and> controller_ready s' t \<and>
    (decision_q_inst d, decision_time_s d) = (q, t) \<and>
    (\<forall>x. decision_selected_cap d = Some x \<longrightarrow> 1 \<le> x \<and> new_level d \<noteq> L0)"
proof -
  have "length (tighten_since_s s) = 3" "accepted s q t"
    using assms(2,3) by (simp_all add: controller_ready_def accepted_def)
  then obtain s' d where u: "update c s q (Fin t) = (s', Inr d)" "length (tighten_since_s s') = 3"
      "last_update_s s' = Some t" "decision_time_s d = t" "decision_q_inst d = q" "new_level d = level s'"
    and cap: "decision_selected_cap d = selected_cap c s'"
    using update_outcome [OF assms(1)] by metis
  have "1 \<le> x \<and> level s' \<noteq> L0" if "selected_cap c s' = Some x" for x
    using selected_cap_mem(2) [OF assms(1) that] that by (auto simp: selected_cap_def split: if_splits)
  then show ?thesis using u cap by (simp add: controller_ready_def)
qed

interpretation ctl: depth_controller valid_admission controller_start update controller_ready
  "\<lambda>d. (decision_q_inst d, decision_time_s d)" decision_selected_cap "\<lambda>d. new_level d \<noteq> L0"
proof unfold_locales
  show "controller_ready (controller_start c) t" if "valid_admission c" for c t
    using thresholds_length(1) [OF that] by (simp add: controller_ready_def controller_start_def)
  show "controller_ready s u" if "controller_ready s t" and "t \<le> u" for s t u
    using that by (auto simp: controller_ready_def)
qed (rule update_ready)

lemma run_updates_decisions: "ctl.decisions c s us = run_updates c s us"
  by (induction c s us rule: run_updates.induct) (auto split: prod.split sum.split)

end
