(* ===== verification/ControllerRuns.thy ===== *)
theory ControllerRuns
  imports ControllerContract
begin

text \<open>
  Runs of the controller: the reachable states together with the decisions taken so far, and
  the invariant that reads the hold timers as facts about those decisions. \<open>since_when\<close> says
  that a condition has held at every decision from the one made at time \<open>t0\<close> to the last.
\<close>

section \<open>Reachable states\<close>

inductive ctl_run ::
    "AdmissionControlConfig \<Rightarrow> AdaptiveClipController \<Rightarrow> AdaptiveClipDecision list \<Rightarrow> bool"
  for c where
  ctl_start: "AdaptiveClipController_init c = Inr s \<Longrightarrow> ctl_run c s []"
| ctl_step: "ctl_run c s ds \<Longrightarrow> update c s q clock = (s', Inr d) \<Longrightarrow> ctl_run c s' (ds @ [d])"

inductive_cases ctl_run_nil: "ctl_run c s []"
inductive_cases ctl_run_snoc: "ctl_run c s (ds @ [d])"

lemma ctl_run_updates:
  "ctl_run c s ds \<Longrightarrow> run_updates c s us = (s', Inr ds') \<Longrightarrow> ctl_run c s' (ds @ ds')"
proof (induction c s us arbitrary: ds ds' s' rule: run_updates.induct)
  case (2 c s q t us)
  obtain s1 d ds1 where u: "update c s q t = (s1, Inr d)"
    and r: "run_updates c s1 us = (s', Inr ds1)" and "ds' = d # ds1"
    using "2.prems"(2) by (auto split: prod.splits sum.splits simp: and_then_Inr)
  moreover have "ctl_run c s1 (ds @ [d])"
    using "2.prems"(1) u by (rule ctl_step)
  ultimately show ?case
    using "2.IH" [OF u [symmetric] refl _ r, of "ds @ [d]"] by simp
qed simp

text \<open>Every prefix of the decisions is itself the history of a reachable state.\<close>

lemma ctl_run_prefix:
  assumes "ctl_run c s ds" and "m < length ds"
  obtains s0 s1 q t where "ctl_run c s0 (take m ds)" and "accepted s0 q t"
    and "update c s0 q (Fin t) = (s1, Inr (ds ! m))" and "ctl_run c s1 (take (Suc m) ds)"
  using assms
proof (induction arbitrary: thesis rule: ctl_run.induct)
  case (ctl_step s ds q clock s' d)
  show ?case
  proof (cases "m < length ds")
    case True
    obtain s0 q0 t0 s1 where "ctl_run c s0 (take m ds)" "accepted s0 q0 t0"
      "update c s0 q0 (Fin t0) = (s1, Inr (ds ! m))" "ctl_run c s1 (take (Suc m) ds)"
      using ctl_step.IH [OF _ True] by blast
    with True show ?thesis
      using ctl_step.prems(1) [of s0 q0 t0 s1] by (simp add: nth_append)
  next
    case False
    with ctl_step.prems have "m = length ds" by simp
    moreover obtain t where "clock = Fin t" "accepted s q t"
      using update_accepted ctl_step.hyps(2) by blast
    ultimately show ?thesis
      using ctl_step.prems(1) [of s q t s'] ctl_step.hyps ctl_run.ctl_step [OF ctl_step.hyps]
      by simp
  qed
qed simp

text \<open>A history determines the state: a decision records the depth and the time it was given.\<close>

lemma update_inputs:
  assumes "update c s q clock = (s', Inr d)"
  shows "clock = Fin (decision_time_s d) \<and> q = decision_q_inst d"
proof -
  obtain t where t: "clock = Fin t" and a: "accepted s q t" using update_accepted [OF assms] by blast
  obtain s2 r where r: "update_level c (observed c s q t) t = (s2, r)" by fastforce
  with update_level_observation [OF r] assms show ?thesis
    by (auto simp: t update_eq [OF a] and_then_Inr)
qed

lemma ctl_run_unique: "ctl_run c s ds \<Longrightarrow> ctl_run c s' ds \<Longrightarrow> s = s'"
proof (induction arbitrary: s' rule: ctl_run.induct)
  case (ctl_start s)
  from ctl_start(2) show ?case
    by (rule ctl_run_nil) (use ctl_start(1) in simp)
next
  case (ctl_step s ds q clock s1 d)
  obtain s0 q' clock' where r: "ctl_run c s0 ds" "update c s0 q' clock' = (s', Inr d)"
    by (rule ctl_run_snoc [OF ctl_step.prems]) simp_all
  with ctl_step.IH ctl_step.hyps(2) update_inputs [OF ctl_step.hyps(2)] update_inputs [OF r(2)]
  show ?case by simp
qed

section \<open>The history invariant\<close>

definition dpress :: "AdaptiveClipDecision \<Rightarrow> real" where
  "dpress d = max (of_int (decision_q_inst d)) (decision_q_bar d)"

definition since_when ::
    "AdaptiveClipDecision list \<Rightarrow> real \<Rightarrow> (AdaptiveClipDecision \<Rightarrow> bool) \<Rightarrow> bool" where
  "since_when ds t0 P \<longleftrightarrow>
     (\<exists>j < length ds. decision_time_s (ds ! j) = t0 \<and> (\<forall>d \<in> set (drop j ds). P d))"

lemma since_when_more: "since_when ds t0 P \<Longrightarrow> P d \<Longrightarrow> since_when (ds @ [d]) t0 P"
  by (auto simp: since_when_def nth_append intro: less_SucI)

lemma since_when_start: "P d \<Longrightarrow> since_when (ds @ [d]) (decision_time_s d) P"
  unfolding since_when_def by (rule exI [of _ "length ds"]) simp

lemma since_when_step:
  assumes "\<And>t0. a = Some t0 \<Longrightarrow> since_when ds t0 P" and "P d"
  shows "since_when (ds @ [d]) (start_of (decision_time_s d) a) P"
  using assms since_when_more since_when_start by (cases a) (auto simp: start_of_def)

lemma since_when_nth:
  assumes "since_when ds t0 P"
  obtains j where "j < length ds" "decision_time_s (ds ! j) = t0"
    "\<And>k. j \<le> k \<Longrightarrow> k < length ds \<Longrightarrow> P (ds ! k)"
proof -
  obtain j where j: "j < length ds" "decision_time_s (ds ! j) = t0" "\<forall>d \<in> set (drop j ds). P d"
    using assms by (auto simp: since_when_def)
  have "P (ds ! k)" if "j \<le> k" "k < length ds" for k
    using that j nth_mem [of "k - j" "drop j ds"] by simp
  with j that show ?thesis by blast
qed

definition hist ::
    "AdmissionControlConfig \<Rightarrow> AdaptiveClipController \<Rightarrow> AdaptiveClipDecision list \<Rightarrow> bool" where
  "hist c s ds \<longleftrightarrow>
     length (tighten_since_s s) = 3 \<and>
     last_update_s s = (if ds = [] then None else Some (decision_time_s (last ds))) \<and>
     level s = (if ds = [] then L0 else new_level (last ds)) \<and>
     sorted (map decision_time_s ds) \<and>
     0 \<le> q_inst s \<and> 0 \<le> q_bar s \<and>
     (\<forall>i < 3. \<forall>t0. tighten_since_s s ! i = Some t0 \<longrightarrow>
        since_when ds t0 (\<lambda>d. thr c i \<le> dpress d \<and> level_int (old_level d) \<le> i)) \<and>
     (\<forall>t0. relax_since_s s = Some t0 \<longrightarrow> level s \<noteq> L0 \<and>
        since_when ds t0 (\<lambda>d. dpress d < relax_thr c (level_int (level s) - 1) \<and>
          old_level d = level s))"

lemma hist_relax_timer:
  "hist c s ds \<Longrightarrow> relax_since_s s = Some t0 \<Longrightarrow>
   since_when ds t0 (\<lambda>d. dpress d < relax_thr c (level_int (level s) - 1) \<and> old_level d = level s)"
  unfolding hist_def by blast

lemma hist_tighten_timer:
  "hist c s ds \<Longrightarrow> i < 3 \<Longrightarrow> tighten_since_s s ! i = Some t0 \<Longrightarrow>
   since_when ds t0 (\<lambda>d. thr c i \<le> dpress d \<and> level_int (old_level d) \<le> i)"
  unfolding hist_def by blast

lemma ewma_nonneg:
  assumes "0 < tau" and "0 \<le> dt" and "0 \<le> qb" and "0 \<le> q"
  shows "0 \<le> ewma tau dt qb q"
proof -
  have "exp (- dt / tau) \<le> 1" using assms by simp
  with assms show ?thesis by (simp add: ewma_def Let_def)
qed

lemma hist_times:
  assumes "hist c s ds" and "accepted s q t" and "d \<in> set ds"
  shows "decision_time_s d \<le> t"
proof -
  have "ds \<noteq> []" using assms(3) by auto
  then have "decision_time_s d \<le> decision_time_s (last ds)"
    using assms(1,3)
    by (cases ds rule: rev_cases) (auto simp: hist_def sorted_append)
  also have "\<dots> \<le> t"
    using assms(1,2) \<open>ds \<noteq> []\<close> by (simp add: hist_def accepted_def)
  finally show ?thesis .
qed

lemma next_q_bar_nonneg:
  assumes c: "valid_admission c" and h: "hist c s ds" and a: "accepted s q t"
  shows "0 \<le> next_q_bar c s t"
  using h a valid_admission_fields(2) [OF c]
  by (auto simp: next_q_bar_def hist_def accepted_def intro!: ewma_nonneg split: option.splits)

text \<open>What one update does to the state, in the terms of the history.\<close>

lemma hist_update:
  assumes c: "valid_admission c" and h: "hist c s ds" and a: "accepted s q t"
    and u: "update c s q (Fin t) = (s', Inr d)"
  obtains k where "outcome_rel c t (observed c s q t) k s'"
    and "pressure (observed c s q t) = dpress d"
    and "old_level d = level s" "new_level d = level s'" "decision_time_s d = t"
    and "decision_selected_cap d = selected_cap c s'"
    and "q_inst s' = q" "q_bar s' = next_q_bar c s t"
    and "decision_q_inst d = q" "decision_q_bar d = next_q_bar c s t"
    and "length (tighten_since_s s') = 3" "last_update_s s' = Some t"
proof -
  have "length (tighten_since_s s) = 3" using h by (simp add: hist_def)
  from update_outcome [OF c this a] u that show ?thesis
    by (metis (no_types, lifting) Inr_inject Pair_inject dpress_def observed_simps(2,3) pressure_def)
qed

lemma hist_scanned:
  assumes h: "hist c s ds" and "i < 3" and "scanned c (observed c s q t) t i = Some t0"
    and "pressure (observed c s q t) = dpress d" and "old_level d = level s" and "decision_time_s d = t"
  shows "since_when (ds @ [d]) t0 (\<lambda>d. thr c i \<le> dpress d \<and> level_int (old_level d) \<le> i)"
proof -
  have "thr c i \<le> dpress d" "level_int (old_level d) \<le> i"
    "t0 = start_of (decision_time_s d) (tighten_since_s s ! i)"
    using assms by (auto simp: scanned_def next_since_def split: if_splits)
  then show ?thesis
    using h assms(2) since_when_step [of "tighten_since_s s ! i" ds _ d] by (simp add: hist_def)
qed

lemma hist_step:
  assumes c: "valid_admission c" and h: "hist c s ds" and a: "accepted s q t"
    and u: "update c s q (Fin t) = (s', Inr d)"
  shows "hist c s' (ds @ [d])"
proof -
  obtain k where k: "outcome_rel c t (observed c s q t) k s'"
    and p: "pressure (observed c s q t) = dpress d"
    and d: "old_level d = level s" "new_level d = level s'" "decision_time_s d = t"
    and s': "q_inst s' = q" "q_bar s' = next_q_bar c s t"
      "length (tighten_since_s s') = 3" "last_update_s s' = Some t"
    using hist_update [OF c h a u] by metis
  have sorted: "sorted (map decision_time_s (ds @ [d]))"
    using h hist_times [OF h a] d(3) by (auto simp: sorted_append hist_def)
  have tight: "since_when (ds @ [d]) t0 (\<lambda>d. thr c i \<le> dpress d \<and> level_int (old_level d) \<le> i)"
    if "i < 3" "tighten_since_s s' ! i = Some t0" for i t0
  proof -
    have "scanned c (observed c s q t) t i = Some t0"
      using k that by (cases k) (auto split: if_splits)
    from hist_scanned [OF h that(1) this p d(1,3)] show ?thesis .
  qed
  have relax: "level s' \<noteq> L0 \<and>
      since_when (ds @ [d]) t0 (\<lambda>d. dpress d < relax_thr c (level_int (level s') - 1) \<and>
        old_level d = level s')"
    if "relax_since_s s' = Some t0" for t0
  proof -
    have st: "level s' = level s" "level s \<noteq> L0"
        "dpress d < relax_thr c (level_int (level s) - 1)"
        "t0 = start_of (decision_time_s d) (relax_since_s s)"
      using k that p d by (cases k; simp)+
    have "since_when (ds @ [d]) (start_of (decision_time_s d) (relax_since_s s))
        (\<lambda>d. dpress d < relax_thr c (level_int (level s) - 1) \<and> old_level d = level s)"
      by (rule since_when_step [OF hist_relax_timer [OF h]]) (use st d in simp_all)
    with st show ?thesis by simp
  qed
  show ?thesis
    unfolding hist_def
    using sorted tight relax s' d a next_q_bar_nonneg [OF c h a] by (simp add: accepted_def)
qed

lemma hist_start:
  assumes "valid_admission c"
  shows "hist c (controller_start c) []"
  using thresholds_length(1) [OF assms] by (simp add: hist_def controller_start_def)

theorem ctl_run_hist:
  assumes "ctl_run c s ds" and c: "valid_admission c"
  shows "hist c s ds"
  using assms(1)
proof induction
  case (ctl_start s)
  then show ?case
    using hist_start [OF c] by (simp add: AdaptiveClipController_init_def raise_simps)
next
  case (ctl_step s ds q clock s' d)
  then show ?case
    using update_accepted [OF ctl_step.hyps(2)] hist_step [OF c ctl_step.IH] by blast
qed

section \<open>What the last decision of a run shows\<close>

lemma tighten_decision:
  assumes c: "valid_admission c" and h: "hist c s ds" and a: "accepted s q t"
    and u: "update c s q (Fin t) = (s', Inr d)" and up: "old_level d < new_level d"
  obtains t0 where "adaptive_clip_tighten_hold_s c \<le> decision_time_s d - t0"
    and "since_when (ds @ [d]) t0 (\<lambda>e. thr c (level_int (new_level d) - 1) \<le> dpress e \<and>
      level_int (old_level e) \<le> level_int (new_level d) - 1)"
proof -
  obtain k where k: "outcome_rel c t (observed c s q t) k s'"
    and p: "pressure (observed c s q t) = dpress d"
    and d: "old_level d = level s" "new_level d = level s'" "decision_time_s d = t"
    using hist_update [OF c h a u] by metis
  let ?i = "level_int (level s') - 1"
  have "k = Tighten" using k up d by (cases k) (auto simp: less_AdaptiveClipLevel_def)
  with k p have e: "level_int (level s) < level_int (level s')" "thr c ?i \<le> dpress d"
    "adaptive_clip_tighten_hold_s c \<le> t - start_of t (tighten_since_s s ! ?i)"
    by (simp_all add: less_AdaptiveClipLevel_def)
  have i: "?i < 3" using e(1) level_int_le_3 [of "level s'"] by linarith
  have "since_when (ds @ [d]) (start_of (decision_time_s d) (tighten_since_s s ! ?i))
      (\<lambda>e. thr c ?i \<le> dpress e \<and> level_int (old_level e) \<le> ?i)"
    by (rule since_when_step [OF hist_tighten_timer [OF h i]]) (use e d in auto)
  with that e d show ?thesis by simp
qed

lemma relax_decision:
  assumes c: "valid_admission c" and h: "hist c s ds" and a: "accepted s q t"
    and u: "update c s q (Fin t) = (s', Inr d)" and down: "new_level d < old_level d"
  obtains t0 where "level_int (new_level d) = level_int (old_level d) - 1"
    and "adaptive_clip_relax_hold_s c \<le> decision_time_s d - t0"
    and "since_when (ds @ [d]) t0 (\<lambda>e. dpress e < relax_thr c (level_int (old_level d) - 1) \<and>
      old_level e = old_level d)"
proof -
  obtain k where k: "outcome_rel c t (observed c s q t) k s'"
    and p: "pressure (observed c s q t) = dpress d"
    and d: "old_level d = level s" "new_level d = level s'" "decision_time_s d = t"
    using hist_update [OF c h a u] by metis
  have "k = Relax" using k down d by (cases k) (auto simp: less_AdaptiveClipLevel_def)
  with k p d have e: "level_int (level s') = level_int (level s) - 1"
    "dpress d < relax_thr c (level_int (level s) - 1)"
    "adaptive_clip_relax_hold_s c \<le> t - start_of t (relax_since_s s)"
    by simp_all
  have "since_when (ds @ [d]) (start_of (decision_time_s d) (relax_since_s s))
      (\<lambda>e. dpress e < relax_thr c (level_int (level s) - 1) \<and> old_level e = level s)"
    by (rule since_when_step [OF hist_relax_timer [OF h]]) (use e d in auto)
  with that e d show ?thesis by simp
qed

text \<open>
  A threshold that has been exceeded at every decision since one made at \<open>t1\<close> has been answered,
  or its timer started no later than \<open>t1\<close>.
\<close>

definition answered ::
    "AdmissionControlConfig \<Rightarrow> AdaptiveClipController \<Rightarrow> nat \<Rightarrow> real \<Rightarrow> bool" where
  "answered c s i t1 \<longleftrightarrow> i < level_int (level s) \<or>
     (\<exists>t0 \<le> t1. tighten_since_s s ! i = Some t0)"

lemma answered_step:
  assumes c: "valid_admission c" and h: "hist c s ds" and a: "accepted s q t"
    and u: "update c s q (Fin t) = (s', Inr d)" and i: "i < 3" and p: "thr c i \<le> dpress d"
    and prev: "answered c s i t1 \<or> t1 = t"
  shows "answered c s' i t1"
proof -
  obtain k where k: "outcome_rel c t (observed c s q t) k s'"
    and press: "pressure (observed c s q t) = dpress d"
    using hist_update [OF c h a u] by metis
  show ?thesis
  proof (cases "i < level_int (level s')")
    case True
    then show ?thesis by (simp add: answered_def)
  next
    case False
    have "k = Relax \<Longrightarrow> level_int (level s) \<le> i"
    proof (rule ccontr)
      assume "k = Relax" "\<not> level_int (level s) \<le> i"
      with k False have "level_int (level s) = Suc i" by simp
      with k \<open>k = Relax\<close> press p thresholds_order(2) [OF c i] show False by simp
    qed
    then have le: "level_int (level s) \<le> i"
      using False k by (cases k) (auto simp: less_AdaptiveClipLevel_def)
    then have "scanned c (observed c s q t) t i = Some (start_of t (tighten_since_s s ! i))"
      using press p by (simp add: scanned_def next_since_def)
    moreover have "tighten_since_s s' ! i = scanned c (observed c s q t) t i"
      using k i False by (cases k) auto
    moreover have "start_of t (tighten_since_s s ! i) \<le> t1"
    proof (cases "tighten_since_s s ! i")
      case None
      with prev le show ?thesis by (auto simp: answered_def start_of_def)
    next
      case (Some t0)
      then have "since_when ds t0 (\<lambda>d. thr c i \<le> dpress d \<and> level_int (old_level d) \<le> i)"
        using hist_tighten_timer [OF h i] by blast
      then obtain j where "j < length ds" "decision_time_s (ds ! j) = t0"
        by (auto simp: since_when_def)
      then have "t0 \<le> t" using hist_times [OF h a, of "ds ! j"] by simp
      with prev le Some show ?thesis by (auto simp: answered_def start_of_def)
    qed
    ultimately show ?thesis by (auto simp: answered_def)
  qed
qed

lemma answered_elapsed:
  assumes c: "valid_admission c" and h: "hist c s ds" and a: "accepted s q t"
    and u: "update c s q (Fin t) = (s', Inr d)" and i: "i < 3" and p: "thr c i \<le> dpress d"
    and prev: "answered c s i t1 \<or> t1 = t" and hold: "adaptive_clip_tighten_hold_s c \<le> t - t1"
  shows "i < level_int (level s')"
proof (rule ccontr)
  assume no: "\<not> i < level_int (level s')"
  obtain s2 r where r: "update_level c (observed c s q t) t = (s2, r)" by fastforce
  then have s2: "s2 = s'" using u by (simp add: update_eq [OF a])
  obtain k where k: "outcome_rel c t (observed c s q t) k s'"
    and press: "pressure (observed c s q t) = dpress d"
    using hist_update [OF c h a u] by metis
  have ans: "answered c s' i t1" using answered_step [OF c h a u i p prev] .
  have len: "length (tighten_since_s (observed c s q t)) = 3" using h by (simp add: hist_def)
  have "tighten_since_s s' ! i = scanned c (observed c s q t) t i"
    using k i no by (cases k) auto
  with ans no have "level_int (level s) \<le> i" "start_of t (tighten_since_s s ! i) \<le> t1"
    by (auto simp: answered_def scanned_def next_since_def split: if_splits)
  with update_level_catches [OF c len r, of i] i p press hold no s2 show False by simp
qed

text \<open>The levels of successive decisions chain, from L0.\<close>

lemma old_level_chain:
  assumes "ctl_run c s ds" and c: "valid_admission c"
  shows "0 < length ds \<Longrightarrow> old_level (ds ! 0) = L0"
    and "Suc m < length ds \<Longrightarrow> old_level (ds ! Suc m) = new_level (ds ! m)"
proof -
  have old: "old_level (ds ! m) = (if m = 0 then L0 else new_level (ds ! (m - 1)))"
    if lt: "m < length ds" for m
  proof -
    obtain s0 s1 q t where r: "ctl_run c s0 (take m ds)" "accepted s0 q t"
        "update c s0 q (Fin t) = (s1, Inr (ds ! m))"
      using ctl_run_prefix [OF assms(1) lt] by metis
    have h: "hist c s0 (take m ds)" using ctl_run_hist [OF r(1) c] .
    have "old_level (ds ! m) = level s0" using hist_update [OF c h r(2,3)] by metis
    moreover have "level s0 = (if take m ds = [] then L0 else new_level (last (take m ds)))"
      using h unfolding hist_def by blast
    ultimately show ?thesis
      using lt by (auto simp: last_conv_nth min_def)
  qed
  from old [of 0] show "0 < length ds \<Longrightarrow> old_level (ds ! 0) = L0" by simp
  from old [of "Suc m"] show "Suc m < length ds \<Longrightarrow> old_level (ds ! Suc m) = new_level (ds ! m)"
    by simp
qed

lemma run_times_mono:
  assumes "ctl_run c s ds" and c: "valid_admission c" and "i \<le> j" and "j < length ds"
  shows "decision_time_s (ds ! i) \<le> decision_time_s (ds ! j)"
proof -
  have "sorted (map decision_time_s ds)"
    using ctl_run_hist [OF assms(1,2)] by (simp only: hist_def)
  then show ?thesis
    using sorted_nth_mono [of "map decision_time_s ds" i j] assms(3,4) by simp
qed

text \<open>A validated configuration that enables the controller.\<close>

definition controller_config :: "AdmissionControlConfig \<Rightarrow> bool" where
  "controller_config c \<longleftrightarrow> valid_admission c \<and> adaptive_clip_enabled c \<and>
     adaptive_clip_signal c = QUEUE_DEPTH_EWMA"

lemma controller_config_run:
  "controller_config c \<Longrightarrow> ctl_run c (controller_start c) []"
  by (rule ctl_run.ctl_start) (simp add: controller_config_def AdaptiveClipController_init_def raise_simps)

end
