(* ===== verification/AdmissionInv.thy ===== *)
theory AdmissionInv
  imports AdmissionShape ControllerRuns
begin

text \<open>
  The full invariant of the admission queue: the structural invariant, the time stamps under a
  monotone clock, the agreement of the controller with the decisions recorded, and the two
  bounds. Every operation keeps it, and none raises except \<open>submit\<close> and \<open>start\<close> on a queue
  that is not open.
\<close>

section \<open>Time stamps and results\<close>

definition result_ok ::
    "QueueSettings \<Rightarrow> (nat \<Rightarrow> real) \<Rightarrow> nat \<Rightarrow> QueueEntry \<Rightarrow> AdmissionResult \<Rightarrow> bool" where
  "result_ok q clock n e r \<longleftrightarrow>
     res_request_id r = request_id (envelope e) \<and> res_sequence_id r = sequence_id (envelope e) \<and>
     res_effective_envelope r = envelope e \<and> res_enqueue_time_s r = enqueue_time_s e \<and>
     res_dispatch_time_s r = dispatch_time_s e \<and>
     (\<exists>t. res_completion_time_s r = Some t \<and> enqueue_time_s e \<le> t \<and> t \<le> clock n \<and>
        (\<forall>d. dispatch_time_s e = Some d \<longrightarrow> d \<le> t) \<and>
        (res_status r = TIMEOUT \<longrightarrow> timeout_s q \<le> t - enqueue_time_s e)) \<and>
     res_status r \<noteq> REJECTED \<and> (res_error_message r = None \<longleftrightarrow> res_status r = SUCCESS) \<and>
     (res_status r = SUCCESS \<or> res_status r = ERROR \<longrightarrow> dispatch_time_s e \<noteq> None \<and>
        (\<exists>k < n. clock k - enqueue_time_s e < timeout_s q \<and>
          res_completion_time_s r = Some (clock (Suc k))))"

definition entry_times :: "QueueSettings \<Rightarrow> (nat \<Rightarrow> real) \<Rightarrow> nat \<Rightarrow> QueueEntry \<Rightarrow> bool" where
  "entry_times q clock n e \<longleftrightarrow>
     valid_envelope (envelope e) \<and> enqueue_time_s e \<le> clock n \<and>
     (\<forall>d. dispatch_time_s e = Some d \<longrightarrow> enqueue_time_s e \<le> d \<and> d \<le> clock n) \<and>
     (forced_status e = Some TIMEOUT \<longrightarrow> timeout_s q \<le> clock n - enqueue_time_s e) \<and>
     forced_status e \<in> {None, Some TIMEOUT, Some CANCELLED} \<and>
     (\<forall>r. result_future e = Some r \<longrightarrow> result_ok q clock n e r)"

lemma result_ok_later:
  assumes "result_ok q clock n e r" and "mono clock" and "n \<le> m"
  shows "result_ok q clock m e r"
proof -
  have "clock n \<le> clock m" using assms(2,3) by (rule monoD)
  then show ?thesis
    using assms(1,3) unfolding result_ok_def by (meson order.strict_trans2 order_trans)
qed

lemma entry_times_later:
  assumes "entry_times q clock n e" and "mono clock" and "n \<le> m"
  shows "entry_times q clock m e"
proof -
  have "clock n \<le> clock m" using assms(2,3) by (rule monoD)
  then show ?thesis
    using assms result_ok_later [OF _ assms(2,3), of q e] by (auto simp: entry_times_def)
qed

definition times :: "QueueSettings \<Rightarrow> (nat \<Rightarrow> real) \<Rightarrow> AdmissionQueue \<Rightarrow> bool" where
  "times q clock s \<longleftrightarrow> (\<forall>e \<in> set (objects s). entry_times q clock (reads s) e)"

lemma times_later:
  assumes "times q clock s" and "mono clock" and "reads s \<le> n"
    and "objects s' = objects s" and "reads s' = n"
  shows "times q clock s'"
  using assms entry_times_later by (auto simp: times_def)

lemma times_update:
  assumes "times q clock s" and "mono clock" and "reads s \<le> reads s'"
    and "objects s' = (objects s)[i := e]" and "entry_times q clock (reads s') e"
  shows "times q clock s'"
proof -
  have "entry_times q clock (reads s') e'" if "e' \<in> set (objects s')" for e'
  proof (cases "e' = e")
    case False
    then have "e' \<in> set (objects s)"
      using that set_update_subset_insert [of "objects s" i e] assms(4) by auto
    then have "entry_times q clock (reads s) e'" using assms(1) by (simp add: times_def)
    then show ?thesis using assms(2,3) by (rule entry_times_later)
  qed (use assms(5) in simp)
  then show ?thesis by (simp add: times_def)
qed

section \<open>The controller\<close>

definition control :: "QueueSettings \<Rightarrow> (nat \<Rightarrow> real) \<Rightarrow> AdmissionQueue \<Rightarrow> bool" where
  "control q clock s \<longleftrightarrow>
     (case adaptive_controller s of
        None \<Rightarrow> adaptive_decisions s = []
      | Some (c, k) \<Rightarrow>
          (\<exists>clipper. adaptive_clipper q = Some clipper \<and> valid_clipper clipper \<and>
             adaptive_clip_enabled (clip_config clipper)) \<and>
          controller_config c \<and> ctl_run c k (map decided (adaptive_decisions s)) \<and>
          controller_ready k (clock (reads s)))"

lemma control_later:
  assumes "control q clock s" and "mono clock" and "reads s \<le> reads s'"
    and "adaptive_controller s' = adaptive_controller s" "adaptive_decisions s' = adaptive_decisions s"
  shows "control q clock s'"
proof -
  have "clock (reads s) \<le> clock (reads s')" using assms(2,3) by (rule monoD)
  with assms show ?thesis
    by (auto simp: control_def split: option.splits intro: ctl.ready_mono)
qed

section \<open>The invariant\<close>

definition settings_ok :: "QueueSettings \<Rightarrow> bool" where
  "settings_ok q \<longleftrightarrow> valid_policy (scheduling q) \<and> 0 < timeout_s q \<and> 1 \<le> in_flight_limit q \<and>
     1 \<le> capacity q"

definition inv :: "nat option \<Rightarrow> QueueSettings \<Rightarrow> (nat \<Rightarrow> real) \<Rightarrow> AdmissionQueue \<Rightarrow> bool" where
  "inv H q clock s \<longleftrightarrow> shape H s \<and> times q clock s \<and> control q clock s \<and>
     int (card (in_flight_set s)) \<le> in_flight_limit q \<and> int (length (waiting s)) \<le> capacity q"

lemma invI:
  assumes "shape H s" "times q clock s" "control q clock s"
    "int (card (in_flight_set s)) \<le> in_flight_limit q" "int (length (waiting s)) \<le> capacity q"
  shows "inv H q clock s"
  using assms by (simp add: inv_def)

lemma inv_parts:
  assumes "inv H q clock s"
  shows "shape H s" and "times q clock s" and "control q clock s"
    and "int (card (in_flight_set s)) \<le> in_flight_limit q"
    and "int (length (waiting s)) \<le> capacity q"
  using assms by (simp_all add: inv_def)

lemma inv_entry:
  "inv H q clock s \<Longrightarrow> i < length (objects s) \<Longrightarrow> entry_times q clock (reads s) (objects s ! i)"
  by (simp add: inv_def times_def)

lemma inv_tick:
  assumes "inv H q clock s" and "mono clock"
  shows "inv H q clock (tick s)"
proof (rule invI)
  show "times q clock (tick s)"
    by (rule times_later [OF inv_parts(2) [OF assms(1)] assms(2)]) simp_all
  show "control q clock (tick s)"
    by (rule control_later [OF inv_parts(3) [OF assms(1)] assms(2)]) simp_all
qed (use inv_parts [OF assms(1)] in simp_all)

text \<open>Which completions are justified.\<close>

definition may_finish ::
    "QueueSettings \<Rightarrow> (nat \<Rightarrow> real) \<Rightarrow> AdmissionQueue \<Rightarrow> nat \<Rightarrow> DispatchStatus \<Rightarrow> string option \<Rightarrow> bool" where
  "may_finish q clock s i status message \<longleftrightarrow>
     status \<noteq> REJECTED \<and> (message = None \<longleftrightarrow> status = SUCCESS) \<and>
     (status = TIMEOUT \<longrightarrow> timeout_s q \<le> clock (reads s) - enqueue_time_s (objects s ! i)) \<and>
     (status = SUCCESS \<or> status = ERROR \<longrightarrow> dispatch_time_s (objects s ! i) \<noteq> None \<and>
        (\<exists>k. reads s = Suc k \<and> clock k - enqueue_time_s (objects s ! i) < timeout_s q))"

lemma result_ok_completed:
  assumes "entry_times q clock (reads s) (objects s ! i)" and fin: "may_finish q clock s i status message"
    and le: "clock (reads s) \<le> clock (Suc (reads s))"
  shows "result_ok q clock (Suc (reads s)) (completed clock own i status message s)
    (entry_result (objects s ! i) status message (clock (reads s)))"
proof -
  have "\<exists>k < Suc (reads s). clock k - enqueue_time_s (objects s ! i) < timeout_s q \<and>
      Some (clock (reads s)) = Some (clock (Suc k))"
    if st: "status = SUCCESS \<or> status = ERROR"
  proof -
    obtain k where "reads s = Suc k" "clock k - enqueue_time_s (objects s ! i) < timeout_s q"
      using st fin by (auto simp: may_finish_def)
    then show ?thesis by (intro exI [of _ k]) simp
  qed
  with assms show ?thesis
    by (simp add: result_ok_def entry_result_def completed_def Let_def entry_times_def may_finish_def)
qed

lemma inv_complete:
  assumes i: "inv (Some i) q clock s" and clk: "mono clock"
    and own: "own \<Longrightarrow> i \<notin> set (timeout_tasks s)"
      "\<not> own \<Longrightarrow> timeout_task (objects s ! i) \<noteq> None"
    and fin: "may_finish q clock s i status message"
    and res: "complete_locked clock own i status message s = (s', r)"
  shows "inv None q clock s'" and "r = Inr ()" and "waiting s' = waiting s"
    and "closing s' = closing s" "closed s' = closed s" "started s' = started s"
    and "in_flight_set s' = in_flight_set s - {i}"
    and "objects s' = (objects s)[i := completed clock own i status message s]"
    and "runner_tasks s' = runner_tasks s" "sent s' = sent s" "reads s' = Suc (reads s)"
proof -
  note sh = inv_parts(1) [OF i]
  note fc = shape_complete [OF sh own res]
  have s': "s' = s\<lparr>objects := (objects s)[i := completed clock own i status message s],
      entries := removeAll i (entries s), reads := Suc (reads s)\<rparr>"
    using complete_locked_eq [OF sh, of clock own status message] res by simp
  show "r = Inr ()" "in_flight_set s' = in_flight_set s - {i}" by (simp_all add: fc)
  show "waiting s' = waiting s" "closing s' = closing s" "closed s' = closed s"
    "started s' = started s" "runner_tasks s' = runner_tasks s" "sent s' = sent s"
    "objects s' = (objects s)[i := completed clock own i status message s]"
    "reads s' = Suc (reads s)"
    by (simp_all add: s')
  have len: "i < length (objects s)" using shape_hand [OF sh] .
  have le: "clock (reads s) \<le> clock (Suc (reads s))" using clk by (simp add: mono_iff_le_Suc)
  have et: "entry_times q clock (Suc (reads s)) (objects s ! i)"
    using entry_times_later [OF inv_entry [OF i len] clk] by simp
  have "result_ok q clock (Suc (reads s)) (completed clock own i status message s)
      (entry_result (objects s ! i) status message (clock (reads s)))"
    by (rule result_ok_completed [OF inv_entry [OF i len] fin le])
  then have "entry_times q clock (Suc (reads s)) (completed clock own i status message s)"
    using et by (simp add: entry_times_def completed_def Let_def)
  then have "times q clock s'"
    by - (rule times_update [OF inv_parts(2) [OF i] clk,
        where i = i and e = "completed clock own i status message s"], simp_all add: s')
  moreover have "control q clock s'"
    by (rule control_later [OF inv_parts(3) [OF i] clk]) (simp_all add: s')
  moreover have "card (in_flight_set s') \<le> card (in_flight_set s)"
    by (intro card_mono) (auto simp: fc(2))
  ultimately show "inv None q clock s'"
    using fc(1) inv_parts(4,5) [OF i] by (intro invI) (simp_all add: s')
qed

section \<open>Admitting\<close>

lemma remove_nth:
  "distinct xs \<Longrightarrow> k < length xs \<Longrightarrow> take k xs @ drop (Suc k) xs = remove1 (xs ! k) xs"
proof (induction xs arbitrary: k)
  case (Cons x xs)
  then show ?case by (cases k) auto
qed simp

text \<open>What the policy sees, and the entries it ranks first.\<close>

definition waiting_envelopes :: "AdmissionQueue \<Rightarrow> RequestEnvelope list" where
  "waiting_envelopes s = map (\<lambda>i. envelope (objects s ! i)) (waiting s)"

definition ranked_first :: "QueueSettings \<Rightarrow> (nat \<Rightarrow> real) \<Rightarrow> AdmissionQueue \<Rightarrow> nat \<Rightarrow> bool" where
  "ranked_first q clock s i \<longleftrightarrow> i \<in> set (waiting s) \<and>
     (\<forall>j \<in> set (waiting s).
        policy_rank (scheduling q) (waiting_envelopes s) (clock (reads s)) (envelope (objects s ! i))
        \<le> policy_rank (scheduling q) (waiting_envelopes s) (clock (reads s)) (envelope (objects s ! j)))"

lemma select_waiting_ok:
  assumes "shape None s" and p: "valid_policy (scheduling q)" and "waiting s \<noteq> []"
  obtains i where "ranked_first q clock s i"
    and "select_waiting q clock s = ((tick s)\<lparr>waiting := remove1 i (waiting s)\<rparr>, Inr i)"
proof -
  let ?es = "waiting_envelopes s"
  have ne: "?es \<noteq> []" using assms(3) by (simp add: waiting_envelopes_def)
  obtain y ys where y: "order (scheduling q) ?es (clock (reads s)) = Inr (y # ys)" "y \<in> set ?es"
    and least: "\<And>r. r \<in> set ?es \<Longrightarrow> policy_rank (scheduling q) ?es (clock (reads s)) y
      \<le> policy_rank (scheduling q) ?es (clock (reads s)) r"
    using pol.ord_head [OF p ne] by metis
  obtain k where k: "index_of y ?es = Some k" using index_of_mem [OF y(2)] by blast
  then have kl: "k < length (waiting s)" "envelope (objects s ! (waiting s ! k)) = y"
    using index_of_nth [OF k] by (auto simp: waiting_envelopes_def)
  have "distinct (waiting s)" using shape_lists [OF assms(1)] by (simp add: lists_ok_def)
  then have "take k (waiting s) @ drop (Suc k) (waiting s) = remove1 (waiting s ! k) (waiting s)"
    using kl(1) by (rule remove_nth)
  then have "select_waiting q clock s
      = ((tick s)\<lparr>waiting := remove1 (waiting s ! k) (waiting s)\<rparr>, Inr (waiting s ! k))"
    using y(1) k by (simp add: select_waiting_def waiting_envelopes_def Let_def)
  moreover have "ranked_first q clock s (waiting s ! k)"
    using kl least by (auto simp: ranked_first_def waiting_envelopes_def)
  ultimately show ?thesis using that by blast
qed

lemma inv_take_waiting:
  assumes "inv None q clock s" and "i \<in> set (waiting s)"
  shows "inv (Some i) q clock (s\<lparr>waiting := remove1 i (waiting s)\<rparr>)"
proof (rule invI)
  note parts = inv_parts [OF assms(1)]
  note take = shape_take_waiting [OF parts(1) assms(2)]
  show "shape (Some i) (s\<lparr>waiting := remove1 i (waiting s)\<rparr>)" by (fact take(1))
  show "times q clock (s\<lparr>waiting := remove1 i (waiting s)\<rparr>)"
    using parts(2) by (simp add: times_def)
  show "control q clock (s\<lparr>waiting := remove1 i (waiting s)\<rparr>)"
    using parts(3) by (auto simp: control_def split: option.splits)
  show "int (card (in_flight_set (s\<lparr>waiting := remove1 i (waiting s)\<rparr>))) \<le> in_flight_limit q"
    using parts(4) take(2) by simp
  show "int (length (waiting (s\<lparr>waiting := remove1 i (waiting s)\<rparr>))) \<le> capacity q"
    using parts(5) assms(2) by (simp add: length_remove1)
qed

lemma envelope_shape:
  assumes "shape (Some i) s" and "state (objects s ! i) = WAITING"
  shows "shape (Some i) (upd_entry i (\<lambda>e. e\<lparr>envelope := env\<rparr>) s)"
    and "in_flight_set (upd_entry i (\<lambda>e. e\<lparr>envelope := env\<rparr>) s) = in_flight_set s"
proof -
  have i: "i < length (objects s)" using shape_hand [OF assms(1)] .
  let ?s' = "upd_entry i (\<lambda>e. e\<lparr>envelope := env\<rparr>) s"
  have "entry_shape (Some i) ?s' j (objects ?s' ! j)" if "j < length (objects s)" for j
    using shape_entry [OF assms(1) that] assms(2) i
    by (cases "j = i") (auto simp: upd_entry_def entry_shape_def)
  then show "shape (Some i) ?s'"
    using shape_lists [OF assms(1)] by (intro shapeI) (simp_all add: lists_ok_def upd_entry_def)
  show "in_flight_set ?s' = in_flight_set s"
    using i by (auto simp: upd_entry_def in_flight_set_def nth_list_update)
qed

text \<open>The decision for an entry in hand: the controller accepts the reading and the clipper its cap.\<close>

lemma adapt_decision:
  assumes i: "inv (Some i) q clock s" and clk: "mono clock" and ck: "adaptive_controller s = Some (c, k)"
  obtains clipper k' d env where "adaptive_clipper q = Some clipper"
    and "update c k (stable_waiting_depth q s) (Fin (clock (reads s))) = (k', Inr d)"
    and "decision_q_inst d = stable_waiting_depth q s"
    and "apply_adaptive_cap clipper (envelope (objects s ! i)) (decision_selected_cap d) = Inr env"
    and "valid_envelope env" and "same_request (envelope (objects s ! i)) env"
    and "\<And>s' r. adaptive_controller s' = Some (c, k') \<Longrightarrow> reads s' = Suc (reads s) \<Longrightarrow>
      adaptive_decisions s' = adaptive_decisions s @ [\<lparr>decided_request_id = r, decided = d\<rparr>] \<Longrightarrow> control q clock s'"
proof -
  note parts = inv_parts [OF i]
  obtain clipper where cl: "adaptive_clipper q = Some clipper" "valid_clipper clipper"
      "adaptive_clip_enabled (clip_config clipper)"
    and cc: "controller_config c" and run: "ctl_run c k (map decided (adaptive_decisions s))"
    and ready: "controller_ready k (clock (reads s))"
    using parts(3) ck by (auto simp: control_def)
  have c: "valid_admission c" using cc by (simp add: controller_config_def)
  have depth: "0 \<le> stable_waiting_depth q s" by (simp add: stable_waiting_depth_def Let_def)
  have later: "clock (reads s) \<le> clock (Suc (reads s))" using clk by (simp add: mono_iff_le_Suc)
  obtain k' d where u: "update c k (stable_waiting_depth q s) (Fin (clock (reads s))) = (k', Inr d)"
    and seen: "(decision_q_inst d, decision_time_s d) = (stable_waiting_depth q s, clock (reads s))"
    and ready': "controller_ready k' (clock (Suc (reads s)))"
    and pos: "\<And>x. decision_selected_cap d = Some x \<Longrightarrow> 1 \<le> x"
    and acting: "decision_selected_cap d \<noteq> None \<Longrightarrow> new_level d \<noteq> L0"
    by (rule ctl.decides [OF c ready depth later]) (rule that)
  have qd: "decision_q_inst d = stable_waiting_depth q s" using seen by simp
  let ?e = "envelope (objects s ! i)"
  have env: "valid_envelope ?e"
    using inv_entry [OF i shape_hand [OF parts(1)]] by (simp add: entry_times_def)
  obtain e' where e': "apply_adaptive_cap clipper ?e (decision_selected_cap d) = Inr e'"
      "case decision_selected_cap d of None \<Rightarrow> e' = ?e | Some cap \<Rightarrow> clip_outcome ?e cap e'"
    using apply_adaptive_cap_outcome [OF cl(2,3) env pos] by blast
  have v: "valid_envelope e'"
    using e'(2) env pos clip_outcome_valid [OF env] by (cases "decision_selected_cap d") auto
  have rid: "same_request ?e e'" using e'(2) by (auto simp: clip_outcome_def split: option.splits)
  have "ctl_run c k' (map decided (adaptive_decisions s) @ [d])" using run u by (rule ctl_run.ctl_step)
  then show thesis
    using that [OF cl(1) u qd e'(1) v rid] cl cc ready' by (auto simp: control_def)
qed

text \<open>The state after it keeps the invariant.\<close>

definition adapted :: "AdmissionControlConfig \<Rightarrow> AdaptiveClipController \<Rightarrow> AdaptiveClipDecision \<Rightarrow> RequestEnvelope \<Rightarrow> nat \<Rightarrow>
    AdmissionQueue \<Rightarrow> AdmissionQueue" where
  "adapted c k d env i s = (upd_entry i (\<lambda>e. e\<lparr>envelope := env\<rparr>) ((tick s)\<lparr>adaptive_controller := Some (c, k)\<rparr>))
    \<lparr>adaptive_decisions := adaptive_decisions s @ [\<lparr>decided_request_id = request_id env, decided = d\<rparr>]\<rparr>"

lemma adapted_inv:
  assumes i: "inv (Some i) q clock s" and clk: "mono clock" and w: "state (objects s ! i) = WAITING"
    and env: "valid_envelope env" and ctl: "control q clock (adapted c k d env i s)"
  shows "inv (Some i) q clock (adapted c k d env i s)" and "in_flight_set (adapted c k d env i s) = in_flight_set s"
proof -
  note parts = inv_parts [OF i]
  have len: "i < length (objects s)" using shape_hand [OF parts(1)] .
  have sh: "shape (Some i) ((tick s)\<lparr>adaptive_controller := Some (c, k)\<rparr>)" using parts(1) by simp
  note es = envelope_shape [OF sh, of env]
  have et: "entry_times q clock (Suc (reads s)) (objects s ! i)"
    using entry_times_later [OF inv_entry [OF i len] clk] by simp
  have none: "result_future (objects s ! i) = None" "dispatch_time_s (objects s ! i) = None"
    using shape_entry [OF parts(1) len] w by (auto simp: entry_shape_def)
  show same: "in_flight_set (adapted c k d env i s) = in_flight_set s"
    using es(2) w by (simp add: in_flight_set_def adapted_def)
  show "inv (Some i) q clock (adapted c k d env i s)"
  proof (rule invI)
    show "shape (Some i) (adapted c k d env i s)" using es(1) w by (simp add: adapted_def)
    have "entry_times q clock (Suc (reads s)) ((objects s ! i)\<lparr>envelope := env\<rparr>)"
      using et env none by (simp add: entry_times_def)
    then show "times q clock (adapted c k d env i s)"
      by - (rule times_update [OF parts(2) clk, where i = i and e = "(objects s ! i)\<lparr>envelope := env\<rparr>"],
          simp_all add: upd_entry_def adapted_def)
    show "int (card (in_flight_set (adapted c k d env i s))) \<le> in_flight_limit q" using same parts(4) by simp
    show "int (length (waiting (adapted c k d env i s))) \<le> capacity q"
      using parts(5) by (simp add: upd_entry_def adapted_def)
  qed (fact ctl)
qed

text \<open>\<open>adapt_entry\<close> touches the envelope in hand, the controller and the clock.\<close>

lemma adapt_entry_ok:
  assumes i: "inv (Some i) q clock s" and clk: "mono clock"
    and w: "state (objects s ! i) = WAITING"
  obtains s' env where "adapt_entry q clock i s = (s', Inr ())" and "inv (Some i) q clock s'"
    and "objects s' = (objects s)[i := (objects s ! i)\<lparr>envelope := env\<rparr>]"
    and "waiting s' = waiting s" "closing s' = closing s" "closed s' = closed s"
      "started s' = started s" "timeout_tasks s' = timeout_tasks s"
      "runner_tasks s' = runner_tasks s" "sent s' = sent s"
    and "in_flight_set s' = in_flight_set s" "reads s \<le> reads s'"
    and "same_request (envelope (objects s ! i)) env"
    and "\<exists>ds. adaptive_decisions s' = adaptive_decisions s @ ds \<and>
      (\<forall>d \<in> set ds. decision_q_inst (decided d) = stable_waiting_depth q s)"
proof (cases "adaptive_controller s")
  case None
  then have "adapt_entry q clock i s = (s, Inr ())" by (simp add: adapt_entry_def)
  then show ?thesis
    using that [of s "envelope (objects s ! i)"] i by simp
next
  case (Some ck)
  obtain c k where ck: "adaptive_controller s = Some (c, k)" using Some by (cases ck) auto
  obtain clipper k' d env where cl: "adaptive_clipper q = Some clipper"
    and u: "update c k (stable_waiting_depth q s) (Fin (clock (reads s))) = (k', Inr d)"
    and qd: "decision_q_inst d = stable_waiting_depth q s"
    and app: "apply_adaptive_cap clipper (envelope (objects s ! i)) (decision_selected_cap d) = Inr env"
    and v: "valid_envelope env" and rid: "same_request (envelope (objects s ! i)) env"
    and ctl: "\<And>s' r. adaptive_controller s' = Some (c, k') \<Longrightarrow> reads s' = Suc (reads s) \<Longrightarrow>
      adaptive_decisions s' = adaptive_decisions s @ [\<lparr>decided_request_id = r, decided = d\<rparr>] \<Longrightarrow> control q clock s'"
    using adapt_decision [OF i clk ck] by metis
  let ?s' = "adapted c k' d env i s"
  have eq: "adapt_entry q clock i s = (?s', Inr ())"
    using ck cl u app by (simp add: adapt_entry_def Let_def upd_entry_def adapted_def)
  have "control q clock ?s'" by (rule ctl) (simp_all add: adapted_def upd_entry_def)
  note keep = adapted_inv [OF i clk w v this]
  show ?thesis
    by (rule that [OF eq keep(1), of env])
       (use keep(2) w rid qd in \<open>simp_all add: adapted_def upd_entry_def\<close>)
qed

end
