(* ===== verification/AdmissionOps.thy ===== *)
theory AdmissionOps
  imports AdmissionInv
begin

text \<open>
  Every operation of the queue keeps the invariant, raises nothing on an open queue, and only
  ever adds to what is settled: \<open>later s s'\<close> says that results, dispatch times, dispatched
  envelopes and the calls of the backend in \<open>s\<close> are unchanged in \<open>s'\<close>.
\<close>

section \<open>What is settled stays settled\<close>

definition settled :: "QueueEntry \<Rightarrow> QueueEntry \<Rightarrow> bool" where
  "settled e e' \<longleftrightarrow> enqueue_time_s e' = enqueue_time_s e \<and>
     same_request (envelope e) (envelope e') \<and>
     (result_future e \<noteq> None \<longrightarrow> result_future e' = result_future e) \<and>
     (dispatch_time_s e \<noteq> None \<longrightarrow>
        dispatch_time_s e' = dispatch_time_s e \<and> envelope e' = envelope e)"

definition later :: "AdmissionQueue \<Rightarrow> AdmissionQueue \<Rightarrow> bool" where
  "later s s' \<longleftrightarrow> length (objects s) \<le> length (objects s') \<and> reads s \<le> reads s' \<and>
     (\<exists>xs. sent s' = sent s @ xs) \<and>
     (\<forall>i < length (objects s). settled (objects s ! i) (objects s' ! i))"

lemma settled_refl [simp]: "settled e e"
  by (simp add: settled_def)

lemma later_refl [simp]: "later s s"
  by (simp add: later_def)

lemma settled_trans: "settled a b \<Longrightarrow> settled b c \<Longrightarrow> settled a c"
  unfolding settled_def by (metis same_request_trans)

lemma later_trans [trans]:
  assumes "later a b" and "later b c"
  shows "later a c"
  unfolding later_def
proof (intro conjI allI impI)
  show "length (objects a) \<le> length (objects c)" "reads a \<le> reads c" "\<exists>xs. sent c = sent a @ xs"
    using assms by (auto simp: later_def)
  fix i assume "i < length (objects a)"
  then have "settled (objects a ! i) (objects b ! i)" "settled (objects b ! i) (objects c ! i)"
    using assms by (simp_all add: later_def)
  then show "settled (objects a ! i) (objects c ! i)" by (rule settled_trans)
qed

lemma later_update:
  assumes "objects s' = (objects s)[i := e]" and "i < length (objects s) \<Longrightarrow> settled (objects s ! i) e"
    and "sent s' = sent s @ xs" and "reads s \<le> reads s'"
  shows "later s s'"
proof -
  have "settled (objects s ! j) (objects s' ! j)" if "j < length (objects s)" for j
    using assms(1,2) that by (cases "j = i") simp_all
  then show ?thesis using assms(1,3,4) by (auto simp: later_def)
qed

lemma later_same:
  "objects s' = objects s \<Longrightarrow> sent s' = sent s \<Longrightarrow> reads s \<le> reads s' \<Longrightarrow> later s s'"
  by (simp add: later_def)

section \<open>One turn of the admission loop\<close>

lemma inv_launch:
  assumes i: "inv (Some i) q clock s" and clk: "mono clock"
    and w: "state (objects s ! i) = WAITING" and wt: "watched s i"
    and free: "int (card (in_flight_set s)) < in_flight_limit q"
  shows "inv None q clock (launch_entry clock i s)"
    and "in_flight_set (launch_entry clock i s) = insert i (in_flight_set s)"
    and "later s (launch_entry clock i s)"
proof -
  note parts = inv_parts [OF i]
  note sl = shape_launch [OF parts(1) w wt]
  have len: "i < length (objects s)" using shape_hand [OF parts(1)] .
  let ?e = "(objects s ! i)\<lparr>state := IN_FLIGHT, dispatch_time_s := Some (clock (reads s)),
      backend_task := Some Running\<rparr>" and ?s' = "launch_entry clock i s"
  have s': "objects ?s' = (objects s)[i := ?e]" "waiting ?s' = waiting s" "reads ?s' = Suc (reads s)"
      "adaptive_controller ?s' = adaptive_controller s" "adaptive_decisions ?s' = adaptive_decisions s"
      "sent ?s' = sent s @ [(i, envelope (objects s ! i))]"
    using len by (simp_all add: launch_entry_def upd_entry_def Let_def)
  have le: "clock (reads s) \<le> clock (Suc (reads s))" using clk by (simp add: mono_iff_le_Suc)
  have e: "dispatch_time_s (objects s ! i) = None" "result_future (objects s ! i) = None"
    using shape_entry [OF parts(1) len] w by (auto simp: entry_shape_def)
  show "in_flight_set ?s' = insert i (in_flight_set s)" by (fact sl(2))
  show "later s ?s'"
    by (rule later_update [OF s'(1)]) (simp_all add: s' e settled_def)
  show "inv None q clock ?s'"
  proof (rule invI)
    show "shape None ?s'" by (fact sl(1))
    have "entry_times q clock (Suc (reads s)) ?e"
      using entry_times_later [OF inv_entry [OF i len] clk, of "Suc (reads s)"]
        inv_entry [OF i len] e le by (simp add: entry_times_def)
    then show "times q clock ?s'"
      by - (rule times_update [OF parts(2) clk, where i = i and e = ?e], simp_all add: s')
    show "control q clock ?s'"
      by (rule control_later [OF parts(3) clk]) (simp_all add: s')
    show "int (card (in_flight_set ?s')) \<le> in_flight_limit q"
      using sl(2,3) free by simp
    show "int (length (waiting ?s')) \<le> capacity q" using parts(5) by (simp add: s')
  qed
qed

text \<open>The two ways a turn can end: the selected entry is sent, or it has already timed out.\<close>

definition admitted ::
    "QueueSettings \<Rightarrow> (nat \<Rightarrow> real) \<Rightarrow> AdmissionQueue \<Rightarrow> nat \<Rightarrow> AdmissionQueue \<Rightarrow> bool" where
  "admitted q clock s i s' \<longleftrightarrow> ranked_first q clock s i \<and> waiting s' = remove1 i (waiting s) \<and>
     closing s' = closing s \<and> closed s' = closed s \<and> started s' = started s \<and>
     length (objects s') = length (objects s) \<and> later s s' \<and>
     (in_flight_set s' = insert i (in_flight_set s) \<and> i \<notin> in_flight_set s \<and>
        sent s' = sent s @ [(i, envelope (objects s' ! i))] \<and>
        (\<exists>ds. adaptive_decisions s' = adaptive_decisions s @ ds \<and>
          (\<forall>d \<in> set ds. decision_q_inst (decided d) = max 0 (int (length (waiting s))
             + int (card (in_flight_set s)) - in_flight_limit q))) \<or>
      in_flight_set s' = in_flight_set s \<and> sent s' = sent s \<and>
        adaptive_decisions s' = adaptive_decisions s \<and>
        (\<exists>r. result_future (objects s' ! i) = Some r \<and> res_status r = TIMEOUT))"

text \<open>The same of the state \<open>s\<close> in which the entry is in hand, out of the waiting list.\<close>

definition turn_done :: "QueueSettings \<Rightarrow> AdmissionQueue \<Rightarrow> nat \<Rightarrow> AdmissionQueue \<Rightarrow> bool" where
  "turn_done q s i s' \<longleftrightarrow> waiting s' = waiting s \<and> closing s' = closing s \<and> closed s' = closed s \<and>
     started s' = started s \<and> length (objects s') = length (objects s) \<and> later s s' \<and>
     (in_flight_set s' = insert i (in_flight_set s) \<and> sent s' = sent s @ [(i, envelope (objects s' ! i))] \<and>
        (\<exists>ds. adaptive_decisions s' = adaptive_decisions s @ ds \<and>
          (\<forall>d \<in> set ds. decision_q_inst (decided d) = stable_waiting_depth q s)) \<or>
      in_flight_set s' = in_flight_set s \<and> sent s' = sent s \<and> adaptive_decisions s' = adaptive_decisions s \<and>
        (\<exists>r. result_future (objects s' ! i) = Some r \<and> res_status r = TIMEOUT))"

lemma turn_expired:
  assumes i: "inv (Some i) q clock s" and clk: "mono clock" and w: "state (objects s ! i) = WAITING" "watched s i"
    and expired: "timeout_s q \<le> clock (reads s) - enqueue_time_s (objects s ! i)"
  obtains s' where "complete_locked clock False i TIMEOUT (Some (timeout_message q)) s = (s', Inr ())"
    and "inv None q clock s'" and "turn_done q s i s'"
proof -
  have len: "i < length (objects s)" using shape_hand [OF inv_parts(1) [OF i]] .
  have idle: "result_future (objects s ! i) = None" "i \<notin> in_flight_set s"
    using shape_entry [OF inv_parts(1) [OF i] len] w(1) by (auto simp: entry_shape_def in_flight_set_def)
  obtain s' r where c: "complete_locked clock False i TIMEOUT (Some (timeout_message q)) s = (s', r)"
    by fastforce
  have fin: "may_finish q clock s i TIMEOUT (Some (timeout_message q))"
    using expired by (simp add: may_finish_def)
  have tt: "timeout_task (objects s ! i) \<noteq> None" using w(2) by (simp add: watched_def)
  note ic = inv_complete [OF i clk _ _ fin c, OF _ tt]
  have ob: "objects s' = (objects s)[i := completed clock False i TIMEOUT (Some (timeout_message q)) s]"
    using ic by simp
  have "later s s'"
    by (intro later_update [OF ob, of "[]"]) (simp_all add: ic idle completed_def Let_def settled_def)
  moreover have "\<exists>r. result_future (objects s' ! i) = Some r \<and> res_status r = TIMEOUT"
    using len by (simp add: ob completed_def Let_def entry_result_def)
  moreover have "adaptive_decisions s' = adaptive_decisions s"
    using complete_locked_eq [OF inv_parts(1) [OF i], of clock False TIMEOUT "Some (timeout_message q)"] c by auto
  ultimately have "turn_done q s i s'" using ic idle ob by (simp add: turn_done_def)
  then show thesis using that c ic(1,2) by simp
qed

lemma turn_launched:
  assumes i: "inv (Some i) q clock s" and clk: "mono clock" and w: "state (objects s ! i) = WAITING" "watched s i"
    and free: "int (card (in_flight_set s)) < in_flight_limit q"
  obtains s' where "and_do (adapt_entry q clock i s) (\<lambda>_ s3. (launch_entry clock i s3, Inr ())) = (s', Inr ())"
    and "inv None q clock s'" and "turn_done q s i s'"
proof -
  have len: "i < length (objects s)" using shape_hand [OF inv_parts(1) [OF i]] .
  obtain s3 env where a: "adapt_entry q clock i s = (s3, Inr ())" "inv (Some i) q clock s3"
    and ob: "objects s3 = (objects s)[i := (objects s ! i)\<lparr>envelope := env\<rparr>]"
    and f: "waiting s3 = waiting s" "closing s3 = closing s" "closed s3 = closed s" "started s3 = started s"
      "timeout_tasks s3 = timeout_tasks s" "sent s3 = sent s" "in_flight_set s3 = in_flight_set s" "reads s \<le> reads s3"
    and rid: "same_request (envelope (objects s ! i)) env"
    and ds: "\<exists>ds. adaptive_decisions s3 = adaptive_decisions s @ ds \<and>
      (\<forall>d \<in> set ds. decision_q_inst (decided d) = stable_waiting_depth q s)"
    using adapt_entry_ok [OF i clk w(1)] by metis
  have w3: "state (objects s3 ! i) = WAITING" "watched s3 i" using w len by (simp_all add: ob f watched_def)
  note il = inv_launch [OF a(2) clk w3, unfolded f, OF free]
  have dn: "dispatch_time_s (objects s ! i) = None"
    using shape_entry [OF inv_parts(1) [OF i] len] w(1) by (simp add: entry_shape_def)
  have "later s s3" by (rule later_update [OF ob, of "[]"]) (use f dn rid in \<open>simp_all add: settled_def\<close>)
  then have lat: "later s (launch_entry clock i s3)" using il(3) by (rule later_trans)
  let ?s' = "launch_entry clock i s3"
  have "waiting ?s' = waiting s3" "closing ?s' = closing s3" "closed ?s' = closed s3" "started ?s' = started s3"
    "sent ?s' = sent s3 @ [(i, envelope (objects ?s' ! i))]" "length (objects ?s') = length (objects s3)"
    "adaptive_decisions ?s' = adaptive_decisions s3"
    using len by (simp_all add: ob launch_entry_def upd_entry_def Let_def)
  then have "turn_done q s i ?s'" using lat il(2) ds ob f by (simp add: turn_done_def)
  then show thesis using that il(1) a(1) by (simp add: and_do_def)
qed

text \<open>The selected entry, in hand.\<close>

definition in_hand :: "AdmissionQueue \<Rightarrow> nat \<Rightarrow> AdmissionQueue" where
  "in_hand s i = tick ((tick s)\<lparr>waiting := remove1 i (waiting s)\<rparr>)"

lemma selected_in_hand:
  assumes i: "inv None q clock s" and clk: "mono clock" and q: "settings_ok q" and adm: "admissible q s"
  obtains i where "ranked_first q clock s i" and "i \<in> set (waiting s)" and "inv (Some i) q clock (in_hand s i)"
    and "state (objects (in_hand s i) ! i) = WAITING" "watched (in_hand s i) i"
    and "admit_one q clock s =
      (if timeout_s q \<le> clock (Suc (reads s)) - enqueue_time_s (objects (in_hand s i) ! i)
       then complete_locked clock False i TIMEOUT (Some (timeout_message q)) (in_hand s i)
       else and_do (adapt_entry q clock i (in_hand s i)) (\<lambda>_ s3. (launch_entry clock i s3, Inr ())))"
proof -
  note parts = inv_parts [OF i]
  have p: "valid_policy (scheduling q)" and ne: "waiting s \<noteq> []"
    using q adm by (auto simp: settings_ok_def admissible_def)
  obtain i where first: "ranked_first q clock s i"
    and sel: "select_waiting q clock s = ((tick s)\<lparr>waiting := remove1 i (waiting s)\<rparr>, Inr i)"
    using select_waiting_ok [OF parts(1) p ne] by metis
  then have mem: "i \<in> set (waiting s)" by (simp add: ranked_first_def)
  have "inv (Some i) q clock (in_hand s i)"
    using inv_tick [OF inv_take_waiting [OF inv_tick [OF i clk]] clk, of i] mem by (simp add: in_hand_def)
  moreover have "state (objects (in_hand s i) ! i) = WAITING" "watched (in_hand s i) i"
    using shape_take_waiting(3,4) [OF parts(1) mem] by (simp_all add: watched_def in_hand_def)
  moreover have "admit_one q clock s =
    (if timeout_s q \<le> clock (Suc (reads s)) - enqueue_time_s (objects (in_hand s i) ! i)
     then complete_locked clock False i TIMEOUT (Some (timeout_message q)) (in_hand s i)
     else and_do (adapt_entry q clock i (in_hand s i)) (\<lambda>_ s3. (launch_entry clock i s3, Inr ())))"
    by (simp add: admit_one_def sel and_do_def Let_def in_hand_def)
  ultimately show thesis using that first mem by blast
qed

lemma in_hand_admitted:
  assumes i: "inv None q clock s" and hand: "inv (Some i) q clock (in_hand s i)"
    and first: "ranked_first q clock s i" and mem: "i \<in> set (waiting s)" and turn: "turn_done q (in_hand s i) i s'"
  shows "admitted q clock s i s'"
proof -
  have same: "in_flight_set (in_hand s i) = in_flight_set s" by (simp add: in_flight_set_def in_hand_def)
  have "later s (in_hand s i)" by (rule later_same) (simp_all add: in_hand_def)
  then have lat: "later s s'" using turn later_trans by (auto simp: turn_done_def)
  have "i \<notin> in_flight_set s"
    using shape_take_waiting(4) [OF inv_parts(1) [OF i] mem] by (simp add: in_flight_set_def)
  moreover have "stable_waiting_depth q (in_hand s i)
      = max 0 (int (length (waiting s)) + int (card (in_flight_set s)) - in_flight_limit q)"
  proof -
    have "length (in_flight_entries (in_hand s i)) = card (in_flight_set s)"
      using in_flight_entries_card [OF inv_parts(1) [OF hand]] same by simp
    moreover have "length (waiting s) = Suc (length (waiting (in_hand s i)))"
      using mem by (simp add: in_hand_def length_remove1) (metis Suc_pred length_pos_if_in_set)
    ultimately show ?thesis by (simp add: stable_waiting_depth_def Let_def)
  qed
  ultimately show ?thesis
    using first lat turn by (simp add: admitted_def turn_done_def same) (simp add: in_hand_def)
qed

lemma admit_one_ok:
  assumes i: "inv None q clock s" and clk: "mono clock" and q: "settings_ok q"
    and adm: "admissible q s"
  obtains s' i where "admit_one q clock s = (s', Inr ())" and "inv None q clock s'"
    and "admitted q clock s i s'"
proof -
  obtain i where first: "ranked_first q clock s i" "i \<in> set (waiting s)" and hand: "inv (Some i) q clock (in_hand s i)"
    and w: "state (objects (in_hand s i) ! i) = WAITING" "watched (in_hand s i) i"
    and step: "admit_one q clock s =
      (if timeout_s q \<le> clock (Suc (reads s)) - enqueue_time_s (objects (in_hand s i) ! i)
       then complete_locked clock False i TIMEOUT (Some (timeout_message q)) (in_hand s i)
       else and_do (adapt_entry q clock i (in_hand s i)) (\<lambda>_ s3. (launch_entry clock i s3, Inr ())))"
    using selected_in_hand [OF i clk q adm] .
  have free: "int (card (in_flight_set (in_hand s i))) < in_flight_limit q"
    using adm in_flight_entries_card [OF inv_parts(1) [OF i]]
    by (simp add: in_hand_def in_flight_set_def admissible_def)
  have le: "clock (Suc (reads s)) \<le> clock (reads (in_hand s i))"
    using clk by (simp add: in_hand_def mono_iff_le_Suc)
  obtain s' where "admit_one q clock s = (s', Inr ())" "inv None q clock s'" "turn_done q (in_hand s i) i s'"
  proof (cases "timeout_s q \<le> clock (Suc (reads s)) - enqueue_time_s (objects (in_hand s i) ! i)")
    case True
    then have "timeout_s q \<le> clock (reads (in_hand s i)) - enqueue_time_s (objects (in_hand s i) ! i)"
      using le by linarith
    from turn_expired [OF hand clk w this] show ?thesis using that step True by auto
  next
    case False
    then show ?thesis using turn_launched [OF hand clk w free] that step by auto
  qed
  then show thesis using that in_hand_admitted [OF i hand first] by blast
qed

section \<open>The admission loop\<close>

definition frame :: "AdmissionQueue \<Rightarrow> AdmissionQueue \<Rightarrow> bool" where
  "frame s s' \<longleftrightarrow> closing s' = closing s \<and> closed s' = closed s \<and> started s' = started s \<and>
     length (objects s') = length (objects s)"

lemma frame_refl [simp]: "frame s s"
  by (simp add: frame_def)

lemma frame_trans: "frame a b \<Longrightarrow> frame b c \<Longrightarrow> frame a c"
  by (simp add: frame_def)

lemma admit_available_ok:
  assumes "inv None q clock s" and "mono clock" and "settings_ok q"
  shows "\<exists>s'. admit_available q clock s = (s', Inr ()) \<and> inv None q clock s' \<and>
    \<not> admissible q s' \<and> later s s' \<and> frame s s' \<and>
    in_flight_set s \<subseteq> in_flight_set s' \<and> (closing s \<longrightarrow> s' = s) \<and> (waiting s = [] \<longrightarrow> s' = s)"
  using assms
proof (induction q clock s rule: admit_available.induct)
  case (1 q clock s)
  show ?case
  proof (cases "admissible q s")
    case False
    then show ?thesis using "1.prems" by (simp add: admit_available.simps)
  next
    case True
    obtain s1 i where a: "admit_one q clock s = (s1, Inr ())" "inv None q clock s1"
        "admitted q clock s i s1"
      using admit_one_ok [OF "1.prems" True] by metis
    have eq: "admit_available q clock s = admit_available q clock s1"
      using True a(1) by (subst admit_available.simps) simp
    have nc: "\<not> closing s" "waiting s \<noteq> []" using True by (simp_all add: admissible_def)
    have f: "frame s s1" "later s s1" "in_flight_set s \<subseteq> in_flight_set s1"
      using a(3) by (auto simp: admitted_def frame_def)
    obtain s' where s': "admit_available q clock s1 = (s', Inr ())" "inv None q clock s'"
        "\<not> admissible q s'" "later s1 s'" "frame s1 s'" "in_flight_set s1 \<subseteq> in_flight_set s'"
      using "1.IH" [OF _ a(1) [symmetric] refl a(2) "1.prems"(2,3)] True by auto
    have "later s s'" "frame s s'" "in_flight_set s \<subseteq> in_flight_set s'"
      using f s' by (metis later_trans, metis frame_trans, blast)
    then show ?thesis using s' eq nc by auto
  qed
qed

text \<open>
  Counting: every turn takes one entry off the waiting list and sends at most one. If all that
  left were sent, the number of requests in the system is unchanged, and every decision taken
  saw the number of requests that exceed the slots.
\<close>

definition fully_sent :: "QueueSettings \<Rightarrow> AdmissionQueue \<Rightarrow> AdmissionQueue \<Rightarrow> bool" where
  "fully_sent q s s' \<longleftrightarrow>
     length (waiting s') + card (in_flight_set s') = length (waiting s) + card (in_flight_set s) \<and>
     (\<exists>ds. adaptive_decisions s' = adaptive_decisions s @ ds \<and>
        (\<forall>d \<in> set ds. decision_q_inst (decided d) = max 0 (int (length (waiting s))
             + int (card (in_flight_set s)) - in_flight_limit q)))"

lemma fully_sent_refl: "fully_sent q s s"
  by (simp add: fully_sent_def)

lemma fully_sent_trans:
  assumes "fully_sent q s s1" and "fully_sent q s1 s2"
  shows "fully_sent q s s2"
proof -
  obtain ds ds' where ds: "adaptive_decisions s1 = adaptive_decisions s @ ds" "adaptive_decisions s2 = adaptive_decisions s1 @ ds'"
    "\<forall>d \<in> set ds. decision_q_inst (decided d) = max 0 (int (length (waiting s)) + int (card (in_flight_set s)) - in_flight_limit q)"
    "\<forall>d \<in> set ds'. decision_q_inst (decided d) = max 0 (int (length (waiting s1)) + int (card (in_flight_set s1)) - in_flight_limit q)"
    using assms unfolding fully_sent_def by blast
  have "length (waiting s1) + card (in_flight_set s1) = length (waiting s) + card (in_flight_set s)"
    using assms(1) by (simp add: fully_sent_def)
  then have load: "int (length (waiting s1)) + int (card (in_flight_set s1)) = int (length (waiting s)) + int (card (in_flight_set s))"
    by presburger
  show ?thesis
    using assms ds unfolding load by (auto simp: fully_sent_def)
qed

lemma admitted_count:
  assumes "admitted q clock s i s'"
  shows "length (waiting s) = Suc (length (waiting s'))" and "length (sent s') \<le> Suc (length (sent s))"
    and "length (sent s') = Suc (length (sent s)) \<Longrightarrow> fully_sent q s s'"
proof -
  have "i \<in> set (waiting s)" using assms by (simp add: admitted_def ranked_first_def)
  then show w: "length (waiting s) = Suc (length (waiting s'))"
    using assms by (simp add: admitted_def length_remove1) (metis Suc_pred length_pos_if_in_set)
  show "length (sent s') \<le> Suc (length (sent s))" using assms by (auto simp: admitted_def)
  show "fully_sent q s s'" if "length (sent s') = Suc (length (sent s))"
    using assms that w by (auto simp: admitted_def fully_sent_def)
qed

lemma admit_available_count:
  assumes "inv None q clock s" and "mono clock" and "settings_ok q"
    and "admit_available q clock s = (s', r)"
  shows "length (sent s') + length (waiting s') \<le> length (sent s) + length (waiting s) \<and>
    (length (sent s') + length (waiting s') = length (sent s) + length (waiting s) \<longrightarrow> fully_sent q s s')"
  using assms
proof (induction q clock s arbitrary: s' rule: admit_available.induct)
  case (1 q clock s)
  show ?case
  proof (cases "admissible q s")
    case False
    then show ?thesis using "1.prems"(4) by (simp add: admit_available.simps fully_sent_refl)
  next
    case True
    obtain s1 i where a: "admit_one q clock s = (s1, Inr ())" "inv None q clock s1"
        "admitted q clock s i s1"
      using admit_one_ok [OF "1.prems"(1-3) True] by metis
    have eq: "admit_available q clock s1 = (s', r)"
      using True a(1) "1.prems"(4) by (subst (asm) admit_available.simps) simp
    note IH = "1.IH" [OF _ a(1) [symmetric] refl a(2) "1.prems"(2,3) eq]
    note one = admitted_count [OF a(3)]
    show ?thesis
    proof (intro conjI impI)
      show "length (sent s') + length (waiting s') \<le> length (sent s) + length (waiting s)"
        using IH True one(1,2) by simp
      assume "length (sent s') + length (waiting s') = length (sent s) + length (waiting s)"
      then have "length (sent s1) = Suc (length (sent s))"
        and "length (sent s') + length (waiting s') = length (sent s1) + length (waiting s1)"
        using IH True one(1,2) by linarith+
      then show "fully_sent q s s'" using IH True one(3) fully_sent_trans by blast
    qed
  qed
qed

section \<open>Well-formed states\<close>

definition flags_ok :: "AdmissionQueue \<Rightarrow> bool" where
  "flags_ok s \<longleftrightarrow>
     (\<not> started s \<longrightarrow> objects s = [] \<and> \<not> closing s) \<and>
     (closing s \<or> closed s \<longrightarrow> waiting s = []) \<and>
     (closing s \<longrightarrow> (\<forall>i \<in> in_flight_set s. forced_status (objects s ! i) \<noteq> None)) \<and>
     (closed s \<longrightarrow> in_flight_set s = {})"

definition wf :: "QueueSettings \<Rightarrow> (nat \<Rightarrow> real) \<Rightarrow> AdmissionQueue \<Rightarrow> bool" where
  "wf q clock s \<longleftrightarrow> inv None q clock s \<and> \<not> admissible q s \<and> flags_ok s"

lemma admissible_card:
  "shape H s \<Longrightarrow> admissible q s \<longleftrightarrow> \<not> closing s \<and> waiting s \<noteq> [] \<and>
     int (card (in_flight_set s)) < in_flight_limit q"
  by (simp add: admissible_def in_flight_entries_card)

text \<open>A primitive that drops an entry from the waiting list, or changes no count, stays quiet.\<close>

lemma quiet_step:
  assumes "wf q clock s" and "inv None q clock s'" and "frame s s'"
    and "set (waiting s') \<subseteq> set (waiting s)" and "in_flight_set s' = in_flight_set s"
    and "\<And>i. i \<in> in_flight_set s \<Longrightarrow> forced_status (objects s ! i) \<noteq> None \<Longrightarrow>
      forced_status (objects s' ! i) \<noteq> None"
  shows "wf q clock s'"
proof -
  have "\<not> admissible q s'"
    using assms(1,3-5) admissible_card [OF inv_parts(1) [OF assms(2)], of q]
      admissible_card [of None s q] by (auto simp: wf_def inv_def frame_def)
  moreover have "flags_ok s'"
    using assms by (auto simp: wf_def flags_ok_def frame_def)
  ultimately show ?thesis using assms(2) by (simp add: wf_def)
qed

section \<open>Completing a waiting entry\<close>

lemma finish_in_hand:
  assumes w: "wf q clock s" and clk: "mono clock"
    and i1: "inv (Some i) q clock s1" and st: "state (objects s ! i) = WAITING"
    and rel: "objects s1 = objects s" "later s s1" "frame s s1" "set (waiting s1) \<subseteq> set (waiting s)"
    and own: "own \<Longrightarrow> i \<notin> set (timeout_tasks s1)" "\<not> own \<Longrightarrow> timeout_task (objects s1 ! i) \<noteq> None"
    and mf: "may_finish q clock s1 i status message"
  obtains s' where "complete_locked clock own i status message s1 = (s', Inr ())"
    and "wf q clock s'" "later s s'" "frame s s'" "waiting s' = waiting s1"
    and "result_future (objects s' ! i) = Some (entry_result (objects s ! i) status message (clock (reads s1)))"
proof -
  obtain s' r where c: "complete_locked clock own i status message s1 = (s', r)" by fastforce
  note ic = inv_complete [OF i1 clk own mf c]
  have len: "i < length (objects s1)" using shape_hand [OF inv_parts(1) [OF i1]] .
  have nif: "i \<notin> in_flight_set s" using st by (simp add: in_flight_set_def)
  have none: "result_future (objects s1 ! i) = None"
    using shape_entry [OF inv_parts(1) [OF i1] len] st rel(1) by (simp add: entry_shape_def)
  have ob: "objects s' = (objects s1)[i := completed clock own i status message s1]"
    using ic by simp
  have fr: "frame s s'" using ic ob rel(3) by (simp add: frame_def)
  have "later s1 s'"
    by (rule later_update [OF ob, of "[]"]) (use ic none in \<open>simp_all add: completed_def Let_def settled_def\<close>)
  with rel(2) have lat: "later s s'" by (rule later_trans)
  have ifs: "in_flight_set s' = in_flight_set s"
    using ic(7) nif rel(1) by (simp add: in_flight_set_def)
  have "wf q clock s'"
  proof (rule quiet_step [OF w _ fr])
    show "inv None q clock s'" using ic(1) by simp
    show "set (waiting s') \<subseteq> set (waiting s)" using ic(3) rel(4) by simp
    show "in_flight_set s' = in_flight_set s" by (fact ifs)
    show "forced_status (objects s' ! j) \<noteq> None"
      if "j \<in> in_flight_set s" "forced_status (objects s ! j) \<noteq> None" for j
      using that nif rel(1) by (cases "j = i") (simp_all add: ob)
  qed
  moreover have "result_future (objects s' ! i)
      = Some (entry_result (objects s ! i) status message (clock (reads s1)))"
    using len by (simp add: ob completed_def Let_def rel(1))
  ultimately show ?thesis using that c ic(2,3) lat fr by simp
qed

lemma finish_waiting:
  assumes w: "wf q clock s" and clk: "mono clock" and mem: "i \<in> set (waiting s)"
    and fin: "status = CANCELLED" "message \<noteq> None"
  obtains s' where "and_do (remove_waiting i s) (\<lambda>_ s1. complete_locked clock False i status message s1)
      = (s', Inr ())"
    and "wf q clock s'" "later s s'" "frame s s'" "waiting s' = remove1 i (waiting s)"
proof -
  have i: "inv None q clock s" using w by (simp add: wf_def)
  let ?s1 = "s\<lparr>waiting := remove1 i (waiting s)\<rparr>"
  note take = shape_take_waiting [OF inv_parts(1) [OF i] mem]
  have tt: "timeout_task (objects ?s1 ! i) \<noteq> None" using take(3) by (simp add: watched_def)
  have mf: "may_finish q clock ?s1 i status message" using fin by (simp add: may_finish_def)
  have lat: "later s ?s1" by (rule later_same) simp_all
  obtain s' where s': "complete_locked clock False i status message ?s1 = (s', Inr ())"
    "wf q clock s'" "later s s'" "frame s s'" "waiting s' = waiting ?s1"
    by (rule finish_in_hand [OF w clk inv_take_waiting [OF i mem] take(4) _ lat, where own = False])
       (use tt mf in \<open>simp_all add: frame_def set_remove1_subset\<close>)
  show ?thesis
    by (rule that [OF _ s'(2-4)]) (use s' mem in \<open>simp_all add: remove_waiting_def and_do_def\<close>)
qed

text \<open>The watcher's own completion: it has left the task set before.\<close>

lemma inv_drop_watcher:
  assumes "inv H q clock s"
    and "i < length (objects s) \<Longrightarrow>
      state (objects s ! i) = DONE \<or> forced_status (objects s ! i) \<noteq> None \<or> H = Some i"
  shows "inv H q clock (s\<lparr>timeout_tasks := removeAll i (timeout_tasks s)\<rparr>)"
proof (rule invI)
  show "shape H (s\<lparr>timeout_tasks := removeAll i (timeout_tasks s)\<rparr>)"
    using inv_parts(1) [OF assms(1)] assms(2) by (rule shape_drop_watcher)
qed (use inv_parts [OF assms(1)] in \<open>auto simp: times_def control_def split: option.splits\<close>)

lemma finish_watched:
  assumes w: "wf q clock s" and clk: "mono clock" and mem: "i \<in> set (waiting s)"
    and late: "timeout_s q \<le> clock (reads s) - enqueue_time_s (objects s ! i)"
  obtains s' where "and_do (remove_waiting i (s\<lparr>timeout_tasks := removeAll i (timeout_tasks s)\<rparr>))
      (\<lambda>_ s1. complete_locked clock True i TIMEOUT (Some (timeout_message q)) s1) = (s', Inr ())"
    and "wf q clock s'" "later s s'" "frame s s'"
    and "\<exists>r. result_future (objects s' ! i) = Some r \<and> res_status r = TIMEOUT"
proof -
  have i: "inv None q clock s" using w by (simp add: wf_def)
  let ?s0 = "s\<lparr>timeout_tasks := removeAll i (timeout_tasks s)\<rparr>"
  let ?s1 = "?s0\<lparr>waiting := remove1 i (waiting ?s0)\<rparr>"
  note take = shape_take_waiting [OF inv_parts(1) [OF i] mem]
  have "?s1 = (s\<lparr>waiting := remove1 i (waiting s)\<rparr>)\<lparr>timeout_tasks := removeAll i (timeout_tasks s)\<rparr>"
    by (cases s) simp
  moreover have "inv (Some i) q clock
      ((s\<lparr>waiting := remove1 i (waiting s)\<rparr>)\<lparr>timeout_tasks := removeAll i (timeout_tasks s)\<rparr>)"
    using inv_drop_watcher [OF inv_take_waiting [OF i mem], of i] by simp
  ultimately have "inv (Some i) q clock ?s1" by (simp only:)
  moreover have mf: "may_finish q clock ?s1 i TIMEOUT (Some (timeout_message q))"
    using late by (simp add: may_finish_def)
  moreover have lat: "later s ?s1" by (rule later_same) simp_all
  ultimately obtain s' where s': "complete_locked clock True i TIMEOUT (Some (timeout_message q)) ?s1 = (s', Inr ())"
    "wf q clock s'" "later s s'" "frame s s'"
    "result_future (objects s' ! i)
      = Some (entry_result (objects s ! i) TIMEOUT (Some (timeout_message q)) (clock (reads ?s1)))"
    using finish_in_hand [OF w clk _ take(4), of ?s1 True TIMEOUT "Some (timeout_message q)"]
    by (auto simp: frame_def set_remove1_subset)
  have r: "\<exists>r. result_future (objects s' ! i) = Some r \<and> res_status r = TIMEOUT"
    using s'(5) by (simp add: entry_result_def)
  show ?thesis
    by (rule that [OF _ s'(2-4) r]) (use s' mem in \<open>simp add: remove_waiting_def and_do_def\<close>)
qed

section \<open>Forcing a status\<close>

lemma inv_cancel_backend:
  assumes i: "inv None q clock s" and fl: "i \<in> in_flight_set s"
    and st: "status = CANCELLED \<or> status = TIMEOUT \<and> timeout_s q \<le> clock (reads s) - enqueue_time_s (objects s ! i)"
  shows "inv None q clock (cancel_backend i status s)" and "later s (cancel_backend i status s)"
    and "frame s (cancel_backend i status s)" "waiting (cancel_backend i status s) = waiting s"
    and "in_flight_set (cancel_backend i status s) = in_flight_set s"
    and "forced_status (objects (cancel_backend i status s) ! i) = Some status"
    and "j \<noteq> i \<Longrightarrow> objects (cancel_backend i status s) ! j = objects s ! j"
proof -
  have len: "i < length (objects s)" "state (objects s ! i) = IN_FLIGHT"
    using fl by (simp_all add: in_flight_set_def)
  note sc = shape_cancel_backend [OF inv_parts(1) [OF i] len, of status]
  let ?e = "(objects s ! i)\<lparr>forced_status := Some status,
      backend_task := request_cancel (backend_task (objects s ! i))\<rparr>" and ?s' = "cancel_backend i status s"
  have s': "objects ?s' = (objects s)[i := ?e]" "waiting ?s' = waiting s" "reads ?s' = reads s"
      "adaptive_controller ?s' = adaptive_controller s" "adaptive_decisions ?s' = adaptive_decisions s"
      "sent ?s' = sent s" "closing ?s' = closing s" "closed ?s' = closed s" "started ?s' = started s"
    by (simp_all add: cancel_backend_def upd_entry_def)
  show "in_flight_set ?s' = in_flight_set s" "forced_status (objects ?s' ! i) = Some status"
    by (fact sc(2), fact sc(3))
  show "j \<noteq> i \<Longrightarrow> objects ?s' ! j = objects s ! j" "frame s ?s'" "waiting ?s' = waiting s"
    by (simp_all add: s' frame_def)
  show "later s ?s'"
    by (rule later_update [OF s'(1), of "[]"]) (simp_all add: s' settled_def)
  have "result_future (objects s ! i) = None"
    using shape_entry [OF inv_parts(1) [OF i] len(1)] len(2) by (simp add: entry_shape_def)
  then have "entry_times q clock (reads s) ?e"
    using inv_entry [OF i len(1)] st by (auto simp: entry_times_def)
  moreover have "times q clock s" using inv_parts(2) [OF i] .
  ultimately have "times q clock ?s'"
    using set_update_subset_insert [of "objects s" i ?e] by (auto simp: times_def s')
  moreover have "control q clock ?s'"
    using inv_parts(3) [OF i] by (auto simp: control_def s' split: option.splits)
  ultimately show "inv None q clock ?s'"
    using sc(1,2) inv_parts(4,5) [OF i] by (intro invI) (simp_all add: s')
qed

lemma wf_cancel_backend:
  assumes w: "wf q clock s" and fl: "i \<in> in_flight_set s"
    and st: "status = CANCELLED \<or> status = TIMEOUT \<and> timeout_s q \<le> clock (reads s) - enqueue_time_s (objects s ! i)"
  shows "wf q clock (cancel_backend i status s)"
proof -
  have i: "inv None q clock s" using w by (simp add: wf_def)
  note ic = inv_cancel_backend [OF i fl st]
  show ?thesis
  proof (rule quiet_step [OF w ic(1,3)])
    show "forced_status (objects (cancel_backend i status s) ! j) \<noteq> None"
      if "forced_status (objects s ! j) \<noteq> None" for j
      using ic(6,7) that by (cases "j = i") simp_all
  qed (simp_all add: ic)
qed

end
