(* ===== verification/AdmissionRuns.thy ===== *)
theory AdmissionRuns
  imports AdmissionOps
begin

text \<open>
  Each event of the admission queue keeps the invariant, and so does every run. The queue's own
  code never raises; only \<open>submit\<close> on a queue that is not open and \<open>start\<close> on a closed one do.
\<close>

section \<open>Closing\<close>

lemma inv_closing:
  "inv H q clock s \<Longrightarrow> inv H q clock (s\<lparr>closing := b\<rparr>)"
  by (auto simp: inv_def times_def control_def split: option.splits)

lemma drain_step:
  assumes i: "inv None q clock s" and clk: "mono clock" and mem: "i \<in> set (waiting s)"
  obtains s' where "and_do (remove_waiting i s) (\<lambda>_ s1. complete_locked clock False i CANCELLED (Some m) s1)
      = (s', Inr ())"
    and "inv None q clock s'" "later s s'" "frame s s'" "waiting s' = remove1 i (waiting s)"
    and "in_flight_set s' = in_flight_set s"
proof -
  let ?s1 = "s\<lparr>waiting := remove1 i (waiting s)\<rparr>"
  note take = shape_take_waiting [OF inv_parts(1) [OF i] mem]
  obtain s' r where c: "complete_locked clock False i CANCELLED (Some m) ?s1 = (s', r)" by fastforce
  have tt: "timeout_task (objects ?s1 ! i) \<noteq> None" using take(3) by (simp add: watched_def)
  have mf: "may_finish q clock ?s1 i CANCELLED (Some m)" by (simp add: may_finish_def)
  note ic = inv_complete [OF inv_take_waiting [OF i mem] clk _ _ mf c, OF _ tt]
  have len: "i < length (objects s)" using shape_bound [OF inv_parts(1) [OF i]] mem by blast
  have none: "result_future (objects s ! i) = None"
    using shape_entry [OF inv_parts(1) [OF i] len] take(4) by (simp add: entry_shape_def)
  have ob: "objects s' = (objects s)[i := completed clock False i CANCELLED (Some m) ?s1]"
    using ic by simp
  have "later s s'"
    by (rule later_update [OF ob, of "[]"]) (use ic none in \<open>simp_all add: completed_def Let_def settled_def\<close>)
  moreover have "in_flight_set s' = in_flight_set s"
    using ic(7) take(4) by (simp add: in_flight_set_def)
  moreover have "frame s s'" "waiting s' = remove1 i (waiting s)" "inv None q clock s'"
    using ic ob by (simp_all add: frame_def)
  moreover have "and_do (remove_waiting i s) (\<lambda>_ s1. complete_locked clock False i CANCELLED (Some m) s1)
      = (s', Inr ())"
    using mem c ic(2) by (simp add: remove_waiting_def and_do_def)
  ultimately show ?thesis using that by blast
qed

lemma and_do_assoc: "and_do (and_do m f) g = and_do m (\<lambda>x s. and_do (f x s) g)"
  by (auto simp: and_do_def split: prod.splits sum.splits)

lemma and_do_Inr [simp]: "and_do (s, Inr x) f = f x s"
  by (simp add: and_do_def)

lemma drain_waiting_ok:
  assumes "inv None q clock s" and "mono clock" and "xs = waiting s"
  shows "\<exists>s'. drain_waiting clock xs s = (s', Inr ()) \<and> inv None q clock s' \<and> later s s' \<and>
    frame s s' \<and> waiting s' = [] \<and> in_flight_set s' = in_flight_set s"
  using assms
proof (induction xs arbitrary: s)
  case (Cons i xs)
  have mem: "i \<in> set (waiting s)" using Cons.prems(3) by (metis list.set_intros(1))
  obtain s1 where s1: "and_do (remove_waiting i s) (\<lambda>_ s1. complete_locked clock False i CANCELLED
        (Some ''admission queue closed before dispatch'') s1) = (s1, Inr ())"
      "inv None q clock s1" "later s s1" "frame s s1" "waiting s1 = remove1 i (waiting s)"
      "in_flight_set s1 = in_flight_set s"
    using drain_step [OF Cons.prems(1,2) mem] by metis
  have "xs = waiting s1" using s1(5) Cons.prems(3) by (metis remove1.simps(2))
  from Cons.IH [OF s1(2) Cons.prems(2) this] obtain s' where s':
      "drain_waiting clock xs s1 = (s', Inr ())" "inv None q clock s'" "later s1 s'" "frame s1 s'"
      "waiting s' = []" "in_flight_set s' = in_flight_set s1"
    by blast
  have "drain_waiting clock (i # xs) s = drain_waiting clock xs s1"
    by (simp add: and_do_assoc [symmetric] s1(1))
  moreover have "later s s'" "frame s s'"
    using s1(3,4) s'(3,4) by (metis later_trans, metis frame_trans)
  ultimately show ?case using s' s1(6) by auto
qed simp

lemma cancel_all_ok:
  assumes "inv None q clock s" and "set xs \<subseteq> in_flight_set s"
  shows "inv None q clock (fold (\<lambda>i. cancel_backend i CANCELLED) xs s) \<and>
    later s (fold (\<lambda>i. cancel_backend i CANCELLED) xs s) \<and>
    frame s (fold (\<lambda>i. cancel_backend i CANCELLED) xs s) \<and>
    waiting (fold (\<lambda>i. cancel_backend i CANCELLED) xs s) = waiting s \<and>
    in_flight_set (fold (\<lambda>i. cancel_backend i CANCELLED) xs s) = in_flight_set s \<and>
    (\<forall>j. j \<in> set xs \<or> forced_status (objects s ! j) \<noteq> None \<longrightarrow>
      forced_status (objects (fold (\<lambda>i. cancel_backend i CANCELLED) xs s) ! j) \<noteq> None)"
  using assms
proof (induction xs arbitrary: s)
  case (Cons i xs)
  have fl: "i \<in> in_flight_set s" using Cons.prems(2) by simp
  note ic = inv_cancel_backend [OF Cons.prems(1) fl, of CANCELLED, simplified]
  have forced: "forced_status (objects (cancel_backend i CANCELLED s) ! j) \<noteq> None"
    if "j = i \<or> forced_status (objects s ! j) \<noteq> None" for j
    using that ic(6,7) by (cases "j = i") simp_all
  have "set xs \<subseteq> in_flight_set (cancel_backend i CANCELLED s)" using Cons.prems(2) ic(5) by simp
  note IH = Cons.IH [OF ic(1) this]
  show ?case
    using IH ic forced by (auto intro: later_trans frame_trans)
qed simp

lemma wf_flagless:
  assumes "inv None q clock s" and "closing s \<or> waiting s = []" and "flags_ok s"
  shows "wf q clock s"
  using assms by (auto simp: wf_def admissible_def)

lemma aclose_unstarted_ok:
  assumes w: "wf q clock s" and state: "\<not> closed s" "\<not> started s"
  shows "aclose_begin clock s = (s\<lparr>closed := True\<rparr>, Inr ())" and "wf q clock (s\<lparr>closed := True\<rparr>)"
    and "later s (s\<lparr>closed := True\<rparr>)" and "waiting s = []"
proof -
  have i: "inv None q clock s" and fl: "flags_ok s" using w by (simp_all add: wf_def)
  have ob: "objects s = []" using fl state by (simp add: flags_ok_def)
  show wt: "waiting s = []"
  proof (rule ccontr)
    assume "waiting s \<noteq> []"
    then have "hd (waiting s) < length (objects s)"
      using shape_bound [OF inv_parts(1) [OF i], of "hd (waiting s)"] by simp
    with ob show False by simp
  qed
  have "inv None q clock (s\<lparr>closed := True\<rparr>)"
    using i by (auto simp: inv_def times_def control_def in_flight_set_def split: option.splits)
  moreover have "flags_ok (s\<lparr>closed := True\<rparr>)"
    using fl ob wt state by (simp add: flags_ok_def in_flight_set_def)
  ultimately show "wf q clock (s\<lparr>closed := True\<rparr>)" using wt by (intro wf_flagless) simp_all
  show "later s (s\<lparr>closed := True\<rparr>)" by (rule later_same) simp_all
  show "aclose_begin clock s = (s\<lparr>closed := True\<rparr>, Inr ())" using state by (simp add: aclose_begin_def)
qed

text \<open>Closing an open queue: the waiting entries are drained, then every call in flight is cancelled.\<close>

lemma aclose_opened_ok:
  assumes w: "wf q clock s" and clk: "mono clock" and state: "\<not> closed s" "started s"
  obtains s' where "aclose_begin clock s = (s', Inr ())" "wf q clock s'" "later s s'" "closing s'" "waiting s' = []"
proof -
  have i: "inv None q clock s" and fl: "flags_ok s" using w by (simp_all add: wf_def)
  let ?s0 = "s\<lparr>closing := True\<rparr>"
  obtain s1 where s1: "drain_waiting clock (waiting s) ?s0 = (s1, Inr ())" "inv None q clock s1"
      "later ?s0 s1" "frame ?s0 s1" "waiting s1 = []" "in_flight_set s1 = in_flight_set ?s0"
    using drain_waiting_ok [OF inv_closing [OF i, of True] clk, of "waiting s"] by auto
  let ?s' = "fold (\<lambda>i. cancel_backend i CANCELLED) (in_flight_entries s1) s1"
  have set: "set (in_flight_entries s1) = in_flight_set s1"
    using in_flight_entries_set [OF inv_parts(1) [OF s1(2)]] .
  note ca = cancel_all_ok [OF s1(2), of "in_flight_entries s1", unfolded set]
  have fr: "frame ?s0 ?s'" using s1(4) ca by (metis frame_trans order_refl)
  have "flags_ok ?s'" using fr state ca s1(5) by (auto simp: flags_ok_def frame_def)
  then have "wf q clock ?s'" using ca s1(5) fr by (intro wf_flagless) (auto simp: frame_def)
  moreover have "later s ?s0" by (rule later_same) simp_all
  then have "later s ?s'" using s1(3) ca by (metis later_trans order_refl)
  moreover have "aclose_begin clock s = (?s', Inr ())" using state s1(1) by (simp add: aclose_begin_def)
  ultimately show thesis using that [of ?s'] fr ca s1(5) by (simp add: frame_def)
qed

lemma aclose_begin_ok:
  assumes w: "wf q clock s" and clk: "mono clock"
  obtains s' where "aclose_begin clock s = (s', Inr ())" "wf q clock s'" "later s s'"
    and "closed s' \<or> closing s'"
    and "waiting s' = []"
proof -
  have fl: "flags_ok s" using w by (simp add: wf_def)
  consider (closed) "closed s" | (unstarted) "\<not> closed s" "\<not> started s" | (opened) "\<not> closed s" "started s"
    by blast
  then show thesis
  proof cases
    case closed
    then show thesis using that [of s] w fl by (simp add: aclose_begin_def flags_ok_def)
  next
    case unstarted
    from aclose_unstarted_ok [OF w unstarted] show thesis by (intro that [of "s\<lparr>closed := True\<rparr>"]) simp_all
  next
    case opened
    obtain s' where "aclose_begin clock s = (s', Inr ())" "wf q clock s'" "later s s'" "closing s'" "waiting s' = []"
      by (rule aclose_opened_ok [OF w clk opened])
    then show thesis by (intro that [of s']) simp_all
  qed
qed

lemma aclose_end_ok:
  assumes w: "wf q clock s" and en: "enabled s CloseEnds"
  shows "wf q clock (aclose_end s)" and "later s (aclose_end s)"
proof -
  have i: "inv None q clock s" and fl: "flags_ok s" using w by (simp_all add: wf_def)
  have "in_flight_set s = {}"
  proof -
    have False if "j \<in> in_flight_set s" for j
      using that shape_entry [OF inv_parts(1) [OF i], of j] en
      by (auto simp: in_flight_set_def entry_shape_def)
    then show ?thesis by blast
  qed
  then have "flags_ok (aclose_end s)"
    using fl en by (auto simp: flags_ok_def aclose_end_def in_flight_set_def)
  moreover have "inv None q clock (aclose_end s)"
    using i by (auto simp: aclose_end_def inv_def times_def control_def in_flight_set_def
        split: option.splits)
  moreover have "waiting (aclose_end s) = []" using fl en by (simp add: flags_ok_def aclose_end_def)
  ultimately show "wf q clock (aclose_end s)" by (intro wf_flagless) simp_all
  show "later s (aclose_end s)" by (rule later_same) (simp_all add: aclose_end_def)
qed

section \<open>The other operations\<close>

lemma wf_tick:
  assumes "wf q clock s" and "mono clock"
  shows "wf q clock (tick s)"
proof (rule quiet_step [OF assms(1)])
  show "inv None q clock (tick s)" using assms inv_tick by (auto simp: wf_def)
qed (simp_all add: frame_def)

lemma later_tick [simp]: "later s (tick s)"
  by (rule later_same) simp_all

lemma inv_enqueue:
  assumes i: "inv None q clock s" and clk: "mono clock" and env: "valid_envelope env"
    and cap: "int (length (waiting s)) < capacity q" and t: "t \<le> clock (reads s)"
  shows "inv None q clock (enqueue env t s)" and "later s (enqueue env t s)"
proof -
  let ?s' = "enqueue env t s"
  have s': "objects ?s' = objects s @ [(new_entry env t)\<lparr>timeout_task := Some Running\<rparr>]"
      "waiting ?s' = waiting s @ [length (objects s)]" "reads ?s' = reads s" "sent ?s' = sent s"
      "adaptive_controller ?s' = adaptive_controller s" "adaptive_decisions ?s' = adaptive_decisions s"
    by (simp_all add: enqueue_def upd_entry_def Let_def)
  note se = shape_enqueue [OF inv_parts(1) [OF i], of env t]
  show "inv None q clock ?s'"
  proof (rule invI)
    show "shape None ?s'" by (fact se(1))
    have "entry_times q clock (reads s) ((new_entry env t)\<lparr>timeout_task := Some Running\<rparr>)"
      using env t by (simp add: entry_times_def new_entry_def)
    then show "times q clock ?s'" using inv_parts(2) [OF i] by (simp add: times_def s')
    show "control q clock ?s'"
      using inv_parts(3) [OF i] by (auto simp: control_def s' split: option.splits)
    show "int (card (in_flight_set ?s')) \<le> in_flight_limit q" using inv_parts(4) [OF i] se(2) by simp
    show "int (length (waiting ?s')) \<le> capacity q" using cap by (simp add: s')
  qed
  show "later s ?s'" by (simp add: later_def s' nth_append)
qed

lemma submit_ok:
  assumes w: "wf q clock s" and clk: "mono clock" and q: "settings_ok q" and env: "valid_envelope env"
  obtains s' r where "submit q clock env s = (s', r)" and "wf q clock s'" and "later s s'"
    and "started s \<and> \<not> closing s \<and> \<not> closed s \<Longrightarrow> capacity q \<le> int (length (waiting s)) \<Longrightarrow>
      r = Inr (Rejected (rejection env (clock (reads s)) (clock (Suc (reads s))))) \<and> objects s' = objects s \<and>
      sent s' = sent s"
    and "started s \<and> \<not> closing s \<and> \<not> closed s \<Longrightarrow> int (length (waiting s)) < capacity q \<Longrightarrow>
      r = Inr (Enqueued (length (objects s))) \<and> length (objects s') = Suc (length (objects s)) \<and>
      enqueue_time_s (objects s' ! length (objects s)) = clock (reads s) \<and>
      same_request env (envelope (objects s' ! length (objects s)))"
    and "\<not> (started s \<and> \<not> closing s \<and> \<not> closed s) \<Longrightarrow>
      r = Inl (RuntimeError ''admission queue is not accepting requests'') \<and> s' = tick s"
proof -
  have i1: "inv None q clock (tick s)" using w inv_tick [OF _ clk] by (simp add: wf_def)
  consider (shut) "\<not> (started s \<and> \<not> closing s \<and> \<not> closed s)"
    | (full) "started s \<and> \<not> closing s \<and> \<not> closed s" "capacity q \<le> int (length (waiting s))"
    | (room) "started s \<and> \<not> closing s \<and> \<not> closed s" "int (length (waiting s)) < capacity q"
    by linarith
  then show thesis
  proof cases
    case shut
    then show thesis
      using that [of "tick s" "Inl (RuntimeError ''admission queue is not accepting requests'')"]
        wf_tick [OF w clk] by (auto simp: submit_def Let_def)
  next
    case full
    have "wf q clock (tick (tick s))" using wf_tick [OF wf_tick [OF w clk] clk] .
    moreover have "later s (tick (tick s))" by (rule later_same) simp_all
    ultimately show thesis
      using that [of "tick (tick s)"] full by (auto simp: submit_def Let_def)
  next
    case room
    have le: "clock (reads s) \<le> clock (reads (tick s))" using clk by (simp add: mono_iff_le_Suc)
    let ?s2 = "enqueue env (clock (reads s)) (tick s)"
    note ie = inv_enqueue [OF i1 clk env _ le]
    have cap: "int (length (waiting (tick s))) < capacity q" using room by simp
    obtain s' where s': "admit_available q clock ?s2 = (s', Inr ())" "inv None q clock s'"
        "\<not> admissible q s'" "later ?s2 s'" "frame ?s2 s'"
      using admit_available_ok [OF ie(1) [OF cap] clk q] by blast
    have fr: "closing ?s2 = closing s" "closed ?s2 = closed s" "started ?s2 = started s"
        "objects ?s2 = objects s @ [(new_entry env (clock (reads s)))\<lparr>timeout_task := Some Running\<rparr>]"
      by (simp_all add: enqueue_def upd_entry_def Let_def)
    have "flags_ok s'" using s'(5) fr room by (simp add: flags_ok_def frame_def)
    then have "wf q clock s'" using s' by (simp add: wf_def)
    moreover have "later s s'"
      using ie(2) [OF cap] s'(4) later_tick by (metis later_trans)
    moreover have "settled (objects ?s2 ! length (objects s)) (objects s' ! length (objects s))"
      using s'(4) fr(4) unfolding later_def by (metis length_append_singleton lessI)
    moreover have "submit q clock env s = (s', Inr (Enqueued (length (objects s))))"
      using room s'(1) by (simp add: submit_def Let_def)
    ultimately show thesis
      using that [of s'] room s'(5) fr(4) by (simp add: frame_def settled_def new_entry_def)
  qed
qed

lemma final_message_None:
  "final_message q (backend_status ending) (backend_message ending) = None \<longleftrightarrow> backend_status ending = SUCCESS"
  "final_message q TIMEOUT m \<noteq> None" "final_message q CANCELLED m \<noteq> None"
  by (cases ending; simp add: final_message_def) (auto simp: final_message_def)

text \<open>The status \<open>_run_backend\<close> settles on, and the clock after it.\<close>

definition final_status ::
    "QueueSettings \<Rightarrow> (nat \<Rightarrow> real) \<Rightarrow> QueueEntry \<Rightarrow> nat \<Rightarrow> backend_end \<Rightarrow> DispatchStatus" where
  "final_status q clock e n ending =
     (case forced_status e of
        Some forced \<Rightarrow> forced
      | None \<Rightarrow> if timeout_s q \<le> clock n - enqueue_time_s e then TIMEOUT else backend_status ending)"

lemma backend_may_finish:
  assumes i: "inv None q clock s" and clk: "mono clock" and len: "i < length (objects s)"
    and disp: "dispatch_time_s (objects s ! i) \<noteq> None" and same: "objects s' = objects s"
    and reads: "reads s' = (if forced_status (objects s ! i) = None then Suc (reads s) else reads s)"
  shows "may_finish q clock s' i (final_status q clock (objects s ! i) (reads s) ending)
    (final_message q (final_status q clock (objects s ! i) (reads s) ending) (backend_message ending))"
proof (cases "forced_status (objects s ! i)")
  case None
  then have "clock (reads s) \<le> clock (reads s')" using clk reads by (simp add: mono_iff_le_Suc)
  then show ?thesis
    using None same reads disp final_message_None(1) [of q ending] final_message_None(2) [of q "backend_message ending"]
    by (cases ending) (auto simp: may_finish_def final_status_def)
next
  case (Some f)
  have "entry_times q clock (reads s) (objects s ! i)" using inv_entry [OF i len] .
  then have "f = CANCELLED \<or> f = TIMEOUT \<and> timeout_s q \<le> clock (reads s) - enqueue_time_s (objects s ! i)"
    using Some by (auto simp: entry_times_def)
  then show ?thesis
    using Some same reads final_message_None(2,3) [of q "backend_message ending"]
    by (auto simp: may_finish_def final_status_def)
qed

text \<open>A freed slot is filled again: the admission loop restores the steady state.\<close>

lemma refill_ok:
  assumes i: "inv None q clock s" and clk: "mono clock" and q: "settings_ok q"
    and fl: "flags_ok s" and ne: "objects s \<noteq> []"
  obtains s' where "admit_available q clock s = (s', Inr ())" and "wf q clock s'" and "later s s'" and "frame s s'"
proof -
  obtain s' where s': "admit_available q clock s = (s', Inr ())" "inv None q clock s'"
      "\<not> admissible q s'" "later s s'" "frame s s'"
    and quiet: "closing s \<longrightarrow> s' = s" "waiting s = [] \<longrightarrow> s' = s"
    using admit_available_ok [OF i clk q] by auto
  have "flags_ok s'"
  proof (cases "closing s \<or> closed s")
    case True
    then have "s' = s" using quiet fl by (auto simp: flags_ok_def)
    with fl show ?thesis by simp
  next
    case False
    with ne fl s'(5) show ?thesis by (auto simp: flags_ok_def frame_def)
  qed
  then show thesis using that s' by (simp add: wf_def)
qed

text \<open>The entry of a finished call, out of the runner set and in hand, is completed.\<close>

definition ended :: "nat \<Rightarrow> AdmissionQueue \<Rightarrow> AdmissionQueue" where
  "ended i s = (let s0 = s\<lparr>runner_tasks := removeAll i (runner_tasks s)\<rparr> in
     if forced_status (objects s ! i) = None then tick s0 else s0)"

lemma ended_simps [simp]:
  "objects (ended i s) = objects s" "sent (ended i s) = sent s" "waiting (ended i s) = waiting s"
  "closing (ended i s) = closing s" "closed (ended i s) = closed s" "started (ended i s) = started s"
  "in_flight_set (ended i s) = in_flight_set s" "reads s \<le> reads (ended i s)"
  by (simp_all add: ended_def Let_def in_flight_set_def)

lemma complete_ended:
  assumes w: "wf q clock s" and clk: "mono clock" and mem: "i \<in> set (runner_tasks s)"
    and st: "st = final_status q clock (objects s ! i) (reads s) ending" and m: "m = final_message q st (backend_message ending)"
  obtains s2 where "complete_locked clock False i st m (ended i s) = (s2, Inr ())" and "inv None q clock s2"
    and "flags_ok s2" and "later s s2" and "length (objects s2) = length (objects s)"
    and "\<exists>r. result_future (objects s2 ! i) = Some r \<and> res_status r = st"
proof -
  have i: "inv None q clock s" and fl: "flags_ok s" using w by (simp_all add: wf_def)
  note take = shape_take_runner [OF inv_parts(1) [OF i] mem]
  let ?s0 = "s\<lparr>runner_tasks := removeAll i (runner_tasks s)\<rparr>"
  have i0: "inv (Some i) q clock ?s0"
    using i take(1) by (auto simp: inv_def times_def control_def in_flight_set_def split: option.splits)
  have i1: "inv (Some i) q clock (ended i s)" using i0 inv_tick [OF i0 clk] by (simp add: ended_def Let_def)
  have len: "i < length (objects s)" using shape_bound [OF inv_parts(1) [OF i]] mem by blast
  have es: "entry_shape None s i (objects s ! i)" using shape_entry [OF inv_parts(1) [OF i] len] .
  then have e: "dispatch_time_s (objects s ! i) \<noteq> None" "timeout_task (objects (ended i s) ! i) \<noteq> None"
    "result_future (objects s ! i) = None"
    using take(2) by (simp_all add: entry_shape_def)
  have mf: "may_finish q clock (ended i s) i st m"
    unfolding m st using backend_may_finish [OF i clk len e(1), of "ended i s"] by (simp add: ended_def Let_def)
  obtain s2 r where c: "complete_locked clock False i st m (ended i s) = (s2, r)" by fastforce
  note ic = inv_complete [OF i1 clk _ _ mf c, OF _ e(2)]
  have ob: "objects s2 = (objects s)[i := completed clock False i st m (ended i s)]" using ic by simp
  have "reads s \<le> reads s2" by (simp add: ic le_SucI)
  then have "later s s2"
    by (intro later_update [OF ob, of "[]"]) (use e(3) ic in \<open>simp_all add: completed_def Let_def settled_def\<close>)
  moreover have "flags_ok s2" using fl ic ob len by (auto simp: flags_ok_def nth_list_update)
  moreover have "\<exists>r. result_future (objects s2 ! i) = Some r \<and> res_status r = st"
    using len by (simp add: ob completed_def Let_def entry_result_def)
  ultimately show thesis using that c ic(1,2) ob by simp
qed

lemma run_backend_ok:
  assumes w: "wf q clock s" and clk: "mono clock" and q: "settings_ok q" and mem: "i \<in> set (runner_tasks s)"
  obtains s' where "run_backend q clock i ending s = (s', Inr ())" and "wf q clock s'" and "later s s'"
    and "\<exists>r. result_future (objects s' ! i) = Some r \<and>
      res_status r = final_status q clock (objects s ! i) (reads s) ending"
proof -
  let ?st = "final_status q clock (objects s ! i) (reads s) ending"
  let ?m = "final_message q ?st (backend_message ending)"
  obtain s2 where s2: "complete_locked clock False i ?st ?m (ended i s) = (s2, Inr ())" "inv None q clock s2"
    "flags_ok s2" "later s s2" "length (objects s2) = length (objects s)"
    "\<exists>r. result_future (objects s2 ! i) = Some r \<and> res_status r = ?st"
    using complete_ended [OF w clk mem refl refl] .
  have len: "i < length (objects s)" using shape_bound [OF inv_parts(1)] mem w by (auto simp: wf_def)
  then have "objects s2 \<noteq> []" using s2(5) by auto
  then obtain s' where s': "admit_available q clock s2 = (s', Inr ())" "wf q clock s'" "later s2 s'" "frame s2 s'"
    using refill_ok [OF s2(2) clk q s2(3)] by metis
  have "settled (objects s2 ! i) (objects s' ! i)" using s'(3) len s2(5) by (simp add: later_def)
  then have "\<exists>r. result_future (objects s' ! i) = Some r \<and> res_status r = ?st" using s2(6) by (auto simp: settled_def)
  moreover have "run_backend q clock i ending s = and_do (complete_locked clock False i ?st ?m (ended i s))
      (\<lambda>_ s2. admit_available q clock s2)"
    by (cases "forced_status (objects s ! i)") (simp_all add: run_backend_def final_status_def Let_def ended_def)
  ultimately show thesis using that s2(1) s'(1,2) later_trans [OF s2(4) s'(3)] by simp
qed

lemma wf_entry:
  "wf q clock s \<Longrightarrow> i < length (objects s) \<Longrightarrow> entry_shape None s i (objects s ! i)"
  using shape_entry inv_parts(1) by (auto simp: wf_def)

lemma wf_bound:
  "wf q clock s \<Longrightarrow> i \<in> set (waiting s) \<union> set (runner_tasks s) \<union> set (timeout_tasks s) \<Longrightarrow>
   i < length (objects s)"
  unfolding wf_def using shape_bound [OF inv_parts(1)] by blast

lemma wf_drop_watcher:
  assumes w: "wf q clock s"
    and "i < length (objects s) \<Longrightarrow>
      state (objects s ! i) = DONE \<or> forced_status (objects s ! i) \<noteq> None"
  shows "wf q clock (s\<lparr>timeout_tasks := removeAll i (timeout_tasks s)\<rparr>)"
proof (rule quiet_step [OF w])
  show "inv None q clock (s\<lparr>timeout_tasks := removeAll i (timeout_tasks s)\<rparr>)"
    using w assms(2) by (intro inv_drop_watcher) (auto simp: wf_def)
qed (simp_all add: frame_def)

text \<open>A watcher that finds its entry in flight leaves the task set and cancels the call.\<close>

lemma cancel_watched:
  assumes w: "wf q clock s" and fl: "i \<in> in_flight_set s"
    and late: "timeout_s q \<le> clock (reads s) - enqueue_time_s (objects s ! i)"
    and s2: "s2 = s\<lparr>timeout_tasks := removeAll i (timeout_tasks s)\<rparr>"
  shows "wf q clock (cancel_backend i TIMEOUT s2)" and "later s (cancel_backend i TIMEOUT s2)"
    and "forced_status (objects (cancel_backend i TIMEOUT s2) ! i) = Some TIMEOUT"
proof -
  let ?c = "cancel_backend i TIMEOUT s"
  have "wf q clock ?c" using wf_cancel_backend [OF w fl] late by simp
  moreover have ic: "forced_status (objects ?c ! i) = Some TIMEOUT" "later s ?c"
    using inv_cancel_backend(2,6) [of q clock s i TIMEOUT] w fl late by (simp_all add: wf_def)
  moreover have swap: "cancel_backend i TIMEOUT s2 = ?c\<lparr>timeout_tasks := removeAll i (timeout_tasks ?c)\<rparr>"
    unfolding s2 by (cases s) (simp add: cancel_backend_def upd_entry_def)
  ultimately show "wf q clock (cancel_backend i TIMEOUT s2)"
    unfolding swap by (intro wf_drop_watcher) simp_all
  have "later ?c (cancel_backend i TIMEOUT s2)" unfolding swap by (rule later_same) simp_all
  with ic(2) show "later s (cancel_backend i TIMEOUT s2)" by (rule later_trans)
  show "forced_status (objects (cancel_backend i TIMEOUT s2) ! i) = Some TIMEOUT" using ic(1) by (simp add: swap)
qed

lemma watch_timeout_ok:
  assumes w: "wf q clock s" and clk: "mono clock" and mem: "i \<in> set (timeout_tasks s)"
  obtains s' where "watch_timeout q clock i s = (s', Inr ())" and "wf q clock s'" and "later s s'"
    and "enqueue_time_s (objects s ! i) + timeout_s q \<le> clock (reads s) \<and> state (objects s ! i) = WAITING \<longrightarrow>
      (\<exists>r. result_future (objects s' ! i) = Some r \<and> res_status r = TIMEOUT)"
    and "enqueue_time_s (objects s ! i) + timeout_s q \<le> clock (reads s) \<and> state (objects s ! i) = IN_FLIGHT \<longrightarrow>
      forced_status (objects s' ! i) = Some TIMEOUT"
proof (cases "enqueue_time_s (objects s ! i) + timeout_s q - clock (reads s) > 0")
  case True
  then show thesis using that [of "tick s"] wf_tick [OF w clk] by (simp add: watch_timeout_def Let_def)
next
  case False
  let ?s1 = "tick s"
  let ?s2 = "?s1\<lparr>timeout_tasks := removeAll i (timeout_tasks s)\<rparr>"
  have s2: "?s1\<lparr>timeout_tasks := removeAll i (timeout_tasks ?s1)\<rparr> = ?s2" by simp
  have w1: "wf q clock ?s1" using wf_tick [OF w clk] .
  have len: "i < length (objects s)" using wf_bound [OF w] mem by blast
  have es: "entry_shape None s i (objects s ! i)" using wf_entry [OF w len] .
  have "clock (reads s) \<le> clock (reads ?s1)" using clk by (simp add: mono_iff_le_Suc)
  then have late: "timeout_s q \<le> clock (reads ?s1) - enqueue_time_s (objects ?s1 ! i)" using False by simp
  have step: "watch_timeout q clock i s =
    (case state (objects s ! i) of
       DONE \<Rightarrow> (?s2, Inr ())
     | WAITING \<Rightarrow> and_do (remove_waiting i ?s2) (\<lambda>_ s3. complete_locked clock True i TIMEOUT (Some (timeout_message q)) s3)
     | IN_FLIGHT \<Rightarrow> (cancel_backend i TIMEOUT ?s2, Inr ()))"
    using False by (simp add: watch_timeout_def Let_def)
  show thesis
  proof (cases "state (objects s ! i)")
    case WAITING
    then have "i \<in> set (waiting ?s1)" using es by (simp add: entry_shape_def)
    from finish_watched [OF w1 clk this late, unfolded s2] obtain s' where
        "and_do (remove_waiting i ?s2)
          (\<lambda>_ s1. complete_locked clock True i TIMEOUT (Some (timeout_message q)) s1) = (s', Inr ())"
        "wf q clock s'" "later ?s1 s'"
        "\<exists>r. result_future (objects s' ! i) = Some r \<and> res_status r = TIMEOUT" by metis
    moreover have "later s s'" using later_tick \<open>later ?s1 s'\<close> by (rule later_trans)
    ultimately show thesis using that [of s'] step WAITING by simp
  next
    case IN_FLIGHT
    then have "i \<in> in_flight_set ?s1" using len by (simp add: in_flight_set_def)
    note cancel = cancel_watched [OF w1 this late s2 [symmetric]]
    have "later s (cancel_backend i TIMEOUT ?s2)" using later_tick cancel(2) by (rule later_trans)
    then show thesis using that [of "cancel_backend i TIMEOUT ?s2"] step IN_FLIGHT cancel(1,3) by simp
  next
    case DONE
    then have "wf q clock ?s2" using wf_drop_watcher [OF w1, of i] by simp
    moreover have "later s ?s2" by (rule later_same) simp_all
    ultimately show thesis using that step DONE by simp
  qed
qed

lemma watcher_cancelled_ok:
  assumes w: "wf q clock s" and en: "enabled s (WatcherCancelled i)"
  shows "wf q clock (watcher_cancelled i s)" and "later s (watcher_cancelled i s)"
proof -
  have "state (objects s ! i) = DONE \<or> forced_status (objects s ! i) \<noteq> None" if "i < length (objects s)"
    using wf_entry [OF w that] en by (auto simp: entry_shape_def)
  then show "wf q clock (watcher_cancelled i s)"
    unfolding watcher_cancelled_def using w by (intro wf_drop_watcher) auto
  show "later s (watcher_cancelled i s)"
    by (rule later_same) (simp_all add: watcher_cancelled_def)
qed

lemma cancel_from_submitter_ok:
  assumes w: "wf q clock s" and clk: "mono clock" and len: "i < length (objects s)"
  obtains s' where "cancel_from_submitter clock i s = (s', Inr ())" and "wf q clock s'" and "later s s'"
proof (cases "state (objects s ! i)")
  case WAITING
  then have "i \<in> set (waiting s)" using wf_entry [OF w len] by (simp add: entry_shape_def)
  from finish_waiting [OF w clk this, of CANCELLED "Some ''submit caller cancelled before dispatch''"]
  show thesis using that WAITING by (auto simp: cancel_from_submitter_def)
next
  case IN_FLIGHT
  then have fl: "i \<in> in_flight_set s" using len by (simp add: in_flight_set_def)
  show thesis
    using that [of "cancel_backend i CANCELLED s"] IN_FLIGHT wf_cancel_backend [OF w fl, of CANCELLED]
      inv_cancel_backend(2) [of q clock s i CANCELLED] w fl
    by (simp add: cancel_from_submitter_def wf_def)
next
  case DONE
  then show thesis using that [of s] w by (simp add: cancel_from_submitter_def)
qed

lemma start_ok:
  assumes w: "wf q clock s"
  shows "wf q clock (fst (start s))" and "later s (fst (start s))"
    and "snd (start s) = (if closed s then Inl (RuntimeError ''admission queue is closed'') else Inr ())"
proof -
  have i: "inv None q clock s" and na: "\<not> admissible q s" and fl: "flags_ok s"
    using w by (simp_all add: wf_def)
  have "wf q clock (s\<lparr>started := True\<rparr>)"
    using i na fl
    by (auto simp: wf_def inv_def times_def control_def in_flight_set_def admissible_def
        in_flight_entries_def flags_ok_def split: option.splits)
  moreover have "later s (s\<lparr>started := True\<rparr>)" by (rule later_same) simp_all
  ultimately show "wf q clock (fst (start s))" "later s (fst (start s))"
    "snd (start s) = (if closed s then Inl (RuntimeError ''admission queue is closed'') else Inr ())"
    using w by (simp_all add: start_def)
qed

section \<open>Every event\<close>

text \<open>The only events that may raise.\<close>

fun refused :: "AdmissionQueue \<Rightarrow> event \<Rightarrow> bool" where
  "refused s Start = closed s"
| "refused s (Submit env) = (\<not> started s \<or> closing s \<or> closed s)"
| "refused s ev = False"

theorem perform_ok:
  assumes w: "wf q clock s" and clk: "mono clock" and q: "settings_ok q"
    and en: "enabled s ev" and v: "valid_event ev" and p: "perform q clock ev s = (s', r)"
  shows "wf q clock s' \<and> later s s' \<and> ((\<exists>e. r = Inl e) \<longleftrightarrow> refused s ev)"
proof (cases ev)
  case Start
  obtain s1 r1 where s1: "start s = (s1, r1)" by fastforce
  with start_ok [OF w] p Start show ?thesis
    by (auto simp: quiet_def and_do_def split: if_splits)
next
  case (Submit env)
  then have env: "valid_envelope env" using v by simp
  obtain s1 r1 where s1: "submit q clock env s = (s1, r1)" "wf q clock s1" "later s s1"
    and full: "started s \<and> \<not> closing s \<and> \<not> closed s \<Longrightarrow> capacity q \<le> int (length (waiting s)) \<Longrightarrow>
      \<exists>x. r1 = Inr x"
    and room: "started s \<and> \<not> closing s \<and> \<not> closed s \<Longrightarrow> int (length (waiting s)) < capacity q \<Longrightarrow>
      \<exists>x. r1 = Inr x"
    and shut: "\<not> (started s \<and> \<not> closing s \<and> \<not> closed s) \<Longrightarrow> \<exists>e. r1 = Inl e"
    using submit_ok [OF w clk q env] by metis
  have "(\<exists>e. r1 = Inl e) \<longleftrightarrow> refused s ev"
    using full room shut Submit by (cases "int (length (waiting s)) < capacity q") fastforce+
  with s1 p Submit show ?thesis
    by (cases r1) (auto simp: and_do_def)
next
  case (BackendEnds i ending)
  then have "i \<in> set (runner_tasks s)" using en by simp
  from run_backend_ok [OF w clk q this, of ending] obtain s1
    where "run_backend q clock i ending s = (s1, Inr ())" "wf q clock s1" "later s s1" by metis
  with p BackendEnds show ?thesis by (auto simp: quiet_def)
next
  case (WatcherWakes i)
  then have "i \<in> set (timeout_tasks s)" using en by simp
  from watch_timeout_ok [OF w clk this] obtain s1
    where "watch_timeout q clock i s = (s1, Inr ())" "wf q clock s1" "later s s1" by metis
  with p WatcherWakes show ?thesis by (auto simp: quiet_def)
next
  case (WatcherCancelled i)
  then show ?thesis using watcher_cancelled_ok [OF w, of i] en p by auto
next
  case (SubmitterCancelled i)
  then have "i < length (objects s)" using en by simp
  from cancel_from_submitter_ok [OF w clk this] obtain s1
    where "cancel_from_submitter clock i s = (s1, Inr ())" "wf q clock s1" "later s s1" by metis
  with p SubmitterCancelled show ?thesis by (auto simp: quiet_def)
next
  case CloseBegins
  from aclose_begin_ok [OF w clk] obtain s1
    where "aclose_begin clock s = (s1, Inr ())" "wf q clock s1" "later s s1" by metis
  with p CloseBegins show ?thesis by (auto simp: quiet_def)
next
  case CloseEnds
  then show ?thesis using aclose_end_ok [OF w] en p by auto
qed

section \<open>Runs\<close>

text \<open>A queue as the program builds it: \<open>admission\<close> and \<open>clipper\<close> come from validated configurations.\<close>

definition start_ok_queue :: "QueueSettings \<Rightarrow> AdmissionQueue \<Rightarrow> bool" where
  "start_ok_queue q s \<longleftrightarrow> settings_ok q \<and>
     (s = queue_start None \<or>
      (\<exists>c clipper. s = queue_start (Some (c, controller_start c)) \<and> controller_config c \<and>
         adaptive_clipper q = Some clipper \<and> valid_clipper clipper \<and>
         adaptive_clip_enabled (clip_config clipper)))"

lemma start_queue_wf:
  assumes "start_ok_queue q s"
  shows "wf q clock s"
proof -
  have sh: "shape None s" "in_flight_set s = {}" "waiting s = []" "objects s = []" "\<not> closing s" "\<not> closed s"
    using assms by (auto simp: start_ok_queue_def queue_start_def shape_def lists_ok_def in_flight_set_def)
  have "control q clock s"
    using assms controller_config_run ctl.initial_ready
    by (auto simp: start_ok_queue_def control_def queue_start_def controller_config_def)
  moreover have "times q clock s" using sh by (simp add: times_def)
  ultimately have "inv None q clock s"
    using sh assms by (simp add: inv_def start_ok_queue_def settings_ok_def)
  moreover have "flags_ok s" using sh by (simp add: flags_ok_def)
  ultimately show ?thesis using sh by (intro wf_flagless) simp_all
qed

lemma run_from_wf:
  assumes "admission_run q clock s0 tr s" and "wf q clock s0" and "settings_ok q" and "mono clock"
  shows "wf q clock s \<and> later s0 s"
  using assms(1)
proof induction
  case run_start
  then show ?case using assms(2) by simp
next
  case (run_event tr s ev s' r)
  then show ?case
    using perform_ok [OF _ assms(4,3) run_event.hyps(2-4)] later_trans by blast
qed

lemma run_wf:
  assumes "admission_run q clock s0 tr s" and "start_ok_queue q s0" and "mono clock"
  shows "wf q clock s" and "settings_ok q"
  using run_from_wf [OF assms(1) start_queue_wf [OF assms(2)] _ assms(3)] assms(2)
  by (simp_all add: start_ok_queue_def)

lemma run_append:
  assumes "admission_run q clock s0 tr s" and "admission_run q clock s tr' s'"
  shows "admission_run q clock s0 (tr @ tr') s'"
  using assms(2)
proof induction
  case run_start
  then show ?case using assms(1) by simp
next
  case (run_event tr' s1 ev s2 r)
  then show ?case
    using admission_run.run_event [of q clock s0 "tr @ tr'" s1 ev s2 r] by simp
qed

text \<open>The run of a list of events, when each is enabled in turn.\<close>

fun run_events ::
    "QueueSettings \<Rightarrow> (nat \<Rightarrow> real) \<Rightarrow> event list \<Rightarrow> AdmissionQueue \<Rightarrow>
     ((event \<times> submitted option result) list \<times> AdmissionQueue) option" where
  "run_events q clock [] s = Some ([], s)"
| "run_events q clock (ev # evs) s =
     (if enabled s ev \<and> valid_event ev
      then (case perform q clock ev s of (s1, r) \<Rightarrow>
              map_option (\<lambda>(tr, s2). ((ev, r) # tr, s2)) (run_events q clock evs s1))
      else None)"

lemma run_events_run: "run_events q clock evs s = Some (tr, s') \<Longrightarrow> admission_run q clock s tr s'"
proof (induction q clock evs s arbitrary: tr rule: run_events.induct)
  case (1 q clock s)
  then show ?case by (simp add: run_start)
next
  case (2 q clock ev evs s)
  obtain s1 r where p: "perform q clock ev s = (s1, r)" by fastforce
  with "2.prems" obtain tr1 where en: "enabled s ev" "valid_event ev"
    and rest: "run_events q clock evs s1 = Some (tr1, s')" "tr = (ev, r) # tr1"
    by (auto split: if_splits)
  have "admission_run q clock s ([] @ [(ev, r)]) s1"
    using run_event [OF run_start en p] .
  with "2.IH" [OF _ p [symmetric] rest(1)] en rest(2) show ?case
    using run_append by fastforce
qed

section \<open>Closing stops everything\<close>

lemma complete_locked_frame:
  "complete_locked clock own i status m s = (s', r) \<Longrightarrow>
   sent s' = sent s \<and> waiting s' = waiting s \<and> runner_tasks s' = runner_tasks s \<and>
   timeout_tasks s' = timeout_tasks s \<and> closing s' = closing s \<and> closed s' = closed s"
  by (auto simp: complete_locked_def upd_entry_def tick_def Let_def split: if_splits option.splits)

lemma cancel_backend_frame [simp]:
  "sent (cancel_backend i st s) = sent s" "waiting (cancel_backend i st s) = waiting s"
  "closing (cancel_backend i st s) = closing s" "closed (cancel_backend i st s) = closed s"
  by (simp_all add: cancel_backend_def upd_entry_def)

lemma fold_cancel_frame [simp]:
  "sent (fold (\<lambda>i. cancel_backend i st) xs s) = sent s"
  "closing (fold (\<lambda>i. cancel_backend i st) xs s) = closing s"
  "closed (fold (\<lambda>i. cancel_backend i st) xs s) = closed s"
  by (induction xs arbitrary: s) simp_all

lemma admit_available_shut:
  "closing s \<or> waiting s = [] \<Longrightarrow> admit_available q clock s = (s, Inr ())"
  by (subst admit_available.simps) (auto simp: admissible_def)

lemma run_backend_shut:
  assumes "closing s \<or> waiting s = []" and "run_backend q clock i ending s = (s', r)"
  shows "sent s' = sent s \<and> waiting s' = waiting s \<and> runner_tasks s' = removeAll i (runner_tasks s) \<and>
    timeout_tasks s' = timeout_tasks s \<and> closing s' = closing s \<and> closed s' = closed s"
proof -
  let ?s = "s\<lparr>runner_tasks := removeAll i (runner_tasks s)\<rparr>"
  obtain status s1 where s1: "(case forced_status (objects ?s ! i) of
      Some forced \<Rightarrow> (forced, ?s)
    | None \<Rightarrow> (if timeout_s q \<le> clock (reads ?s) - enqueue_time_s (objects ?s ! i) then TIMEOUT
               else backend_status ending, tick ?s)) = (status, s1)"
    by fastforce
  have f1: "sent s1 = sent s" "waiting s1 = waiting s" "timeout_tasks s1 = timeout_tasks s"
      "runner_tasks s1 = removeAll i (runner_tasks s)" "closing s1 = closing s" "closed s1 = closed s"
    using s1 by (auto split: option.splits)
  obtain s2 r2 where c: "complete_locked clock False i status
      (final_message q status (backend_message ending)) s1 = (s2, r2)" by fastforce
  note f2 = complete_locked_frame [OF c]
  have "run_backend q clock i ending s = and_do (s2, r2) (\<lambda>_ s2. admit_available q clock s2)"
    using s1 c by (simp add: run_backend_def Let_def)
  moreover have "closing s2 \<or> waiting s2 = []" using f1 f2 assms(1) by auto
  ultimately have "s' = s2"
    using assms(2) admit_available_shut [of s2 q clock] by (cases r2) (simp_all add: and_do_def)
  with f1 f2 show ?thesis by simp
qed

lemma remove_waiting_frame:
  "remove_waiting i s = (s', r) \<Longrightarrow> sent s' = sent s \<and> closing s' = closing s \<and> closed s' = closed s"
  by (auto simp: remove_waiting_def split: if_splits)

lemma drain_frame:
  "drain_waiting clock xs s = (s', r) \<Longrightarrow> sent s' = sent s \<and> closing s' = closing s \<and> closed s' = closed s"
proof (induction xs arbitrary: s)
  case (Cons i xs)
  then show ?case
    by (auto simp: and_do_def split: prod.splits sum.splits
        dest!: remove_waiting_frame complete_locked_frame)
qed simp

lemma quiet_state:
  assumes "quiet x = (s', r)"
  obtains r1 where "x = (s', r1)"
  using assms by (cases x; cases "snd x") (auto simp: quiet_def and_do_def)

lemma perform_shut:
  assumes w: "wf q clock s" and shut: "closing s \<or> closed s" and en: "enabled s ev"
    and p: "perform q clock ev s = (s', r)"
  shows "sent s' = sent s \<and> (closing s' \<or> closed s')"
proof -
  have wt: "waiting s = []" using w shut by (simp add: wf_def flags_ok_def)
  show ?thesis
  proof (cases ev)
    case Start
    then show ?thesis
      using p shut by (auto simp: quiet_def and_do_def start_def split: if_splits)
  next
    case (Submit env)
    then show ?thesis using p shut by (auto simp: submit_def and_do_def Let_def split: if_splits)
  next
    case (BackendEnds i ending)
    then obtain r1 where "run_backend q clock i ending s = (s', r1)" using p by (auto elim: quiet_state)
    from run_backend_shut [OF _ this] wt shut show ?thesis by auto
  next
    case (WatcherWakes i)
    then obtain r1 where "watch_timeout q clock i s = (s', r1)" using p by (auto elim: quiet_state)
    then have "sent s' = sent s \<and> closing s' = closing s \<and> closed s' = closed s"
      by (auto simp: watch_timeout_def Let_def and_do_def split: if_splits RequestState.splits
          prod.splits sum.splits dest!: remove_waiting_frame complete_locked_frame)
    then show ?thesis using shut by simp
  next
    case (WatcherCancelled i)
    then show ?thesis using p shut by (auto simp: watcher_cancelled_def)
  next
    case (SubmitterCancelled i)
    then obtain r1 where "cancel_from_submitter clock i s = (s', r1)" using p by (auto elim: quiet_state)
    then have "sent s' = sent s \<and> closing s' = closing s \<and> closed s' = closed s"
      by (auto simp: cancel_from_submitter_def and_do_def split: RequestState.splits
          prod.splits sum.splits dest!: remove_waiting_frame complete_locked_frame)
    then show ?thesis using shut by simp
  next
    case CloseBegins
    then obtain r1 where "aclose_begin clock s = (s', r1)" using p by (auto elim: quiet_state)
    then show ?thesis using shut wt by (auto simp: aclose_begin_def and_do_def split: if_splits)
  next
    case CloseEnds
    then show ?thesis using p by (auto simp: aclose_end_def)
  qed
qed

lemma run_shut:
  assumes "admission_run q clock s tr s'" and "wf q clock s" and "settings_ok q" and "mono clock"
    and "closing s \<or> closed s"
  shows "sent s' = sent s \<and> (closing s' \<or> closed s')"
  using assms(1)
proof induction
  case run_start
  then show ?case using assms(5) by simp
next
  case (run_event tr s1 ev s2 r)
  have "wf q clock s1" using run_from_wf [OF run_event.hyps(1) assms(2-4)] by simp
  from perform_shut [OF this _ run_event.hyps(2,4)] run_event.IH show ?case by simp
qed

text \<open>Closing can always finish: end the runners, then the watchers, then close.\<close>

definition winding_down :: "event \<Rightarrow> bool" where
  "winding_down ev \<longleftrightarrow> ev = CloseEnds \<or> (\<exists>i. ev = BackendEnds i Cancelled \<or> ev = WatcherCancelled i)"

text \<open>With nothing waiting or running, a watcher that is left has been asked to stop.\<close>

lemma idle_watcher_cancelled:
  assumes w: "wf q clock s" and "waiting s = []" and "runner_tasks s = []" and mem: "i \<in> set (timeout_tasks s)"
  shows "timeout_task (objects s ! i) = Some CancelRequested"
proof -
  have len: "i < length (objects s)" using wf_bound [OF w] mem by blast
  have "state (objects s ! i) = DONE"
    using wf_entry [OF w len] assms(2,3) by (cases "state (objects s ! i)") (auto simp: entry_shape_def)
  then show ?thesis using wf_entry [OF w len] mem by (simp add: entry_shape_def)
qed

text \<open>The variant: the tasks that are still running.\<close>

definition tasks_left :: "AdmissionQueue \<Rightarrow> nat" where
  "tasks_left s = length (runner_tasks s) + length (timeout_tasks s)"

lemma closing_progress:
  assumes w: "wf q clock s" and "settings_ok q" and "mono clock" and cl: "closing s" and "0 < tasks_left s"
  shows "\<exists>ev s1. enabled s ev \<and> valid_event ev \<and> winding_down ev \<and> perform q clock ev s = (s1, Inr None) \<and>
    closing s1 \<and> tasks_left s1 < tasks_left s"
proof (cases "runner_tasks s")
  case (Cons i rest)
  then have mem: "i \<in> set (runner_tasks s)" by simp
  have wt: "waiting s = []" using w cl by (simp add: wf_def flags_ok_def)
  obtain s1 where s1: "run_backend q clock i Cancelled s = (s1, Inr ())"
    using run_backend_ok [OF w assms(3,2) mem, of Cancelled] by metis
  have "length (removeAll i (runner_tasks s)) < length (runner_tasks s)"
    using mem by (rule length_removeAll_less)
  then show ?thesis
    using s1 mem run_backend_shut [OF _ s1] wt cl
    by (intro exI [of _ "BackendEnds i Cancelled"] exI [of _ s1]) (simp add: quiet_def winding_down_def tasks_left_def)
next
  case Nil
  have wt: "waiting s = []" using w cl by (simp add: wf_def flags_ok_def)
  obtain i where mem: "i \<in> set (timeout_tasks s)"
    using assms(5) Nil by (cases "timeout_tasks s") (auto simp: tasks_left_def)
  have "timeout_task (objects s ! i) = Some CancelRequested" using idle_watcher_cancelled [OF w wt Nil mem] .
  moreover have "length (removeAll i (timeout_tasks s)) < length (timeout_tasks s)"
    using mem by (rule length_removeAll_less)
  ultimately show ?thesis
    using mem cl by (intro exI [of _ "WatcherCancelled i"] exI [of _ "watcher_cancelled i s"])
      (simp add: watcher_cancelled_def winding_down_def tasks_left_def)
qed

lemma close_can_finish:
  assumes "wf q clock s" and "settings_ok q" and "mono clock" and "closing s"
  shows "\<exists>tr s'. admission_run q clock s tr s' \<and> closed s' \<and> (\<forall>(ev, r) \<in> set tr. winding_down ev)"
  using assms
proof (induction "tasks_left s" arbitrary: s rule: less_induct)
  case less
  note w = less.prems(1)
  show ?case
  proof (cases "0 < tasks_left s")
    case True
    obtain ev s1 where p: "enabled s ev" "valid_event ev" "winding_down ev" "perform q clock ev s = (s1, Inr None)"
      "closing s1" "tasks_left s1 < tasks_left s"
      using closing_progress [OF less.prems True] by blast
    have w1: "wf q clock s1" using perform_ok [OF w less.prems(3,2) p(1,2,4)] by simp
    obtain tr s' where tr: "admission_run q clock s1 tr s'" "closed s'" "\<forall>(ev, r) \<in> set tr. winding_down ev"
      using less.hyps [OF p(6) w1 less.prems(2,3) p(5)] by blast
    have "admission_run q clock s ([] @ [(ev, Inr None)]) s1" using run_start p(1,2,4) by (rule run_event)
    from run_append [OF this tr(1)] tr(2,3) p(3) show ?thesis by fastforce
  next
    case False
    have "admission_run q clock s ([] @ [(CloseEnds, Inr None)]) (aclose_end s)"
      by (rule run_event [OF run_start]) (use False less.prems(4) in \<open>simp_all add: tasks_left_def\<close>)
    then show ?thesis by (force simp: aclose_end_def winding_down_def)
  qed
qed

end
