(* ===== verification/PolicyProperties.thy ===== *)
theory PolicyProperties
  imports PolicyOrder
begin

text \<open>
  The properties of the scheduling policies: every policy returns a stable permutation sorted
  by its key; FCFS and class priority; the hard-aging guarantee of the SLO-aware policy, with
  fixed and with floating ceiling; its collapse to FCFS when every request is aged; and the
  information boundary of the length estimates.
\<close>

section \<open>Every policy\<close>

text \<open>
  C15. For a validated policy \<open>order\<close> never raises; it returns a permutation of the requests,
  ascending in the policy's key, and it is stable: requests with equal keys keep the order
  they had in the input.
\<close>

theorem order_stable_permutation:
  assumes "valid_policy p"
  shows "\<exists>ys. order p rs now_s = Inr ys \<and> mset ys = mset rs \<and>
    sorted (map (policy_rank p rs now_s) ys) \<and>
    (\<forall>k. filter (\<lambda>r. policy_rank p rs now_s r = k) ys
         = filter (\<lambda>r. policy_rank p rs now_s r = k) rs)"
  using order_spec [OF assms] by (simp add: sort_key_stable)

definition sample_request :: "nat \<Rightarrow> RequestClass \<Rightarrow> real \<Rightarrow> real \<Rightarrow> RequestEnvelope" where
  "sample_request n cls arrival deadline =
    \<lparr>request_id = ''r'', sequence_id = int n, request_class = cls, arrival_time_s = arrival,
     input_tokens = 10, max_output_tokens = 100, deadline_time_s = deadline,
     advertised_cap_tokens = None, prompt_kind = None, backend_max_output_tokens = None,
     force_exact_output_tokens = False\<rparr>"

definition sample_slo :: SloAwareConfig where
  "sample_slo =
    \<lparr>input_token_seconds = 1/1000, output_token_seconds = 1/100, cost_weight = 1,
     slack_weight = 1, waiting_weight = 1, aging_threshold_s = 3,
     disable_length_estimate = False, aging_levels = 1, adaptive_ceiling = False,
     ceiling_margin = 3/2, ceiling_floor_s = 1, ceiling_cap_s = 15,
     length_source = LENGTH_TRUE, length_estimator_path = None\<rparr>"

lemma sample_slo_valid: "valid_slo_aware sample_slo"
  by (simp add: valid_slo_aware_def SloAwareConfig_init_def checked_def slo_aware_guards_def
      raise_if.simps sample_slo_def)

theorem order_stable_permutation_witness:
  "\<exists>ys. order FcfsPolicy [sample_request 1 BATCH 2 9, sample_request 0 BATCH 1 9] 5 = Inr ys \<and>
    mset ys = mset [sample_request 1 BATCH 2 9, sample_request 0 BATCH 1 9]"
  using order_stable_permutation [of FcfsPolicy
      "[sample_request 1 BATCH 2 9, sample_request 0 BATCH 1 9]" 5]
  by auto

section \<open>FCFS and class priority\<close>

text \<open>
  Static priority: in the returned order every interactive request stands before every
  batch request, and within a class requests stand in order of arrival, then of sequence
  number.
\<close>

theorem static_priority_order:
  assumes "order StaticPriorityPolicy rs now_s = Inr ys"
    and "i < length ys" and "j < length ys"
    and "request_class (ys ! i) = INTERACTIVE \<and> request_class (ys ! j) = BATCH \<or>
      request_class (ys ! i) = request_class (ys ! j) \<and>
      (arrival_time_s (ys ! i) < arrival_time_s (ys ! j) \<or>
       arrival_time_s (ys ! i) = arrival_time_s (ys ! j) \<and> sequence_id (ys ! i) < sequence_id (ys ! j))"
  shows "i < j"
proof (rule pol.ord_before [of StaticPriorityPolicy, OF _ assms(1-3)])
  show "policy_rank StaticPriorityPolicy rs now_s (ys ! i)
      < policy_rank StaticPriorityPolicy rs now_s (ys ! j)"
    using assms(4) by (auto simp: static_priority_key_def Let_def)
qed simp

theorem static_priority_order_witness:
  "\<exists>ys. order StaticPriorityPolicy [sample_request 0 BATCH 1 9, sample_request 1 INTERACTIVE 2 9] 5
     = Inr ys \<and> ys ! 0 = sample_request 1 INTERACTIVE 2 9 \<and> (0::nat) < 1"
proof -
  have "order StaticPriorityPolicy [sample_request 0 BATCH 1 9, sample_request 1 INTERACTIVE 2 9] 5
      = Inr [sample_request 1 INTERACTIVE 2 9, sample_request 0 BATCH 1 9]"
    by (simp add: order_spec policy_rank_static static_priority_key_def sample_request_def)
  with static_priority_order [OF this, of 0 1] show ?thesis
    by (simp add: sample_request_def)
qed

section \<open>Hard aging\<close>

lemma aged_before:
  assumes p: "valid_policy (SloAwarePolicy c lp)"
    and ys: "order (SloAwarePolicy c lp) rs now_s = Inr ys"
    and "i < length ys" and "j < length ys"
    and "aged c (policy_threshold c rs now_s) now_s (ys ! i)"
    and "\<not> aged c (policy_threshold c rs now_s) now_s (ys ! j) \<or>
      arrival_time_s (ys ! i) < arrival_time_s (ys ! j) \<or>
      arrival_time_s (ys ! i) = arrival_time_s (ys ! j) \<and> sequence_id (ys ! i) < sequence_id (ys ! j)"
  shows "i < j"
proof (rule pol.ord_before [OF p ys assms(3,4)])
  have t: "0 < policy_threshold c rs now_s"
    using p policy_threshold_pos by simp
  show "policy_rank (SloAwarePolicy c lp) rs now_s (ys ! i)
      < policy_rank (SloAwarePolicy c lp) rs now_s (ys ! j)"
    using assms(5,6) rank_aged_fresh [OF p t assms(5)] rank_aged_aged [OF p t assms(5)]
    by (cases "aged c (policy_threshold c rs now_s) now_s (ys ! j)") auto
qed

text \<open>
  C16. Hard aging: in the order of the SLO-aware policy a request that has waited at least the
  aging threshold stands before every request that has not, whatever their scores, and before
  every aged request that arrived later (or at the same time with a larger sequence number).
  With the adaptive ceiling the threshold is the clamped one of this queue.
\<close>

theorem slo_aware_hard_aging:
  assumes p: "valid_policy (SloAwarePolicy c lp)"
    and ys: "order (SloAwarePolicy c lp) rs now_s = Inr ys"
    and "i < length ys" and "j < length ys"
    and "aged c (policy_threshold c rs now_s) now_s (ys ! i)"
    and "\<not> aged c (policy_threshold c rs now_s) now_s (ys ! j) \<or>
      arrival_time_s (ys ! i) < arrival_time_s (ys ! j) \<or>
      arrival_time_s (ys ! i) = arrival_time_s (ys ! j) \<and> sequence_id (ys ! i) < sequence_id (ys ! j)"
  shows "i < j"
  by (rule aged_before [OF assms])

lemma sample_slo_order:
  "\<exists>ys. order (SloAwarePolicy sample_slo None)
     [sample_request 1 INTERACTIVE 9 10, sample_request 0 BATCH 1 100] 10 = Inr ys \<and>
   length ys = 2 \<and> set ys = {sample_request 1 INTERACTIVE 9 10, sample_request 0 BATCH 1 100}"
proof -
  have v: "valid_policy (SloAwarePolicy sample_slo None)"
    using sample_slo_valid by (simp add: sample_slo_def)
  show ?thesis
    using order_spec [OF v, of "[sample_request 1 INTERACTIVE 9 10, sample_request 0 BATCH 1 100]" 10]
    by (simp add: insert_commute)
qed

theorem slo_aware_hard_aging_witness:
  "\<exists>ys i j. order (SloAwarePolicy sample_slo None)
     [sample_request 1 INTERACTIVE 9 10, sample_request 0 BATCH 1 100] 10 = Inr ys \<and>
   ys ! i = sample_request 0 BATCH 1 100 \<and> ys ! j = sample_request 1 INTERACTIVE 9 10 \<and> i < j"
proof -
  obtain ys where ys: "order (SloAwarePolicy sample_slo None)
     [sample_request 1 INTERACTIVE 9 10, sample_request 0 BATCH 1 100] 10 = Inr ys"
    and set: "set ys = {sample_request 1 INTERACTIVE 9 10, sample_request 0 BATCH 1 100}"
    using sample_slo_order by blast
  obtain i where i: "i < length ys" "ys ! i = sample_request 0 BATCH 1 100"
    using set by (metis in_set_conv_nth insertI1 insertI2)
  obtain j where j: "j < length ys" "ys ! j = sample_request 1 INTERACTIVE 9 10"
    using set by (metis in_set_conv_nth insertI1)
  have v: "valid_policy (SloAwarePolicy sample_slo None)"
    using sample_slo_valid by (simp add: sample_slo_def)
  have "i < j"
    by (rule slo_aware_hard_aging [OF v ys i(1) j(1)])
       (simp_all add: i j aged_def policy_threshold_def sample_slo_def sample_request_def)
  with ys i j show ?thesis by blast
qed

text \<open>
  Bounded overtaking: an aged request is preceded in the order only by requests that
  arrived no later than it did, so its position is less than the number of waiting requests
  that are not younger than it: however many requests arrive after it, none of them is
  dispatched first.
\<close>

theorem aged_request_position_bound:
  assumes p: "valid_policy (SloAwarePolicy c lp)"
    and ys: "order (SloAwarePolicy c lp) rs now_s = Inr ys" and j: "j < length ys"
    and aged: "aged c (policy_threshold c rs now_s) now_s (ys ! j)"
  shows "j < length (filter (\<lambda>r. arrival_time_s r \<le> arrival_time_s (ys ! j)) rs)"
proof -
  let ?P = "\<lambda>r. arrival_time_s r \<le> arrival_time_s (ys ! j)"
  have older: "?P (ys ! i)" if "i \<le> j" for i
  proof (rule ccontr)
    assume later: "\<not> ?P (ys ! i)"
    with that j have "i < length ys" by simp
    with aged_before [OF p ys j _ aged, of i] later have "j < i" by simp
    with that show False by simp
  qed
  have "\<forall>r \<in> set (take (Suc j) ys). ?P r"
    using older j by (auto simp: in_set_conv_nth)
  then have "filter ?P (take (Suc j) ys) = take (Suc j) ys"
    by (simp add: filter_id_conv)
  then have "Suc j \<le> length (filter ?P (take (Suc j) ys @ drop (Suc j) ys))"
    using j by (subst filter_append) simp
  also have "\<dots> = length (filter ?P rs)"
    using pol.ord_permutes [OF p ys]
    by (metis append_take_drop_id mset_filter size_mset)
  finally show ?thesis by simp
qed

theorem aged_request_position_bound_witness:
  "\<exists>ys j. order (SloAwarePolicy sample_slo None)
     [sample_request 1 INTERACTIVE 9 10, sample_request 0 BATCH 1 100] 10 = Inr ys \<and>
   ys ! j = sample_request 0 BATCH 1 100 \<and> j < (1::nat)"
proof -
  obtain ys where ys: "order (SloAwarePolicy sample_slo None)
     [sample_request 1 INTERACTIVE 9 10, sample_request 0 BATCH 1 100] 10 = Inr ys"
    and set: "set ys = {sample_request 1 INTERACTIVE 9 10, sample_request 0 BATCH 1 100}"
    using sample_slo_order by blast
  obtain j where j: "j < length ys" "ys ! j = sample_request 0 BATCH 1 100"
    using set by (metis in_set_conv_nth insertI1 insertI2)
  have v: "valid_policy (SloAwarePolicy sample_slo None)"
    using sample_slo_valid by (simp add: sample_slo_def)
  have "aged sample_slo (policy_threshold sample_slo
      [sample_request 1 INTERACTIVE 9 10, sample_request 0 BATCH 1 100] 10) 10 (ys ! j)"
    by (simp add: j aged_def policy_threshold_def sample_slo_def sample_request_def)
  from aged_request_position_bound [OF v ys j(1) this] ys j show ?thesis
    by (auto simp: sample_request_def)
qed

text \<open>
  The floating ceiling keeps the guarantee: with the adaptive ceiling enabled, a request
  that has waited at least the configured ceiling cap is ordered before every request that
  arrived after it, however the median of the current waits moves the threshold.
\<close>

theorem adaptive_ceiling_still_bounds_overtaking:
  assumes p: "valid_policy (SloAwarePolicy c lp)" and ac: "adaptive_ceiling c"
    and ys: "order (SloAwarePolicy c lp) rs now_s = Inr ys"
    and i: "i < length ys" and j: "j < length ys"
    and cap: "ceiling_cap_s c \<le> now_s - arrival_time_s (ys ! i)"
    and later: "arrival_time_s (ys ! i) < arrival_time_s (ys ! j)"
  shows "i < j"
proof -
  have "rs \<noteq> []" using i pol.ord_mem [OF p ys] by fastforce
  then obtain t where t: "effective_threshold c (map (\<lambda>r. now_s - arrival_time_s r) rs) = Inr t"
    using effective_threshold_total by (metis map_is_Nil_conv)
  have "policy_threshold c rs now_s \<le> ceiling_cap_s c"
    using p t ac \<open>rs \<noteq> []\<close> effective_threshold_clamped(2) by (simp add: policy_threshold_def)
  with cap have "aged c (policy_threshold c rs now_s) now_s (ys ! i)"
    by (simp add: aged_def)
  with later show ?thesis
    using aged_before [OF p ys i j] by blast
qed

definition sample_adaptive_slo :: SloAwareConfig where
  "sample_adaptive_slo = sample_slo\<lparr>adaptive_ceiling := True, ceiling_cap_s := 5\<rparr>"

theorem adaptive_ceiling_still_bounds_overtaking_witness:
  "\<exists>ys i j. order (SloAwarePolicy sample_adaptive_slo None)
     [sample_request 1 INTERACTIVE 9 10, sample_request 0 BATCH 1 100] 10 = Inr ys \<and>
   ys ! i = sample_request 0 BATCH 1 100 \<and> ys ! j = sample_request 1 INTERACTIVE 9 10 \<and> i < j"
proof -
  let ?rs = "[sample_request 1 INTERACTIVE 9 10, sample_request 0 BATCH 1 100]"
  have v: "valid_policy (SloAwarePolicy sample_adaptive_slo None)"
    by (simp add: valid_slo_aware_def SloAwareConfig_init_def checked_def slo_aware_guards_def
        raise_if.simps sample_slo_def sample_adaptive_slo_def)
  obtain ys where ys: "order (SloAwarePolicy sample_adaptive_slo None) ?rs 10 = Inr ys"
    using pol.ord_total [OF v] by blast
  then have set: "set ys = set ?rs"
    using pol.ord_permutes [OF v ys] by (metis set_mset_mset)
  obtain i where i: "i < length ys" "ys ! i = sample_request 0 BATCH 1 100"
    using set by (metis in_set_conv_nth list.set_intros(1) list.set_intros(2))
  obtain j where j: "j < length ys" "ys ! j = sample_request 1 INTERACTIVE 9 10"
    using set by (metis in_set_conv_nth list.set_intros(1))
  have "i < j"
    by (rule adaptive_ceiling_still_bounds_overtaking [OF v _ ys i(1) j(1)])
       (simp_all add: i j sample_adaptive_slo_def sample_request_def)
  with ys i j show ?thesis by blast
qed

section \<open>Collapse to FCFS\<close>

text \<open>
  When every waiting request has reached the threshold, the SLO-aware order is the FCFS
  order: a ceiling below the queue wait turns the policy class-blind and oldest-first.
\<close>

theorem slo_aware_collapses_to_fcfs:
  assumes p: "valid_policy (SloAwarePolicy c lp)"
    and all: "\<forall>r \<in> set rs. aged c (policy_threshold c rs now_s) now_s r"
  shows "order (SloAwarePolicy c lp) rs now_s = order FcfsPolicy rs now_s"
proof -
  have t: "0 < policy_threshold c rs now_s" using p policy_threshold_pos by simp
  have "sort_key (policy_rank (SloAwarePolicy c lp) rs now_s) rs = sort_key fcfs_priority_key rs"
    using all slo_key_aged [OF p t]
    by (intro sort_key_cong_le) (auto simp: fcfs_priority_key_def)
  then show ?thesis
    by (simp only: order_spec [OF p] order_spec [of FcfsPolicy, simplified] policy_rank_fcfs)
qed

theorem slo_aware_collapses_to_fcfs_witness:
  "order (SloAwarePolicy sample_slo None)
     [sample_request 1 INTERACTIVE 2 3, sample_request 0 BATCH 1 100] 10
   = order FcfsPolicy [sample_request 1 INTERACTIVE 2 3, sample_request 0 BATCH 1 100] 10"
proof (rule slo_aware_collapses_to_fcfs)
  show "valid_policy (SloAwarePolicy sample_slo None)"
    using sample_slo_valid by (simp add: sample_slo_def)
qed (simp add: aged_def policy_threshold_def sample_slo_def sample_request_def)

section \<open>The information boundary\<close>

text \<open>
  The hidden target does not leak: under the advertised source with a cap given, or under
  the learned source, the key of a request to which no clip is applied does not depend on the
  output length it will really ask for.
\<close>

theorem estimate_hides_target:
  assumes "length_source c = LENGTH_ADVERTISED \<and> advertised_cap_tokens r \<noteq> None \<or>
      length_source c = LENGTH_LEARNED"
    and "valid_envelope r" and "backend_max_output_tokens r = None" and "1 \<le> n"
  shows "slo_key c lp (r\<lparr>max_output_tokens := n\<rparr>) now_s threshold = slo_key c lp r now_s threshold"
proof -
  have clip: "\<not> clip_applied r" "\<not> clip_applied (r\<lparr>max_output_tokens := n\<rparr>)"
    using assms(3) by (simp_all add: clip_applied_def effective_max_output_tokens_def)
  have "or_int (advertised_cap_tokens r) m = or_int (advertised_cap_tokens r) k"
    if "advertised_cap_tokens r \<noteq> None" for m k
    using that assms(2) by (auto simp: or_int_def valid_envelope_def)
  then have "slo_estimated_output_tokens c lp (r\<lparr>max_output_tokens := n\<rparr>)
      = slo_estimated_output_tokens c lp r"
    using assms(1) clip by (auto simp: slo_estimated_output_tokens_def split: option.splits)
  then show ?thesis
    by (simp add: slo_key_def slo_service_time_def slo_score_def slo_age_tier_def Let_def)
qed

theorem estimate_hides_target_witness:
  "slo_key (sample_slo\<lparr>length_source := LENGTH_ADVERTISED\<rparr>) None
     ((sample_request 0 BATCH 1 9\<lparr>advertised_cap_tokens := Some 512\<rparr>)\<lparr>max_output_tokens := 2000\<rparr>) 5 3
   = slo_key (sample_slo\<lparr>length_source := LENGTH_ADVERTISED\<rparr>) None
     (sample_request 0 BATCH 1 9\<lparr>advertised_cap_tokens := Some 512\<rparr>) 5 3"
  by (rule estimate_hides_target)
     (simp_all add: valid_envelope_def sample_request_def)

end
