(* ===== verification/ControllerProperties.thy ===== *)
theory ControllerProperties
  imports ControllerRuns Clipping
begin

text \<open>
  The properties of the adaptive cap controller over whole runs: it never raises under a
  monotone clock, its smoothed depth stays within the depths it was shown and depends on wall
  clock only, it tightens exactly when a threshold has been exceeded for the whole hold time,
  it relaxes one level at a time after a continuous quiet period, and it cannot thrash.
\<close>

lemma ctl_run_last:
  assumes "ctl_run c s ds" and "valid_admission c" and "m < length ds"
  obtains s0 s1 q t where "hist c s0 (take m ds)" and "accepted s0 q t"
    and "update c s0 q (Fin t) = (s1, Inr (ds ! m))" and "hist c s1 (take (Suc m) ds)"
    and "take m ds @ [ds ! m] = take (Suc m) ds"
  using ctl_run_prefix [OF assms(1,3)] ctl_run_hist [OF _ assms(2)] assms(3)
  by (metis take_Suc_conv_app_nth)

section \<open>Totality\<close>

lemma run_updates_total:
  assumes "controller_config c" and "\<forall>(q, clock) \<in> set us. 0 \<le> q \<and> isfinite clock"
    and "sorted (map (\<lambda>u. real_of (snd u)) us)"
  shows "\<exists>s ds. run_updates c (controller_start c) us = (s, Inr ds) \<and> ctl_run c s ds \<and>
    map decision_time_s ds = map (\<lambda>u. real_of (snd u)) us \<and> map decision_q_inst ds = map fst us"
proof -
  have c: "valid_admission c" using assms(1) by (simp add: controller_config_def)
  let ?t = "case us of [] \<Rightarrow> 0 | u # _ \<Rightarrow> real_of (snd u)"
  have "\<forall>(q, clock) \<in> set us. 0 \<le> q \<and> isfinite clock \<and> ?t \<le> real_of clock"
    using assms(2,3) by (cases us) fastforce+
  from ctl.decisions_total [OF c ctl.initial_ready [OF c] this assms(3)] obtain s ds
    where r: "run_updates c (controller_start c) us = (s, Inr ds)"
      and m: "map (\<lambda>d. (decision_q_inst d, decision_time_s d)) ds = map (\<lambda>(q, clock). (q, real_of clock)) us"
    by (auto simp: run_updates_decisions)
  have "ctl_run c s ds" using ctl_run_updates [OF controller_config_run [OF assms(1)] r] by simp
  then show ?thesis
    using r arg_cong [OF m, of "map fst"] arg_cong [OF m, of "map snd"] by (simp add: comp_def case_prod_beta)
qed

text \<open>
  C17. The controller never raises: from a validated enabled configuration, any sequence of
  updates with non-negative depths at finite, non-decreasing clock readings runs to the end, one
  decision per update. In particular "tighten target has no hold state" is unreachable and no
  level outside L0 to L3 is ever built.
\<close>

theorem controller_never_raises:
  assumes "controller_config c"
    and "\<forall>(q, clock) \<in> set us. 0 \<le> q \<and> isfinite clock"
    and "sorted (map (\<lambda>u. real_of (snd u)) us)"
  shows "\<exists>s ds. run_updates c (controller_start c) us = (s, Inr ds) \<and>
    length ds = length us \<and> map decision_time_s ds = map (\<lambda>u. real_of (snd u)) us \<and>
    map decision_q_inst ds = map fst us \<and> ctl_run c s ds"
  using run_updates_total [OF assms] by (metis length_map)

lemma sample_controller_config: "controller_config sample_clip_config"
  using sample_clip_config_valid
  by (simp add: controller_config_def sample_clip_config_def default_admission_def)

theorem controller_never_raises_witness:
  "\<exists>s ds. run_updates sample_clip_config (controller_start sample_clip_config)
      [(4, Fin 0), (5, Fin 2), (0, Fin 2)] = (s, Inr ds) \<and> length ds = 3"
  using controller_never_raises [OF sample_controller_config, of "[(4, Fin 0), (5, Fin 2), (0, Fin 2)]"]
  by auto

section \<open>The smoothed depth\<close>

lemma ewma_upper:
  assumes "0 < tau" and "0 \<le> dt" and "qb \<le> b" and "of_int q \<le> b"
  shows "ewma tau dt qb q \<le> b"
proof -
  let ?e = "exp (- dt / tau)"
  have e: "0 \<le> ?e" "?e \<le> 1" using assms by simp_all
  have "?e * qb + (1 - ?e) * of_int q \<le> ?e * b + (1 - ?e) * b"
    using e assms by (intro add_mono mult_left_mono) simp_all
  then show ?thesis by (simp add: ewma_def Let_def algebra_simps)
qed

lemma ctl_run_upper:
  assumes "ctl_run c s ds" and c: "valid_admission c" and "0 \<le> B"
    and "\<forall>d \<in> set ds. decision_q_inst d \<le> B"
  shows "q_bar s \<le> of_int B \<and> q_inst s \<le> B \<and> (\<forall>d \<in> set ds. decision_q_bar d \<le> of_int B)"
  using assms(1,4)
proof induction
  case (ctl_start s)
  then show ?case
    using assms(3) by (simp add: AdaptiveClipController_init_def raise_simps controller_start_def)
next
  case (ctl_step s ds q clock s' d)
  obtain t where t: "clock = Fin t" and a: "accepted s q t"
    using update_accepted ctl_step.hyps(2) by blast
  have h: "hist c s ds" using ctl_run_hist [OF ctl_step.hyps(1) c] .
  have "next_q_bar c s t \<le> of_int B"
    using ctl_step a valid_admission_fields(2) [OF c]
    by (auto simp: next_q_bar_def accepted_def intro!: ewma_upper split: option.splits)
  moreover have "q_bar s' = next_q_bar c s t" "decision_q_bar d = next_q_bar c s t"
      "q_inst s' = q" "decision_q_inst d = q"
    using hist_update [OF c h a ctl_step.hyps(2) [unfolded t]] by metis+
  ultimately show ?case using ctl_step by auto
qed

text \<open>
  The smoothed depth is an average of what was observed: in every decision of every run,
  \<open>q_bar\<close> lies between 0 and the largest depth observed so far.
\<close>

theorem controller_q_bar_bounds:
  assumes "ctl_run c s ds" and "valid_admission c" and "0 \<le> B"
    and "\<forall>d \<in> set ds. decision_q_inst d \<le> B" and "d \<in> set ds"
  shows "0 \<le> decision_q_bar d \<and> decision_q_bar d \<le> of_int B"
proof -
  obtain m where m: "m < length ds" "ds ! m = d"
    using assms(5) by (metis in_set_conv_nth)
  obtain s0 s1 q t where h: "hist c s0 (take m ds)" "accepted s0 q t"
      "update c s0 q (Fin t) = (s1, Inr (ds ! m))"
    using ctl_run_last [OF assms(1,2) m(1)] by metis
  have "decision_q_bar d = next_q_bar c s0 t"
    using hist_update [OF assms(2) h] m(2) by metis
  then have "0 \<le> decision_q_bar d" using next_q_bar_nonneg [OF assms(2) h(1,2)] by simp
  moreover have "decision_q_bar d \<le> of_int B"
    using ctl_run_upper [OF assms(1-4)] assms(5) by blast
  ultimately show ?thesis ..
qed

lemma two_updates_run:
  "\<exists>s ds. ctl_run sample_clip_config s ds \<and> map decision_q_inst ds = [4, 4] \<and>
     map decision_time_s ds = [0, 4]"
proof -
  let ?us = "[(4, Fin 0), (4, Fin 4)] :: (int \<times> pyfloat) list"
  have "\<forall>(q, clock) \<in> set ?us. 0 \<le> q \<and> isfinite clock" and "sorted (map (\<lambda>u. real_of (snd u)) ?us)" by simp_all
  from run_updates_total [OF sample_controller_config this] obtain s ds
    where "ctl_run sample_clip_config s ds" "map decision_time_s ds = map (\<lambda>u. real_of (snd u)) ?us"
      "map decision_q_inst ds = map fst ?us" by blast
  then show ?thesis by (intro exI [of _ s] exI [of _ ds]) simp
qed

theorem controller_q_bar_bounds_witness:
  "\<exists>s ds d. ctl_run sample_clip_config s ds \<and> d \<in> set ds \<and> decision_q_bar d \<le> 4"
proof -
  obtain s ds where r: "ctl_run sample_clip_config s ds" and m: "map decision_q_inst ds = [4, 4]"
    using two_updates_run by auto
  then have "\<forall>d \<in> set ds. decision_q_inst d \<le> 4" and ne: "ds \<noteq> []"
    by (auto simp: map_eq_Cons_conv)
  from controller_q_bar_bounds [OF r sample_clip_config_valid _ this(1), of "hd ds"] ne r
  show ?thesis by (intro exI [of _ s] exI [of _ ds] exI [of _ "hd ds"]) simp
qed

lemma ewma_compose: "ewma tau b (ewma tau a qb q) q = ewma tau (a + b) qb q"
proof -
  have "exp (- (a + b) / tau) = exp (- a / tau) * exp (- b / tau)"
    by (simp add: exp_add [symmetric] add_divide_distrib diff_divide_distrib)
  then show ?thesis by (simp add: ewma_def Let_def algebra_simps)
qed

text \<open>
  The average is over wall-clock time and not over events: an extra update in the middle
  of an interval, at an unchanged depth, leaves the smoothed depth at the end of the interval
  as it would have been without it.
\<close>

theorem controller_ewma_wall_clock:
  assumes "last_update_s s = Some t0"
    and "update c s (q_inst s) (Fin t1) = (s1, Inr d1)"
    and "update c s1 q (Fin t2) = (s2, Inr d2)"
    and "update c s q (Fin t2) = (s2', Inr d2')"
  shows "decision_q_bar d2 = decision_q_bar d2'"
proof -
  have q_bar: "decision_q_bar d = next_q_bar c s' t \<and> q_bar s'' = next_q_bar c s' t \<and>
      q_inst s'' = q' \<and> last_update_s s'' = Some t"
    if u: "update c s' q' (Fin t) = (s'', Inr d)" for s' q' t s'' d
  proof -
    have a: "accepted s' q' t" using update_accepted [OF u] by auto
    obtain s2 r where r: "update_level c (observed c s' q' t) t = (s2, r)" by fastforce
    have "q_bar s2 = next_q_bar c s' t \<and> q_inst s2 = q' \<and> last_update_s s2 = Some t"
      using update_level_observation [OF r] by simp
    then show ?thesis using u by (auto simp: update_eq [OF a] r and_then_Inr)
  qed
  show ?thesis
    using q_bar [OF assms(2)] q_bar [OF assms(3)] q_bar [OF assms(4)] assms(1)
    by (simp add: next_q_bar_def ewma_compose)
qed

theorem controller_ewma_wall_clock_witness:
  "\<exists>s d d' s1 d1 s2 s2'. q_inst s = 4 \<and>
    update sample_clip_config s 4 (Fin 3) = (s1, Inr d1) \<and>
    update sample_clip_config s1 0 (Fin 9) = (s2, Inr d) \<and>
    update sample_clip_config s 0 (Fin 9) = (s2', Inr d') \<and> decision_q_bar d = decision_q_bar d'"
proof -
  note c = sample_clip_config_valid
  have h0: "hist sample_clip_config (controller_start sample_clip_config) []"
    by (rule hist_start [OF c])
  have step: "\<exists>s' d. update sample_clip_config s q (Fin t) = (s', Inr d) \<and>
      hist sample_clip_config s' (ds @ [d]) \<and> q_inst s' = q \<and> last_update_s s' = Some t"
    if h: "hist sample_clip_config s ds" and a: "accepted s q t" for s ds q t
  proof -
    have "length (tighten_since_s s) = 3" using h by (simp add: hist_def)
    from update_outcome [OF c this a] show ?thesis using hist_step [OF c h a] by metis
  qed
  obtain s ds where s: "hist sample_clip_config s ds" "q_inst s = 4" "last_update_s s = Some 1"
    using step [OF h0, of 4 1] by (auto simp: accepted_def controller_start_def)
  obtain s1 d1 ds1 where s1: "update sample_clip_config s 4 (Fin 3) = (s1, Inr d1)"
      "hist sample_clip_config s1 ds1" "last_update_s s1 = Some 3"
    using step [OF s(1), of 4 3] s(3) by (auto simp: accepted_def)
  obtain s2 d where s2: "update sample_clip_config s1 0 (Fin 9) = (s2, Inr d)"
    using step [OF s1(2), of 0 9] s1(3) by (auto simp: accepted_def)
  obtain s2' d' where s2': "update sample_clip_config s 0 (Fin 9) = (s2', Inr d')"
    using step [OF s(1), of 0 9] s(3) by (auto simp: accepted_def)
  from controller_ewma_wall_clock [OF s(3) _ s2 s2'] s1(1) s(2) s2 s2' show ?thesis
    by metis
qed

section \<open>Tightening\<close>

lemma window:
  assumes "since_when (take m ds @ [ds ! m]) t0 P" and "m < length ds"
    and "take m ds @ [ds ! m] = take (Suc m) ds"
  shows "\<exists>j \<le> m. decision_time_s (ds ! j) = t0 \<and> (\<forall>k. j \<le> k \<and> k \<le> m \<longrightarrow> P (ds ! k))"
proof -
  obtain j where "j < length (take (Suc m) ds)" "decision_time_s (take (Suc m) ds ! j) = t0"
    "\<And>k. j \<le> k \<Longrightarrow> k < length (take (Suc m) ds) \<Longrightarrow> P (take (Suc m) ds ! k)"
    using since_when_nth assms(1,3) by metis
  then have "j \<le> m" "decision_time_s (ds ! j) = t0" "\<And>k. j \<le> k \<Longrightarrow> k \<le> m \<Longrightarrow> P (ds ! k)"
    using assms(2) by simp_all
  then show ?thesis by blast
qed

lemma tighten_window:
  assumes "ctl_run c s ds" and "valid_admission c" and "m < length ds"
    and "old_level (ds ! m) < new_level (ds ! m)"
  obtains j where "j \<le> m"
    and "adaptive_clip_tighten_hold_s c \<le> decision_time_s (ds ! m) - decision_time_s (ds ! j)"
    and "\<And>k. j \<le> k \<Longrightarrow> k \<le> m \<Longrightarrow> thr c (level_int (new_level (ds ! m)) - 1) \<le> dpress (ds ! k) \<and>
      level_int (old_level (ds ! k)) \<le> level_int (new_level (ds ! m)) - 1"
proof -
  obtain s0 s1 q t where r: "hist c s0 (take m ds)" "accepted s0 q t"
      "update c s0 q (Fin t) = (s1, Inr (ds ! m))" and eq: "take m ds @ [ds ! m] = take (Suc m) ds"
    using ctl_run_last [OF assms(1-3)] by metis
  obtain t0 where t0: "adaptive_clip_tighten_hold_s c \<le> decision_time_s (ds ! m) - t0"
    "since_when (take m ds @ [ds ! m]) t0 (\<lambda>e. thr c (level_int (new_level (ds ! m)) - 1) \<le> dpress e \<and>
      level_int (old_level e) \<le> level_int (new_level (ds ! m)) - 1)"
    by (rule tighten_decision [OF assms(2) r assms(4)])
  obtain j where j: "j \<le> m" "decision_time_s (ds ! j) = t0"
    "\<And>k. j \<le> k \<Longrightarrow> k \<le> m \<Longrightarrow> thr c (level_int (new_level (ds ! m)) - 1) \<le> dpress (ds ! k) \<and>
      level_int (old_level (ds ! k)) \<le> level_int (new_level (ds ! m)) - 1"
    using window [OF t0(2) assms(3) eq] by metis
  show ?thesis by (rule that [OF j(1) t0(1) [folded j(2)] j(3)])
qed

lemma relax_window:
  assumes "ctl_run c s ds" and "valid_admission c" and "m < length ds"
    and "new_level (ds ! m) < old_level (ds ! m)"
  obtains j where "j \<le> m" and "level_int (new_level (ds ! m)) = level_int (old_level (ds ! m)) - 1"
    and "adaptive_clip_relax_hold_s c \<le> decision_time_s (ds ! m) - decision_time_s (ds ! j)"
    and "\<And>k. j \<le> k \<Longrightarrow> k \<le> m \<Longrightarrow> dpress (ds ! k) < relax_thr c (level_int (old_level (ds ! m)) - 1) \<and>
      old_level (ds ! k) = old_level (ds ! m)"
proof -
  obtain s0 s1 q t where r: "hist c s0 (take m ds)" "accepted s0 q t"
      "update c s0 q (Fin t) = (s1, Inr (ds ! m))" and eq: "take m ds @ [ds ! m] = take (Suc m) ds"
    using ctl_run_last [OF assms(1-3)] by metis
  obtain t0 where t0: "level_int (new_level (ds ! m)) = level_int (old_level (ds ! m)) - 1"
    "adaptive_clip_relax_hold_s c \<le> decision_time_s (ds ! m) - t0"
    "since_when (take m ds @ [ds ! m]) t0 (\<lambda>e. dpress e < relax_thr c (level_int (old_level (ds ! m)) - 1) \<and>
      old_level e = old_level (ds ! m))"
    by (rule relax_decision [OF assms(2) r assms(4)])
  obtain j where j: "j \<le> m" "decision_time_s (ds ! j) = t0"
    "\<And>k. j \<le> k \<Longrightarrow> k \<le> m \<Longrightarrow> dpress (ds ! k) < relax_thr c (level_int (old_level (ds ! m)) - 1) \<and>
      old_level (ds ! k) = old_level (ds ! m)"
    using window [OF t0(3) assms(3) eq] by metis
  show ?thesis by (rule that [OF j(1) t0(1) t0(2) [folded j(2)] j(3)])
qed

text \<open>
  C18. No tightening without sustained pressure: whenever a decision raises the level to \<open>n\<close>, the
  pressure (the larger of the instantaneous and the smoothed depth) was at or above the
  threshold of \<open>n\<close> at that decision and at every earlier one for at least the tighten hold time.
\<close>

theorem tighten_only_after_hold:
  assumes "ctl_run c s ds" and "valid_admission c" and "m < length ds"
    and "old_level (ds ! m) < new_level (ds ! m)"
  shows "\<exists>j \<le> m.
    adaptive_clip_tighten_hold_s c \<le> decision_time_s (ds ! m) - decision_time_s (ds ! j) \<and>
    (\<forall>k. j \<le> k \<and> k \<le> m \<longrightarrow> adaptive_clip_tighten_thresholds c ! (level_int (new_level (ds ! m)) - 1)
       \<le> max (of_int (decision_q_inst (ds ! k))) (decision_q_bar (ds ! k)))"
  using tighten_window [OF assms] unfolding dpress_def by metis

lemma answered_window:
  assumes "ctl_run c s ds" and c: "valid_admission c" and i: "i < 3"
    and "j \<le> m" "m < length ds" "\<And>k. j \<le> k \<Longrightarrow> k \<le> m \<Longrightarrow> thr c i \<le> dpress (ds ! k)"
  shows "\<exists>s'. ctl_run c s' (take (Suc m) ds) \<and> answered c s' i (decision_time_s (ds ! j)) \<and>
    (adaptive_clip_tighten_hold_s c \<le> decision_time_s (ds ! m) - decision_time_s (ds ! j) \<longrightarrow>
      i < level_int (new_level (ds ! m)))"
  using assms(4-)
proof (induction "m - j" arbitrary: m)
  case 0
  then have m: "m = j" by simp
  obtain s0 s1 q t where r: "ctl_run c s0 (take m ds)" "accepted s0 q t"
      "update c s0 q (Fin t) = (s1, Inr (ds ! m))" and r1: "ctl_run c s1 (take (Suc m) ds)"
    using ctl_run_prefix [OF assms(1) 0(3)] by metis
  have h: "hist c s0 (take m ds)" using ctl_run_hist [OF r(1) c] .
  have d: "decision_time_s (ds ! m) = t" "new_level (ds ! m) = level s1"
    using hist_update [OF c h r(2,3)] by metis+
  have p: "thr c i \<le> dpress (ds ! m)" using 0 by simp
  show ?case
    using answered_step [OF c h r(2,3) i p, of t] answered_elapsed [OF c h r(2,3) i p, of t] r1 d m
    by auto
next
  case (Suc n)
  then have m1: "j \<le> m - 1" "m - 1 < length ds" "Suc (m - 1) = m" "n = m - 1 - j" by simp_all
  obtain s0 where s0: "ctl_run c s0 (take m ds)" "answered c s0 i (decision_time_s (ds ! j))"
    using Suc.hyps(1) [OF m1(4,1,2)] Suc.prems(3) m1(3) by auto
  obtain s0' s1 q t where r: "ctl_run c s0' (take m ds)" "accepted s0' q t"
      "update c s0' q (Fin t) = (s1, Inr (ds ! m))" and r1: "ctl_run c s1 (take (Suc m) ds)"
    using ctl_run_prefix [OF assms(1) Suc.prems(2)] by metis
  have s0': "s0' = s0" using ctl_run_unique [OF s0(1) r(1)] by simp
  have h: "hist c s0 (take m ds)" using ctl_run_hist [OF s0(1) c] .
  have d: "decision_time_s (ds ! m) = t" "new_level (ds ! m) = level s1"
    using hist_update [OF c h r(2,3) [unfolded s0']] by metis+
  have p: "thr c i \<le> dpress (ds ! m)" using Suc.prems by simp
  show ?case
    using answered_step [OF c h r(2,3) [unfolded s0'] i p] s0(2)
      answered_elapsed [OF c h r(2,3) [unfolded s0'] i p] r1 d by auto
qed

text \<open>
  C19. Sustained pressure is always answered: if the pressure was at or above the threshold of
  level \<open>i + 1\<close> at every decision from \<open>j\<close> to \<open>m\<close>, and these span at least the tighten hold
  time, then decision \<open>m\<close> leaves the controller at level \<open>i + 1\<close> or stricter.
\<close>

theorem sustained_pressure_tightens:
  assumes "ctl_run c s ds" and "valid_admission c" and "i < 3" and "j \<le> m" and "m < length ds"
    and "\<forall>k. j \<le> k \<and> k \<le> m \<longrightarrow> adaptive_clip_tighten_thresholds c ! i
       \<le> max (of_int (decision_q_inst (ds ! k))) (decision_q_bar (ds ! k))"
    and "adaptive_clip_tighten_hold_s c \<le> decision_time_s (ds ! m) - decision_time_s (ds ! j)"
  shows "i < level_int (new_level (ds ! m))"
  using answered_window [OF assms(1-5)] assms(6,7) by (auto simp: dpress_def)

lemma two_updates_level:
  assumes "ctl_run sample_clip_config s ds" and "map decision_q_inst ds = [4, 4]"
    and "map decision_time_s ds = [0, 4]"
  shows "2 < level_int (new_level (ds ! 1))"
proof -
  have len: "length ds = 2" using assms(2) by (metis One_nat_def Suc_1 length_Cons length_map list.size(3))
  have q: "decision_q_inst (ds ! 0) = 4" "decision_q_inst (ds ! 1) = 4"
      "decision_time_s (ds ! 0) = 0" "decision_time_s (ds ! 1) = 4"
    using assms(2,3) by (auto simp: map_eq_Cons_conv)
  have p: "thr sample_clip_config 2 \<le> dpress (ds ! k)" if "k \<le> 1" for k
    using that q by (auto simp: dpress_def sample_clip_config_def default_admission_def le_Suc_eq max_def)
  show ?thesis
    using answered_window [OF assms(1) sample_clip_config_valid, of 2 0 1] p len q
    by (auto simp: sample_clip_config_def default_admission_def)
qed

theorem sustained_pressure_tightens_witness:
  "\<exists>s ds. ctl_run sample_clip_config s ds \<and> map decision_q_inst ds = [4, 4] \<and>
     new_level (ds ! 1) = L3"
proof -
  obtain s ds where r: "ctl_run sample_clip_config s ds" and m: "map decision_q_inst ds = [4, 4]"
      "map decision_time_s ds = [0, 4]"
    using two_updates_run by auto
  have q: "length ds = 2" "decision_q_inst (ds ! 0) = 4" "decision_q_inst (ds ! 1) = 4"
      "decision_time_s (ds ! 0) = 0" "decision_time_s (ds ! 1) = 4"
    using m by (auto simp: map_eq_Cons_conv)
  have "2 < level_int (new_level (ds ! 1))"
    by (rule sustained_pressure_tightens [OF r sample_clip_config_valid, of 2 0 1])
       (use q in \<open>auto simp: sample_clip_config_def default_admission_def le_Suc_eq max_def\<close>)
  then have "new_level (ds ! 1) = L3" by (cases "new_level (ds ! 1)") auto
  with r m show ?thesis by metis
qed

lemma first_two_levels:
  assumes "ctl_run sample_clip_config s ds" and "map decision_q_inst ds = [4, 4]"
    and "map decision_time_s ds = [0, 4]"
  shows "old_level (ds ! 1) < new_level (ds ! 1)"
proof -
  have len: "length ds = 2" and q: "decision_time_s (ds ! 0) = 0"
    using assms(2,3) by (auto simp: map_eq_Cons_conv)
  have "\<not> old_level (ds ! 0) < new_level (ds ! 0)"
    using tighten_window [OF assms(1) sample_clip_config_valid, of 0] len
    by (auto simp: sample_clip_config_def default_admission_def)
  moreover have "old_level (ds ! 0) = L0"
    using old_level_chain(1) [OF assms(1) sample_clip_config_valid] len by simp
  ultimately have "new_level (ds ! 0) = L0"
    by (cases "new_level (ds ! 0)") (auto simp: less_AdaptiveClipLevel_def)
  then have "old_level (ds ! 1) = L0"
    using old_level_chain(2) [OF assms(1) sample_clip_config_valid, of 0] len by simp
  moreover have "0 < level_int (new_level (ds ! 1))"
    using two_updates_level [OF assms] by linarith
  ultimately show ?thesis by (simp add: less_AdaptiveClipLevel_def)
qed

theorem tighten_only_after_hold_witness:
  "\<exists>s ds. ctl_run sample_clip_config s ds \<and> old_level (ds ! 1) < new_level (ds ! 1) \<and>
    (\<exists>j \<le> 1. 4 \<le> decision_time_s (ds ! 1) - decision_time_s (ds ! j))"
proof -
  obtain s ds where r: "ctl_run sample_clip_config s ds" and m: "map decision_q_inst ds = [4, 4]"
      "map decision_time_s ds = [0, 4]"
    using two_updates_run by auto
  have "length ds = 2" using m by (auto simp: map_eq_Cons_conv)
  then show ?thesis
    using tighten_only_after_hold [OF r sample_clip_config_valid, of 1] first_two_levels [OF r m] r
    by (auto simp: sample_clip_config_def default_admission_def)
qed

section \<open>Relaxing\<close>

text \<open>
  A concrete run: with no tighten hold, a burst of depth 4 raises the level to L3 at once, and
  thirty quiet seconds later the level drops to L2.
\<close>

definition sample_burst_config :: AdmissionControlConfig where
  "sample_burst_config = sample_clip_config\<lparr>adaptive_clip_tighten_hold_s := 0\<rparr>"

lemma sample_burst_config: "controller_config sample_burst_config"
  by (simp add: controller_config_def valid_admission_def AdmissionControlConfig_init_def checked_def
      raise_if.simps admission_field_guards_def learned_clip_source_has_estimator_def
      sample_burst_config_def sample_clip_config_def validate_adaptive_clip_contract_def
      default_admission_def Let_def)

lemma sample_burst_run:
  "\<exists>s ds. ctl_run sample_burst_config s ds \<and> length ds = 3 \<and>
     map new_level ds = [L3, L3, L2] \<and> map old_level ds = [L0, L3, L3] \<and>
     map decision_time_s ds = [0, 0, 30]"
proof -
  let ?us = "[(4, Fin 0), (0, Fin 0), (0, Fin 30)] :: (int \<times> pyfloat) list"
  have "\<exists>s ds. run_updates sample_burst_config (controller_start sample_burst_config) ?us = (s, Inr ds) \<and>
     map new_level ds = [L3, L3, L2] \<and> map old_level ds = [L0, L3, L3] \<and>
     map decision_time_s ds = [0, 0, 30]"
    by (simp add: sample_burst_config_def sample_clip_config_def default_admission_def
        controller_start_def update_def update_level_def run_scan_def scan_entry_def Let_def
        pressure_def ewma_def hold_or_relax_def level_of_def selected_cap_def eval_nat_numeral)
  then obtain s ds where
      r: "run_updates sample_burst_config (controller_start sample_burst_config) ?us = (s, Inr ds)"
      and m: "map new_level ds = [L3, L3, L2]" "map old_level ds = [L0, L3, L3]"
        "map decision_time_s ds = [0, 0, 30]"
    by auto
  have "ctl_run sample_burst_config s ([] @ ds)"
    by (rule ctl_run_updates [OF controller_config_run [OF sample_burst_config] r])
  moreover have "length ds = 3" using m(1) by (auto simp: map_eq_Cons_conv)
  ultimately show ?thesis using m by (metis append_Nil)
qed

text \<open>
  C20. Relaxing is gradual: a decision that lowers the level lowers it by exactly one, and only
  when the pressure was below that level's relax threshold, at an unchanged level, at every
  decision of a span of at least the relax hold time. So two relaxations are also at least the
  relax hold time apart.
\<close>

theorem relax_one_level_after_hold:
  assumes "ctl_run c s ds" and "valid_admission c" and "m < length ds"
    and "new_level (ds ! m) < old_level (ds ! m)"
  shows "level_int (new_level (ds ! m)) = level_int (old_level (ds ! m)) - 1 \<and>
    (\<exists>j \<le> m.
      adaptive_clip_relax_hold_s c \<le> decision_time_s (ds ! m) - decision_time_s (ds ! j) \<and>
      (\<forall>k. j \<le> k \<and> k \<le> m \<longrightarrow> old_level (ds ! k) = old_level (ds ! m) \<and>
         max (of_int (decision_q_inst (ds ! k))) (decision_q_bar (ds ! k))
           < adaptive_clip_relax_thresholds c ! (level_int (old_level (ds ! m)) - 1)))"
  using relax_window [OF assms] unfolding dpress_def by metis

theorem relax_one_level_after_hold_witness:
  "\<exists>s ds. ctl_run sample_burst_config s ds \<and> level_int (new_level (ds ! 2)) = 3 - 1"
proof -
  obtain s ds where r: "ctl_run sample_burst_config s ds" "length ds = 3"
      and m: "map new_level ds = [L3, L3, L2]" "map old_level ds = [L0, L3, L3]"
    using sample_burst_run by auto
  have l: "new_level (ds ! 2) = L2" "old_level (ds ! 2) = L3"
    using m r(2) by (auto simp: map_eq_Cons_conv)
  have "valid_admission sample_burst_config"
    using sample_burst_config by (simp add: controller_config_def)
  from relax_one_level_after_hold [OF r(1) this, of 2] r(2) l
  have "level_int (new_level (ds ! 2)) = 3 - 1" by (simp add: less_AdaptiveClipLevel_def)
  with r(1) show ?thesis by blast
qed

lemma relax_after_tighten:
  assumes run: "ctl_run c s ds" and c: "valid_admission c" and m: "m1 < m2" "m2 < length ds"
    and up: "old_level (ds ! m1) < new_level (ds ! m1)"
    and down: "new_level (ds ! m2) < old_level (ds ! m2)"
  shows "adaptive_clip_relax_hold_s c \<le> decision_time_s (ds ! m2) - decision_time_s (ds ! m1)"
proof -
  let ?l = "level_int (old_level (ds ! m2)) - 1"
  obtain j where j: "j \<le> m2"
      "adaptive_clip_relax_hold_s c \<le> decision_time_s (ds ! m2) - decision_time_s (ds ! j)"
    and quiet: "\<And>k. j \<le> k \<Longrightarrow> k \<le> m2 \<Longrightarrow> dpress (ds ! k) < relax_thr c ?l \<and>
      old_level (ds ! k) = old_level (ds ! m2)"
    using relax_window [OF run c m(2) down] by metis
  have m1: "m1 < length ds" using m by simp
  have "m1 < j"
  proof (rule ccontr)
    assume "\<not> m1 < j"
    then have q: "dpress (ds ! m1) < relax_thr c ?l" "old_level (ds ! m1) = old_level (ds ! m2)"
      using quiet [of m1] m by auto
    obtain j' where "j' \<le> m1" "\<And>k. j' \<le> k \<Longrightarrow> k \<le> m1 \<Longrightarrow>
        thr c (level_int (new_level (ds ! m1)) - 1) \<le> dpress (ds ! k)"
      using tighten_window [OF run c m1 up] by metis
    then have p: "thr c (level_int (new_level (ds ! m1)) - 1) \<le> dpress (ds ! m1)" by simp
    have lt: "?l < 3" using level_int_le_3 [of "old_level (ds ! m2)"] by linarith
    have "thr c ?l \<le> thr c (level_int (new_level (ds ! m1)) - 1)"
    proof (rule thresholds_order(1) [OF c])
      show "?l \<le> level_int (new_level (ds ! m1)) - 1"
        using up q(2) by (auto simp: less_AdaptiveClipLevel_def)
      show "level_int (new_level (ds ! m1)) - 1 < 3"
        using level_int_le_3 [of "new_level (ds ! m1)"] by linarith
    qed
    with p q(1) thresholds_order(2) [OF c lt] show False by simp
  qed
  then have "decision_time_s (ds ! m1) \<le> decision_time_s (ds ! j)"
    using run_times_mono [OF run c] j(1) m by simp
  with j(2) show ?thesis by simp
qed

lemma tighten_after_relax:
  assumes run: "ctl_run c s ds" and c: "valid_admission c" and m: "m1 < m2" "m2 < length ds"
    and down: "new_level (ds ! m1) < old_level (ds ! m1)"
    and up: "old_level (ds ! m2) < new_level (ds ! m2)"
  shows "adaptive_clip_tighten_hold_s c \<le> decision_time_s (ds ! m2) - decision_time_s (ds ! m1)"
proof -
  let ?n = "level_int (new_level (ds ! m2)) - 1"
  obtain j where j: "j \<le> m2"
      "adaptive_clip_tighten_hold_s c \<le> decision_time_s (ds ! m2) - decision_time_s (ds ! j)"
    and high: "\<And>k. j \<le> k \<Longrightarrow> k \<le> m2 \<Longrightarrow> thr c ?n \<le> dpress (ds ! k) \<and>
      level_int (old_level (ds ! k)) \<le> ?n"
    using tighten_window [OF run c m(2) up] by metis
  have m1: "m1 < length ds" using m by simp
  have "m1 < j"
  proof (rule ccontr)
    assume "\<not> m1 < j"
    then have h: "thr c ?n \<le> dpress (ds ! m1)" "level_int (old_level (ds ! m1)) \<le> ?n"
      using high [of m1] m by auto
    let ?l = "level_int (old_level (ds ! m1)) - 1"
    obtain j' where "j' \<le> m1" "\<And>k. j' \<le> k \<Longrightarrow> k \<le> m1 \<Longrightarrow> dpress (ds ! k) < relax_thr c ?l"
      using relax_window [OF run c m1 down] by metis
    then have p: "dpress (ds ! m1) < relax_thr c ?l" by simp
    have n: "?n < 3" "?l \<le> ?n" "?l < 3"
      using h(2) level_int_le_3 [of "new_level (ds ! m2)"] by linarith+
    with p h(1) thresholds_order(1) [OF c n(2,1)] thresholds_order(2) [OF c n(3)]
    show False by simp
  qed
  then have "decision_time_s (ds ! m1) \<le> decision_time_s (ds ! j)"
    using run_times_mono [OF run c] j(1) m by simp
  with j(2) show ?thesis by simp
qed

text \<open>
  No thrashing: in every run, a relaxation that comes after a tightening comes at least the
  relax hold time after it, and a tightening that comes after a relaxation comes at least the
  tighten hold time after it; so the reverse-interval check of the experiment's gate can never
  fail on decisions this controller took.
\<close>

theorem opposite_transitions_separated:
  assumes "ctl_run c s ds" and "valid_admission c" and "m1 < m2" and "m2 < length ds"
  shows "(old_level (ds ! m1) < new_level (ds ! m1) \<and> new_level (ds ! m2) < old_level (ds ! m2) \<longrightarrow>
      adaptive_clip_relax_hold_s c \<le> decision_time_s (ds ! m2) - decision_time_s (ds ! m1)) \<and>
    (new_level (ds ! m1) < old_level (ds ! m1) \<and> old_level (ds ! m2) < new_level (ds ! m2) \<longrightarrow>
      adaptive_clip_tighten_hold_s c \<le> decision_time_s (ds ! m2) - decision_time_s (ds ! m1))"
  using relax_after_tighten [OF assms] tighten_after_relax [OF assms] by blast

theorem opposite_transitions_separated_witness:
  "\<exists>s ds. ctl_run sample_burst_config s ds \<and> old_level (ds ! 0) < new_level (ds ! 0) \<and>
    new_level (ds ! 2) < old_level (ds ! 2) \<and>
    30 \<le> decision_time_s (ds ! 2) - decision_time_s (ds ! 0)"
proof -
  obtain s ds where r: "ctl_run sample_burst_config s ds" "length ds = 3"
      and m: "map new_level ds = [L3, L3, L2]" "map old_level ds = [L0, L3, L3]"
    using sample_burst_run by auto
  have l: "new_level (ds ! 0) = L3" "old_level (ds ! 0) = L0"
      "new_level (ds ! 2) = L2" "old_level (ds ! 2) = L3"
    using m r(2) by (auto simp: map_eq_Cons_conv)
  have v: "valid_admission sample_burst_config"
    using sample_burst_config by (simp add: controller_config_def)
  have hold: "adaptive_clip_relax_hold_s sample_burst_config = 30"
    by (simp add: sample_burst_config_def sample_clip_config_def default_admission_def)
  have "30 \<le> decision_time_s (ds ! 2) - decision_time_s (ds ! 0)"
    using opposite_transitions_separated [OF r(1) v, of 0 2] r(2) l
    by (simp add: less_AdaptiveClipLevel_def hold)
  moreover have "old_level (ds ! 0) < new_level (ds ! 0) \<and> new_level (ds ! 2) < old_level (ds ! 2)"
    by (simp add: l less_AdaptiveClipLevel_def)
  ultimately show ?thesis using r(1) by blast
qed

end
