(* ===== verification/AdmissionProperties.thy ===== *)
theory AdmissionProperties
  imports AdmissionRuns PolicyProperties ControllerProperties
begin

text \<open>
  The properties of the admission queue over all runs, that is all interleavings of submissions,
  backend completions, timeouts, cancellations and closing, under a monotone clock.
\<close>

section \<open>A concrete queue\<close>

definition sample_queue :: QueueSettings where
  "sample_queue =
    \<lparr>capacity = 1, in_flight_limit = 1, timeout_s = 10, timeout_message = ''late'',
     scheduling = FcfsPolicy, adaptive_clipper = None\<rparr>"

abbreviation sample_clock :: "nat \<Rightarrow> real" where
  "sample_clock \<equiv> real"

abbreviation sample_env :: "nat \<Rightarrow> RequestEnvelope" where
  "sample_env n \<equiv> sample_request n BATCH 0 9"

lemma sample_queue_ok: "start_ok_queue sample_queue (queue_start None)" "mono sample_clock"
  by (simp_all add: start_ok_queue_def settings_ok_def sample_queue_def mono_def)

lemma sample_env_valid: "valid_envelope (sample_env n)"
  by (simp add: valid_envelope_def sample_request_def)

lemmas queue_eval =
  and_do_def quiet_def start_def submit_def enqueue_def new_entry_def upd_entry_def tick_def
  admissible_def in_flight_entries_def admit_one_def select_waiting_def adapt_entry_def
  launch_entry_def queue_start_def sample_queue_def complete_locked_def entry_result_def
  request_cancel_def order_spec policy_rank_fcfs

text \<open>
  One slot and one place to wait: request 0 is dispatched, request 1 waits, request 2 is
  rejected; then the backend answers and request 1 takes the slot.
\<close>

lemma sample_run:
  "\<exists>tr s. run_events sample_queue sample_clock
      [Start, Submit (sample_env 0), Submit (sample_env 1)] (queue_start None) = Some (tr, s) \<and>
    started s \<and> \<not> closing s \<and> \<not> closed s \<and> waiting s = [1] \<and> runner_tasks s = [0] \<and>
    length (objects s) = 2 \<and> timeout_tasks s = [0, 1] \<and> reads s = 5"
  by (simp add: queue_eval admit_available.simps sample_env_valid)

lemma sample_run_done:
  "\<exists>tr s r. run_events sample_queue sample_clock
      [Start, Submit (sample_env 0), Submit (sample_env 1), BackendEnds 0 Returned]
      (queue_start None) = Some (tr, s) \<and>
    length (objects s) = 2 \<and> result_future (objects s ! 0) = Some r \<and> res_status r = SUCCESS"
  by (simp add: queue_eval admit_available.simps sample_env_valid run_backend_def Let_def
      final_message_def)

lemma sample_reach:
  obtains tr s where "admission_run sample_queue sample_clock (queue_start None) tr s"
    and "started s" "\<not> closing s" "\<not> closed s" "waiting s = [1]" "runner_tasks s = [0]"
      "length (objects s) = 2" "timeout_tasks s = [0, 1]" "reads s = 5"
  using sample_run run_events_run by blast

lemma sample_reach_done:
  obtains tr s r where "admission_run sample_queue sample_clock (queue_start None) tr s"
    and "length (objects s) = 2" "result_future (objects s ! 0) = Some r" "res_status r = SUCCESS"
  using sample_run_done run_events_run by blast

section \<open>No internal error\<close>



section \<open>Bounds and work conservation\<close>

text \<open>
  C2. In every reachable state at most \<open>queue_capacity\<close> requests wait and at most
  \<open>max_in_flight\<close> are in flight, and the queue is work-conserving: while it is not closing, a
  request waits only if every slot is taken.
\<close>

theorem queue_bounds:
  assumes "admission_run q clock s0 tr s" and "start_ok_queue q s0" and "mono clock"
  shows "int (length (waiting s)) \<le> capacity q \<and>
    int (length (in_flight_entries s)) \<le> in_flight_limit q \<and>
    (closing s \<or> waiting s = [] \<or> int (length (in_flight_entries s)) = in_flight_limit q)"
proof -
  have w: "inv None q clock s" "\<not> admissible q s"
    using run_wf(1) [OF assms] by (simp_all add: wf_def)
  show ?thesis
    using inv_parts(4,5) [OF w(1)] in_flight_entries_card [OF inv_parts(1) [OF w(1)]] w(2)
    by (auto simp: admissible_def)
qed

theorem queue_bounds_witness:
  "\<exists>tr s. admission_run sample_queue sample_clock (queue_start None) tr s \<and> waiting s = [1] \<and>
     length (in_flight_entries s) = 1"
proof -
  obtain tr s where r: "admission_run sample_queue sample_clock (queue_start None) tr s"
      "waiting s = [1]" "\<not> closing s"
    using sample_reach by metis
  from queue_bounds [OF r(1) sample_queue_ok] r(2,3) have "length (in_flight_entries s) = 1"
    by (simp add: sample_queue_def)
  with r show ?thesis by blast
qed

text \<open>
  Rejection happens exactly at saturation: on an open queue in a reachable state a
  submission is rejected iff the waiting list is full, and then every slot is taken too, so at
  least \<open>queue_capacity + max_in_flight\<close> requests are in the system; the rejection carries the
  request unchanged and leaves every other request alone. Otherwise the request gets a new entry
  stamped with the submission's own clock reading.
\<close>

theorem rejection_only_when_saturated:
  assumes "admission_run q clock s0 tr s" and "start_ok_queue q s0" and "mono clock"
    and "valid_envelope env" and "started s" "\<not> closing s" "\<not> closed s"
    and "submit q clock env s = (s', r)"
  shows "if capacity q \<le> int (length (waiting s))
    then r = Inr (Rejected (rejection env (clock (reads s)) (clock (Suc (reads s))))) \<and>
      objects s' = objects s \<and> sent s' = sent s \<and>
      int (length (waiting s)) + int (length (in_flight_entries s)) = capacity q + in_flight_limit q
    else r = Inr (Enqueued (length (objects s))) \<and>
      enqueue_time_s (objects s' ! length (objects s)) = clock (reads s) \<and>
      same_request env (envelope (objects s' ! length (objects s)))"
proof -
  note w = run_wf [OF assms(1-3)]
  have open_q: "started s \<and> \<not> closing s \<and> \<not> closed s" using assms(5-7) by simp
  obtain s1 r1 where s1: "submit q clock env s = (s1, r1)"
    and full: "capacity q \<le> int (length (waiting s)) \<Longrightarrow>
      r1 = Inr (Rejected (rejection env (clock (reads s)) (clock (Suc (reads s))))) \<and>
      objects s1 = objects s \<and> sent s1 = sent s"
    and room: "int (length (waiting s)) < capacity q \<Longrightarrow>
      r1 = Inr (Enqueued (length (objects s))) \<and>
      enqueue_time_s (objects s1 ! length (objects s)) = clock (reads s) \<and>
      same_request env (envelope (objects s1 ! length (objects s)))"
    by (rule submit_ok [OF w(1) assms(3) w(2) assms(4)]) (use open_q in blast)
  have i: "inv None q clock s" "\<not> admissible q s" using w(1) by (simp_all add: wf_def)
  have "int (length (waiting s)) = capacity q \<and> int (length (in_flight_entries s)) = in_flight_limit q"
    if "capacity q \<le> int (length (waiting s))"
  proof -
    have "1 \<le> capacity q" using w(2) by (simp add: settings_ok_def)
    then have "waiting s \<noteq> []" using that by auto
    then show ?thesis
      using that i(2) inv_parts(4,5) [OF i(1)] in_flight_entries_card [OF inv_parts(1) [OF i(1)]] open_q
      by (simp add: admissible_def)
  qed
  with s1 full room assms(8) show ?thesis by auto
qed

theorem rejection_only_when_saturated_witness:
  "\<exists>s s' r. waiting s = [1] \<and> submit sample_queue sample_clock (sample_env 2) s = (s', Inr (Rejected r)) \<and>
     res_status r = REJECTED \<and> objects s' = objects s"
proof -
  obtain tr s where r: "admission_run sample_queue sample_clock (queue_start None) tr s"
      "waiting s = [1]" "started s" "\<not> closing s" "\<not> closed s"
    using sample_reach by metis
  obtain s' x where p: "submit sample_queue sample_clock (sample_env 2) s = (s', x)" by fastforce
  have "capacity sample_queue \<le> int (length (waiting s))" using r(2) by (simp add: sample_queue_def)
  with rejection_only_when_saturated [OF r(1) sample_queue_ok sample_env_valid r(3-5) p] p r(2)
  show ?thesis by (auto simp: rejection_def)
qed

section \<open>Completion\<close>

text \<open>
  C3. Every request is settled at most once and for good: from any reachable state to any later
  one, a result that is set stays the same result, a dispatch time stays, a dispatched envelope
  is not changed any more, the arrival stamp never changes, and an entry has a result exactly
  when it is done.
\<close>

theorem results_are_final:
  assumes "admission_run q clock s0 tr s" and "start_ok_queue q s0" and "mono clock"
    and "admission_run q clock s tr' s'" and "i < length (objects s)"
  shows "i < length (objects s') \<and>
    enqueue_time_s (objects s' ! i) = enqueue_time_s (objects s ! i) \<and>
    (result_future (objects s ! i) \<noteq> None \<longrightarrow>
       result_future (objects s' ! i) = result_future (objects s ! i)) \<and>
    (dispatch_time_s (objects s ! i) \<noteq> None \<longrightarrow>
       dispatch_time_s (objects s' ! i) = dispatch_time_s (objects s ! i) \<and>
       envelope (objects s' ! i) = envelope (objects s ! i)) \<and>
    (state (objects s' ! i) = DONE \<longleftrightarrow> result_future (objects s' ! i) \<noteq> None)"
proof -
  have w: "wf q clock s'" "later s s'"
    using run_from_wf [OF assms(4) run_wf [OF assms(1-3)] assms(3)] by simp_all
  have i: "i < length (objects s')" using w(2) assms(5) by (simp add: later_def)
  have "settled (objects s ! i) (objects s' ! i)" using w(2) assms(5) by (simp add: later_def)
  moreover have "state (objects s' ! i) = DONE \<longleftrightarrow> result_future (objects s' ! i) \<noteq> None"
    using wf_entry [OF w(1) i] by (auto simp: entry_shape_def)
  ultimately show ?thesis using i by (simp add: settled_def)
qed

theorem results_are_final_witness:
  "\<exists>tr s r. admission_run sample_queue sample_clock (queue_start None) tr s \<and>
    result_future (objects s ! 0) = Some r \<and> state (objects s ! 0) = DONE"
proof -
  obtain tr s r where r: "admission_run sample_queue sample_clock (queue_start None) tr s"
    "length (objects s) = 2" "result_future (objects s ! 0) = Some r"
    using sample_reach_done by metis
  with results_are_final [OF r(1) sample_queue_ok run_start, of 0] show ?thesis by auto
qed

text \<open>
  C4. What a result says is true: it names its request and carries the envelope that was sent;
  the enqueue, dispatch and completion times are in order; \<open>TIMEOUT\<close> is only reported when the
  total timeout had passed, \<open>SUCCESS\<close> and \<open>ERROR\<close> only for a dispatched request whose last check
  found the timeout not yet passed; there is an error message exactly when the status is not
  \<open>SUCCESS\<close>; and an entry is never \<open>REJECTED\<close>.
\<close>

theorem results_are_truthful:
  assumes "admission_run q clock s0 tr s" and "start_ok_queue q s0" and "mono clock"
    and "i < length (objects s)" and "result_future (objects s ! i) = Some r"
  shows "res_request_id r = request_id (envelope (objects s ! i)) \<and>
    res_effective_envelope r = envelope (objects s ! i) \<and>
    res_dispatch_time_s r = dispatch_time_s (objects s ! i) \<and>
    (\<exists>t. res_completion_time_s r = Some t \<and> res_enqueue_time_s r \<le> t \<and>
      (\<forall>d. res_dispatch_time_s r = Some d \<longrightarrow> res_enqueue_time_s r \<le> d \<and> d \<le> t) \<and>
      (res_status r = TIMEOUT \<longrightarrow> timeout_s q \<le> t - res_enqueue_time_s r)) \<and>
    (res_status r = SUCCESS \<or> res_status r = ERROR \<longrightarrow> res_dispatch_time_s r \<noteq> None \<and>
      (\<exists>k. clock k - res_enqueue_time_s r < timeout_s q \<and>
        res_completion_time_s r = Some (clock (Suc k)))) \<and>
    res_status r \<noteq> REJECTED \<and> (res_error_message r = None \<longleftrightarrow> res_status r = SUCCESS)"
proof -
  have "inv None q clock s" using run_wf(1) [OF assms(1-3)] by (simp add: wf_def)
  then have "entry_times q clock (reads s) (objects s ! i)" using assms(4) by (rule inv_entry)
  then have "result_ok q clock (reads s) (objects s ! i) r"
    "\<forall>d. dispatch_time_s (objects s ! i) = Some d \<longrightarrow> enqueue_time_s (objects s ! i) \<le> d"
    using assms(5) by (auto simp: entry_times_def)
  then show ?thesis unfolding result_ok_def by metis
qed

theorem results_are_truthful_witness:
  "\<exists>tr s r. admission_run sample_queue sample_clock (queue_start None) tr s \<and>
    result_future (objects s ! 0) = Some r \<and> res_dispatch_time_s r \<noteq> None \<and> res_error_message r = None"
proof -
  obtain tr s r where r: "admission_run sample_queue sample_clock (queue_start None) tr s"
    "length (objects s) = 2" "result_future (objects s ! 0) = Some r" "res_status r = SUCCESS"
    using sample_reach_done by metis
  from results_are_truthful [OF r(1) sample_queue_ok _ r(3)] r show ?thesis by auto
qed

text \<open>
  C5. The backend sees every request at most once: over a whole run no entry is sent twice, an
  entry has been sent exactly when it has a dispatch time, and what was sent is the envelope its
  result reports.
\<close>

theorem backend_sent_at_most_once:
  assumes "admission_run q clock s0 tr s" and "start_ok_queue q s0" and "mono clock"
  shows "distinct (map fst (sent s)) \<and>
    (\<forall>(i, env) \<in> set (sent s). i < length (objects s) \<and> envelope (objects s ! i) = env) \<and>
    (\<forall>i < length (objects s). i \<in> fst ` set (sent s) \<longleftrightarrow> dispatch_time_s (objects s ! i) \<noteq> None)"
proof -
  have w: "wf q clock s" using run_wf(1) [OF assms] .
  have ls: "lists_ok None s" using w shape_lists inv_parts(1) by (auto simp: wf_def)
  have map: "map_of (sent s) i = (if dispatch_time_s (objects s ! i) = None then None
      else Some (envelope (objects s ! i)))" if "i < length (objects s)" for i
    using wf_entry [OF w that] unfolding entry_shape_def by blast
  have "i < length (objects s) \<and> envelope (objects s ! i) = env" if "(i, env) \<in> set (sent s)" for i env
  proof -
    have "i < length (objects s)" using ls that by (force simp: lists_ok_def)
    moreover have "map_of (sent s) i = Some env" using ls that by (simp add: lists_ok_def)
    ultimately show ?thesis using map by (auto split: if_splits)
  qed
  moreover have "i \<in> fst ` set (sent s) \<longleftrightarrow> dispatch_time_s (objects s ! i) \<noteq> None"
    if "i < length (objects s)" for i
    using map [OF that] map_of_eq_None_iff [of "sent s" i] by (metis option.distinct(1))
  ultimately show ?thesis using ls by (auto simp: lists_ok_def)
qed

theorem backend_sent_at_most_once_witness:
  "\<exists>tr s. admission_run sample_queue sample_clock (queue_start None) tr s \<and> waiting s = [1] \<and>
     distinct (map fst (sent s))"
proof -
  obtain tr s where r: "admission_run sample_queue sample_clock (queue_start None) tr s" "waiting s = [1]"
    using sample_reach by metis
  from backend_sent_at_most_once [OF r(1) sample_queue_ok] r show ?thesis by blast
qed

text \<open>
  How a backend answer is reported: when the runner of a request in flight ends, the request
  is completed with the status that was forced on it (a timeout or a cancellation) if any,
  otherwise with \<open>TIMEOUT\<close> when the runner's one clock reading finds the total timeout passed,
  otherwise with what the backend did.
\<close>

theorem backend_end_reported:
  assumes "admission_run q clock s0 tr s" and "start_ok_queue q s0" and "mono clock"
    and "i \<in> set (runner_tasks s)" and "run_backend q clock i ending s = (s', x)"
  shows "x = Inr () \<and> state (objects s ! i) = IN_FLIGHT \<and>
    (\<exists>r. result_future (objects s' ! i) = Some r \<and> res_status r =
      (case forced_status (objects s ! i) of
         Some forced \<Rightarrow> forced
       | None \<Rightarrow> if timeout_s q \<le> clock (reads s) - enqueue_time_s (objects s ! i) then TIMEOUT
                 else case ending of Returned \<Rightarrow> SUCCESS | Raised m \<Rightarrow> ERROR | Cancelled \<Rightarrow> CANCELLED))"
proof -
  note w = run_wf [OF assms(1-3)]
  obtain s1 where s1: "run_backend q clock i ending s = (s1, Inr ())"
    and r: "\<exists>r. result_future (objects s1 ! i) = Some r \<and>
      res_status r = final_status q clock (objects s ! i) (reads s) ending"
    by (rule run_backend_ok [OF w(1) assms(3) w(2) assms(4)])
  have "i < length (objects s)" using wf_bound [OF w(1)] assms(4) by blast
  then have "state (objects s ! i) = IN_FLIGHT"
    using wf_entry [OF w(1)] assms(4) by (auto simp: entry_shape_def)
  moreover have "backend_status ending
      = (case ending of Returned \<Rightarrow> SUCCESS | Raised m \<Rightarrow> ERROR | Cancelled \<Rightarrow> CANCELLED)"
    by (cases ending) auto
  ultimately show ?thesis
    using s1 r assms(5) by (auto simp: final_status_def split: option.splits)
qed

theorem backend_end_reported_witness:
  "\<exists>s s' r. runner_tasks s = [0] \<and>
    run_backend sample_queue sample_clock 0 (Raised ''x'') s = (s', Inr ()) \<and>
    result_future (objects s' ! 0) = Some r \<and> res_status r \<in> {ERROR, TIMEOUT, CANCELLED, SUCCESS, REJECTED}"
proof -
  obtain tr s where r: "admission_run sample_queue sample_clock (queue_start None) tr s"
      "runner_tasks s = [0]"
    using sample_reach by metis
  obtain s' x where p: "run_backend sample_queue sample_clock 0 (Raised ''x'') s = (s', x)" by fastforce
  from backend_end_reported [OF r(1) sample_queue_ok _ p] r(2) obtain res
    where "x = Inr ()" "result_future (objects s' ! 0) = Some res" by auto
  moreover have "res_status res \<in> {ERROR, TIMEOUT, CANCELLED, SUCCESS, REJECTED}"
    by (cases "res_status res") auto
  ultimately show ?thesis using p r(2) by blast
qed

section \<open>Timeouts\<close>



section \<open>Closing\<close>

text \<open>
  C7. Closing stops dispatching for good and settles everything: from the moment a reachable
  queue is closing or closed, no later event sends another request and none waits; and when it
  is closed, every request it ever accepted has its result.
\<close>

theorem closing_stops_dispatch:
  assumes "admission_run q clock s0 tr s" and "start_ok_queue q s0" and "mono clock"
    and "closing s \<or> closed s" and "admission_run q clock s tr' s'"
  shows "sent s' = sent s \<and> waiting s' = [] \<and>
    (closed s' \<longrightarrow> (\<forall>e \<in> set (objects s'). result_future e \<noteq> None))"
proof -
  note w = run_wf [OF assms(1-3)]
  note sh = run_shut [OF assms(5) w assms(3,4)]
  have w': "wf q clock s'" using run_from_wf [OF assms(5) w assms(3)] by simp
  have wt: "waiting s' = []" using w' sh by (auto simp: wf_def flags_ok_def)
  have "result_future (objects s' ! i) \<noteq> None" if "closed s'" "i < length (objects s')" for i
  proof -
    have "i \<notin> in_flight_set s'" using w' that(1) by (simp add: wf_def flags_ok_def)
    then have "state (objects s' ! i) \<noteq> IN_FLIGHT" using that(2) by (simp add: in_flight_set_def)
    then show ?thesis
      using wf_entry [OF w' that(2)] wt by (cases "state (objects s' ! i)") (auto simp: entry_shape_def)
  qed
  then show ?thesis using sh wt by (metis in_set_conv_nth)
qed

text \<open>
  C8. Closing never hangs on the queue: from every reachable closing state there is a run of
  runner endings, watcher cancellations and the final step of \<open>aclose\<close> after which the queue is
  closed. All the backend has to do is end the calls it was told to cancel.
\<close>

theorem closing_can_finish:
  assumes "admission_run q clock s0 tr s" and "start_ok_queue q s0" and "mono clock" and "closing s"
  shows "\<exists>tr' s'. admission_run q clock s tr' s' \<and> closed s' \<and>
    (\<forall>(ev, r) \<in> set tr'. winding_down ev)"
  using close_can_finish [OF run_wf [OF assms(1-3)] assms(3,4)] .

lemma sample_closing:
  "\<exists>tr s. admission_run sample_queue sample_clock (queue_start None) tr s \<and> closing s"
proof -
  have "\<exists>tr s. run_events sample_queue sample_clock [Start, Submit (sample_env 0), CloseBegins]
      (queue_start None) = Some (tr, s) \<and> closing s"
    by (simp add: queue_eval admit_available.simps sample_env_valid aclose_begin_def cancel_backend_def)
  then show ?thesis using run_events_run by blast
qed

theorem closing_stops_dispatch_witness:
  "\<exists>tr s. admission_run sample_queue sample_clock (queue_start None) tr s \<and> closing s \<and> waiting s = []"
  using sample_closing closing_stops_dispatch [OF _ sample_queue_ok _ run_start] by blast

theorem closing_can_finish_witness:
  "\<exists>s tr s'. closing s \<and> admission_run sample_queue sample_clock s tr s' \<and> closed s'"
  using sample_closing closing_can_finish [OF _ sample_queue_ok] by metis

section \<open>Scheduling\<close>

text \<open>
  C9. The queue dispatches what its policy ranks first: in any state that satisfies the queue's
  invariant and has a free slot, one turn of the admission loop takes out of the waiting list
  exactly one entry, whose envelope has a least key among the waiting ones at the clock reading
  of that turn, and either sends it or, if its total timeout has passed, completes it as
  \<open>TIMEOUT\<close>.
\<close>

theorem admission_follows_policy:
  assumes "inv None q clock s" and "mono clock" and "settings_ok q" and "admissible q s"
  shows "\<exists>s' i. admit_one q clock s = (s', Inr ()) \<and> i \<in> set (waiting s) \<and>
    waiting s' = remove1 i (waiting s) \<and>
    (\<forall>j \<in> set (waiting s).
      policy_rank (scheduling q) (waiting_envelopes s) (clock (reads s)) (envelope (objects s ! i))
      \<le> policy_rank (scheduling q) (waiting_envelopes s) (clock (reads s)) (envelope (objects s ! j))) \<and>
    (sent s' = sent s @ [(i, envelope (objects s' ! i))] \<or>
     sent s' = sent s \<and> (\<exists>r. result_future (objects s' ! i) = Some r \<and> res_status r = TIMEOUT))"
  using admit_one_ok [OF assms] unfolding admitted_def ranked_first_def by metis

theorem admission_follows_policy_witness:
  "\<exists>s' i. admit_one sample_queue sample_clock (enqueue (sample_env 0) 0 ((queue_start None)\<lparr>started := True\<rparr>))
     = (s', Inr ()) \<and> i = 0"
proof -
  let ?s = "(queue_start None)\<lparr>started := True\<rparr>"
  have "wf sample_queue sample_clock (fst (start (queue_start None)))"
    by (rule start_ok(1) [OF start_queue_wf [OF sample_queue_ok(1)]])
  then have "inv None sample_queue sample_clock ?s"
    by (simp add: wf_def start_def queue_start_def)
  then have i: "inv None sample_queue sample_clock (enqueue (sample_env 0) 0 ?s)"
    by (rule inv_enqueue(1) [OF _ sample_queue_ok(2) sample_env_valid])
       (simp_all add: queue_start_def sample_queue_def)
  have "admissible sample_queue (enqueue (sample_env 0) 0 ?s)"
    by (simp add: queue_eval)
  with admission_follows_policy [OF i sample_queue_ok(2) _ this] sample_queue_ok(1)
  show ?thesis by (auto simp: start_ok_queue_def enqueue_def upd_entry_def queue_start_def)
qed

section \<open>The controller inside the queue\<close>

text \<open>
  C10. The queue drives the controller only through legal updates: in every reachable state of a
  queue with an adaptive controller, the controller's state together with the recorded decisions
  is a run of the controller, so everything proved about controller runs (hold times, gradual
  relaxation, bounds of the smoothed depth) holds of the decisions the queue recorded.
\<close>

theorem queue_decisions_are_a_controller_run:
  assumes "admission_run q clock s0 tr s" and "start_ok_queue q s0" and "mono clock"
  shows "case adaptive_controller s of
      None \<Rightarrow> adaptive_decisions s = []
    | Some (c, k) \<Rightarrow> controller_config c \<and> ctl_run c k (map decided (adaptive_decisions s))"
proof -
  have "control q clock s"
    using run_wf(1) [OF assms] inv_parts(3) by (auto simp: wf_def)
  then show ?thesis by (auto simp: control_def split: option.splits)
qed

definition sample_adaptive_queue :: QueueSettings where
  "sample_adaptive_queue =
    sample_queue\<lparr>adaptive_clipper := Some \<lparr>clip_config = sample_burst_config, clip_predictor = None\<rparr>\<rparr>"

definition sample_adaptive_start :: AdmissionQueue where
  "sample_adaptive_start = queue_start (Some (sample_burst_config, controller_start sample_burst_config))"

lemma sample_adaptive_ok: "start_ok_queue sample_adaptive_queue sample_adaptive_start"
proof -
  have "valid_clipper \<lparr>clip_config = sample_burst_config, clip_predictor = None\<rparr>"
    using sample_burst_config
    by (simp add: valid_clipper_def controller_config_def sample_burst_config_def
        sample_clip_config_def default_admission_def)
  moreover have "adaptive_clip_enabled sample_burst_config"
    using sample_burst_config by (simp add: controller_config_def)
  ultimately show ?thesis
    using sample_burst_config
    by (auto simp: start_ok_queue_def sample_adaptive_queue_def sample_adaptive_start_def
        settings_ok_def sample_queue_def)
qed

lemma sample_adaptive_run:
  "\<exists>tr s. run_events sample_adaptive_queue sample_clock [Start, Submit (sample_env 0)]
      sample_adaptive_start = Some (tr, s) \<and>
    (\<exists>k. adaptive_controller s = Some (sample_burst_config, k)) \<and> length (adaptive_decisions s) = 1"
  by (simp add: queue_eval admit_available.simps sample_env_valid sample_adaptive_queue_def
      sample_adaptive_start_def sample_burst_config_def sample_clip_config_def default_admission_def
      controller_start_def update_def update_level_def run_scan_def scan_entry_def Let_def
      pressure_def ewma_def hold_or_relax_def level_of_def selected_cap_def eval_nat_numeral
      stable_waiting_depth_def apply_adaptive_cap_def)

theorem queue_decisions_are_a_controller_run_witness:
  "\<exists>(s::AdmissionQueue) k. length (adaptive_decisions s) = 1 \<and> ctl_run sample_burst_config k (map decided (adaptive_decisions s))"
proof -
  obtain tr s k where r: "admission_run sample_adaptive_queue sample_clock sample_adaptive_start tr s"
      "adaptive_controller s = Some (sample_burst_config, k)" "length (adaptive_decisions s) = 1"
    using sample_adaptive_run run_events_run by blast
  from queue_decisions_are_a_controller_run [OF r(1) sample_adaptive_ok sample_queue_ok(2)] r(2)
  have "ctl_run sample_burst_config k (map decided (adaptive_decisions s))" by simp
  with r(3) show ?thesis by blast
qed

text \<open>
  The projected depth is the depth that remains: when the admission loop runs on an open
  queue and nobody it takes out has timed out, every controller decision it takes was given
  exactly the number of requests that are still waiting when the loop ends, however many slots
  it fills on the way.
\<close>

theorem decision_depth_is_stable:
  assumes "inv None q clock s" and "mono clock" and "settings_ok q" and "\<not> closing s"
    and "admit_available q clock s = (s', r)"
    and "length (sent s') + length (waiting s') = length (sent s) + length (waiting s)"
  shows "\<exists>ds. adaptive_decisions s' = adaptive_decisions s @ ds \<and>
    (\<forall>d \<in> set ds. decision_q_inst (decided d) = int (length (waiting s')))"
proof -
  obtain ds where total: "length (waiting s') + card (in_flight_set s')
      = length (waiting s) + card (in_flight_set s)"
    and ds: "adaptive_decisions s' = adaptive_decisions s @ ds"
      "\<forall>d \<in> set ds. decision_q_inst (decided d) = max 0 (int (length (waiting s))
             + int (card (in_flight_set s)) - in_flight_limit q)"
    using admit_available_count [OF assms(1-3,5)] assms(6) unfolding fully_sent_def by blast
  have s': "inv None q clock s'" "\<not> admissible q s'" "\<not> closing s'"
    using admit_available_ok [OF assms(1-3)] assms(4,5) by (auto simp: frame_def)
  have "int (length (waiting s')) = max 0 (int (length (waiting s)) + int (card (in_flight_set s))
      - in_flight_limit q)"
    using s'(2,3) admissible_card [OF inv_parts(1) [OF s'(1)], of q] inv_parts(4) [OF s'(1)] total
    by auto
  with ds show ?thesis by auto
qed

lemma sample_adaptive_admission:
  obtains s s' where "inv None sample_adaptive_queue sample_clock s" and "\<not> closing s"
    and "admit_available sample_adaptive_queue sample_clock s = (s', Inr ())"
    and "length (sent s') + length (waiting s') = length (sent s) + length (waiting s)"
    and "length (adaptive_decisions s) = 0" "length (adaptive_decisions s') = 1"
proof -
  let ?opened = "sample_adaptive_start\<lparr>started := True\<rparr>"
  let ?s = "enqueue (sample_env 0) 0 ?opened"
  have "wf sample_adaptive_queue sample_clock (fst (start sample_adaptive_start))"
    by (rule start_ok(1) [OF start_queue_wf [OF sample_adaptive_ok]])
  then have "inv None sample_adaptive_queue sample_clock ?opened"
    by (simp add: wf_def start_def queue_start_def sample_adaptive_start_def)
  then have i: "inv None sample_adaptive_queue sample_clock ?s"
    by (rule inv_enqueue(1) [OF _ sample_queue_ok(2) sample_env_valid])
       (simp_all add: queue_start_def sample_queue_def sample_adaptive_queue_def sample_adaptive_start_def)
  have "\<exists>s'. admit_available sample_adaptive_queue sample_clock ?s = (s', Inr ()) \<and>
      length (sent s') + length (waiting s') = length (sent ?s) + length (waiting ?s) \<and>
      length (adaptive_decisions s') = 1"
    by (simp add: queue_eval admit_available.simps sample_adaptive_queue_def
      sample_adaptive_start_def sample_burst_config_def sample_clip_config_def default_admission_def
      controller_start_def update_def update_level_def run_scan_def scan_entry_def Let_def
      pressure_def ewma_def hold_or_relax_def level_of_def selected_cap_def eval_nat_numeral
      stable_waiting_depth_def apply_adaptive_cap_def)
  then obtain s' where "admit_available sample_adaptive_queue sample_clock ?s = (s', Inr ())"
      "length (sent s') + length (waiting s') = length (sent ?s) + length (waiting ?s)"
      "length (adaptive_decisions s') = 1" by blast
  moreover have "\<not> closing ?s" "length (adaptive_decisions ?s) = 0"
    by (simp_all add: enqueue_def upd_entry_def sample_adaptive_start_def queue_start_def)
  ultimately show ?thesis using that i by blast
qed

theorem decision_depth_is_stable_witness:
  "\<exists>(s'::AdmissionQueue) d. adaptive_decisions s' = [d] \<and>
     decision_q_inst (decided d) = int (length (waiting s'))"
proof -
  obtain s s' where s: "inv None sample_adaptive_queue sample_clock s" "\<not> closing s"
    "admit_available sample_adaptive_queue sample_clock s = (s', Inr ())"
    "length (sent s') + length (waiting s') = length (sent s) + length (waiting s)"
    "length (adaptive_decisions s) = 0" "length (adaptive_decisions s') = 1"
    by (rule sample_adaptive_admission)
  have q: "settings_ok sample_adaptive_queue"
    using sample_adaptive_ok by (simp add: start_ok_queue_def)
  obtain ds where ds: "adaptive_decisions s' = adaptive_decisions s @ ds"
      "\<forall>d \<in> set ds. decision_q_inst (decided d) = int (length (waiting s'))"
    using decision_depth_is_stable [OF s(1) sample_queue_ok(2) q s(2-4)] by blast
  then obtain d where "ds = [d]" using s(5,6) by (cases ds) auto
  with ds s(5) show ?thesis by auto
qed

section \<open>Construction\<close>


definition sample_profile :: RequestProfileConfig where
  "sample_profile =
    \<lparr>profile_input_tokens = \<lparr>minimum = 1, maximum = 9\<rparr>,
     profile_output_tokens = \<lparr>minimum = 1, maximum = 9\<rparr>, ttft_slo_ms = 1, end_to_end_slo_ms = 9\<rparr>"

definition sample_experiment :: ExperimentConfig where
  "sample_experiment =
    \<lparr>exp_backend = \<lparr>base_url = ''u'', backend_model = ''m'', model_revision = replicate 40 CHR ''a'',
       tokenizer_revision = replicate 40 CHR ''a'', request_timeout_s = 10\<rparr>,
     exp_server = \<lparr>server_host = ''h'', server_port = 80, gpu_memory_utilization = 1,
       max_model_len = 9, max_num_seqs = 4, max_num_batched_tokens = None,
       enable_chunked_prefill = None, enable_prefix_caching = None, server_dtype = DTYPE_AUTO,
       enforce_eager = False\<rparr>,
     exp_router = \<lparr>router_policy = SLO_AWARE, listen_host = ''h'', listen_port = 81,
       max_in_flight = 4, queue_capacity = 8\<rparr>,
     exp_admission = sample_clip_config, exp_slo_aware = sample_slo,
     exp_workload = \<lparr>arrival_process = POISSON, request_rate_rps = 1, total_requests = 1,
       interactive_fraction = 1/2, random_seed = 0, warmup_requests = 0, repetitions = 1,
       interactive_profile = sample_profile, batch_profile = sample_profile,
       length_model = UNIFORM_CAP, realistic_length = None\<rparr>,
     exp_metrics = \<lparr>output_directory = ''o'', gpu_sample_interval_s = 1, save_jsonl = True,
       save_csv = False\<rparr>\<rparr>"

lemma sample_experiment_valid: "valid_experiment (\<lambda>u. (Some ''h'', Some 80)) sample_experiment"
proof -
  have "AdmissionControlConfig_init sample_clip_config = Inr sample_clip_config"
    "SloAwareConfig_init sample_slo = Inr sample_slo"
    using sample_clip_config_valid sample_slo_valid
    by (simp_all add: valid_admission_def valid_slo_aware_def)
  moreover have "is_revision (replicate 40 CHR ''a'')"
    by (simp add: is_revision_def list_all_iff)
  ultimately show ?thesis
    by (simp add: valid_experiment_def ExperimentConfig_init_def sample_experiment_def checked_def
        raise_if.simps BackendConfig_init_def ServerConfig_init_def RouterConfig_init_def
        WorkloadConfig_init_def RequestProfileConfig_init_def TokenRangeConfig_init_def sample_profile_def
        MetricsConfig_init_def server_matches_backend_url_def server_admits_router_concurrency_def)
qed


end
