(* ===== verification/Records.thy ===== *)
theory Records
  imports LengthPredictor
begin

text \<open>
  Request records (src/sloserve/metrics/records.py), their JSONL and CSV mapping
  (src/sloserve/metrics/serialization.py) and the persisted controller decisions
  (src/sloserve/metrics/adaptive_cap.py). The constructor asks whether its floats are finite,
  so the record is parameterised by its float type: \<open>raw_record\<close> is what the constructor is
  given, \<open>RequestRecord\<close> what it returns. File access and the JSON and CSV text formats belong
  to Python's library; the model starts at the mapping of one line.
\<close>

section \<open>The record\<close>

record 'f record_of =
  rec_request_id :: string
  rec_sequence_id :: int
  rec_request_class :: RequestClass
  rec_arrival_time_s :: 'f
  rec_enqueue_time_s :: 'f
  rec_dispatch_time_s :: "'f option"
  rec_first_token_time_s :: "'f option"
  rec_completion_time_s :: 'f
  rec_input_tokens :: int
  rec_output_tokens :: int
  rec_status :: DispatchStatus
  rec_error_type :: "string option"
  rec_policy_name :: SchedulerPolicyName
  rec_config_hash :: string
  rec_repetition_index :: int
  rec_env_version :: string
  rec_requested_output_tokens :: "int option"
  rec_backend_max_output_tokens :: "int option"
  rec_finish_reason :: "string option"

type_synonym raw_record = "pyfloat record_of"
type_synonym RequestRecord = "real record_of"

text \<open>\<open>^[0-9a-f]{64}$\<close> with \<open>fullmatch\<close>.\<close>

definition is_sha256 :: "string \<Rightarrow> bool" where
  "is_sha256 v \<longleftrightarrow> length v = 64 \<and> list_all (\<lambda>ch. ch \<in> set ''0123456789abcdef'') v"

definition identity_guards :: "'f record_of \<Rightarrow> (bool \<times> py_error) list" where
  "identity_guards r =
    [(rec_request_id r = [], ValueError ''request_id must not be empty''),
     (rec_sequence_id r < 0, ValueError ''sequence_id must be non-negative''),
     (rec_input_tokens r < 1, ValueError ''input_tokens must be positive''),
     (rec_output_tokens r < 0, ValueError ''output_tokens must be non-negative''),
     (rec_repetition_index r < 0, ValueError ''repetition_index must be non-negative''),
     (rec_env_version r = [], ValueError ''env_version must not be empty''),
     (\<not> is_sha256 (rec_config_hash r),
        ValueError ''config_hash must be a lowercase SHA-256 hex digest''),
     (rec_error_type r = Some [], ValueError ''error_type must be null or a non-empty string''),
     (rec_finish_reason r = Some [], ValueError ''finish_reason must be null or a non-empty string''),
     ((case rec_requested_output_tokens r of None \<Rightarrow> False | Some n \<Rightarrow> n < 1),
        ValueError ''requested_output_tokens must be positive when present''),
     ((case rec_backend_max_output_tokens r of None \<Rightarrow> False | Some n \<Rightarrow> n < 1),
        ValueError ''backend_max_output_tokens must be positive when present''),
     ((case (rec_backend_max_output_tokens r, rec_requested_output_tokens r) of
         (Some b, Some n) \<Rightarrow> b > n | _ \<Rightarrow> False),
        ValueError ''backend_max_output_tokens must not exceed requested_output_tokens'')]"

definition finite_guards :: "raw_record \<Rightarrow> (bool \<times> py_error) list" where
  "finite_guards r =
    (let timestamps = [rec_arrival_time_s r, rec_enqueue_time_s r, rec_completion_time_s r] in
    [(\<not> list_all isfinite timestamps, ValueError ''timestamps must be finite''),
     (list_ex (\<lambda>t. pf_less t (Fin 0)) timestamps, ValueError ''timestamps must be non-negative''),
     ((case rec_dispatch_time_s r of None \<Rightarrow> False | Some t \<Rightarrow> \<not> isfinite t),
        ValueError ''dispatch_time_s must be finite when present''),
     ((case rec_first_token_time_s r of None \<Rightarrow> False | Some t \<Rightarrow> \<not> isfinite t),
        ValueError ''first_token_time_s must be finite when present'')])"

text \<open>The timeline checks come after the finiteness checks, so they compare finite floats.\<close>

definition timeline_guards :: "RequestRecord \<Rightarrow> (bool \<times> py_error) list" where
  "timeline_guards r =
    [(rec_enqueue_time_s r < rec_arrival_time_s r,
        ValueError ''enqueue_time_s must not precede arrival_time_s'')]
    @ (case rec_dispatch_time_s r of
         None \<Rightarrow>
          [(rec_first_token_time_s r \<noteq> None,
              ValueError ''records without dispatch cannot have first_token_time_s''),
           (rec_status r = SUCCESS, ValueError ''success records require dispatch_time_s''),
           (rec_completion_time_s r < rec_enqueue_time_s r,
              ValueError ''completion_time_s must not precede enqueue_time_s'')]
       | Some d \<Rightarrow>
          [(d < rec_enqueue_time_s r, ValueError ''dispatch_time_s must not precede enqueue_time_s''),
           (rec_completion_time_s r < d,
              ValueError ''completion_time_s must not precede dispatch_time_s'')]
          @ (case rec_first_token_time_s r of
               None \<Rightarrow> []
             | Some f \<Rightarrow>
                [(f < d, ValueError ''first_token_time_s must not precede dispatch_time_s''),
                 (rec_completion_time_s r < f,
                    ValueError ''completion_time_s must not precede first_token_time_s''),
                 (rec_output_tokens r < 1,
                    ValueError ''a first token requires output_tokens to be positive'')]))
    @ [(rec_status r = SUCCESS \<and> rec_dispatch_time_s r = None,
          ValueError ''success records require dispatch_time_s''),
       (rec_status r = SUCCESS \<and> rec_first_token_time_s r = None,
          ValueError ''success records require first_token_time_s''),
       (rec_status r = SUCCESS \<and> rec_output_tokens r < 1,
          ValueError ''success records require output_tokens to be positive'')]"

definition map_times :: "('f \<Rightarrow> 'g) \<Rightarrow> 'f record_of \<Rightarrow> 'g record_of" where
  "map_times f r =
    \<lparr>rec_request_id = rec_request_id r, rec_sequence_id = rec_sequence_id r,
     rec_request_class = rec_request_class r, rec_arrival_time_s = f (rec_arrival_time_s r),
     rec_enqueue_time_s = f (rec_enqueue_time_s r),
     rec_dispatch_time_s = map_option f (rec_dispatch_time_s r),
     rec_first_token_time_s = map_option f (rec_first_token_time_s r),
     rec_completion_time_s = f (rec_completion_time_s r),
     rec_input_tokens = rec_input_tokens r, rec_output_tokens = rec_output_tokens r,
     rec_status = rec_status r, rec_error_type = rec_error_type r,
     rec_policy_name = rec_policy_name r, rec_config_hash = rec_config_hash r,
     rec_repetition_index = rec_repetition_index r, rec_env_version = rec_env_version r,
     rec_requested_output_tokens = rec_requested_output_tokens r,
     rec_backend_max_output_tokens = rec_backend_max_output_tokens r,
     rec_finish_reason = rec_finish_reason r\<rparr>"

definition RequestRecord_init :: "raw_record \<Rightarrow> RequestRecord result" where
  "RequestRecord_init raw =
     and_then (checked (identity_guards raw @ finite_guards raw) ()) (\<lambda>_.
       let r = map_times real_of raw in checked (timeline_guards r) r)"

definition valid_record :: "RequestRecord \<Rightarrow> bool" where
  "valid_record r \<longleftrightarrow> RequestRecord_init (map_times Fin r) = Inr r"

lemma map_times_fields [simp]:
  "rec_request_id (map_times f r) = rec_request_id r" "rec_sequence_id (map_times f r) = rec_sequence_id r"
  "rec_status (map_times f r) = rec_status r" "rec_output_tokens (map_times f r) = rec_output_tokens r"
  "rec_arrival_time_s (map_times f r) = f (rec_arrival_time_s r)"
  "rec_enqueue_time_s (map_times f r) = f (rec_enqueue_time_s r)"
  "rec_completion_time_s (map_times f r) = f (rec_completion_time_s r)"
  "rec_dispatch_time_s (map_times f r) = map_option f (rec_dispatch_time_s r)"
  "rec_first_token_time_s (map_times f r) = map_option f (rec_first_token_time_s r)"
  by (simp_all add: map_times_def)

lemma map_times_Fin [simp]: "map_times real_of (map_times Fin r) = r"
  by (simp add: map_times_def option.map_comp comp_def option.map_ident)

lemma identity_map_times [simp]: "identity_guards (map_times f r) = identity_guards r"
  by (simp add: identity_guards_def map_times_def)

text \<open>What a validated record guarantees about its times.\<close>

lemma valid_record_times:
  assumes "valid_record r"
  shows "0 \<le> rec_arrival_time_s r" and "rec_arrival_time_s r \<le> rec_enqueue_time_s r"
    and "rec_enqueue_time_s r \<le> rec_completion_time_s r"
    and "rec_dispatch_time_s r = Some d \<Longrightarrow> rec_enqueue_time_s r \<le> d \<and> d \<le> rec_completion_time_s r"
    and "rec_first_token_time_s r = Some f \<Longrightarrow> \<exists>d. rec_dispatch_time_s r = Some d \<and> d \<le> f \<and>
      f \<le> rec_completion_time_s r \<and> 1 \<le> rec_output_tokens r"
    and "rec_status r = SUCCESS \<Longrightarrow> (\<exists>f. rec_first_token_time_s r = Some f) \<and> 1 \<le> rec_output_tokens r"
proof -
  have g: "\<forall>g \<in> set (finite_guards (map_times Fin r) @ timeline_guards r). \<not> fst g"
    using assms by (auto simp: valid_record_def RequestRecord_init_def and_then_Inr raise_simps)
  show "0 \<le> rec_arrival_time_s r" "rec_arrival_time_s r \<le> rec_enqueue_time_s r"
    using g by (auto simp: finite_guards_def timeline_guards_def)
  show "rec_enqueue_time_s r \<le> rec_completion_time_s r"
    using g by (cases "rec_dispatch_time_s r") (auto simp: timeline_guards_def)
  show "rec_dispatch_time_s r = Some d \<Longrightarrow> rec_enqueue_time_s r \<le> d \<and> d \<le> rec_completion_time_s r"
    using g by (auto simp: timeline_guards_def)
  show "rec_first_token_time_s r = Some f \<Longrightarrow> \<exists>d. rec_dispatch_time_s r = Some d \<and> d \<le> f \<and>
      f \<le> rec_completion_time_s r \<and> 1 \<le> rec_output_tokens r"
    using g by (cases "rec_dispatch_time_s r") (auto simp: timeline_guards_def)
  show "rec_status r = SUCCESS \<Longrightarrow> (\<exists>f. rec_first_token_time_s r = Some f) \<and> 1 \<le> rec_output_tokens r"
    using g by (auto simp: timeline_guards_def)
qed

definition record_from_envelope ::
    "RequestEnvelope \<Rightarrow> pyfloat \<Rightarrow> pyfloat option \<Rightarrow> pyfloat option \<Rightarrow> pyfloat \<Rightarrow> int \<Rightarrow>
     DispatchStatus \<Rightarrow> string option \<Rightarrow> SchedulerPolicyName \<Rightarrow> string \<Rightarrow> int \<Rightarrow> string \<Rightarrow>
     string option \<Rightarrow> RequestRecord result" where
  "record_from_envelope env enqueue dispatch first_token completion output status error policy
     hash repetition version finish =
   RequestRecord_init
    \<lparr>rec_request_id = request_id env, rec_sequence_id = sequence_id env,
     rec_request_class = request_class env, rec_arrival_time_s = Fin (arrival_time_s env),
     rec_enqueue_time_s = enqueue, rec_dispatch_time_s = dispatch,
     rec_first_token_time_s = first_token, rec_completion_time_s = completion,
     rec_input_tokens = input_tokens env, rec_output_tokens = output,
     rec_status = status, rec_error_type = error, rec_policy_name = policy,
     rec_config_hash = hash, rec_repetition_index = repetition, rec_env_version = version,
     rec_requested_output_tokens = Some (max_output_tokens env),
     rec_backend_max_output_tokens = Some (effective_max_output_tokens env),
     rec_finish_reason = finish\<rparr>"

definition record_clip_applied :: "'f record_of \<Rightarrow> bool option" where
  "record_clip_applied r =
     (case (rec_requested_output_tokens r, rec_backend_max_output_tokens r) of
        (Some n, Some b) \<Rightarrow> Some (b < n) | _ \<Rightarrow> None)"

definition cap_reduction_tokens :: "'f record_of \<Rightarrow> int option" where
  "cap_reduction_tokens r =
     (case (rec_requested_output_tokens r, rec_backend_max_output_tokens r) of
        (Some n, Some b) \<Rightarrow> Some (n - b) | _ \<Rightarrow> None)"

section \<open>Mapping to and from JSON\<close>

definition field_names :: "string list" where
  "field_names = [''request_id'', ''sequence_id'', ''request_class'', ''arrival_time_s'',
     ''enqueue_time_s'', ''dispatch_time_s'', ''first_token_time_s'', ''completion_time_s'',
     ''input_tokens'', ''output_tokens'', ''status'', ''error_type'', ''policy_name'',
     ''config_hash'', ''repetition_index'', ''env_version'', ''requested_output_tokens'',
     ''backend_max_output_tokens'', ''finish_reason'']"

definition optional_added_fields :: "string list" where
  "optional_added_fields =
     [''requested_output_tokens'', ''backend_max_output_tokens'', ''finish_reason'']"

definition legacy_field_names :: "string list" where
  "legacy_field_names = filter (\<lambda>n. n \<notin> set optional_added_fields) field_names"

definition optional_float :: "real option \<Rightarrow> json" where
  "optional_float t = (case t of None \<Rightarrow> JNull | Some x \<Rightarrow> JFloat x)"

definition optional_int :: "int option \<Rightarrow> json" where
  "optional_int n = (case n of None \<Rightarrow> JNull | Some i \<Rightarrow> JInt i)"

definition record_to_mapping :: "RequestRecord \<Rightarrow> (string \<times> json) list" where
  "record_to_mapping r =
    [(''request_id'', JString (rec_request_id r)),
     (''sequence_id'', JInt (rec_sequence_id r)),
     (''request_class'', JString (class_value (rec_request_class r))),
     (''arrival_time_s'', JFloat (rec_arrival_time_s r)),
     (''enqueue_time_s'', JFloat (rec_enqueue_time_s r)),
     (''dispatch_time_s'', optional_float (rec_dispatch_time_s r)),
     (''first_token_time_s'', optional_float (rec_first_token_time_s r)),
     (''completion_time_s'', JFloat (rec_completion_time_s r)),
     (''input_tokens'', JInt (rec_input_tokens r)),
     (''output_tokens'', JInt (rec_output_tokens r)),
     (''status'', JString (status_value (rec_status r))),
     (''error_type'', optional_string (rec_error_type r)),
     (''policy_name'', JString (policy_value (rec_policy_name r))),
     (''config_hash'', JString (rec_config_hash r)),
     (''repetition_index'', JInt (rec_repetition_index r)),
     (''env_version'', JString (rec_env_version r)),
     (''requested_output_tokens'', optional_int (rec_requested_output_tokens r)),
     (''backend_max_output_tokens'', optional_int (rec_backend_max_output_tokens r)),
     (''finish_reason'', optional_string (rec_finish_reason r))]"

text \<open>
  The conversions \<open>str\<close>, \<open>int\<close> and \<open>float\<close> on a value of a row. A CSV row holds strings only;
  \<open>conv\<close> has what Python makes of the text of a number (\<open>int_text\<close>, \<open>float_text\<close>) and how it
  prints other values (\<open>str_of\<close>).
\<close>

record conversions =
  int_text :: "string \<Rightarrow> int option"
  float_text :: "string \<Rightarrow> pyfloat option"
  str_of :: "json \<Rightarrow> string"

fun py_str :: "conversions \<Rightarrow> json \<Rightarrow> string" where
  "py_str conv (JString s) = s"
| "py_str conv v = str_of conv v"

text \<open>\<open>int(x)\<close> truncates a float towards zero.\<close>

fun py_int :: "conversions \<Rightarrow> json \<Rightarrow> int result" where
  "py_int conv (JInt i) = Inr i"
| "py_int conv (JBool b) = Inr (if b then 1 else 0)"
| "py_int conv (JFloat r) = Inr (if 0 \<le> r then \<lfloor>r\<rfloor> else \<lceil>r\<rceil>)"
| "py_int conv (JString s) = (case int_text conv s of
     None \<Rightarrow> Inl (ValueError ''invalid literal for int()'') | Some i \<Rightarrow> Inr i)"
| "py_int conv _ = Inl (ValueError ''int() argument must be a string or a real number'')"

fun py_float :: "conversions \<Rightarrow> json \<Rightarrow> pyfloat result" where
  "py_float conv (JFloat r) = Inr (Fin r)"
| "py_float conv (JInt i) = Inr (Fin (of_int i))"
| "py_float conv (JBool b) = Inr (Fin (if b then 1 else 0))"
| "py_float conv (JString s) = (case float_text conv s of
     None \<Rightarrow> Inl (ValueError ''could not convert string to float'') | Some x \<Rightarrow> Inr x)"
| "py_float conv _ = Inl (ValueError ''float() argument must be a string or a real number'')"

definition unset :: "json \<Rightarrow> bool" where
  "unset v \<longleftrightarrow> v = JNull \<or> v = JString []"

definition optional :: "(json \<Rightarrow> 'a result) \<Rightarrow> json \<Rightarrow> 'a option result" where
  "optional f v = (if unset v then Inr None else and_then (f v) (\<lambda>x. Inr (Some x)))"

text \<open>An enumeration is looked up by value; a value that is not a string is no member.\<close>

fun enum_of :: "(string \<Rightarrow> 'a result) \<Rightarrow> json \<Rightarrow> 'a result" where
  "enum_of f (JString s) = f s"
| "enum_of f _ = Inl (ValueError ''not a valid enumeration value'')"

definition record_from_mapping :: "conversions \<Rightarrow> (string \<times> json) list \<Rightarrow> RequestRecord result" where
  "record_from_mapping conv d =
    (if set (map fst d) \<notin> {set field_names, set legacy_field_names}
     then Inl (ValueError ''request record fields differ'')
     else
       and_then (py_int conv (json_get d ''sequence_id'')) (\<lambda>seq.
       and_then (enum_of class_of_value (json_get d ''request_class'')) (\<lambda>cls.
       and_then (py_float conv (json_get d ''arrival_time_s'')) (\<lambda>arrival.
       and_then (py_float conv (json_get d ''enqueue_time_s'')) (\<lambda>enqueue.
       and_then (optional (py_float conv) (json_get d ''dispatch_time_s'')) (\<lambda>dispatch.
       and_then (optional (py_float conv) (json_get d ''first_token_time_s'')) (\<lambda>first_token.
       and_then (py_float conv (json_get d ''completion_time_s'')) (\<lambda>completion.
       and_then (py_int conv (json_get d ''input_tokens'')) (\<lambda>inp.
       and_then (py_int conv (json_get d ''output_tokens'')) (\<lambda>outp.
       and_then (enum_of status_of_value (json_get d ''status'')) (\<lambda>status.
       and_then (enum_of policy_of_value (json_get d ''policy_name'')) (\<lambda>policy.
       and_then (py_int conv (json_get d ''repetition_index'')) (\<lambda>rep.
       and_then (optional (py_int conv) (json_get d ''requested_output_tokens'')) (\<lambda>requested.
       and_then (optional (py_int conv) (json_get d ''backend_max_output_tokens'')) (\<lambda>backend.
       RequestRecord_init
        \<lparr>rec_request_id = py_str conv (json_get d ''request_id''), rec_sequence_id = seq,
         rec_request_class = cls, rec_arrival_time_s = arrival, rec_enqueue_time_s = enqueue,
         rec_dispatch_time_s = dispatch, rec_first_token_time_s = first_token,
         rec_completion_time_s = completion, rec_input_tokens = inp, rec_output_tokens = outp,
         rec_status = status,
         rec_error_type = (let v = json_get d ''error_type'' in
           if unset v then None else Some (py_str conv v)),
         rec_policy_name = policy, rec_config_hash = py_str conv (json_get d ''config_hash''),
         rec_repetition_index = rep, rec_env_version = py_str conv (json_get d ''env_version''),
         rec_requested_output_tokens = requested, rec_backend_max_output_tokens = backend,
         rec_finish_reason = (let v = json_get d ''finish_reason'' in
           if unset v then None else Some (py_str conv v))\<rparr>)))))))))))))))"

text \<open>\<open>value[key]\<close> of a JSON value.\<close>

definition json_item :: "json \<Rightarrow> string \<Rightarrow> json result" where
  "json_item v key =
    (case v of
       JObject d \<Rightarrow> (case map_of d key of None \<Rightarrow> Inl (KeyError key) | Some x \<Rightarrow> Inr x)
     | _ \<Rightarrow> Inl (TypeError ''not a mapping''))"

text \<open>Whether a JSON value is true in a condition.\<close>

fun json_truth :: "json \<Rightarrow> bool" where
  "json_truth JNull = False"
| "json_truth (JBool b) = b"
| "json_truth (JInt i) = (i \<noteq> 0)"
| "json_truth (JFloat x) = (x \<noteq> 0)"
| "json_truth (JString s) = (s \<noteq> [])"
| "json_truth (JArray vs) = (vs \<noteq> [])"
| "json_truth (JObject d) = (d \<noteq> [])"

text \<open>
  What one line of a JSONL file is to its reader: blank (\<open>line.strip()\<close> is empty), a text
  \<open>json.loads\<close> rejects, or the text of a value. The first bad line aborts the read.
\<close>

datatype jsonl_line = BlankLine | NotJson | JsonLine json

definition record_of_line :: "conversions \<Rightarrow> json \<Rightarrow> RequestRecord result" where
  "record_of_line conv v =
     (case v of JObject d \<Rightarrow> record_from_mapping conv d
      | _ \<Rightarrow> Inl (ValueError ''record must be a JSON object''))"

fun read_request_records_jsonl :: "conversions \<Rightarrow> jsonl_line list \<Rightarrow> RequestRecord list result" where
  "read_request_records_jsonl conv [] = Inr []"
| "read_request_records_jsonl conv (BlankLine # ls) = Inl (ValueError ''blank JSONL line'')"
| "read_request_records_jsonl conv (NotJson # ls) =
     Inl (ValueError ''invalid request record at JSONL line'')"
| "read_request_records_jsonl conv (JsonLine v # ls) =
     (case record_of_line conv v of
        Inl e \<Rightarrow> Inl (ValueError ''invalid request record at JSONL line'')
      | Inr r \<Rightarrow> and_then (read_request_records_jsonl conv ls) (\<lambda>rs. Inr (r # rs)))"

definition write_request_records_jsonl :: "RequestRecord list \<Rightarrow> jsonl_line list" where
  "write_request_records_jsonl rs = map (\<lambda>r. JsonLine (JObject (record_to_mapping r))) rs"

text \<open>
  The CSV form. \<open>csv.DictReader\<close> skips empty rows, gives \<open>None\<close> to the fields a short row lacks
  and collects the surplus of a long row under the key \<open>None\<close>, which is no field name.
\<close>

definition csv_row :: "string list \<Rightarrow> string list \<Rightarrow> (string \<times> json) list result" where
  "csv_row header cells =
     (if length header < length cells then Inl (ValueError ''request record fields differ'')
      else Inr (zip header (map JString cells @ replicate (length header - length cells) JNull)))"

definition read_request_records_csv ::
    "conversions \<Rightarrow> string list \<Rightarrow> string list list \<Rightarrow> RequestRecord list result" where
  "read_request_records_csv conv header rows =
     (if header \<noteq> field_names \<and> header \<noteq> legacy_field_names
      then Inl (ValueError ''CSV header does not match the request record schema'')
      else (case map_result (\<lambda>cells. and_then (csv_row header cells) (record_from_mapping conv))
                   (filter (\<lambda>cells. cells \<noteq> []) rows) of
              Inl e \<Rightarrow> Inl (ValueError ''invalid request record in CSV'')
            | Inr rs \<Rightarrow> Inr rs))"

text \<open>\<open>csv\<close> writes \<open>None\<close> as an empty cell and any other value as \<open>str\<close> gives it.\<close>

definition csv_cell :: "conversions \<Rightarrow> json \<Rightarrow> string" where
  "csv_cell conv v = (if v = JNull then [] else py_str conv v)"

definition write_request_records_csv ::
    "conversions \<Rightarrow> RequestRecord list \<Rightarrow> string list \<times> string list list" where
  "write_request_records_csv conv rs =
     (field_names, map (\<lambda>r. map (\<lambda>n. csv_cell conv (json_get (record_to_mapping r) n)) field_names) rs)"

section \<open>Round trip\<close>

lemma optional_conversions [simp]:
  "optional (py_float conv) (optional_float t) = Inr (map_option Fin t)"
  "optional (py_int conv) (optional_int n) = Inr n"
  by (cases t; simp add: optional_def optional_float_def unset_def)
     (cases n; simp add: optional_def optional_int_def unset_def)

lemma optional_string_back:
  "v \<noteq> Some [] \<Longrightarrow> (if unset (optional_string v) then None else Some (py_str conv (optional_string v))) = v"
  by (cases v) (auto simp: optional_string_def unset_def)

lemma record_get:
  "json_get (record_to_mapping r) ''request_id'' = JString (rec_request_id r)"
  "json_get (record_to_mapping r) ''sequence_id'' = JInt (rec_sequence_id r)"
  "json_get (record_to_mapping r) ''request_class'' = JString (class_value (rec_request_class r))"
  "json_get (record_to_mapping r) ''arrival_time_s'' = JFloat (rec_arrival_time_s r)"
  "json_get (record_to_mapping r) ''enqueue_time_s'' = JFloat (rec_enqueue_time_s r)"
  "json_get (record_to_mapping r) ''dispatch_time_s'' = optional_float (rec_dispatch_time_s r)"
  "json_get (record_to_mapping r) ''first_token_time_s'' = optional_float (rec_first_token_time_s r)"
  "json_get (record_to_mapping r) ''completion_time_s'' = JFloat (rec_completion_time_s r)"
  "json_get (record_to_mapping r) ''input_tokens'' = JInt (rec_input_tokens r)"
  "json_get (record_to_mapping r) ''output_tokens'' = JInt (rec_output_tokens r)"
  "json_get (record_to_mapping r) ''status'' = JString (status_value (rec_status r))"
  "json_get (record_to_mapping r) ''error_type'' = optional_string (rec_error_type r)"
  "json_get (record_to_mapping r) ''policy_name'' = JString (policy_value (rec_policy_name r))"
  "json_get (record_to_mapping r) ''config_hash'' = JString (rec_config_hash r)"
  "json_get (record_to_mapping r) ''repetition_index'' = JInt (rec_repetition_index r)"
  "json_get (record_to_mapping r) ''env_version'' = JString (rec_env_version r)"
  "json_get (record_to_mapping r) ''requested_output_tokens'' = optional_int (rec_requested_output_tokens r)"
  "json_get (record_to_mapping r) ''backend_max_output_tokens'' = optional_int (rec_backend_max_output_tokens r)"
  "json_get (record_to_mapping r) ''finish_reason'' = optional_string (rec_finish_reason r)"
  by (simp_all add: json_get_def record_to_mapping_def)

lemma record_mapping_fields: "map fst (record_to_mapping r) = field_names"
  by (simp add: record_to_mapping_def field_names_def)

lemma valid_record_strings:
  assumes "valid_record r"
  shows "rec_error_type r \<noteq> Some []" and "rec_finish_reason r \<noteq> Some []"
proof -
  have "\<forall>g \<in> set (identity_guards r). \<not> fst g"
    using assms by (auto simp: valid_record_def RequestRecord_init_def and_then_Inr raise_simps)
  then show "rec_error_type r \<noteq> Some []" "rec_finish_reason r \<noteq> Some []"
    by (auto simp: identity_guards_def)
qed

lemma mapping_roundtrip:
  assumes "valid_record r"
  shows "record_from_mapping conv (record_to_mapping r) = Inr r"
proof -
  note s = valid_record_strings [OF assms]
  have "record_from_mapping conv (record_to_mapping r) = RequestRecord_init (map_times Fin r)"
    by (simp add: record_from_mapping_def record_mapping_fields record_get Let_def
        optional_string_back [OF s(1)] optional_string_back [OF s(2)] map_times_def)
  then show ?thesis using assms by (simp add: valid_record_def)
qed

lemma read_written_records:
  assumes "\<forall>r \<in> set rs. valid_record r"
  shows "read_request_records_jsonl conv (write_request_records_jsonl rs) = Inr rs"
  using assms
  by (induction rs)
    (simp_all add: write_request_records_jsonl_def record_of_line_def mapping_roundtrip)

text \<open>
  C21. Records survive their file: writing validated records as JSON lines and reading the lines
  back gives the same records in the same order, whatever the text conversions do, since no
  number of a written line is in quotes.
\<close>

theorem jsonl_roundtrip:
  assumes "\<forall>r \<in> set rs. valid_record r"
  shows "read_request_records_jsonl conv (write_request_records_jsonl rs) = Inr rs"
  by (rule read_written_records [OF assms])

definition sample_record :: "nat \<Rightarrow> DispatchStatus \<Rightarrow> RequestRecord" where
  "sample_record n status =
    \<lparr>rec_request_id = ''r'', rec_sequence_id = int n, rec_request_class = BATCH,
     rec_arrival_time_s = real n, rec_enqueue_time_s = real n, rec_dispatch_time_s = Some (real n + 1),
     rec_first_token_time_s = Some (real n + 2), rec_completion_time_s = real n + 4,
     rec_input_tokens = 1, rec_output_tokens = 3, rec_status = status, rec_error_type = None,
     rec_policy_name = FCFS, rec_config_hash = replicate 64 CHR ''a'', rec_repetition_index = 0,
     rec_env_version = ''v'', rec_requested_output_tokens = Some 4,
     rec_backend_max_output_tokens = Some 3, rec_finish_reason = Some ''length''\<rparr>"

lemma sample_record_valid: "valid_record (sample_record n status)"
proof -
  have "is_sha256 (replicate 64 CHR ''a'')" by (simp add: is_sha256_def list_all_iff)
  then show ?thesis
    by (simp add: valid_record_def RequestRecord_init_def checked_def raise_if.simps Let_def
        identity_guards_def finite_guards_def timeline_guards_def sample_record_def map_times_def)
qed

theorem jsonl_roundtrip_witness:
  "read_request_records_jsonl \<lparr>int_text = \<lambda>s. None, float_text = \<lambda>s. None, str_of = \<lambda>v. []\<rparr>
     (write_request_records_jsonl [sample_record 0 SUCCESS, sample_record 1 ERROR])
   = Inr [sample_record 0 SUCCESS, sample_record 1 ERROR]"
  by (rule jsonl_roundtrip) (simp add: sample_record_valid)

text \<open>
  The CSV file loses nothing either, provided Python reads back the numbers it prints: the
  hypotheses are the documented round trips of \<open>str\<close> with \<open>int\<close> and \<open>float\<close>.
\<close>

definition prints_back :: "conversions \<Rightarrow> RequestRecord \<Rightarrow> bool" where
  "prints_back conv r \<longleftrightarrow>
     (\<forall>v \<in> set (map snd (record_to_mapping r)).
        (\<forall>i. v = JInt i \<longrightarrow> int_text conv (str_of conv v) = Some i \<and> str_of conv v \<noteq> []) \<and>
        (\<forall>x. v = JFloat x \<longrightarrow> float_text conv (str_of conv v) = Some (Fin x) \<and> str_of conv v \<noteq> []))"

lemma csv_row_get:
  "distinct header \<Longrightarrow> n \<in> set header \<Longrightarrow>
   json_get (zip header (map JString (map f header))) n = JString (f n)"
  by (induction header) (auto simp: json_get_def)

lemma field_names_distinct: "distinct field_names"
  by (simp add: field_names_def)

lemma csv_row_full:
  "csv_row field_names (map f field_names) = Inr (zip field_names (map JString (map f field_names)))"
  by (simp add: csv_row_def)

lemma csv_optional_cells:
  assumes "prints_back conv r"
  shows "rec_dispatch_time_s r = t \<Longrightarrow>
      optional (py_float conv) (JString (csv_cell conv (optional_float t))) = Inr (map_option Fin t)"
    and "rec_first_token_time_s r = t \<Longrightarrow>
      optional (py_float conv) (JString (csv_cell conv (optional_float t))) = Inr (map_option Fin t)"
    and "rec_requested_output_tokens r = n \<Longrightarrow>
      optional (py_int conv) (JString (csv_cell conv (optional_int n))) = Inr n"
    and "rec_backend_max_output_tokens r = n \<Longrightarrow>
      optional (py_int conv) (JString (csv_cell conv (optional_int n))) = Inr n"
  using assms
  by (cases t; cases n; auto simp: prints_back_def record_to_mapping_def optional_def unset_def
      csv_cell_def optional_float_def optional_int_def)+

lemma csv_string_cells:
  "csv_cell conv (JString s) = s"
  "v \<noteq> Some [] \<Longrightarrow> (if unset (JString (csv_cell conv (optional_string v))) then None
     else Some (csv_cell conv (optional_string v))) = v"
  by (simp add: csv_cell_def)
     (cases v; auto simp: csv_cell_def optional_string_def unset_def)

lemma csv_number_cells:
  assumes "prints_back conv r"
  shows "v \<in> set (map snd (record_to_mapping r)) \<Longrightarrow> v = JInt i \<Longrightarrow>
      py_int conv (JString (csv_cell conv v)) = Inr i"
    and "v \<in> set (map snd (record_to_mapping r)) \<Longrightarrow> v = JFloat x \<Longrightarrow>
      py_float conv (JString (csv_cell conv v)) = Inr (Fin x)"
  using assms by (auto simp: prints_back_def csv_cell_def)

lemma csv_mapping_roundtrip:
  assumes "valid_record r" and "prints_back conv r" and "set (map fst d) = set field_names"
    and "\<forall>n \<in> set field_names. json_get d n = JString (csv_cell conv (json_get (record_to_mapping r) n))"
  shows "record_from_mapping conv d = Inr r"
proof -
  note s = valid_record_strings [OF assms(1)]
  have get: "json_get d ''request_id'' = JString (rec_request_id r)"
    "json_get d ''sequence_id'' = JString (csv_cell conv (JInt (rec_sequence_id r)))"
    "json_get d ''request_class'' = JString (class_value (rec_request_class r))"
    "json_get d ''arrival_time_s'' = JString (csv_cell conv (JFloat (rec_arrival_time_s r)))"
    "json_get d ''enqueue_time_s'' = JString (csv_cell conv (JFloat (rec_enqueue_time_s r)))"
    "json_get d ''dispatch_time_s'' = JString (csv_cell conv (optional_float (rec_dispatch_time_s r)))"
    "json_get d ''first_token_time_s'' = JString (csv_cell conv (optional_float (rec_first_token_time_s r)))"
    "json_get d ''completion_time_s'' = JString (csv_cell conv (JFloat (rec_completion_time_s r)))"
    "json_get d ''input_tokens'' = JString (csv_cell conv (JInt (rec_input_tokens r)))"
    "json_get d ''output_tokens'' = JString (csv_cell conv (JInt (rec_output_tokens r)))"
    "json_get d ''status'' = JString (status_value (rec_status r))"
    "json_get d ''error_type'' = JString (csv_cell conv (optional_string (rec_error_type r)))"
    "json_get d ''policy_name'' = JString (policy_value (rec_policy_name r))"
    "json_get d ''config_hash'' = JString (rec_config_hash r)"
    "json_get d ''repetition_index'' = JString (csv_cell conv (JInt (rec_repetition_index r)))"
    "json_get d ''env_version'' = JString (rec_env_version r)"
    "json_get d ''requested_output_tokens'' = JString (csv_cell conv (optional_int (rec_requested_output_tokens r)))"
    "json_get d ''backend_max_output_tokens'' = JString (csv_cell conv (optional_int (rec_backend_max_output_tokens r)))"
    "json_get d ''finish_reason'' = JString (csv_cell conv (optional_string (rec_finish_reason r)))"
    using assms(4) by (simp_all only: field_names_def list.set ball_simps record_get csv_string_cells(1))
  note num = csv_number_cells [OF assms(2)]
  have ints: "py_int conv (JString (csv_cell conv (JInt (rec_sequence_id r)))) = Inr (rec_sequence_id r)"
    "py_int conv (JString (csv_cell conv (JInt (rec_input_tokens r)))) = Inr (rec_input_tokens r)"
    "py_int conv (JString (csv_cell conv (JInt (rec_output_tokens r)))) = Inr (rec_output_tokens r)"
    "py_int conv (JString (csv_cell conv (JInt (rec_repetition_index r)))) = Inr (rec_repetition_index r)"
    by (intro num(1) [OF _ refl]; simp add: record_to_mapping_def)+
  have floats: "py_float conv (JString (csv_cell conv (JFloat (rec_arrival_time_s r)))) = Inr (Fin (rec_arrival_time_s r))"
    "py_float conv (JString (csv_cell conv (JFloat (rec_enqueue_time_s r)))) = Inr (Fin (rec_enqueue_time_s r))"
    "py_float conv (JString (csv_cell conv (JFloat (rec_completion_time_s r)))) = Inr (Fin (rec_completion_time_s r))"
    by (intro num(2) [OF _ refl]; simp add: record_to_mapping_def)+
  have fields: "\<not> set (map fst d) \<notin> {set field_names, set legacy_field_names}"
    using assms(3) by simp
  have "record_from_mapping conv d = RequestRecord_init (map_times Fin r)"
    by (simp only: record_from_mapping_def if_not_P [OF fields] get ints floats and_then.simps
        enum_of.simps class_of_value_value status_of_value_value policy_of_value_value
        csv_optional_cells [OF assms(2) refl] csv_string_cells(2) [OF s(1)] csv_string_cells(2) [OF s(2)]
        py_str.simps Let_def map_times_def)
  then show ?thesis using assms(1) by (simp only: valid_record_def)
qed

lemma csv_row_roundtrip:
  assumes "valid_record r" and "prints_back conv r"
  shows "and_then (csv_row field_names
      (map (\<lambda>n. csv_cell conv (json_get (record_to_mapping r) n)) field_names))
      (record_from_mapping conv) = Inr r"
  unfolding csv_row_full and_then.simps
proof (rule csv_mapping_roundtrip [OF assms], simp_all only: map_fst_zip length_map)
  show "\<forall>n \<in> set field_names. json_get (zip field_names (map JString
      (map (\<lambda>n. csv_cell conv (json_get (record_to_mapping r) n)) field_names))) n =
      JString (csv_cell conv (json_get (record_to_mapping r) n))"
    using csv_row_get [OF field_names_distinct] by blast
qed

lemma csv_roundtrip:
  assumes "\<forall>r \<in> set rs. valid_record r \<and> prints_back conv r"
  shows "read_request_records_csv conv (fst (write_request_records_csv conv rs))
    (snd (write_request_records_csv conv rs)) = Inr rs"
proof -
  let ?row = "\<lambda>r. map (\<lambda>n. csv_cell conv (json_get (record_to_mapping r) n)) field_names"
  have ne: "filter (\<lambda>cells. cells \<noteq> []) (map ?row rs) = map ?row rs"
    by (induction rs) (simp_all add: field_names_def)
  have "map_result (\<lambda>cells. and_then (csv_row field_names cells) (record_from_mapping conv)) (map ?row rs)
      = Inr rs"
    using assms
  proof (induction rs)
    case (Cons r rs)
    then have r: "valid_record r" "prints_back conv r"
      and rs: "map_result (\<lambda>cells. and_then (csv_row field_names cells) (record_from_mapping conv))
        (map ?row rs) = Inr rs" by simp_all
    show ?case by (simp only: list.map map_result.simps csv_row_roundtrip [OF r] rs and_then.simps)
  qed simp
  then show ?thesis
    by (simp only: read_request_records_csv_def write_request_records_csv_def fst_conv snd_conv ne) simp
qed

section \<open>Paths\<close>

text \<open>
  \<open>write_request_records\<close>: a path is written for each enabled format; \<open>Path(stem).name\<close> is the
  stem itself unless it holds a separator or is a dot.
\<close>

definition write_request_records :: "MetricsConfig \<Rightarrow> string \<Rightarrow> (string option \<times> string option) result" where
  "write_request_records c stem =
     (if stem = [] \<or> stem = ''.'' \<or> CHR ''/'' \<in> set stem
      then Inl (ValueError ''file_stem must be a non-empty filename stem'')
      else Inr (if save_jsonl c then Some (output_directory c @ ''/'' @ stem @ ''.jsonl'') else None,
                if save_csv c then Some (output_directory c @ ''/'' @ stem @ ''.csv'') else None))"

end
