(* ===== verification/MetricsCalc.thy ===== *)
theory MetricsCalc
  imports Records
begin

text \<open>
  The offline metrics (src/sloserve/analysis/metrics.py): counts, latency populations, nearest
  rank percentiles, SLO attainment by class, the attainment gap and Jain's fairness index.
\<close>

section \<open>Populations\<close>

record Percentiles =
  p50 :: "real option"
  p95 :: "real option"
  p99 :: "real option"

record AttainmentSummary =
  att_request_count :: nat
  att_met_count :: nat
  att_rate :: real

record MetricsSummary =
  ms_request_count :: nat
  ms_success_count :: nat
  ms_error_count :: nat
  ms_timeout_count :: nat
  ms_cancelled_count :: nat
  ms_rejected_count :: nat
  ms_success_output_tokens :: int
  ms_wall_clock_window_s :: "real option"
  ms_token_throughput_per_s :: "real option"
  ms_ttft_s :: Percentiles
  ms_tpot_s :: Percentiles
  ms_end_to_end_s :: Percentiles
  ms_queue_wait_s :: Percentiles
  ms_queue_wait_mean_s :: "real option"
  ms_longest_queue_wait_s :: "real option"
  ms_clip_applied_count :: nat
  ms_clip_applied_rate :: "real option"
  ms_realized_truncation_count :: nat
  ms_realized_truncation_rate :: "real option"
  ms_mean_cap_reduction_tokens :: "real option"
  ms_slo_overall :: AttainmentSummary
  ms_slo_by_class :: "(RequestClass \<times> AttainmentSummary) list"
  ms_slo_attainment_gap :: real
  ms_jain_fairness_index :: real

definition percentiles :: "real list \<Rightarrow> Percentiles" where
  "percentiles values =
    (let s = sort values in
     \<lparr>p50 = nearest_rank s (1/2), p95 = nearest_rank s (95/100), p99 = nearest_rank s (99/100)\<rparr>)"

definition meets_slo :: "WorkloadConfig \<Rightarrow> RequestRecord \<Rightarrow> bool" where
  "meets_slo c r =
    (if rec_status r \<noteq> SUCCESS then False
     else case rec_first_token_time_s r of
       None \<Rightarrow> False
     | Some first_token \<Rightarrow>
        (let profile = profile_for_class c (rec_request_class r);
             ttft = first_token - rec_arrival_time_s r;
             end_to_end = rec_completion_time_s r - rec_arrival_time_s r in
         ttft \<le> ttft_slo_ms profile / 1000 \<and> end_to_end \<le> end_to_end_slo_ms profile / 1000))"

definition attainment :: "WorkloadConfig \<Rightarrow> RequestRecord list \<Rightarrow> AttainmentSummary" where
  "attainment c rs =
    (let met = length (filter (meets_slo c) rs); n = length rs in
     \<lparr>att_request_count = n, att_met_count = met,
      att_rate = (if n \<noteq> 0 then real met / real n else 0)\<rparr>)"

definition status_count :: "DispatchStatus \<Rightarrow> RequestRecord list \<Rightarrow> nat" where
  "status_count st rs = length (filter (\<lambda>r. rec_status r = st) rs)"

text \<open>The list comprehensions over the records.\<close>

definition successes :: "RequestRecord list \<Rightarrow> RequestRecord list" where
  "successes rs = filter (\<lambda>r. rec_status r = SUCCESS) rs"

definition ttft_values :: "RequestRecord list \<Rightarrow> real list" where
  "ttft_values rs = List.map_filter
     (\<lambda>r. map_option (\<lambda>f. f - rec_arrival_time_s r) (rec_first_token_time_s r)) rs"

definition tpot_values :: "RequestRecord list \<Rightarrow> real list" where
  "tpot_values rs = List.map_filter
     (\<lambda>r. case rec_first_token_time_s r of
            None \<Rightarrow> None
          | Some f \<Rightarrow> if rec_output_tokens r \<ge> 2
              then Some ((rec_completion_time_s r - f) / of_int (rec_output_tokens r - 1)) else None) rs"

definition end_to_end_values :: "RequestRecord list \<Rightarrow> real list" where
  "end_to_end_values rs = map (\<lambda>r. rec_completion_time_s r - rec_arrival_time_s r) rs"

definition queue_wait_values :: "RequestRecord list \<Rightarrow> real list" where
  "queue_wait_values rs = List.map_filter
     (\<lambda>r. map_option (\<lambda>d. d - rec_arrival_time_s r) (rec_dispatch_time_s r)) rs"

definition clipping_instrumented :: "RequestRecord list \<Rightarrow> RequestRecord list" where
  "clipping_instrumented rs = filter (\<lambda>r. record_clip_applied r \<noteq> None) rs"

definition clipped_records :: "RequestRecord list \<Rightarrow> RequestRecord list" where
  "clipped_records rs = filter (\<lambda>r. record_clip_applied r = Some True) (clipping_instrumented rs)"

definition realized_truncations :: "RequestRecord list \<Rightarrow> RequestRecord list" where
  "realized_truncations rs = filter (\<lambda>r. rec_finish_reason r = Some ''length'') (clipped_records rs)"

definition cap_reductions :: "RequestRecord list \<Rightarrow> int list" where
  "cap_reductions rs = List.map_filter cap_reduction_tokens (clipped_records rs)"

definition mean_or_none :: "real list \<Rightarrow> real option" where
  "mean_or_none vs = (if vs \<noteq> [] then Some (sum_list vs / real (length vs)) else None)"

definition rate_or_none :: "nat \<Rightarrow> nat \<Rightarrow> real option" where
  "rate_or_none k n = (if n \<noteq> 0 then Some (real k / real n) else None)"

section \<open>Fairness\<close>

text \<open>Classes in the order of the enumeration, those that occur.\<close>

definition slo_by_class :: "WorkloadConfig \<Rightarrow> RequestRecord list \<Rightarrow> (RequestClass \<times> AttainmentSummary) list"
where
  "slo_by_class c rs =
     map (\<lambda>k. (k, attainment c (filter (\<lambda>r. rec_request_class r = k) rs)))
       (filter (\<lambda>k. list_ex (\<lambda>r. rec_request_class r = k) rs) [INTERACTIVE, BATCH])"

definition jain_index :: "real list \<Rightarrow> real" where
  "jain_index rates =
    (let rate_sum = sum_list rates; squared_rate_sum = sum_list (map (\<lambda>r. r * r) rates) in
     if squared_rate_sum > 0
     then rate_sum * rate_sum / (real (length rates) * squared_rate_sum) else 1)"

definition attainment_gap :: "real list \<Rightarrow> real" where
  "attainment_gap rates = (if rates \<noteq> [] then Max (set rates) - Min (set rates) else 0)"

section \<open>The summary\<close>

definition calculate_metrics :: "WorkloadConfig \<Rightarrow> RequestRecord list \<Rightarrow> MetricsSummary result" where
  "calculate_metrics c rs =
    (let ok = successes rs;
         errors = status_count ERROR rs; timeouts = status_count TIMEOUT rs;
         cancelled = status_count CANCELLED rs; rejected = status_count REJECTED rs in
     if length ok + errors + timeouts + cancelled + rejected \<noteq> length rs
     then Inl (ValueError ''every request must have a supported terminal status'')
     else
      (let tokens = sum_list (map rec_output_tokens ok);
           window = (if rs \<noteq> []
             then Some (Max (set (map rec_completion_time_s rs)) - Min (set (map rec_arrival_time_s rs)))
             else None);
           throughput = (case window of None \<Rightarrow> None
             | Some w \<Rightarrow> if w > 0 then Some (of_int tokens / w) else None);
           waits = queue_wait_values ok; all_waits = queue_wait_values rs;
           instrumented = clipping_instrumented rs; clipped = clipped_records rs;
           by_class = slo_by_class c rs; rates = map (\<lambda>(k, a). att_rate a) by_class in
       Inr \<lparr>ms_request_count = length rs, ms_success_count = length ok, ms_error_count = errors,
         ms_timeout_count = timeouts, ms_cancelled_count = cancelled, ms_rejected_count = rejected,
         ms_success_output_tokens = tokens, ms_wall_clock_window_s = window,
         ms_token_throughput_per_s = throughput,
         ms_ttft_s = percentiles (ttft_values ok), ms_tpot_s = percentiles (tpot_values ok),
         ms_end_to_end_s = percentiles (end_to_end_values ok),
         ms_queue_wait_s = percentiles waits, ms_queue_wait_mean_s = mean_or_none waits,
         ms_longest_queue_wait_s = (if all_waits \<noteq> [] then Some (Max (set all_waits)) else None),
         ms_clip_applied_count = length clipped,
         ms_clip_applied_rate = rate_or_none (length clipped) (length instrumented),
         ms_realized_truncation_count = length (realized_truncations rs),
         ms_realized_truncation_rate =
           rate_or_none (length (realized_truncations rs)) (length instrumented),
         ms_mean_cap_reduction_tokens = mean_or_none (map of_int (cap_reductions rs)),
         ms_slo_overall = attainment c rs, ms_slo_by_class = by_class,
         ms_slo_attainment_gap = attainment_gap rates, ms_jain_fairness_index = jain_index rates\<rparr>))"

section \<open>Properties\<close>

lemma map_filter_mem: "v \<in> set (List.map_filter f xs) \<longleftrightarrow> (\<exists>x \<in> set xs. f x = Some v)"
  by (force simp: List.map_filter_def)

lemma status_total: "length rs = status_count SUCCESS rs + status_count ERROR rs
    + status_count TIMEOUT rs + status_count CANCELLED rs + status_count REJECTED rs"
proof (induction rs)
  case (Cons r rs)
  then show ?case by (cases "rec_status r") (simp_all add: status_count_def)
qed (simp add: status_count_def)

text \<open>Jain's index of non-negative rates lies between \<open>1/n\<close> and 1 (Cauchy-Schwarz).\<close>

lemma sum_list_squares_nonneg: "0 \<le> sum_list (map (\<lambda>r. r * r) rates)" for rates :: "real list"
  by (induction rates) auto

lemma sum_squared_le: "(sum_list rates)\<^sup>2 \<le> real (length rates) * sum_list (map (\<lambda>r. r * r) rates)"
  for rates :: "real list"
proof (induction rates)
  case (Cons a rates)
  let ?s = "sum_list rates" and ?q = "sum_list (map (\<lambda>r. r * r) rates)" and ?n = "real (length rates)"
  have amgm: "2 * a * ?s \<le> ?n * a\<^sup>2 + ?q"
  proof (cases "rates = []")
    case False
    then have n: "0 < ?n" by simp
    have "0 \<le> (?n * a - ?s)\<^sup>2" by simp
    then have "2 * a * ?s * ?n \<le> ?n\<^sup>2 * a\<^sup>2 + ?s\<^sup>2"
      by (simp add: power2_diff power_mult_distrib algebra_simps)
    also have "\<dots> \<le> ?n\<^sup>2 * a\<^sup>2 + ?n * ?q" using Cons by simp
    finally have "(2 * a * ?s) * ?n \<le> (?n * a\<^sup>2 + ?q) * ?n"
      by (simp add: algebra_simps power2_eq_square)
    with n show ?thesis by (simp add: mult_le_cancel_right)
  qed simp
  have "(a + ?s)\<^sup>2 = a\<^sup>2 + 2 * a * ?s + ?s\<^sup>2" by (simp add: power2_sum)
  also have "\<dots> \<le> a\<^sup>2 + (?n * a\<^sup>2 + ?q) + ?n * ?q" using amgm Cons by simp
  also have "\<dots> = (1 + ?n) * (a\<^sup>2 + ?q)" by (simp add: algebra_simps)
  finally show ?case by (simp add: power2_eq_square add.commute)
qed simp

lemma squares_le_sum_squared:
  "(\<And>r. r \<in> set rates \<Longrightarrow> 0 \<le> r) \<Longrightarrow> sum_list (map (\<lambda>r. r * r) rates) \<le> (sum_list rates)\<^sup>2"
  for rates :: "real list"
proof (induction rates)
  case (Cons a rates)
  have "0 \<le> a" "0 \<le> sum_list rates" using Cons.prems by (auto intro: sum_list_nonneg)
  then have "0 \<le> 2 * a * sum_list rates" by simp
  with Cons.IH Cons.prems show ?case by (simp add: power2_sum) (simp add: power2_eq_square)
qed simp

lemma jain_bounds:
  assumes "\<And>r. r \<in> set rates \<Longrightarrow> 0 \<le> r" and "rates \<noteq> []"
  shows "1 / real (length rates) \<le> jain_index rates" and "jain_index rates \<le> 1"
proof -
  let ?s = "sum_list rates" and ?q = "sum_list (map (\<lambda>r. r * r) rates)" and ?n = "real (length rates)"
  have n: "1 \<le> ?n" using assms(2) by (cases rates) auto
  have le: "?s * ?s \<le> ?n * ?q" using sum_squared_le [of rates] by (simp add: power2_eq_square)
  have ge: "?q \<le> ?s * ?s" using squares_le_sum_squared [OF assms(1)] by (simp add: power2_eq_square)
  show "jain_index rates \<le> 1"
  proof (cases "0 < ?q")
    case True
    have pos: "0 < ?n" using n by linarith
    from mult_pos_pos [OF pos True] show ?thesis using le True by (simp add: jain_index_def Let_def)
  qed (simp add: jain_index_def Let_def)
  show "1 / ?n \<le> jain_index rates"
    using ge n by (auto simp: jain_index_def Let_def divide_simps)
qed

lemma attainment_rate: "0 \<le> att_rate (attainment c rs) \<and> att_rate (attainment c rs) \<le> 1"
  using length_filter_le [of "meets_slo c" rs] by (simp add: attainment_def Let_def divide_le_eq)

lemma slo_by_class_length: "length (slo_by_class c rs) \<le> 2"
  by (simp add: slo_by_class_def)

lemma slo_by_class_empty: "slo_by_class c rs = [] \<longleftrightarrow> rs = []"
proof -
  have "list_ex (\<lambda>r. rec_request_class r = INTERACTIVE) rs \<or> list_ex (\<lambda>r. rec_request_class r = BATCH) rs"
    if "rs \<noteq> []"
    using that by (cases rs; cases "rec_request_class (hd rs)") auto
  then show ?thesis by (auto simp: slo_by_class_def)
qed

lemma gap_bounds:
  assumes "\<And>r. r \<in> set rates \<Longrightarrow> 0 \<le> r \<and> r \<le> 1"
  shows "0 \<le> attainment_gap rates \<and> attainment_gap rates \<le> 1"
proof (cases "rates = []")
  case False
  then have ne: "finite (set rates)" "set rates \<noteq> {}" by simp_all
  have "Min (set rates) \<in> set rates" "Max (set rates) \<in> set rates" using ne by simp_all
  then have "Min (set rates) \<le> Max (set rates)" "Max (set rates) \<le> 1" "0 \<le> Min (set rates)"
    using assms by (simp_all only: Max_ge ne)
  then have "0 \<le> Max (set rates) - Min (set rates) \<and> Max (set rates) - Min (set rates) \<le> 1"
    by linarith
  then show ?thesis by (simp only: attainment_gap_def False if_not_P not_False_eq_True if_True)
qed (simp add: attainment_gap_def)

definition percentiles_ordered :: "real list \<Rightarrow> Percentiles \<Rightarrow> bool" where
  "percentiles_ordered vs p \<longleftrightarrow>
     (if vs = [] then p50 p = None \<and> p95 p = None \<and> p99 p = None
      else \<exists>a b d. p50 p = Some a \<and> p95 p = Some b \<and> p99 p = Some d \<and> {a, b, d} \<subseteq> set vs \<and>
        a \<le> b \<and> b \<le> d)"

lemma percentiles_order: "percentiles_ordered vs (percentiles vs)"
proof (cases "vs = []")
  case True
  then show ?thesis by (simp add: percentiles_ordered_def percentiles_def nearest_rank_def)
next
  case False
  let ?s = "sort vs"
  have ne: "?s \<noteq> []" using False by (metis length_0_conv length_sort)
  obtain a b d where abd: "nearest_rank ?s (1/2) = Some a" "nearest_rank ?s (95/100) = Some b"
      "nearest_rank ?s (99/100) = Some d"
    using ne by (simp add: nearest_rank_def)
  have "{a, b, d} \<subseteq> set vs"
    using nearest_rank_mem [OF abd(1)] nearest_rank_mem [OF abd(2)] nearest_rank_mem [OF abd(3)] by simp
  moreover have "a \<le> b" "b \<le> d"
    using nearest_rank_mono [OF _ abd(1,2)] nearest_rank_mono [OF _ abd(2,3)] by simp_all
  ultimately show ?thesis
    using False abd unfolding percentiles_ordered_def percentiles_def by simp
qed


end
