(* ===== verification/DecisionLog.thy ===== *)
theory DecisionLog
  imports Records Admission
begin

text \<open>
  The persisted controller decisions: what src/sloserve/metrics/adaptive_cap.py writes next to the
  request records, and what \<open>read_decision_facts\<close> of src/sloserve/analysis/expl.py accepts back.
  \<open>AdaptiveCapDecisionRecord\<close> is the writer's dataclass, \<open>DecisionFact\<close> the reader's.
\<close>

section \<open>Names of the enumerations\<close>

fun level_name :: "AdaptiveClipLevel \<Rightarrow> string" where
  "level_name L0 = ''L0''"
| "level_name L1 = ''L1''"
| "level_name L2 = ''L2''"
| "level_name L3 = ''L3''"

text \<open>\<open>AdaptiveClipLevel[name]\<close>\<close>

definition level_of_name :: "string \<Rightarrow> AdaptiveClipLevel result" where
  "level_of_name v =
     (if v = ''L0'' then Inr L0 else if v = ''L1'' then Inr L1 else if v = ''L2'' then Inr L2
      else if v = ''L3'' then Inr L3 else Inl (KeyError v))"

lemma level_of_name_name [simp]: "level_of_name (level_name l) = Inr l"
  by (cases l) (simp_all add: level_of_name_def)

fun trigger_value :: "AdaptiveClipTrigger \<Rightarrow> string" where
  "trigger_value NO_CHANGE = ''no_change''"
| "trigger_value TIGHTEN_HOLD_STARTED = ''tighten_hold_started''"
| "trigger_value TIGHTEN_HOLD_PENDING = ''tighten_hold_pending''"
| "trigger_value TIGHTEN_HOLD_RESET = ''tighten_hold_reset''"
| "trigger_value TIGHTEN_HOLD_ELAPSED = ''tighten_hold_elapsed''"
| "trigger_value RELAX_HOLD_STARTED = ''relax_hold_started''"
| "trigger_value RELAX_HOLD_PENDING = ''relax_hold_pending''"
| "trigger_value RELAX_HOLD_RESET = ''relax_hold_reset''"
| "trigger_value RELAX_HOLD_ELAPSED = ''relax_hold_elapsed''"

definition triggers :: "AdaptiveClipTrigger list" where
  "triggers = [NO_CHANGE, TIGHTEN_HOLD_STARTED, TIGHTEN_HOLD_PENDING, TIGHTEN_HOLD_RESET,
     TIGHTEN_HOLD_ELAPSED, RELAX_HOLD_STARTED, RELAX_HOLD_PENDING, RELAX_HOLD_RESET, RELAX_HOLD_ELAPSED]"

definition trigger_of_value :: "string \<Rightarrow> AdaptiveClipTrigger result" where
  "trigger_of_value v =
     (case find (\<lambda>t. trigger_value t = v) triggers of
        Some t \<Rightarrow> Inr t | None \<Rightarrow> Inl (ValueError ''not a valid AdaptiveClipTrigger''))"

lemma trigger_of_value_value [simp]: "trigger_of_value (trigger_value t) = Inr t"
  by (cases t) (simp_all add: trigger_of_value_def triggers_def)

section \<open>The writer\<close>

record AdaptiveCapDecisionRecord =
  cap_request_id :: string
  cap_repetition_index :: int
  cap_decision_time_s :: real
  cap_q_inst :: int
  cap_q_bar :: real
  cap_old_level :: AdaptiveClipLevel
  cap_new_level :: AdaptiveClipLevel
  cap_selected_cap :: "int option"
  cap_trigger_reason :: AdaptiveClipTrigger

definition AdaptiveCapDecisionRecord_init ::
    "AdaptiveCapDecisionRecord \<Rightarrow> AdaptiveCapDecisionRecord result" where
  "AdaptiveCapDecisionRecord_init r = checked
    [(cap_request_id r = [], ValueError ''adaptive-cap request_id must not be empty''),
     (cap_repetition_index r < 0, ValueError ''adaptive-cap repetition_index must be non-negative'')] r"

definition from_admission :: "AdaptiveAdmissionDecision \<Rightarrow> int \<Rightarrow> AdaptiveCapDecisionRecord result" where
  "from_admission admission_decision repetition_index =
    (let decision = decided admission_decision in
     AdaptiveCapDecisionRecord_init
      \<lparr>cap_request_id = decided_request_id admission_decision,
       cap_repetition_index = repetition_index,
       cap_decision_time_s = decision_time_s decision, cap_q_inst = decision_q_inst decision,
       cap_q_bar = decision_q_bar decision, cap_old_level = old_level decision,
       cap_new_level = new_level decision, cap_selected_cap = decision_selected_cap decision,
       cap_trigger_reason = trigger_reason decision\<rparr>)"

definition decision_to_mapping :: "AdaptiveCapDecisionRecord \<Rightarrow> (string \<times> json) list" where
  "decision_to_mapping r =
    [(''request_id'', JString (cap_request_id r)),
     (''repetition_index'', JInt (cap_repetition_index r)),
     (''decision_time_s'', JFloat (cap_decision_time_s r)),
     (''q_inst'', JInt (cap_q_inst r)),
     (''q_bar'', JFloat (cap_q_bar r)),
     (''old_level'', JString (level_name (cap_old_level r))),
     (''new_level'', JString (level_name (cap_new_level r))),
     (''selected_cap'', optional_int (cap_selected_cap r)),
     (''trigger_reason'', JString (trigger_value (cap_trigger_reason r)))]"

definition write_adaptive_cap_decisions_jsonl :: "AdaptiveCapDecisionRecord list \<Rightarrow> jsonl_line list" where
  "write_adaptive_cap_decisions_jsonl rs = map (\<lambda>r. JsonLine (JObject (decision_to_mapping r))) rs"

section \<open>The reader\<close>

record DecisionFact =
  fact_request_id :: string
  fact_repetition_index :: int
  fact_decision_time_s :: real
  fact_q_inst :: int
  fact_q_bar :: real
  fact_old_level :: AdaptiveClipLevel
  fact_new_level :: AdaptiveClipLevel
  fact_selected_cap :: "int option"
  fact_trigger_reason :: AdaptiveClipTrigger

definition fact_pressure :: "DecisionFact \<Rightarrow> real" where
  "fact_pressure f = max (of_int (fact_q_inst f)) (fact_q_bar f)"

definition fact_identity :: "DecisionFact \<Rightarrow> string \<times> int" where
  "fact_identity f = (fact_request_id f, fact_repetition_index f)"

definition fact_fields :: "string list" where
  "fact_fields = [''request_id'', ''repetition_index'', ''decision_time_s'', ''q_inst'', ''q_bar'',
     ''old_level'', ''new_level'', ''selected_cap'', ''trigger_reason'']"

text \<open>One line, up to the check of its values; every error here ends as an integrity error.\<close>

definition fact_of_mapping :: "conversions \<Rightarrow> (string \<times> json) list \<Rightarrow> DecisionFact result" where
  "fact_of_mapping conv raw =
    (if set (map fst raw) \<noteq> set fact_fields then Inl (ValueError ''decision fields differ'')
     else
       and_then (py_int conv (json_get raw ''repetition_index'')) (\<lambda>rep.
       and_then (py_float conv (json_get raw ''decision_time_s'')) (\<lambda>time.
       and_then (py_int conv (json_get raw ''q_inst'')) (\<lambda>qi.
       and_then (py_float conv (json_get raw ''q_bar'')) (\<lambda>qb.
       and_then (level_of_name (py_str conv (json_get raw ''old_level''))) (\<lambda>old.
       and_then (level_of_name (py_str conv (json_get raw ''new_level''))) (\<lambda>new.
       and_then (let v = json_get raw ''selected_cap'' in
                 if v = JNull then Inr None else and_then (py_int conv v) (\<lambda>i. Inr (Some i))) (\<lambda>cap.
       and_then (trigger_of_value (py_str conv (json_get raw ''trigger_reason''))) (\<lambda>trigger.
       let name = py_str conv (json_get raw ''request_id'') in
       if name = [] \<or> rep < 0 \<or> qi < 0 \<or> \<not> isfinite time \<or> \<not> isfinite qb \<or> pf_less qb (Fin 0)
       then Inl (ValueError ''decision values are invalid'')
       else Inr \<lparr>fact_request_id = name, fact_repetition_index = rep,
         fact_decision_time_s = real_of time, fact_q_inst = qi, fact_q_bar = real_of qb,
         fact_old_level = old, fact_new_level = new, fact_selected_cap = cap,
         fact_trigger_reason = trigger\<rparr>)))))))))"

definition invalid_decision :: py_error where
  "invalid_decision = ExpLIntegrityError ''invalid adaptive decision at JSONL line''"

fun read_facts ::
    "conversions \<Rightarrow> (string \<times> int) set \<Rightarrow> jsonl_line list \<Rightarrow> DecisionFact list result" where
  "read_facts conv identities [] = Inr []"
| "read_facts conv identities (JsonLine (JObject raw) # ls) =
     (case fact_of_mapping conv raw of
        Inl e \<Rightarrow> Inl invalid_decision
      | Inr f \<Rightarrow>
          if fact_identity f \<in> identities
          then Inl (ExpLIntegrityError ''duplicate adaptive decision identity'')
          else and_then (read_facts conv (insert (fact_identity f) identities) ls)
                 (\<lambda>facts. Inr (f # facts)))"
| "read_facts conv identities (_ # ls) = Inl invalid_decision"

definition read_decision_facts :: "conversions \<Rightarrow> jsonl_line list \<Rightarrow> DecisionFact list result" where
  "read_decision_facts conv lines = read_facts conv {} lines"

section \<open>Round trip\<close>

definition fact_of_record :: "AdaptiveCapDecisionRecord \<Rightarrow> DecisionFact" where
  "fact_of_record r =
    \<lparr>fact_request_id = cap_request_id r, fact_repetition_index = cap_repetition_index r,
     fact_decision_time_s = cap_decision_time_s r, fact_q_inst = cap_q_inst r,
     fact_q_bar = cap_q_bar r, fact_old_level = cap_old_level r, fact_new_level = cap_new_level r,
     fact_selected_cap = cap_selected_cap r, fact_trigger_reason = cap_trigger_reason r\<rparr>"

definition loggable :: "AdaptiveCapDecisionRecord \<Rightarrow> bool" where
  "loggable r \<longleftrightarrow> cap_request_id r \<noteq> [] \<and> 0 \<le> cap_repetition_index r \<and> 0 \<le> cap_q_inst r \<and>
     0 \<le> cap_q_bar r"

lemma decision_get:
  "json_get (decision_to_mapping r) ''request_id'' = JString (cap_request_id r)"
  "json_get (decision_to_mapping r) ''repetition_index'' = JInt (cap_repetition_index r)"
  "json_get (decision_to_mapping r) ''decision_time_s'' = JFloat (cap_decision_time_s r)"
  "json_get (decision_to_mapping r) ''q_inst'' = JInt (cap_q_inst r)"
  "json_get (decision_to_mapping r) ''q_bar'' = JFloat (cap_q_bar r)"
  "json_get (decision_to_mapping r) ''old_level'' = JString (level_name (cap_old_level r))"
  "json_get (decision_to_mapping r) ''new_level'' = JString (level_name (cap_new_level r))"
  "json_get (decision_to_mapping r) ''selected_cap'' = optional_int (cap_selected_cap r)"
  "json_get (decision_to_mapping r) ''trigger_reason'' = JString (trigger_value (cap_trigger_reason r))"
  by (simp_all add: json_get_def decision_to_mapping_def)

lemma decision_mapping_fields: "map fst (decision_to_mapping r) = fact_fields"
  by (simp add: decision_to_mapping_def fact_fields_def)

lemma fact_of_mapping_back:
  assumes "loggable r"
  shows "fact_of_mapping conv (decision_to_mapping r) = Inr (fact_of_record r)"
  using assms
  by (cases "cap_selected_cap r")
    (simp_all add: fact_of_mapping_def decision_mapping_fields decision_get Let_def loggable_def
      fact_of_record_def optional_int_def)

lemma read_facts_written:
  assumes "\<forall>r \<in> set rs. loggable r"
    and "distinct (map (\<lambda>r. (cap_request_id r, cap_repetition_index r)) rs)"
    and "\<forall>r \<in> set rs. (cap_request_id r, cap_repetition_index r) \<notin> identities"
  shows "read_facts conv identities (write_adaptive_cap_decisions_jsonl rs)
    = Inr (map fact_of_record rs)"
  using assms
proof (induction rs arbitrary: identities)
  case (Cons r rs)
  let ?i = "(cap_request_id r, cap_repetition_index r)"
  have i: "fact_identity (fact_of_record r) = ?i"
    by (simp add: fact_identity_def fact_of_record_def)
  have "read_facts conv (insert ?i identities) (write_adaptive_cap_decisions_jsonl rs)
      = Inr (map fact_of_record rs)"
    using Cons.prems by (intro Cons.IH) (auto simp: image_iff)
  with Cons.prems show ?case
    by (simp add: write_adaptive_cap_decisions_jsonl_def fact_of_mapping_back i)
qed (simp add: write_adaptive_cap_decisions_jsonl_def)

text \<open>
  The decision log is read back as it was written, duplicates apart: for decision records the
  constructor accepts, with depths that are not negative and no two of the same request and
  repetition, reading the written lines gives exactly the facts that were written, in order; and
  when two records share their identity the reader refuses the file.
\<close>

theorem decision_log_roundtrip:
  assumes "\<forall>r \<in> set rs. AdaptiveCapDecisionRecord_init r = Inr r \<and> 0 \<le> cap_q_inst r \<and> 0 \<le> cap_q_bar r"
  shows "if distinct (map (\<lambda>r. (cap_request_id r, cap_repetition_index r)) rs)
    then read_decision_facts conv (write_adaptive_cap_decisions_jsonl rs) = Inr (map fact_of_record rs)
    else read_decision_facts conv (write_adaptive_cap_decisions_jsonl rs)
      = Inl (ExpLIntegrityError ''duplicate adaptive decision identity'')"
proof -
  have l: "\<forall>r \<in> set rs. loggable r"
    using assms by (auto simp: loggable_def AdaptiveCapDecisionRecord_init_def raise_simps)
  have dup: "read_facts conv identities (write_adaptive_cap_decisions_jsonl rs)
      = Inl (ExpLIntegrityError ''duplicate adaptive decision identity'')"
    if "\<forall>r \<in> set rs. loggable r"
      and "\<not> (distinct (map (\<lambda>r. (cap_request_id r, cap_repetition_index r)) rs) \<and>
        (\<forall>r \<in> set rs. (cap_request_id r, cap_repetition_index r) \<notin> identities))" for identities
    using that
  proof (induction rs arbitrary: identities)
    case (Cons r rs)
    let ?i = "(cap_request_id r, cap_repetition_index r)"
    have i: "fact_identity (fact_of_record r) = ?i"
      by (simp add: fact_identity_def fact_of_record_def)
    show ?case
    proof (cases "?i \<in> identities")
      case False
      then have "read_facts conv (insert ?i identities) (write_adaptive_cap_decisions_jsonl rs)
          = Inl (ExpLIntegrityError ''duplicate adaptive decision identity'')"
        using Cons.prems by (intro Cons.IH) auto
      with Cons.prems False show ?thesis
        by (simp add: write_adaptive_cap_decisions_jsonl_def fact_of_mapping_back i)
    qed (use Cons.prems in \<open>simp add: write_adaptive_cap_decisions_jsonl_def fact_of_mapping_back i\<close>)
  qed simp
  show ?thesis
    unfolding read_decision_facts_def
    using read_facts_written [OF l, of "{}"] dup [OF l, of "{}"] by simp
qed

definition sample_decision_record :: "string \<Rightarrow> AdaptiveCapDecisionRecord" where
  "sample_decision_record name =
    \<lparr>cap_request_id = name, cap_repetition_index = 0, cap_decision_time_s = 1, cap_q_inst = 2,
     cap_q_bar = 1/2, cap_old_level = L0, cap_new_level = L2, cap_selected_cap = Some 512,
     cap_trigger_reason = TIGHTEN_HOLD_ELAPSED\<rparr>"

theorem decision_log_roundtrip_witness:
  "\<exists>conv. read_decision_facts conv (write_adaptive_cap_decisions_jsonl
      [sample_decision_record ''a'', sample_decision_record ''b''])
     = Inr (map fact_of_record [sample_decision_record ''a'', sample_decision_record ''b'']) \<and>
   read_decision_facts conv (write_adaptive_cap_decisions_jsonl
      [sample_decision_record ''a'', sample_decision_record ''a''])
     = Inl (ExpLIntegrityError ''duplicate adaptive decision identity'')"
proof -
  have "\<forall>r \<in> {sample_decision_record ''a'', sample_decision_record ''b''}.
      AdaptiveCapDecisionRecord_init r = Inr r \<and> 0 \<le> cap_q_inst r \<and> 0 \<le> cap_q_bar r"
    by (simp add: AdaptiveCapDecisionRecord_init_def sample_decision_record_def checked_def raise_if.simps)
  then show ?thesis
    using decision_log_roundtrip [of "[sample_decision_record ''a'', sample_decision_record ''b'']"]
      decision_log_roundtrip [of "[sample_decision_record ''a'', sample_decision_record ''a'']"]
    by (simp add: sample_decision_record_def)
qed

end
