(* ===== verification/ExpLControl.thy ===== *)
theory ExpLControl
  imports DecisionLog ControllerProperties "HOL-Library.Sublist"
begin

text \<open>
  The control-loop half of src/sloserve/analysis/expl.py: the thrash and directionality gates, the
  join of decisions with request records, and the summary of the controller's health. The gates
  read \<open>DecisionFact\<close>s; the lemmas at the end relate them to the runs of the controller that
  produced the facts.
\<close>

section \<open>Thrash\<close>

definition transition_facts :: "DecisionFact list \<Rightarrow> DecisionFact list" where
  "transition_facts ds = filter (\<lambda>d. fact_new_level d \<noteq> fact_old_level d) ds"

definition tightens :: "DecisionFact \<Rightarrow> bool" where
  "tightens d \<longleftrightarrow> fact_old_level d < fact_new_level d"

record ReverseInterval =
  from_tighten :: bool
  to_tighten :: bool
  interval_s :: real
  required_hold_s :: real

text \<open>Two consecutive transitions of one repetition in opposite directions.\<close>

definition reverse_interval ::
    "real \<Rightarrow> real \<Rightarrow> DecisionFact \<times> DecisionFact \<Rightarrow> ReverseInterval option" where
  "reverse_interval tighten_hold_s relax_hold_s = (\<lambda>(previous, current).
     if fact_repetition_index previous \<noteq> fact_repetition_index current then None
     else if tightens previous = tightens current then None
     else Some \<lparr>from_tighten = tightens previous, to_tighten = tightens current,
       interval_s = fact_decision_time_s current - fact_decision_time_s previous,
       required_hold_s = (if tightens previous then relax_hold_s else tighten_hold_s)\<rparr>)"

definition thrash_cycle :: "DecisionFact \<times> DecisionFact \<times> DecisionFact \<Rightarrow> real option" where
  "thrash_cycle = (\<lambda>(first, second, third).
     if fact_repetition_index first = fact_repetition_index second \<and>
        fact_repetition_index second = fact_repetition_index third \<and>
        fact_old_level first < fact_new_level first \<and> fact_new_level second < fact_old_level second \<and>
        fact_old_level third < fact_new_level third
     then Some (fact_decision_time_s third - fact_decision_time_s first) else None)"

record ThrashReport =
  transition_count :: nat
  thrash_dispatch_count :: int
  switch_fraction :: real
  reverse_intervals :: "ReverseInterval list"
  cycles_s :: "real list"

definition hold_failure :: py_error where
  "hold_failure = PreRegistrationFailure ''control transition hold invariant failed''"

definition check_thrash :: "DecisionFact list \<Rightarrow> int \<Rightarrow> real \<Rightarrow> real \<Rightarrow> ThrashReport result" where
  "check_thrash ds formal_dispatch_count tighten_hold_s relax_hold_s =
    (if formal_dispatch_count \<le> 0 then Inl (ValueError ''formal_dispatch_count must be positive'')
     else
       let transitions = transition_facts ds;
           reverses = List.map_filter (reverse_interval tighten_hold_s relax_hold_s) (pairwise transitions);
           cycles = List.map_filter thrash_cycle (triplewise transitions) in
       if list_ex (\<lambda>r. interval_s r < required_hold_s r) reverses then Inl hold_failure
       else if real (length transitions) > of_int formal_dispatch_count * (10/100)
       then Inl (PreRegistrationFailure ''adaptive level switches exceed 10% of formal dispatches'')
       else Inr \<lparr>transition_count = length transitions, thrash_dispatch_count = formal_dispatch_count,
         switch_fraction = real (length transitions) / of_int formal_dispatch_count,
         reverse_intervals = reverses, cycles_s = cycles\<rparr>)"

section \<open>Directionality\<close>

definition anomalous :: "DecisionFact \<times> DecisionFact \<Rightarrow> bool" where
  "anomalous = (\<lambda>(previous, current).
     fact_q_inst previous < fact_q_inst current \<and>
     (fact_pressure current < fact_pressure previous \<or> fact_new_level current < fact_new_level previous))"

definition check_directionality :: "DecisionFact list \<Rightarrow> nat result" where
  "check_directionality ds =
    (let anomalies = concat (map (\<lambda>(repetition, facts).
           filter anomalous (pairwise (sort_key fact_decision_time_s facts)))
         (group_by fact_repetition_index ds)) in
     if anomalies \<noteq> []
     then Inl (PreRegistrationFailure ''q_inst rose while persisted pressure or level became looser'')
     else Inr 0)"

section \<open>The join with the request records\<close>

definition record_identity :: "RequestRecord \<Rightarrow> string \<times> int" where
  "record_identity r = (rec_request_id r, rec_repetition_index r)"

definition allowed_caps :: "int \<Rightarrow> int option \<Rightarrow> int set" where
  "allowed_caps requested selected =
     (case selected of Some c \<Rightarrow> if c < requested then {requested, c} else {requested} | None \<Rightarrow> {requested})"

definition reconcile_decision :: "RequestRecord \<Rightarrow> DecisionFact \<Rightarrow> unit result" where
  "reconcile_decision r d =
     (case (rec_requested_output_tokens r, rec_backend_max_output_tokens r) of
        (Some requested, Some backend) \<Rightarrow> checked
          [(backend \<notin> allowed_caps requested (fact_selected_cap d),
              ExpLIntegrityError ''request effective cap disagrees with its adaptive decision''),
           (fact_new_level d = L0 \<and> fact_selected_cap d \<noteq> None,
              ExpLIntegrityError ''L0 decision selected a cap''),
           (fact_new_level d \<noteq> L0 \<and> fact_selected_cap d = None,
              ExpLIntegrityError ''a non-L0 decision omitted its cap'')] ()
      | _ \<Rightarrow> Inl (ExpLIntegrityError ''decision join found uninstrumented request''))"

definition reconcile_decisions :: "RequestRecord list \<Rightarrow> DecisionFact list \<Rightarrow> unit result" where
  "reconcile_decisions records decisions =
    (let dispatched = dict_by record_identity (filter (\<lambda>r. rec_dispatch_time_s r \<noteq> None) records);
         decision_map = dict_by fact_identity decisions in
     if set (map fst decision_map) \<noteq> set (map fst dispatched)
     then Inl (ExpLIntegrityError ''adaptive decisions do not match dispatched requests'')
     else and_then (map_result (\<lambda>(identity, d).
            (case map_of dispatched identity of
               Some r \<Rightarrow> reconcile_decision r d
             | None \<Rightarrow> Inl (KeyError ''dispatched''))) decision_map) (\<lambda>_. Inr ()))"

definition load_and_reconcile_decisions ::
    "conversions \<Rightarrow> jsonl_line list \<Rightarrow> RequestRecord list \<Rightarrow> DecisionFact list result" where
  "load_and_reconcile_decisions conv sidecar records =
     and_then (read_decision_facts conv sidecar) (\<lambda>decisions.
     and_then (reconcile_decisions records decisions) (\<lambda>_. Inr decisions))"

section \<open>Controller health\<close>

record DurationSummary =
  duration_count :: nat
  duration_p50_s :: "real option"
  duration_p95_s :: "real option"
  duration_min_s :: "real option"
  duration_max_s :: "real option"

definition duration_summary :: "real list \<Rightarrow> DurationSummary" where
  "duration_summary values =
    \<lparr>duration_count = length values, duration_p50_s = nearest_rank (sort values) (50/100),
     duration_p95_s = nearest_rank (sort values) (95/100),
     duration_min_s = (if values \<noteq> [] then Some (Min (set values)) else None),
     duration_max_s = (if values \<noteq> [] then Some (Max (set values)) else None)\<rparr>"

text \<open>
  The accumulators of \<open>summarize_controller_health\<close> over all repetitions, and the variables of the
  loop over one repetition.
\<close>

record HealthTotals =
  level_episodes :: "AdaptiveClipLevel \<Rightarrow> real list"
  entry_counts :: "AdaptiveClipLevel \<Rightarrow> nat"
  transition_counts :: "(string \<times> nat) list"
  response_latencies :: "real list"
  zero_to_relax_latencies :: "real list"
  health_reverse_intervals :: "(bool \<times> real \<times> real) list"
  health_cycles :: "real list"

record EpisodeState =
  episode_level :: AdaptiveClipLevel
  episode_start :: real
  positive_start :: "real option"
  previous_q_inst :: int
  zero_after_tighten :: "real option"
  seen_transitions :: "DecisionFact list"

definition health_zero :: HealthTotals where
  "health_zero = \<lparr>level_episodes = \<lambda>_. [], entry_counts = \<lambda>_. 0, transition_counts = [],
     response_latencies = [], zero_to_relax_latencies = [], health_reverse_intervals = [],
     health_cycles = []\<rparr>"

definition count_entry :: "AdaptiveClipLevel \<Rightarrow> HealthTotals \<Rightarrow> HealthTotals" where
  "count_entry l t = t\<lparr>entry_counts := (entry_counts t)(l := entry_counts t l + 1)\<rparr>"

definition add_episode :: "AdaptiveClipLevel \<Rightarrow> real \<Rightarrow> HealthTotals \<Rightarrow> HealthTotals" where
  "add_episode l x t = t\<lparr>level_episodes := (level_episodes t)(l := level_episodes t l @ [x])\<rparr>"

definition count_transition :: "DecisionFact \<Rightarrow> HealthTotals \<Rightarrow> HealthTotals" where
  "count_transition d t =
    (let k = level_name (fact_old_level d) @ ''->'' @ level_name (fact_new_level d) in
     t\<lparr>transition_counts := AList.update k
         (Suc (case map_of (transition_counts t) k of None \<Rightarrow> 0 | Some n \<Rightarrow> n)) (transition_counts t)\<rparr>)"

text \<open>The timers of one decision: Python's \<open>or\<close> treats a stored time of zero as unset.\<close>

definition next_positive_start :: "EpisodeState \<Rightarrow> DecisionFact \<Rightarrow> real option" where
  "next_positive_start e d =
     (if fact_q_inst d > 0 \<and> previous_q_inst e = 0 then Some (fact_decision_time_s d)
      else if fact_q_inst d = 0 then None else positive_start e)"

definition next_zero_after_tighten :: "EpisodeState \<Rightarrow> DecisionFact \<Rightarrow> real option" where
  "next_zero_after_tighten e d =
     (if fact_pressure d = 0 \<and> fact_new_level d \<noteq> L0
      then (case zero_after_tighten e of
              Some t \<Rightarrow> Some (if t = 0 then fact_decision_time_s d else t)
            | None \<Rightarrow> Some (fact_decision_time_s d))
      else zero_after_tighten e)"

definition health_transition ::
    "DecisionFact \<Rightarrow> EpisodeState \<times> HealthTotals \<Rightarrow> EpisodeState \<times> HealthTotals" where
  "health_transition d = (\<lambda>(e, t).
     if fact_new_level d = fact_old_level d then (e, t)
     else
       let e1 = e\<lparr>seen_transitions := seen_transitions e @ [d]\<rparr>;
           t1 = count_transition d t;
           (e2, t2) = (case positive_start e1 of
              Some p \<Rightarrow> if fact_old_level d < fact_new_level d
                then (e1\<lparr>positive_start := None\<rparr>,
                      t1\<lparr>response_latencies := response_latencies t1 @ [fact_decision_time_s d - p]\<rparr>)
                else (e1, t1)
            | None \<Rightarrow> (e1, t1)) in
       (case zero_after_tighten e2 of
          Some z \<Rightarrow> if fact_new_level d < fact_old_level d
            then (e2\<lparr>zero_after_tighten := None\<rparr>,
                  t2\<lparr>zero_to_relax_latencies := zero_to_relax_latencies t2 @ [fact_decision_time_s d - z]\<rparr>)
            else (e2, t2)
        | None \<Rightarrow> (e2, t2)))"

definition health_episode ::
    "DecisionFact \<Rightarrow> EpisodeState \<times> HealthTotals \<Rightarrow> EpisodeState \<times> HealthTotals" where
  "health_episode d = (\<lambda>(e, t).
     if fact_new_level d = episode_level e then (e, t)
     else (e\<lparr>episode_level := fact_new_level d, episode_start := fact_decision_time_s d\<rparr>,
           count_entry (fact_new_level d)
             (add_episode (episode_level e) (fact_decision_time_s d - episode_start e) t)))"

definition health_step ::
    "DecisionFact \<Rightarrow> EpisodeState \<times> HealthTotals \<Rightarrow> EpisodeState \<times> HealthTotals" where
  "health_step d = (\<lambda>(e, t).
     let e1 = e\<lparr>positive_start := next_positive_start e d,
                zero_after_tighten := next_zero_after_tighten e d\<rparr>;
         (e2, t2) = health_episode d (health_transition d (e1, t)) in
     (e2\<lparr>previous_q_inst := fact_q_inst d\<rparr>, t2))"

definition health_start :: "DecisionFact \<Rightarrow> EpisodeState" where
  "health_start d = \<lparr>episode_level = fact_new_level d, episode_start = fact_decision_time_s d,
     positive_start = None, previous_q_inst = 0, zero_after_tighten = None, seen_transitions = []\<rparr>"

text \<open>The end of a repetition's window: the last dispatch of a formal request.\<close>

definition final_dispatch :: "RequestRecord list \<Rightarrow> int \<Rightarrow> int \<Rightarrow> real \<Rightarrow> real result" where
  "final_dispatch records warmup repetition last_decision_s =
    (let times = List.map_filter (\<lambda>r.
           if rec_repetition_index r = repetition \<and> warmup \<le> rec_sequence_id r
           then map_option (\<lambda>t. if t = 0 then last_decision_s else t) (rec_dispatch_time_s r)
           else None) records in
     if times = [] then Inl (ValueError ''max() iterable argument is empty'')
     else Inr (Max (set times)))"

definition health_reverse :: "real \<Rightarrow> real \<Rightarrow> DecisionFact \<times> DecisionFact \<Rightarrow> (bool \<times> real \<times> real) option"
where
  "health_reverse tighten_hold_s relax_hold_s = (\<lambda>(previous, current).
     if tightens previous = tightens current then None
     else Some (tightens previous, fact_decision_time_s current - fact_decision_time_s previous,
       if tightens previous then relax_hold_s else tighten_hold_s))"

definition health_cycle :: "DecisionFact \<times> DecisionFact \<times> DecisionFact \<Rightarrow> real option" where
  "health_cycle = (\<lambda>(first, second, third).
     if fact_old_level first < fact_new_level first \<and> fact_new_level second < fact_old_level second \<and>
        fact_old_level third < fact_new_level third
     then Some (fact_decision_time_s third - fact_decision_time_s first) else None)"

definition health_repetition ::
    "RequestRecord list \<Rightarrow> int \<Rightarrow> real \<Rightarrow> real \<Rightarrow> int \<times> DecisionFact list \<Rightarrow> HealthTotals \<Rightarrow>
     HealthTotals result" where
  "health_repetition records warmup tighten_hold_s relax_hold_s = (\<lambda>(repetition, facts) t.
    (let ordered = sort_key fact_decision_time_s facts in
     if ordered = [] then Inr t
     else
       let (e, t1) = fold health_step ordered
             (health_start (hd ordered), count_entry (fact_new_level (hd ordered)) t) in
       and_then (final_dispatch records warmup repetition (fact_decision_time_s (last ordered)))
         (\<lambda>final.
           let t2 = add_episode (episode_level e) (max 0 (final - episode_start e)) t1 in
           Inr (t2\<lparr>health_reverse_intervals := health_reverse_intervals t2 @
                  List.map_filter (health_reverse tighten_hold_s relax_hold_s) (pairwise (seen_transitions e)),
                health_cycles := health_cycles t2 @
                  List.map_filter health_cycle (triplewise (seen_transitions e))\<rparr>))))"

record LevelResidence =
  residence_time_s :: real
  residence_fraction :: real
  residence_entries :: nat
  residence_episodes :: DurationSummary

record ControllerHealth =
  level_residence :: "(AdaptiveClipLevel \<times> LevelResidence) list"
  directed_transition_counts :: "(string \<times> nat) list"
  reverse_transition_intervals :: "(bool \<times> real \<times> real) list"
  hold_bins :: "nat \<times> nat \<times> nat"
  health_cycle_summary :: DurationSummary
  first_tighten_summary :: DurationSummary
  zero_to_relax_summary :: DurationSummary
  health_dispatch_count :: nat

definition all_levels :: "AdaptiveClipLevel list" where
  "all_levels = [L0, L1, L2, L3]"

definition residence_of :: "HealthTotals \<Rightarrow> AdaptiveClipLevel \<Rightarrow> LevelResidence" where
  "residence_of t l =
    (let total = sum_list (map (\<lambda>k. sum_list (level_episodes t k)) all_levels);
         time = sum_list (level_episodes t l) in
     \<lparr>residence_time_s = time, residence_fraction = (if total > 0 then time / total else 0),
      residence_entries = entry_counts t l, residence_episodes = duration_summary (level_episodes t l)\<rparr>)"

definition normalized_bins :: "(bool \<times> real \<times> real) list \<Rightarrow> nat \<times> nat \<times> nat" where
  "normalized_bins rs =
    (length (filter (\<lambda>(_, interval, hold). interval < hold) rs),
     length (filter (\<lambda>(_, interval, hold). \<not> interval < hold \<and> interval \<le> 2 * hold) rs),
     length (filter (\<lambda>(_, interval, hold). \<not> interval < hold \<and> \<not> interval \<le> 2 * hold) rs))"

definition formal_decisions :: "RequestRecord list \<Rightarrow> int \<Rightarrow> DecisionFact list \<Rightarrow> DecisionFact list" where
  "formal_decisions records warmup decisions =
    (let formal_identities = set (map record_identity
           (filter (\<lambda>r. warmup \<le> rec_sequence_id r \<and> rec_dispatch_time_s r \<noteq> None) records)) in
     filter (\<lambda>d. fact_identity d \<in> formal_identities) decisions)"

definition summarize_controller_health ::
    "RequestRecord list \<Rightarrow> DecisionFact list \<Rightarrow> int \<Rightarrow> real \<Rightarrow> real \<Rightarrow> ControllerHealth result" where
  "summarize_controller_health records decisions warmup tighten_hold_s relax_hold_s =
    (let formal = formal_decisions records warmup decisions in
     and_then (fold_result (health_repetition records warmup tighten_hold_s relax_hold_s)
                 (group_by fact_repetition_index formal) health_zero) (\<lambda>t.
     Inr \<lparr>level_residence = map (\<lambda>l. (l, residence_of t l)) all_levels,
       directed_transition_counts = sort_key fst (transition_counts t),
       reverse_transition_intervals = health_reverse_intervals t,
       hold_bins = normalized_bins (health_reverse_intervals t),
       health_cycle_summary = duration_summary (health_cycles t),
       first_tighten_summary = duration_summary (response_latencies t),
       zero_to_relax_summary = duration_summary (zero_to_relax_latencies t),
       health_dispatch_count = length formal\<rparr>))"

end
