(* ===== verification/HttpBackend.thy ===== *)
theory HttpBackend
  imports Admission
begin

text \<open>
  The streaming backend (src/sloserve/workload/http_backend.py) and the in-memory one the tests use
  (src/sloserve/workload/backend.py). The HTTP client belongs to httpx: \<open>http_call\<close> is what one call
  of \<open>client.stream\<close> does, as the code sees it. \<open>loads\<close> is \<open>json.loads\<close> (a value, or the text of the
  error). \<open>clock k\<close> is the k-th reading of the injected clock. \<open>send\<close> returns the telemetry it leaves
  behind and how it ended, in the terms of the admission queue's \<open>backend_end\<close>.
\<close>

section \<open>Request body\<close>

definition deterministic_prompt :: string where
  "deterministic_prompt = ''Generate a deterministic response.''"

definition request_body :: "BackendConfig \<Rightarrow> RequestEnvelope \<Rightarrow> (string \<times> json) list" where
  "request_body c r =
    [(''model'', JString (backend_model c)),
     (''stream'', JBool True),
     (''messages'', JArray [JObject [(''role'', JString ''user''), (''content'', JString deterministic_prompt)]]),
     (''max_tokens'', JInt (effective_max_output_tokens r)),
     (''temperature'', JInt 0),
     (''stream_options'', JObject [(''include_usage'', JBool True)])]
    @ (if force_exact_output_tokens r then [(''min_tokens'', JInt (effective_max_output_tokens r))] else [])"

text \<open>\<open>base_url.rstrip('/') + '/chat/completions'\<close>\<close>

definition rstrip_slash :: "string \<Rightarrow> string" where
  "rstrip_slash s = rev (dropWhile (\<lambda>ch. ch = CHR ''/'') (rev s))"

definition completions_url :: "BackendConfig \<Rightarrow> string" where
  "completions_url c = rstrip_slash (base_url c) @ ''/chat/completions''"

section \<open>Telemetry\<close>

record HttpCallTelemetry =
  tel_first_token_time_s :: "real option"
  tel_output_tokens :: int
  tel_http_status :: "int option"
  tel_finish_reason :: "string option"
  tel_error :: "string option"

definition new_telemetry :: HttpCallTelemetry where
  "new_telemetry = \<lparr>tel_first_token_time_s = None, tel_output_tokens = 0, tel_http_status = None,
     tel_finish_reason = None, tel_error = None\<rparr>"

text \<open>The stream: its lines, then its end, a failure of the transport, or a cancellation.\<close>

datatype stream_end = StreamEnds | StreamFails string | StreamCancelled

datatype http_call =
    ConnectFails string
  | ConnectCancelled
  | Responds int bool string "string list" stream_end

text \<open>The local variables of \<open>send\<close> next to the telemetry.\<close>

record stream_state =
  telemetry :: HttpCallTelemetry
  content_delta_count :: nat
  usage_output_tokens :: "int option"
  clock_reads :: nat

fun object_of :: "json \<Rightarrow> (string \<times> json) list option" where
  "object_of (JObject d) = Some d"
| "object_of _ = None"

definition content_of :: "(string \<times> json) list \<Rightarrow> string option" where
  "content_of choice =
     (case object_of (json_get choice ''delta'') of
        None \<Rightarrow> None
      | Some delta \<Rightarrow> (case json_get delta ''content'' of
          JString s \<Rightarrow> if s \<noteq> [] then Some s else None | _ \<Rightarrow> None))"

definition count_content :: "(nat \<Rightarrow> real) \<Rightarrow> stream_state \<Rightarrow> stream_state" where
  "count_content clock s =
    (let n = Suc (content_delta_count s); t = (telemetry s)\<lparr>tel_output_tokens := int n\<rparr> in
     if tel_first_token_time_s t = None
     then s\<lparr>content_delta_count := n, clock_reads := Suc (clock_reads s),
            telemetry := t\<lparr>tel_first_token_time_s := Some (clock (clock_reads s))\<rparr>\<rparr>
     else s\<lparr>content_delta_count := n, telemetry := t\<rparr>)"

definition read_choice :: "(nat \<Rightarrow> real) \<Rightarrow> (string \<times> json) list \<Rightarrow> stream_state \<Rightarrow> stream_state" where
  "read_choice clock choice s =
    (let s1 = (if content_of choice \<noteq> None then count_content clock s else s) in
     case json_get choice ''finish_reason'' of
       JString f \<Rightarrow> s1\<lparr>telemetry := (telemetry s1)\<lparr>tel_finish_reason := Some f\<rparr>\<rparr>
     | _ \<Rightarrow> s1)"

definition read_usage :: "(string \<times> json) list \<Rightarrow> stream_state \<Rightarrow> stream_state" where
  "read_usage usage s =
    (case json_get usage ''completion_tokens'' of
       JInt n \<Rightarrow> if 0 \<le> n
         then s\<lparr>usage_output_tokens := Some n, telemetry := (telemetry s)\<lparr>tel_output_tokens := n\<rparr>\<rparr>
         else s
     | _ \<Rightarrow> s)"

definition read_chunk :: "(nat \<Rightarrow> real) \<Rightarrow> (string \<times> json) list \<Rightarrow> stream_state \<Rightarrow> stream_state" where
  "read_chunk clock chunk s =
    (let s1 = (case json_get chunk ''choices'' of
           JArray (c # cs) \<Rightarrow> (case object_of c of Some choice \<Rightarrow> read_choice clock choice s | None \<Rightarrow> s)
         | _ \<Rightarrow> s) in
     case object_of (json_get chunk ''usage'') of Some usage \<Rightarrow> read_usage usage s1 | None \<Rightarrow> s1)"

text \<open>The loop over the lines: it ends at \<open>[DONE]\<close>, at the end of the stream, or with an error.\<close>

definition data_prefix :: string where
  "data_prefix = ''data: ''"

fun read_lines ::
    "(string \<Rightarrow> string + json) \<Rightarrow> (nat \<Rightarrow> real) \<Rightarrow> stream_end \<Rightarrow> string list \<Rightarrow> stream_state \<Rightarrow>
     stream_state \<times> backend_end" where
  "read_lines loads clock ending [] s =
     (s, case ending of StreamEnds \<Rightarrow> Returned | StreamFails m \<Rightarrow> Raised m | StreamCancelled \<Rightarrow> Cancelled)"
| "read_lines loads clock ending (line # ls) s =
     (if take 6 line \<noteq> data_prefix then read_lines loads clock ending ls s
      else let data = drop 6 line in
        if data = ''[DONE]'' then (s, Returned)
        else (case loads data of
            Inl m \<Rightarrow> (s, Raised m)
          | Inr (JObject chunk) \<Rightarrow> read_lines loads clock ending ls (read_chunk clock chunk s)
          | Inr _ \<Rightarrow> (s, Raised ''SSE data must decode to a JSON object'')))"

definition finish_stream :: "stream_state \<times> backend_end \<Rightarrow> HttpCallTelemetry \<times> backend_end" where
  "finish_stream = (\<lambda>(s, ending).
     (case ending of
        Returned \<Rightarrow> ((telemetry s)\<lparr>tel_output_tokens :=
            (case usage_output_tokens s of Some n \<Rightarrow> n | None \<Rightarrow> int (content_delta_count s))\<rparr>, Returned)
      | Raised m \<Rightarrow> ((telemetry s)\<lparr>tel_error := Some m\<rparr>, Raised m)
      | Cancelled \<Rightarrow> (telemetry s, Cancelled)))"

text \<open>A response that is no success raises the text \<open>raise_for_status\<close> gives.\<close>

fun http_send ::
    "(string \<Rightarrow> string + json) \<Rightarrow> (nat \<Rightarrow> real) \<Rightarrow> http_call \<Rightarrow> HttpCallTelemetry \<times> backend_end" where
  "http_send loads clock (ConnectFails m) = (new_telemetry\<lparr>tel_error := Some m\<rparr>, Raised m)"
| "http_send loads clock ConnectCancelled = (new_telemetry, Cancelled)"
| "http_send loads clock (Responds status_code is_success status_error ls ending) =
     (let t = new_telemetry\<lparr>tel_http_status := Some status_code\<rparr> in
      if \<not> is_success then (t\<lparr>tel_error := Some status_error\<rparr>, Raised status_error)
      else finish_stream (read_lines loads clock ending ls
             \<lparr>telemetry = t, content_delta_count = 0, usage_output_tokens = None, clock_reads = 0\<rparr>))"

section \<open>The in-memory backend\<close>

datatype FakeBackendMode = FAKE_SUCCESS | FAKE_ERROR | FAKE_DELAY | FAKE_CANCELLED

record FakeBackendPlan =
  plan_mode :: FakeBackendMode
  delay_s :: real

definition FakeBackendPlan_init :: "FakeBackendPlan \<Rightarrow> FakeBackendPlan result" where
  "FakeBackendPlan_init p = checked [(delay_s p < 0, ValueError ''delay_s must be non-negative'')] p"

record FakeBackend =
  plans :: "(string \<times> FakeBackendPlan) list"
  default_plan :: FakeBackendPlan
  started_request_ids :: "string list"
  cancelled_request_ids :: "string list"
  active_count :: int
  max_active_count :: int

definition fake_plan :: "FakeBackend \<Rightarrow> RequestEnvelope \<Rightarrow> FakeBackendPlan" where
  "fake_plan b r = (case map_of (plans b) (request_id r) of Some p \<Rightarrow> p | None \<Rightarrow> default_plan b)"

text \<open>\<open>send\<close> up to its sleep, and what it does when the sleep is over or was cancelled.\<close>

definition fake_send_begin :: "RequestEnvelope \<Rightarrow> FakeBackend \<Rightarrow> FakeBackend" where
  "fake_send_begin r b = b\<lparr>started_request_ids := started_request_ids b @ [request_id r],
     active_count := active_count b + 1,
     max_active_count := max (max_active_count b) (active_count b + 1)\<rparr>"

definition fake_send_end :: "RequestEnvelope \<Rightarrow> bool \<Rightarrow> FakeBackend \<Rightarrow> FakeBackend \<times> backend_end" where
  "fake_send_end r cancelled b =
    (let ending = (if cancelled then Cancelled
           else case plan_mode (fake_plan b r) of
             FAKE_ERROR \<Rightarrow> Raised (''configured fake backend error for '' @ request_id r)
           | FAKE_CANCELLED \<Rightarrow> Cancelled
           | _ \<Rightarrow> Returned);
         b1 = (if ending = Cancelled
           then b\<lparr>cancelled_request_ids := cancelled_request_ids b @ [request_id r]\<rparr> else b) in
     (b1\<lparr>active_count := active_count b1 - 1\<rparr>, ending))"

section \<open>What the telemetry says\<close>

text \<open>The invariant of the loop.\<close>

definition stream_ok :: "(nat \<Rightarrow> real) \<Rightarrow> int \<Rightarrow> stream_state \<Rightarrow> bool" where
  "stream_ok clock status s \<longleftrightarrow>
     tel_http_status (telemetry s) = Some status \<and> tel_error (telemetry s) = None \<and>
     tel_first_token_time_s (telemetry s)
       = (if content_delta_count s = 0 then None else Some (clock 0)) \<and>
     clock_reads s = (if content_delta_count s = 0 then 0 else 1) \<and>
     0 \<le> tel_output_tokens (telemetry s) \<and>
     (\<forall>n. usage_output_tokens s = Some n \<longrightarrow> 0 \<le> n)"

lemma count_content_ok: "stream_ok clock st s \<Longrightarrow> stream_ok clock st (count_content clock s)"
  by (cases "content_delta_count s = 0") (simp_all add: stream_ok_def count_content_def Let_def)

lemma read_choice_ok: "stream_ok clock st s \<Longrightarrow> stream_ok clock st (read_choice clock choice s)"
  using count_content_ok [of clock st s]
  by (auto simp: read_choice_def Let_def stream_ok_def split: json.splits)

lemma read_usage_ok: "stream_ok clock st s \<Longrightarrow> stream_ok clock st (read_usage usage s)"
  by (auto simp: read_usage_def stream_ok_def split: json.splits)

lemma read_chunk_ok: "stream_ok clock st s \<Longrightarrow> stream_ok clock st (read_chunk clock chunk s)"
  by (auto simp: read_chunk_def Let_def read_choice_ok read_usage_ok
      split: json.splits list.splits option.splits)

lemma read_lines_ok:
  "stream_ok clock st s \<Longrightarrow> read_lines loads clock ending ls s = (s', e) \<Longrightarrow> stream_ok clock st s'"
proof (induction ls arbitrary: s)
  case (Cons line ls)
  have skip: ?case if "read_lines loads clock ending ls s = (s', e)"
    using Cons.IH [OF Cons.prems(1) that] .
  have chunk: ?case if "read_lines loads clock ending ls (read_chunk clock c s) = (s', e)" for c
    using Cons.IH [OF read_chunk_ok [OF Cons.prems(1)] that] .
  from Cons.prems skip chunk show ?case
    by (auto simp: Let_def split: if_splits sum.splits json.splits)
qed simp

text \<open>Lines after the \<open>[DONE]\<close> marker are never looked at.\<close>

lemma read_lines_done:
  "read_lines loads clock ending (ls @ (data_prefix @ ''[DONE]'') # ignored) s
   = read_lines loads clock ending' (ls @ [data_prefix @ ''[DONE]'']) s"
proof (induction ls arbitrary: s)
  case Nil
  have "take 6 (data_prefix @ x) = data_prefix" "drop 6 (data_prefix @ x) = x" for x
    by (simp_all add: data_prefix_def)
  then show ?case by simp
next
  case (Cons line ls)
  then show ?case by (auto simp: Let_def split: sum.splits json.splits)
qed

lemma http_send_telemetry:
  assumes "http_send loads clock call = (t, ending)"
  shows "0 \<le> tel_output_tokens t \<and> tel_first_token_time_s t \<in> {None, Some (clock 0)} \<and>
    tel_error t = (case ending of Raised m \<Rightarrow> Some m | _ \<Rightarrow> None) \<and>
    (ending = Returned \<longrightarrow> (\<exists>code text ls fin s. call = Responds code True text ls fin \<and>
      tel_http_status t = Some code \<and>
      read_lines loads clock fin ls \<lparr>telemetry = new_telemetry\<lparr>tel_http_status := Some code\<rparr>,
        content_delta_count = 0, usage_output_tokens = None, clock_reads = 0\<rparr> = (s, Returned) \<and>
      tel_output_tokens t = (case usage_output_tokens s of Some n \<Rightarrow> n | None \<Rightarrow> int (content_delta_count s)) \<and>
      (usage_output_tokens s = None \<and> tel_first_token_time_s t \<noteq> None \<longrightarrow> 1 \<le> tel_output_tokens t)))"
proof (cases call)
  case (Responds code ok msg ls fin)
  let ?s = "\<lparr>telemetry = new_telemetry\<lparr>tel_http_status := Some code\<rparr>,
      content_delta_count = 0, usage_output_tokens = None, clock_reads = 0\<rparr>"
  obtain s e where r: "read_lines loads clock fin ls ?s = (s, e)" by fastforce
  have "stream_ok clock code ?s" by (simp add: stream_ok_def new_telemetry_def)
  from read_lines_ok [OF this r] have ok': "stream_ok clock code s" .
  show ?thesis
  proof (cases ok)
    case True
    with assms r have "finish_stream (s, e) = (t, ending)" by (simp add: Responds)
    with ok' r True show ?thesis
      by (cases e; cases "content_delta_count s = 0")
        (auto simp: finish_stream_def stream_ok_def Responds split: option.splits)
  qed (use assms in \<open>auto simp: Responds new_telemetry_def\<close>)
qed (use assms in \<open>auto simp: new_telemetry_def\<close>)

lemma http_send_done:
  "http_send loads clock (Responds code ok text (ls @ (data_prefix @ ''[DONE]'') # ignored) fin)
   = http_send loads clock (Responds code ok text (ls @ [data_prefix @ ''[DONE]'']) fin')"
  by (simp only: http_send.simps Let_def)
    (simp only: read_lines_done [where ending = fin and ending' = fin'])


text \<open>A two-chunk answer: one content delta, then the usage block.\<close>

definition sample_loads :: "string \<Rightarrow> string + json" where
  "sample_loads s =
     (if s = ''a'' then Inr (JObject [(''choices'', JArray [JObject [(''delta'', JObject [(''content'', JString ''hi'')]),
           (''finish_reason'', JString ''length'')]])])
      else if s = ''u'' then Inr (JObject [(''usage'', JObject [(''completion_tokens'', JInt 7)])])
      else Inl ''Expecting value'')"

lemma sample_send:
  "http_send sample_loads (\<lambda>k. real k + 5) (Responds 200 True '''' [''data: a'', ''data: u'', ''data: [DONE]'', ''data: x''] StreamEnds)
   = (\<lparr>tel_first_token_time_s = Some 5, tel_output_tokens = 7, tel_http_status = Some 200,
       tel_finish_reason = Some ''length'', tel_error = None\<rparr>, Returned)"
  by (simp add: sample_loads_def read_chunk_def read_choice_def read_usage_def count_content_def
      content_of_def json_get_def new_telemetry_def finish_stream_def data_prefix_def Let_def)


end
