(* ===== verification/Generator.thy ===== *)
theory Generator
  imports LengthPredictor
begin

text \<open>
  Arrival schedules (src/sloserve/workload/arrivals.py), the request generator
  (src/sloserve/workload/generator.py) and the training pairs drawn from it. The pseudo-random
  generator of Python's library is the parameter \<open>R\<close>: a state and the draws the code makes, each
  returning a value and the next state. \<open>random_laws\<close> is what its documentation promises about the
  ranges of the draws; nothing is assumed about their distribution.
\<close>

section \<open>Random draws\<close>

record 'g random_source =
  seeded :: "int \<Rightarrow> 'g"
  draw_random :: "'g \<Rightarrow> real \<times> 'g"
  draw_randint :: "int \<Rightarrow> int \<Rightarrow> 'g \<Rightarrow> int \<times> 'g"
  draw_index :: "real list \<Rightarrow> 'g \<Rightarrow> nat \<times> 'g"
  draw_lognormal :: "real \<Rightarrow> real \<Rightarrow> 'g \<Rightarrow> real \<times> 'g"
  draw_exponential :: "real \<Rightarrow> 'g \<Rightarrow> real \<times> 'g"

definition random_laws :: "'g random_source \<Rightarrow> bool" where
  "random_laws R \<longleftrightarrow>
     (\<forall>g lo hi. lo \<le> hi \<longrightarrow> lo \<le> fst (draw_randint R lo hi g) \<and> fst (draw_randint R lo hi g) \<le> hi) \<and>
     (\<forall>g ws. 0 < sum_list ws \<longrightarrow> fst (draw_index R ws g) < length ws) \<and>
     (\<forall>g rate. 0 < rate \<longrightarrow> 0 \<le> fst (draw_exponential R rate g))"

lemma randint_law: "random_laws R \<Longrightarrow> draw_randint R lo hi g = (n, g') \<Longrightarrow> lo \<le> hi \<Longrightarrow> lo \<le> n \<and> n \<le> hi"
  unfolding random_laws_def by (metis fst_conv)

lemma exponential_law: "random_laws R \<Longrightarrow> draw_exponential R rate g = (x, g') \<Longrightarrow> 0 < rate \<Longrightarrow> 0 \<le> x"
  unfolding random_laws_def by (metis fst_conv)

text \<open>\<open>rng.randint(lo, hi)\<close> and \<open>rng.choices(range(n), weights=ws, k=1)[0]\<close> with their errors.\<close>

definition randint :: "'g random_source \<Rightarrow> int \<Rightarrow> int \<Rightarrow> 'g \<Rightarrow> (int \<times> 'g) result" where
  "randint R lo hi g =
     (if hi < lo then Inl (ValueError ''empty range for randrange()'') else Inr (draw_randint R lo hi g))"

definition choose_index :: "'g random_source \<Rightarrow> nat \<Rightarrow> real list \<Rightarrow> 'g \<Rightarrow> (nat \<times> 'g) result" where
  "choose_index R n ws g =
     (if length ws \<noteq> n then Inl (ValueError ''The number of weights does not match the population'')
      else if sum_list ws \<le> 0 then Inl (ValueError ''Total of weights must be greater than zero'')
      else Inr (draw_index R ws g))"

text \<open>\<open>round\<close> of a float: to the nearest integer, halves to the even one.\<close>

definition round_half_even :: "real \<Rightarrow> int" where
  "round_half_even x =
    (let f = \<lfloor>x\<rfloor>; d = x - of_int f in
     if d < 1/2 then f else if d > 1/2 then f + 1 else if even f then f else f + 1)"

section \<open>Arrivals\<close>

definition fixed_arrival_times :: "real \<Rightarrow> int \<Rightarrow> real list result" where
  "fixed_arrival_times rate n =
     (if rate \<le> 0 then Inl (ValueError ''request_rate_rps must be positive'')
      else if n < 0 then Inl (ValueError ''request_count must be non-negative'')
      else Inr (map (\<lambda>i. real i / rate) [0..<nat n]))"

fun poisson_loop :: "'g random_source \<Rightarrow> real \<Rightarrow> nat \<Rightarrow> real \<Rightarrow> 'g \<Rightarrow> real list" where
  "poisson_loop R rate 0 last_s g = []"
| "poisson_loop R rate (Suc n) last_s g =
     (let (gap, g') = draw_exponential R rate g; t = last_s + gap in t # poisson_loop R rate n t g')"

definition poisson_arrival_times :: "'g random_source \<Rightarrow> real \<Rightarrow> int \<Rightarrow> int \<Rightarrow> real list result" where
  "poisson_arrival_times R rate seed n =
     (if \<not> rate > 0 then Inl (ValueError ''request_rate_rps must be positive'')
      else if n < 0 then Inl (ValueError ''request_count must be non-negative'')
      else if n = 0 then Inr []
      else Inr (0 # poisson_loop R rate (nat n - 1) 0 (seeded R seed)))"

type_synonym arrival_schedule = "int \<Rightarrow> real list result"

definition arrival_schedule_from_config ::
    "'g random_source \<Rightarrow> WorkloadConfig \<Rightarrow> arrival_schedule result" where
  "arrival_schedule_from_config R c =
     (if arrival_process c = FIXED then Inr (fixed_arrival_times (request_rate_rps c))
      else if arrival_process c = POISSON
      then Inr (poisson_arrival_times R (request_rate_rps c) (random_seed c))
      else Inl (ValueError ''unsupported arrival process''))"

section \<open>Requests\<close>

text \<open>\<open>f"request-{sequence_id:06d}"\<close>\<close>

definition zero_padded :: "nat \<Rightarrow> nat \<Rightarrow> string" where
  "zero_padded w n = replicate (w - length (nat_digits n)) CHR ''0'' @ nat_digits n"

definition request_name :: "nat \<Rightarrow> string" where
  "request_name n = ''request-'' @ zero_padded 6 n"

definition sample_request_class :: "'g random_source \<Rightarrow> real \<Rightarrow> 'g \<Rightarrow> RequestClass \<times> 'g" where
  "sample_request_class R fraction g =
     (let (x, g') = draw_random R g in (if x < fraction then INTERACTIVE else BATCH, g'))"

text \<open>The output length of a request, with its cap, kind and force-exact flag.\<close>

definition sample_lengths ::
    "'g random_source \<Rightarrow> WorkloadConfig \<Rightarrow> RequestProfileConfig \<Rightarrow> 'g \<Rightarrow>
     ((int \<times> int option \<times> string option \<times> bool) \<times> 'g) result" where
  "sample_lengths R c profile g =
     (if length_model c = REALISTIC
      then (case realistic_length c of
         None \<Rightarrow> Inl (ValueError ''realistic length model requires realistic_length'')
       | Some realistic \<Rightarrow>
           and_then (choose_index R (length (kinds realistic)) (kind_fractions realistic) g) (\<lambda>(k, g1).
           let (x, g2) = draw_lognormal R (log_mu_by_kind realistic ! k) (log_sigma realistic) g1;
               target = round_half_even x in
           Inr ((max (clamp_min realistic) (min (clamp_max realistic) target),
                 Some (realistic_advertised_cap_tokens realistic), Some (kinds realistic ! k),
                 realistic_force_exact realistic), g2)))
      else and_then (randint R (minimum (profile_output_tokens profile)) (maximum (profile_output_tokens profile)) g)
             (\<lambda>(n, g1). Inr ((n, None, None, False), g1)))"

definition generate_one ::
    "'g random_source \<Rightarrow> WorkloadConfig \<Rightarrow> nat \<Rightarrow> real \<Rightarrow> 'g \<Rightarrow> (RequestEnvelope \<times> 'g) result" where
  "generate_one R c seq arrival g =
     (let (cls, g1) = sample_request_class R (interactive_fraction c) g;
          profile = profile_for_class c cls in
      and_then (randint R (minimum (profile_input_tokens profile)) (maximum (profile_input_tokens profile)) g1)
        (\<lambda>(inp, g2).
      and_then (sample_lengths R c profile g2) (\<lambda>((outp, advertised, kind, force), g3).
      and_then (RequestEnvelope_init
        \<lparr>request_id = request_name seq, sequence_id = int seq, request_class = cls,
         arrival_time_s = arrival, input_tokens = inp, max_output_tokens = outp,
         deadline_time_s = arrival + end_to_end_slo_ms profile / 1000,
         advertised_cap_tokens = advertised, prompt_kind = kind,
         backend_max_output_tokens = None, force_exact_output_tokens = force\<rparr>)
        (\<lambda>e. Inr (e, g3)))))"

fun generate_from ::
    "'g random_source \<Rightarrow> WorkloadConfig \<Rightarrow> nat \<Rightarrow> real list \<Rightarrow> 'g \<Rightarrow> RequestEnvelope list result" where
  "generate_from R c seq [] g = Inr []"
| "generate_from R c seq (t # ts) g =
     and_then (generate_one R c seq t g) (\<lambda>(e, g').
     and_then (generate_from R c (Suc seq) ts g') (\<lambda>es. Inr (e # es)))"

definition generate_requests ::
    "'g random_source \<Rightarrow> WorkloadConfig \<Rightarrow> arrival_schedule option \<Rightarrow> RequestEnvelope list result" where
  "generate_requests R c arrival_schedule =
     and_then (case arrival_schedule of Some f \<Rightarrow> Inr f | None \<Rightarrow> arrival_schedule_from_config R c)
      (\<lambda>schedule.
        let request_count = warmup_requests c + total_requests c in
        and_then (schedule request_count) (\<lambda>times.
          if int (length times) \<noteq> request_count
          then Inl (ValueError ''arrival schedule returned an unexpected number of timestamps'')
          else generate_from R c 0 times (seeded R (random_seed c))))"

section \<open>Training pairs\<close>

definition pair_of_request :: "RequestEnvelope \<Rightarrow> LengthTrainingPair" where
  "pair_of_request r = \<lparr>pair_class = request_class r, pair_input_tokens = input_tokens r,
     pair_prompt_kind = prompt_kind r, pair_advertised_cap = advertised_cap_tokens r,
     pair_target_tokens = max_output_tokens r\<rparr>"

definition build_training_pairs ::
    "'g random_source \<Rightarrow> WorkloadConfig \<Rightarrow> int \<Rightarrow> int \<Rightarrow> LengthTrainingPair list result" where
  "build_training_pairs R c train_seed n =
     (if length_model c \<noteq> REALISTIC
      then Inl (ValueError ''length predictor training requires a realistic workload'')
      else if train_seed < 0 then Inl (ValueError ''train_seed must be non-negative'')
      else if n < 1 then Inl (ValueError ''count must be positive'')
      else and_then (WorkloadConfig_init
             (c\<lparr>random_seed := train_seed, total_requests := n, warmup_requests := 0\<rparr>)) (\<lambda>training.
           and_then (generate_requests R training None) (\<lambda>rs. Inr (map pair_of_request rs))))"

section \<open>Names\<close>

definition digits_value :: "string \<Rightarrow> nat" where
  "digits_value s = foldl (\<lambda>a ch. a * 10 + (of_char ch - 48)) 0 s"

lemma digits_value_snoc: "digits_value (s @ [ch]) = digits_value s * 10 + (of_char ch - 48)"
  by (simp add: digits_value_def)

lemma digits_value_nat_digits: "digits_value (nat_digits n) = n"
proof (induction n rule: nat_digits.induct)
  case (1 n)
  have d: "of_char (char_of (48 + k :: nat)) = 48 + k" if "k < 10" for k
    using that by simp
  show ?case
  proof (cases "n < 10")
    case True
    then show ?thesis by (subst nat_digits.simps) (simp add: digits_value_def d)
  next
    case False
    then have "digits_value (nat_digits n) = digits_value (nat_digits (n div 10)) * 10 + n mod 10"
      by (subst nat_digits.simps) (simp add: digits_value_snoc d)
    with 1 [OF False] show ?thesis by simp
  qed
qed

lemma digits_value_zeros: "digits_value (replicate k CHR ''0'' @ s) = digits_value s"
  by (induction k) (simp_all add: digits_value_def)

lemma request_name_inject: "request_name m = request_name n \<longleftrightarrow> m = n"
proof
  assume "request_name m = request_name n"
  then have "digits_value (zero_padded 6 m) = digits_value (zero_padded 6 n)" by (simp add: request_name_def)
  then show "m = n" by (simp add: zero_padded_def digits_value_zeros digits_value_nat_digits)
qed simp

section \<open>What the generator guarantees\<close>

definition valid_workload :: "WorkloadConfig \<Rightarrow> bool" where
  "valid_workload c \<longleftrightarrow> WorkloadConfig_init c = Inr c"

lemma valid_workload_fields:
  assumes "valid_workload c"
  shows "0 < request_rate_rps c" and "1 \<le> total_requests c" and "0 \<le> warmup_requests c"
    and "1 \<le> minimum (profile_input_tokens (profile_for_class c k))"
    and "minimum (profile_input_tokens (profile_for_class c k)) \<le> maximum (profile_input_tokens (profile_for_class c k))"
    and "1 \<le> minimum (profile_output_tokens (profile_for_class c k))"
    and "minimum (profile_output_tokens (profile_for_class c k)) \<le> maximum (profile_output_tokens (profile_for_class c k))"
    and "0 < end_to_end_slo_ms (profile_for_class c k)"
    and "length_model c = REALISTIC \<Longrightarrow> realistic_length c \<noteq> None"
    and "realistic_length c = Some r \<Longrightarrow> 1 \<le> realistic_advertised_cap_tokens r \<and> 1 \<le> clamp_min r \<and>
      clamp_min r \<le> clamp_max r \<and> length (kind_fractions r) = length (kinds r) \<and>
      length (log_mu_by_kind r) = length (kinds r) \<and> 0 < sum_list (kind_fractions r)"
proof -
  have p: "\<exists>x. RequestProfileConfig_init (interactive_profile c) = Inr x"
    "\<exists>x. RequestProfileConfig_init (batch_profile c) = Inr x"
    and rest: "0 < request_rate_rps c" "1 \<le> total_requests c" "0 \<le> warmup_requests c"
      "length_model c = REALISTIC \<Longrightarrow> realistic_length c \<noteq> None"
    and r: "realistic_length c = Some r \<Longrightarrow> \<exists>x. RealisticLengthConfig_init r = Inr x"
    using assms by (auto simp: valid_workload_def WorkloadConfig_init_def and_then_Inr raise_simps)
  then show "0 < request_rate_rps c" "1 \<le> total_requests c" "0 \<le> warmup_requests c"
    "length_model c = REALISTIC \<Longrightarrow> realistic_length c \<noteq> None" by blast+
  have "\<exists>x. RequestProfileConfig_init (profile_for_class c k) = Inr x"
    using p by (simp add: profile_for_class_def)
  then show "1 \<le> minimum (profile_input_tokens (profile_for_class c k))"
    "minimum (profile_input_tokens (profile_for_class c k)) \<le> maximum (profile_input_tokens (profile_for_class c k))"
    "1 \<le> minimum (profile_output_tokens (profile_for_class c k))"
    "minimum (profile_output_tokens (profile_for_class c k)) \<le> maximum (profile_output_tokens (profile_for_class c k))"
    "0 < end_to_end_slo_ms (profile_for_class c k)"
    by (auto simp: RequestProfileConfig_init_def TokenRangeConfig_init_def and_then_Inr raise_simps)
  show "1 \<le> realistic_advertised_cap_tokens r \<and> 1 \<le> clamp_min r \<and>
      clamp_min r \<le> clamp_max r \<and> length (kind_fractions r) = length (kinds r) \<and>
      length (log_mu_by_kind r) = length (kinds r) \<and> 0 < sum_list (kind_fractions r)"
    if "realistic_length c = Some r"
  proof -
    have "\<bar>sum_list (kind_fractions r) - 1\<bar> \<le> 1 / 1000000"
      using r [OF that] by (auto simp: RealisticLengthConfig_init_def raise_simps)
    then have "0 < sum_list (kind_fractions r)" by linarith
    then show ?thesis using r [OF that] by (auto simp: RealisticLengthConfig_init_def raise_simps)
  qed
qed

text \<open>The length a request may have: between the clamps, or in the range of its profile.\<close>

definition length_in_range :: "WorkloadConfig \<Rightarrow> RequestEnvelope \<Rightarrow> bool" where
  "length_in_range c e \<longleftrightarrow>
     (case (length_model c, realistic_length c) of
        (REALISTIC, Some r) \<Rightarrow> clamp_min r \<le> max_output_tokens e \<and> max_output_tokens e \<le> clamp_max r
      | _ \<Rightarrow> (let p = profile_output_tokens (profile_for_class c (request_class e)) in
          minimum p \<le> max_output_tokens e \<and> max_output_tokens e \<le> maximum p))"

lemma sample_lengths_ok:
  assumes "random_laws R" and "valid_workload c"
  shows "\<exists>n adv kind force g'. sample_lengths R c (profile_for_class c cls) g = Inr ((n, adv, kind, force), g') \<and>
    1 \<le> n \<and> (\<forall>a. adv = Some a \<longrightarrow> 1 \<le> a) \<and>
    (\<forall>e. max_output_tokens e = n \<and> request_class e = cls \<longrightarrow> length_in_range c e)"
proof (cases "length_model c = REALISTIC")
  case True
  then obtain r where r: "realistic_length c = Some r"
    using valid_workload_fields(9) [OF assms(2)] by blast
  note f = valid_workload_fields(10) [OF assms(2) r]
  obtain k g1 where k: "draw_index R (kind_fractions r) g = (k, g1)" by fastforce
  obtain x g2 where x: "draw_lognormal R (log_mu_by_kind r ! k) (log_sigma r) g1 = (x, g2)" by fastforce
  show ?thesis
    using f by (simp add: sample_lengths_def True r choose_index_def k x Let_def length_in_range_def le_max_iff_disj)
next
  case False
  let ?p = "profile_output_tokens (profile_for_class c cls)"
  obtain n g1 where n: "draw_randint R (minimum ?p) (maximum ?p) g = (n, g1)" by fastforce
  have "minimum ?p \<le> n \<and> n \<le> maximum ?p"
    using randint_law [OF assms(1) n] valid_workload_fields(7) [OF assms(2)] by blast
  then show ?thesis
    using False valid_workload_fields(6,7) [OF assms(2), of cls]
    by (cases "length_model c") (auto simp: sample_lengths_def randint_def n length_in_range_def Let_def)
qed

definition generated_ok :: "WorkloadConfig \<Rightarrow> nat \<Rightarrow> real \<Rightarrow> RequestEnvelope \<Rightarrow> bool" where
  "generated_ok c seq t e \<longleftrightarrow> valid_envelope e \<and> request_id e = request_name seq \<and>
     sequence_id e = int seq \<and> arrival_time_s e = t \<and> length_in_range c e \<and>
     backend_max_output_tokens e = None \<and>
     deadline_time_s e = t + end_to_end_slo_ms (profile_for_class c (request_class e)) / 1000"

lemma generate_one_ok:
  assumes "random_laws R" and "valid_workload c" and "0 \<le> t"
  shows "\<exists>e g'. generate_one R c seq t g = Inr (e, g') \<and> generated_ok c seq t e"
proof -
  obtain cls g1 where cls: "sample_request_class R (interactive_fraction c) g = (cls, g1)" by fastforce
  let ?p = "profile_for_class c cls"
  note f = valid_workload_fields(4-8) [OF assms(2), of cls]
  obtain inp g2 where inp: "draw_randint R (minimum (profile_input_tokens ?p)) (maximum (profile_input_tokens ?p)) g1
      = (inp, g2)" by fastforce
  have i: "1 \<le> inp"
    using randint_law [OF assms(1) inp f(2)] f(1) by linarith
  obtain n adv kind force g3 where len: "sample_lengths R c ?p g2 = Inr ((n, adv, kind, force), g3)"
    and n: "1 \<le> n" "\<forall>a. adv = Some a \<longrightarrow> 1 \<le> a"
      "\<forall>e. max_output_tokens e = n \<and> request_class e = cls \<longrightarrow> length_in_range c e"
    using sample_lengths_ok [OF assms(1,2), of cls g2] by (elim exE conjE)
  let ?e = "\<lparr>request_id = request_name seq, sequence_id = int seq, request_class = cls,
         arrival_time_s = t, input_tokens = inp, max_output_tokens = n,
         deadline_time_s = t + end_to_end_slo_ms ?p / 1000,
         advertised_cap_tokens = adv, prompt_kind = kind,
         backend_max_output_tokens = None, force_exact_output_tokens = force\<rparr>"
  have v: "valid_envelope ?e"
    using i n f(5) assms(3) by (simp add: valid_envelope_def request_name_def)
  then have init: "RequestEnvelope_init ?e = Inr ?e" by (simp only: RequestEnvelope_init_Inr)
  have r: "randint R (minimum (profile_input_tokens ?p)) (maximum (profile_input_tokens ?p)) g1 = Inr (inp, g2)"
    using f(2) by (simp add: randint_def inp)
  have "generate_one R c seq t g = Inr (?e, g3)"
    unfolding generate_one_def cls Let_def case_prod_conv r and_then.simps len init ..
  moreover have "generated_ok c seq t ?e" using v n(3) by (simp add: generated_ok_def)
  ultimately show ?thesis by blast
qed

lemma generate_from_ok:
  assumes "random_laws R" and "valid_workload c" and "\<forall>t \<in> set ts. 0 \<le> t"
  shows "\<exists>es. generate_from R c seq ts g = Inr es \<and> length es = length ts \<and>
    (\<forall>i < length ts. generated_ok c (seq + i) (ts ! i) (es ! i))"
  using assms(3)
proof (induction ts arbitrary: seq g)
  case (Cons t ts)
  obtain e g' where e: "generate_one R c seq t g = Inr (e, g')" "generated_ok c seq t e"
    using generate_one_ok [OF assms(1,2)] Cons.prems by force
  have "\<forall>t \<in> set ts. 0 \<le> t" using Cons.prems by simp
  from Cons.IH [OF this, of "Suc seq" g'] obtain es where es: "generate_from R c (Suc seq) ts g' = Inr es"
    "length es = length ts" "\<forall>i < length ts. generated_ok c (Suc seq + i) (ts ! i) (es ! i)" by blast
  have "generated_ok c (seq + i) ((t # ts) ! i) ((e # es) ! i)" if "i < length (t # ts)" for i
    using that e(2) es(3) by (cases i) auto
  with e(1) es(1,2) show ?case by simp
qed simp

lemma poisson_loop_props:
  assumes "random_laws R" and "0 < rate"
  shows "length (poisson_loop R rate n l g) = n \<and> sorted (l # poisson_loop R rate n l g)"
proof (induction n arbitrary: l g)
  case (Suc n)
  obtain gap g' where d: "draw_exponential R rate g = (gap, g')" by fastforce
  have "0 \<le> gap" using exponential_law [OF assms(1) d assms(2)] .
  with Suc [of "l + gap" g'] d show ?case by (auto simp: Let_def)
qed simp

lemma fixed_sorted: "0 < rate \<Longrightarrow> sorted (map (\<lambda>i. real i / rate) [0..<n])"
  by (simp add: sorted_map sorted_wrt_upt divide_right_mono sorted_wrt_iff_nth_less)

lemma schedule_ok:
  assumes "random_laws R" and "valid_workload c" and "arrival_process c \<noteq> BURST" and "0 < n"
  shows "\<exists>f ts. arrival_schedule_from_config R c = Inr f \<and> f n = Inr ts \<and> int (length ts) = n \<and> sorted ts \<and> hd ts = 0"
proof (cases "arrival_process c = FIXED")
  case True
  have "hd (map (\<lambda>i. real i / request_rate_rps c) [0..<nat n]) = 0"
    using assms(4) by (simp add: hd_map upt_rec)
  with True show ?thesis
    using valid_workload_fields(1) [OF assms(2)] assms(4) fixed_sorted [of "request_rate_rps c" "nat n"]
    by (simp add: arrival_schedule_from_config_def fixed_arrival_times_def)
next
  case False
  then have "arrival_process c = POISSON" using assms(3) by (cases "arrival_process c") auto
  then show ?thesis
    using valid_workload_fields(1) [OF assms(2)] assms(4)
      poisson_loop_props [OF assms(1) valid_workload_fields(1) [OF assms(2)], of "nat n - 1" 0
        "seeded R (random_seed c)"]
    by (auto simp: arrival_schedule_from_config_def poisson_arrival_times_def)
qed

lemma generate_requests_ok:
  assumes "random_laws R" and "valid_workload c" and "arrival_process c \<noteq> BURST"
  shows "\<exists>es. generate_requests R c None = Inr es \<and>
    int (length es) = warmup_requests c + total_requests c \<and>
    distinct (map request_id es) \<and> sorted (map arrival_time_s es) \<and> arrival_time_s (hd es) = 0 \<and>
    (\<forall>i < length es. generated_ok c i (arrival_time_s (es ! i)) (es ! i))"
proof -
  let ?n = "warmup_requests c + total_requests c"
  have n: "0 < ?n" using valid_workload_fields(2,3) [OF assms(2)] by simp
  obtain f ts where ts: "arrival_schedule_from_config R c = Inr f" "f ?n = Inr ts"
      "int (length ts) = ?n" "sorted ts" "hd ts = 0"
    using schedule_ok [OF assms n] by blast
  then have ne: "ts \<noteq> []" using n by auto
  then have "\<forall>t \<in> set ts. 0 \<le> t" using ts(4,5) by (cases ts) auto
  from generate_from_ok [OF assms(1,2) this, of 0 "seeded R (random_seed c)"] obtain es where
    es: "generate_from R c 0 ts (seeded R (random_seed c)) = Inr es" "length es = length ts"
      "\<And>i. i < length ts \<Longrightarrow> generated_ok c i (ts ! i) (es ! i)" by auto
  have times: "map arrival_time_s es = ts"
    using es(2,3) by (intro nth_equalityI) (auto simp: generated_ok_def)
  have names: "map request_id es = map request_name [0..<length es]"
    using es(2,3) by (intro nth_equalityI) (auto simp: generated_ok_def)
  have "arrival_time_s (hd es) = 0"
    using ts(5) ne es(2) by (metis hd_map length_0_conv times)
  moreover have "distinct (map request_id es)"
    unfolding names by (simp add: distinct_map inj_on_def request_name_inject)
  ultimately show ?thesis
    using es ts times by (intro exI [of _ es]) (auto simp: generate_requests_def)
qed


definition constant_source :: "unit random_source" where
  "constant_source = \<lparr>seeded = \<lambda>s. (), draw_random = \<lambda>g. (1/2, g), draw_randint = \<lambda>lo hi g. (lo, g),
     draw_index = \<lambda>ws g. (0, g), draw_lognormal = \<lambda>mu sigma g. (100, g),
     draw_exponential = \<lambda>rate g. (1, g)\<rparr>"

lemma constant_source_laws: "random_laws constant_source"
proof -
  have "ws \<noteq> []" if "0 < sum_list ws" for ws :: "real list" using that by auto
  then show ?thesis by (simp add: random_laws_def constant_source_def)
qed

definition sample_workload :: WorkloadConfig where
  "sample_workload =
    (let profile = \<lparr>profile_input_tokens = \<lparr>minimum = 1, maximum = 9\<rparr>,
       profile_output_tokens = \<lparr>minimum = 1, maximum = 9\<rparr>, ttft_slo_ms = 1, end_to_end_slo_ms = 9\<rparr> in
     \<lparr>arrival_process = POISSON, request_rate_rps = 1, total_requests = 2, interactive_fraction = 1/2,
      random_seed = 7, warmup_requests = 1, repetitions = 1, interactive_profile = profile,
      batch_profile = profile, length_model = REALISTIC,
      realistic_length = Some \<lparr>kinds = [''chat'', ''code''], kind_fractions = [1/2, 1/2],
        log_mu_by_kind = [4, 5], log_sigma = 1, realistic_advertised_cap_tokens = 2048,
        clamp_min = 16, clamp_max = 64, realistic_force_exact = True\<rparr>\<rparr>)"

lemma sample_workload_valid: "valid_workload sample_workload"
  by (simp add: valid_workload_def WorkloadConfig_init_def RequestProfileConfig_init_def
      TokenRangeConfig_init_def RealisticLengthConfig_init_def checked_def raise_if.simps
      sample_workload_def Let_def)


end
