(* ===== verification/Benchmark.thy ===== *)
theory Benchmark
  imports AdmissionRuns MetricsCalc DecisionLog HttpBackend Generator
begin

text \<open>
  The benchmark pipeline (src/sloserve/experiments/benchmark.py): generate a workload, place it on
  the clock, clip it, submit it to an admission queue, join the results with the telemetry of the
  backend into request records, and report what was measured.

  How the event loop interleaves the submissions, the backend and the watchers of one repetition is
  the subject of the admission theories; here that run is a parameter, \<open>serve\<close>, which is given the
  queue and the envelopes and returns what \<open>asyncio.gather\<close> returns, the decisions the queue
  recorded and the telemetry mapping. The notes of the report, in Chinese in the source, are in
  English here.
\<close>

section \<open>Placing requests on the clock\<close>

definition place_on_clock :: "real \<Rightarrow> RequestEnvelope \<Rightarrow> RequestEnvelope result" where
  "place_on_clock repetition_start_s e =
     RequestEnvelope_init
      \<lparr>request_id = request_id e, sequence_id = sequence_id e, request_class = request_class e,
       arrival_time_s = repetition_start_s + arrival_time_s e,
       input_tokens = input_tokens e, max_output_tokens = max_output_tokens e,
       deadline_time_s = repetition_start_s + deadline_time_s e,
       advertised_cap_tokens = advertised_cap_tokens e, prompt_kind = prompt_kind e,
       backend_max_output_tokens = backend_max_output_tokens e,
       force_exact_output_tokens = force_exact_output_tokens e\<rparr>"

text \<open>
  The arrival task: it reads the clock, and either sleeps for the remaining delay (and then
  submits) or submits at once.
\<close>

datatype arrival_step =
    Sleeps real
  | Submits "submitted result"

definition submit_at_arrival ::
    "QueueSettings \<Rightarrow> (nat \<Rightarrow> real) \<Rightarrow> RequestEnvelope \<Rightarrow> AdmissionQueue \<Rightarrow>
     AdmissionQueue \<times> arrival_step" where
  "submit_at_arrival q clock e s =
     (let delay_s = arrival_time_s e - clock (reads s); s1 = tick s in
      if delay_s > 0 then (s1, Sleeps delay_s)
      else let (s2, r) = submit q clock e s1 in (s2, Submits r))"

section \<open>The completeness report\<close>

record GpuSample =
  gpu_timestamp_s :: real
  gpu_utilization_percent :: real
  gpu_memory_used_mib :: real
  gpu_power_w :: "real option"

record ReportField =
  field_value :: "json option"
  missing_reason :: "string option"

definition ReportField_init :: "ReportField \<Rightarrow> ReportField result" where
  "ReportField_init f = checked
    [((field_value f = None) = (missing_reason f = None),
        ValueError ''report field must contain exactly one of value or missing_reason'')] f"

record CompletenessReport =
  scope_note :: string
  request_scope :: string
  report_metrics :: "(string \<times> ReportField) list"
  report_gpu :: "(string \<times> ReportField) list"

text \<open>The constructor accepts both forms (\<open>report_field_accepted\<close> below).\<close>

definition value_field :: "json \<Rightarrow> ReportField" where
  "value_field v = \<lparr>field_value = Some v, missing_reason = None\<rparr>"

definition missing_field :: "string \<Rightarrow> ReportField" where
  "missing_field reason = \<lparr>field_value = None, missing_reason = Some reason\<rparr>"

definition optional_field :: "real option \<Rightarrow> string \<Rightarrow> ReportField" where
  "optional_field v reason = (case v of Some x \<Rightarrow> value_field (JFloat x) | None \<Rightarrow> missing_field reason)"

definition attainment_field :: "AttainmentSummary \<Rightarrow> ReportField" where
  "attainment_field a = value_field (JObject
     [(''request_count'', JInt (int (att_request_count a))),
      (''met_count'', JInt (int (att_met_count a))), (''rate'', JFloat (att_rate a))])"

lemma report_field_accepted [simp]:
  "ReportField_init (value_field v) = Inr (value_field v)"
  "ReportField_init (missing_field r) = Inr (missing_field r)"
  by (simp_all add: ReportField_init_def value_field_def missing_field_def checked_def raise_if.simps)

definition gpu_not_collected_reason :: string where
  "gpu_not_collected_reason = ''not collected (no sampler, left for 7a-3/7b)''"

definition gpu_report :: "GpuSample list option \<Rightarrow> (string \<times> ReportField) list" where
  "gpu_report gpu_samples =
    (case gpu_samples of
       Some (s # ss) \<Rightarrow>
        (let samples = s # ss; utilization = map gpu_utilization_percent samples;
             memory = map gpu_memory_used_mib samples;
             power = List.map_filter gpu_power_w samples in
         [(''utilization_percent'', value_field (JObject
             [(''mean'', JFloat (average utilization)), (''peak'', JFloat (Max (set utilization)))])),
          (''memory_used_mib'', value_field (JObject [(''peak'', JFloat (Max (set memory)))])),
          (''power_w'', if power \<noteq> []
             then value_field (JObject
               [(''mean'', JFloat (average power)), (''peak'', JFloat (Max (set power)))])
             else missing_field ''device did not report power'')])
     | _ \<Rightarrow>
        [(''utilization_percent'', missing_field gpu_not_collected_reason),
         (''memory_used_mib'', missing_field gpu_not_collected_reason),
         (''power_w'', missing_field gpu_not_collected_reason)])"

definition latency_group :: "string \<Rightarrow> Percentiles \<Rightarrow> (string \<times> ReportField) list" where
  "latency_group group_name p =
     map (\<lambda>(percentile, v). (group_name @ ''_'' @ percentile @ ''_s'',
            optional_field v (''no formal requests eligible for '' @ group_name @ '' '' @ percentile)))
       [(''p50'', p50 p), (''p95'', p95 p), (''p99'', p99 p)]"

definition count_field :: "nat \<Rightarrow> ReportField" where
  "count_field n = value_field (JInt (int n))"

definition build_completeness_report ::
    "MetricsSummary \<Rightarrow> GpuSample list option \<Rightarrow> CompletenessReport" where
  "build_completeness_report m gpu_samples =
    \<lparr>scope_note = ''pipeline validation only, not a policy performance comparison'',
     request_scope = ''formal requests only; warmup records are persisted but excluded'',
     report_metrics =
       latency_group ''ttft'' (ms_ttft_s m) @ latency_group ''tpot'' (ms_tpot_s m) @
       latency_group ''end_to_end'' (ms_end_to_end_s m) @ latency_group ''queue_wait'' (ms_queue_wait_s m) @
       [(''formal_request_count'', count_field (ms_request_count m)),
        (''token_throughput_per_s'', optional_field (ms_token_throughput_per_s m)
           ''formal request wall-clock window is empty or zero''),
        (''success_count'', count_field (ms_success_count m)),
        (''error_count'', count_field (ms_error_count m)),
        (''timeout_count'', count_field (ms_timeout_count m)),
        (''cancelled_count'', count_field (ms_cancelled_count m)),
        (''rejected_count'', count_field (ms_rejected_count m)),
        (''clip_applied_count'', count_field (ms_clip_applied_count m)),
        (''clip_applied_rate'', optional_field (ms_clip_applied_rate m)
           ''request facts predate clipping instrumentation''),
        (''realized_truncation_count'', count_field (ms_realized_truncation_count m)),
        (''realized_truncation_rate'', optional_field (ms_realized_truncation_rate m)
           ''request facts predate clipping instrumentation''),
        (''mean_cap_reduction_tokens'', optional_field (ms_mean_cap_reduction_tokens m)
           ''no formal request had its backend output cap reduced''),
        (''terminal_count_matches_request_count'', value_field (JBool
           (ms_success_count m + ms_error_count m + ms_timeout_count m + ms_cancelled_count m
              + ms_rejected_count m = ms_request_count m))),
        (''longest_queue_wait_s'', optional_field (ms_longest_queue_wait_s m)
           ''no formal request was dispatched''),
        (''queue_wait_mean_s'', optional_field (ms_queue_wait_mean_s m)
           ''no successful formal request was dispatched''),
        (''slo_overall'', attainment_field (ms_slo_overall m)),
        (''slo_attainment_gap'', value_field (JFloat (ms_slo_attainment_gap m))),
        (''jain_fairness_index'', value_field (JFloat (ms_jain_fairness_index m)))] @
       map (\<lambda>k. (''slo_'' @ class_value k,
              case map_of (ms_slo_by_class m) k of
                Some a \<Rightarrow> attainment_field a
              | None \<Rightarrow> missing_field ''no formal requests of this class'')) [INTERACTIVE, BATCH],
     report_gpu = gpu_report gpu_samples\<rparr>"

section \<open>Joining results with telemetry\<close>

type_synonym telemetry_map = "string \<Rightarrow> HttpCallTelemetry option"

text \<open>\<open>a or b\<close> on optional strings.\<close>

definition or_string :: "string option \<Rightarrow> string option \<Rightarrow> string option" where
  "or_string a b = (case a of Some s \<Rightarrow> if s = [] then b else a | None \<Rightarrow> b)"

record join_context =
  join_policy :: SchedulerPolicyName
  join_hash :: string
  join_repetition_index :: int
  join_env_version :: string

definition join_request ::
    "join_context \<Rightarrow> telemetry_map \<Rightarrow> (int \<times> AdmissionResult) list \<Rightarrow> RequestEnvelope \<Rightarrow>
     RequestRecord result" where
  "join_request ctx telemetry_by_request results_by_sequence e =
    (case map_of results_by_sequence (sequence_id e) of
       None \<Rightarrow> Inl (RuntimeError ''missing admission result for sequence'')
     | Some r \<Rightarrow>
        (let eff = res_effective_envelope r in
         if res_request_id r \<noteq> request_id e \<or> res_request_id r \<noteq> request_id eff
         then Inl (RuntimeError ''admission result identity does not match generated request'')
         else if res_sequence_id r \<noteq> sequence_id eff
         then Inl (RuntimeError ''effective envelope sequence does not match admission result'')
         else case res_completion_time_s r of
           None \<Rightarrow> Inl (RuntimeError ''terminal admission result lacks completion time'')
         | Some completion \<Rightarrow>
            (let call = (if res_dispatch_time_s r \<noteq> None then telemetry_by_request (res_request_id r)
                         else None) in
             record_from_envelope eff (Fin (res_enqueue_time_s r))
               (map_option Fin (res_dispatch_time_s r))
               (case call of Some t \<Rightarrow> map_option Fin (tel_first_token_time_s t) | None \<Rightarrow> None)
               (Fin completion)
               (case call of Some t \<Rightarrow> tel_output_tokens t | None \<Rightarrow> 0)
               (res_status r)
               (or_string (res_error_message r) (case call of Some t \<Rightarrow> tel_error t | None \<Rightarrow> None))
               (join_policy ctx) (join_hash ctx) (join_repetition_index ctx) (join_env_version ctx)
               (case call of Some t \<Rightarrow> tel_finish_reason t | None \<Rightarrow> None))))"

definition join_repetition ::
    "join_context \<Rightarrow> RequestEnvelope list \<Rightarrow> AdmissionResult list \<Rightarrow> telemetry_map \<Rightarrow>
     RequestRecord list result" where
  "join_repetition ctx envelopes results telemetry_by_request =
    (let results_by_sequence = dict_by res_sequence_id results in
     if length results_by_sequence \<noteq> length envelopes
     then Inl (RuntimeError ''admission results do not map one-to-one to generated requests'')
     else map_result (join_request ctx telemetry_by_request results_by_sequence) envelopes)"

section \<open>A benchmark run\<close>

record 'g benchmark_world =
  world_random :: "'g random_source"
  world_load :: "string \<Rightarrow> LengthPredictor result"
  world_describe :: "real \<Rightarrow> string"
  world_hash :: "ExperimentConfig \<Rightarrow> string"
  world_start :: "nat \<Rightarrow> real"
  world_serve :: "nat \<Rightarrow> QueueSettings \<Rightarrow> AdmissionQueue \<Rightarrow> RequestEnvelope list \<Rightarrow>
    (AdmissionResult list \<times> AdaptiveAdmissionDecision list \<times> telemetry_map) result"

text \<open>The envelopes and the queue of one repetition.\<close>

definition prepare_repetition ::
    "'g benchmark_world \<Rightarrow> ExperimentConfig \<Rightarrow> OutputClipper \<Rightarrow> real \<Rightarrow> RequestEnvelope list \<Rightarrow>
     (RequestEnvelope list \<times> QueueSettings \<times> AdmissionQueue) result" where
  "prepare_repetition W c clipper start_s relative =
    (let adaptive = adaptive_clip_enabled (exp_admission c) in
     and_then (map_result (\<lambda>e. and_then (place_on_clock start_s e)
         (\<lambda>p. if adaptive then Inr p else clip_apply clipper p)) relative) (\<lambda>envelopes.
     and_then (build_policy (world_load W) (exp_router c) (exp_slo_aware c)) (\<lambda>policy.
     and_then (AdmissionQueue_init (world_describe W) (exp_router c) (exp_backend c) (Some policy)
         (if adaptive then Some (exp_admission c) else None) (if adaptive then Some clipper else None))
       (\<lambda>(q, s). Inr (envelopes, q, s)))))"

definition run_repetition ::
    "'g benchmark_world \<Rightarrow> ExperimentConfig \<Rightarrow> OutputClipper \<Rightarrow> string \<Rightarrow> nat \<Rightarrow>
     RequestRecord list \<times> AdaptiveCapDecisionRecord list \<Rightarrow>
     (RequestRecord list \<times> AdaptiveCapDecisionRecord list) result" where
  "run_repetition W c clipper env_version k = (\<lambda>(all_records, all_decisions).
     and_then (generate_requests (world_random W) (exp_workload c) None) (\<lambda>relative.
     and_then (prepare_repetition W c clipper (world_start W k) relative) (\<lambda>(envelopes, q, s).
     and_then (world_serve W k q s envelopes) (\<lambda>(results, decisions, telemetry_by_request).
     and_then (map_result (\<lambda>d. from_admission d (int k)) decisions) (\<lambda>decided_records.
     and_then (join_repetition
         \<lparr>join_policy = router_policy (exp_router c), join_hash = world_hash W c,
          join_repetition_index = int k, join_env_version = env_version\<rparr>
         envelopes results telemetry_by_request) (\<lambda>joined.
       Inr (all_records @ joined, all_decisions @ decided_records)))))))"

record BenchmarkResult =
  bench_records :: "RequestRecord list"
  bench_formal_records :: "RequestRecord list"
  bench_metrics :: MetricsSummary
  bench_record_paths :: "string option \<times> string option"
  bench_report :: CompletenessReport
  bench_report_path :: string
  bench_adaptive_decisions :: "AdaptiveCapDecisionRecord list"
  bench_decision_path :: "string option"

definition run_benchmark ::
    "'g benchmark_world \<Rightarrow> ExperimentConfig \<Rightarrow> string \<Rightarrow> GpuSample list option \<Rightarrow>
     GpuSample list option \<Rightarrow> string \<Rightarrow> BenchmarkResult result" where
  "run_benchmark W c env_version gpu_samples sampler_samples file_stem =
    (if env_version = [] then Inl (ValueError ''env_version must not be empty'')
     else
       and_then (OutputClipper_init (world_load W) (exp_admission c)) (\<lambda>clipper.
       and_then (fold_result (run_repetition W c clipper env_version)
                   [0..<nat (repetitions (exp_workload c))] ([], [])) (\<lambda>(records, decisions).
       let formal = filter (\<lambda>r. warmup_requests (exp_workload c) \<le> rec_sequence_id r) records in
       and_then (calculate_metrics (exp_workload c) formal) (\<lambda>m.
       and_then (write_request_records (exp_metrics c) file_stem) (\<lambda>paths.
       let base = output_directory (exp_metrics c) @ ''/'' @ file_stem in
       Inr \<lparr>bench_records = records, bench_formal_records = formal, bench_metrics = m,
         bench_record_paths = paths,
         bench_report = build_completeness_report m
           (if sampler_samples \<noteq> None then sampler_samples else gpu_samples),
         bench_report_path = base @ ''-completeness.json'',
         bench_adaptive_decisions = decisions,
         bench_decision_path = (if adaptive_clip_enabled (exp_admission c)
           then Some (base @ ''-adaptive-cap-decisions.jsonl'') else None)\<rparr>)))))"

end
