(* ===== verification/Sweep.thy ===== *)
theory Sweep
  imports Benchmark
begin

text \<open>
  The parameter sweep (src/sloserve/experiments/sweep.py): a base configuration, points that override
  some of its fields, one benchmark per point, and one flat row of results each.

  Reading YAML and turning a mapping into a model are the libraries' (\<open>yaml.safe_load\<close>, pydantic): the
  loader is given the parsed value, \<open>model_validate\<close> and \<open>model_dump\<close> for experiments and points, and
  \<open>load_config\<close> for a referenced file. \<open>dumps\<close> is \<open>json.dumps\<close>.
\<close>

section \<open>Points\<close>

record SweepPoint =
  sp_label :: string
  sp_policy :: "SchedulerPolicyName option"
  sp_request_rate_rps :: "real option"
  sp_random_seed :: "int option"
  sp_interactive_fraction :: "real option"
  sp_max_in_flight :: "int option"
  sp_aging_threshold_s :: "real option"
  sp_cost_weight :: "real option"
  sp_slack_weight :: "real option"
  sp_waiting_weight :: "real option"
  sp_disable_length_estimate :: "bool option"
  sp_length_source :: "LengthSource option"
  sp_length_estimator_path :: "string option"
  sp_clip_enabled :: "bool option"
  sp_clip_max_tokens :: "int option"
  sp_clip_source :: "ClipSource option"
  sp_clip_estimator_path :: "string option"
  sp_adaptive_clip_enabled :: "bool option"
  sp_adaptive_clip_signal :: "AdaptiveClipSignal option"
  sp_adaptive_clip_caps :: "int list option"
  sp_adaptive_clip_tighten_thresholds :: "real list option"
  sp_adaptive_clip_relax_thresholds :: "real list option"
  sp_adaptive_clip_ewma_tau_s :: "real option"
  sp_adaptive_clip_tighten_hold_s :: "real option"
  sp_adaptive_clip_relax_hold_s :: "real option"
  sp_adaptive_clip_capacity_rps :: "real option"
  sp_aging_levels :: "int option"
  sp_adaptive_ceiling :: "bool option"
  sp_ceiling_margin :: "real option"
  sp_ceiling_floor_s :: "real option"
  sp_ceiling_cap_s :: "real option"

text \<open>A bound of a field holds when the field is absent or its value satisfies it.\<close>

definition violates :: "'a option \<Rightarrow> ('a \<Rightarrow> bool) \<Rightarrow> bool" where
  "violates v ok = (case v of None \<Rightarrow> False | Some x \<Rightarrow> \<not> ok x)"

definition SweepPoint_init :: "SweepPoint \<Rightarrow> SweepPoint result" where
  "SweepPoint_init p = checked
    [(sp_label p = [], ValidationError ''label''),
     (violates (sp_request_rate_rps p) (\<lambda>x. x > 0), ValidationError ''request_rate_rps''),
     (violates (sp_random_seed p) (\<lambda>x. x \<ge> 0), ValidationError ''random_seed''),
     (violates (sp_interactive_fraction p) (\<lambda>x. 0 \<le> x \<and> x \<le> 1), ValidationError ''interactive_fraction''),
     (violates (sp_max_in_flight p) (\<lambda>x. x \<ge> 1), ValidationError ''max_in_flight''),
     (violates (sp_aging_threshold_s p) (\<lambda>x. x > 0), ValidationError ''aging_threshold_s''),
     (violates (sp_cost_weight p) (\<lambda>x. x \<ge> 0), ValidationError ''cost_weight''),
     (violates (sp_slack_weight p) (\<lambda>x. x \<ge> 0), ValidationError ''slack_weight''),
     (violates (sp_waiting_weight p) (\<lambda>x. x \<ge> 0), ValidationError ''waiting_weight''),
     (violates (sp_clip_max_tokens p) (\<lambda>x. x \<ge> 1), ValidationError ''clip_max_tokens''),
     (violates (sp_adaptive_clip_ewma_tau_s p) (\<lambda>x. x > 0), ValidationError ''adaptive_clip_ewma_tau_s''),
     (violates (sp_adaptive_clip_tighten_hold_s p) (\<lambda>x. x \<ge> 0), ValidationError ''adaptive_clip_tighten_hold_s''),
     (violates (sp_adaptive_clip_relax_hold_s p) (\<lambda>x. x \<ge> 0), ValidationError ''adaptive_clip_relax_hold_s''),
     (violates (sp_adaptive_clip_capacity_rps p) (\<lambda>x. x > 0), ValidationError ''adaptive_clip_capacity_rps''),
     (violates (sp_aging_levels p) (\<lambda>x. x \<ge> 1), ValidationError ''aging_levels''),
     (violates (sp_ceiling_margin p) (\<lambda>x. x > 0), ValidationError ''ceiling_margin''),
     (violates (sp_ceiling_floor_s p) (\<lambda>x. x > 0), ValidationError ''ceiling_floor_s''),
     (violates (sp_ceiling_cap_s p) (\<lambda>x. x > 0), ValidationError ''ceiling_cap_s'')] p"

record SweepDefinition =
  base_config :: ExperimentConfig
  points :: "SweepPoint list"

section \<open>The configuration of a point\<close>

text \<open>An override takes effect when it is not \<open>None\<close>, so it can never set a field to \<open>None\<close>.\<close>

definition override :: "'a option \<Rightarrow> 'a \<Rightarrow> 'a" where
  "override v current = (case v of None \<Rightarrow> current | Some x \<Rightarrow> x)"

definition override_path :: "string option \<Rightarrow> string option \<Rightarrow> string option" where
  "override_path v current = (case v of None \<Rightarrow> current | Some x \<Rightarrow> Some x)"

definition override_real :: "real option \<Rightarrow> real option \<Rightarrow> real option" where
  "override_real v current = (case v of None \<Rightarrow> current | Some x \<Rightarrow> Some x)"

definition point_router :: "SweepPoint \<Rightarrow> RouterConfig \<Rightarrow> RouterConfig" where
  "point_router p c = c\<lparr>router_policy := override (sp_policy p) (router_policy c),
     max_in_flight := override (sp_max_in_flight p) (max_in_flight c)\<rparr>"

definition point_workload :: "SweepPoint \<Rightarrow> WorkloadConfig \<Rightarrow> WorkloadConfig" where
  "point_workload p c = c\<lparr>request_rate_rps := override (sp_request_rate_rps p) (request_rate_rps c),
     random_seed := override (sp_random_seed p) (random_seed c),
     interactive_fraction := override (sp_interactive_fraction p) (interactive_fraction c)\<rparr>"

definition point_admission :: "SweepPoint \<Rightarrow> AdmissionControlConfig \<Rightarrow> AdmissionControlConfig" where
  "point_admission p c =
    \<lparr>clip_enabled = override (sp_clip_enabled p) (clip_enabled c),
     clip_max_tokens = override (sp_clip_max_tokens p) (clip_max_tokens c),
     clip_source = override (sp_clip_source p) (clip_source c),
     clip_estimator_path = override_path (sp_clip_estimator_path p) (clip_estimator_path c),
     adaptive_clip_enabled = override (sp_adaptive_clip_enabled p) (adaptive_clip_enabled c),
     adaptive_clip_signal = override (sp_adaptive_clip_signal p) (adaptive_clip_signal c),
     adaptive_clip_caps = override (sp_adaptive_clip_caps p) (adaptive_clip_caps c),
     adaptive_clip_tighten_thresholds =
       override (sp_adaptive_clip_tighten_thresholds p) (adaptive_clip_tighten_thresholds c),
     adaptive_clip_relax_thresholds =
       override (sp_adaptive_clip_relax_thresholds p) (adaptive_clip_relax_thresholds c),
     adaptive_clip_ewma_tau_s = override (sp_adaptive_clip_ewma_tau_s p) (adaptive_clip_ewma_tau_s c),
     adaptive_clip_tighten_hold_s =
       override (sp_adaptive_clip_tighten_hold_s p) (adaptive_clip_tighten_hold_s c),
     adaptive_clip_relax_hold_s =
       override (sp_adaptive_clip_relax_hold_s p) (adaptive_clip_relax_hold_s c),
     adaptive_clip_capacity_rps =
       override_real (sp_adaptive_clip_capacity_rps p) (adaptive_clip_capacity_rps c)\<rparr>"

definition point_slo_aware :: "SweepPoint \<Rightarrow> SloAwareConfig \<Rightarrow> SloAwareConfig" where
  "point_slo_aware p c = c
    \<lparr>aging_threshold_s := override (sp_aging_threshold_s p) (aging_threshold_s c),
     cost_weight := override (sp_cost_weight p) (cost_weight c),
     slack_weight := override (sp_slack_weight p) (slack_weight c),
     waiting_weight := override (sp_waiting_weight p) (waiting_weight c),
     disable_length_estimate := override (sp_disable_length_estimate p) (disable_length_estimate c),
     length_source := override (sp_length_source p) (length_source c),
     length_estimator_path := override_path (sp_length_estimator_path p) (length_estimator_path c),
     aging_levels := override (sp_aging_levels p) (aging_levels c),
     adaptive_ceiling := override (sp_adaptive_ceiling p) (adaptive_ceiling c),
     ceiling_margin := override (sp_ceiling_margin p) (ceiling_margin c),
     ceiling_floor_s := override (sp_ceiling_floor_s p) (ceiling_floor_s c),
     ceiling_cap_s := override (sp_ceiling_cap_s p) (ceiling_cap_s c)\<rparr>"

definition point_config :: "ExperimentConfig \<Rightarrow> SweepPoint \<Rightarrow> ExperimentConfig" where
  "point_config c p = c\<lparr>exp_router := point_router p (exp_router c),
     exp_workload := point_workload p (exp_workload c),
     exp_slo_aware := point_slo_aware p (exp_slo_aware c),
     exp_admission := point_admission p (exp_admission c)\<rparr>"

definition config_for_point ::
    "(string \<Rightarrow> string option \<times> int option) \<Rightarrow> ExperimentConfig \<Rightarrow> SweepPoint \<Rightarrow> ExperimentConfig result"
where
  "config_for_point urlsplit c p = ExperimentConfig_init urlsplit (point_config c p)"

section \<open>Loading a sweep\<close>

text \<open>
  \<open>_merge_mappings\<close>: a nested mapping is merged key by key, anything else is replaced. A mapping is
  an association list in insertion order.
\<close>

fun merge_mappings :: "(string \<times> json) list \<Rightarrow> (string \<times> json) list \<Rightarrow> (string \<times> json) list" where
  "merge_mappings merged [] = merged"
| "merge_mappings merged ((key, JObject inner) # rest) =
     (case map_of merged key of
        Some (JObject current) \<Rightarrow>
          merge_mappings (AList.update key (JObject (merge_mappings current inner)) merged) rest
      | _ \<Rightarrow> merge_mappings (AList.update key (JObject inner) merged) rest)"
| "merge_mappings merged ((key, v) # rest) = merge_mappings (AList.update key v merged) rest"

record loader =
  validate_experiment :: "(string \<times> json) list \<Rightarrow> ExperimentConfig result"
  dump_experiment :: "ExperimentConfig \<Rightarrow> (string \<times> json) list"
  validate_point :: "json \<Rightarrow> SweepPoint result"
  load_referenced :: "string \<Rightarrow> ExperimentConfig result"

datatype yaml_text = Unreadable | InvalidYaml | Yaml json

definition without :: "string \<Rightarrow> (string \<times> json) list \<Rightarrow> (string \<times> json) list" where
  "without key m = AList.delete key m"

text \<open>Whether a parsed value is false in a condition.\<close>

fun json_false :: "json \<Rightarrow> bool" where
  "json_false JNull = True"
| "json_false (JBool b) = (\<not> b)"
| "json_false (JInt i) = (i = 0)"
| "json_false (JFloat x) = (x = 0)"
| "json_false (JString s) = (s = [])"
| "json_false (JArray xs) = (xs = [])"
| "json_false (JObject m) = (m = [])"

definition sweep_base :: "loader \<Rightarrow> (string \<times> json) list \<Rightarrow> ExperimentConfig result" where
  "sweep_base L raw =
    (let base_reference = map_of raw ''base_config'';
         base_overrides = (case map_of raw ''base_overrides'' of None \<Rightarrow> JObject [] | Some v \<Rightarrow> v);
         sweep_raw = without ''base_overrides'' (without ''base_config'' (without ''points'' raw)) in
     case base_reference of
       Some (JString reference) \<Rightarrow>
         if sweep_raw \<noteq> [] then Inl (ValueError ''unsupported fields alongside base_config'')
         else if reference = [] then Inl (ValueError ''base_config must be a non-empty relative path'')
         else (case base_overrides of
             JObject overrides \<Rightarrow> and_then (load_referenced L reference) (\<lambda>referenced.
               validate_experiment L (merge_mappings (dump_experiment L referenced) overrides))
           | _ \<Rightarrow> Inl (ValueError ''base_overrides must be a mapping''))
     | v \<Rightarrow>
         if v = None \<or> v = Some JNull
         then if \<not> json_false base_overrides then Inl (ValueError ''base_overrides requires base_config'')
              else validate_experiment L sweep_raw
         else if sweep_raw \<noteq> [] then Inl (ValueError ''unsupported fields alongside base_config'')
         else Inl (ValueError ''base_config must be a non-empty relative path''))"

definition load_sweep_config :: "loader \<Rightarrow> yaml_text \<Rightarrow> SweepDefinition result" where
  "load_sweep_config L text_read =
    (case text_read of
       Unreadable \<Rightarrow> Inl (ValueError ''cannot read sweep configuration file'')
     | InvalidYaml \<Rightarrow> Inl (ValueError ''invalid YAML in sweep configuration file'')
     | Yaml (JObject raw) \<Rightarrow>
         (case map_of raw ''points'' of
            Some (JArray (p # ps)) \<Rightarrow>
              and_then (sweep_base L raw) (\<lambda>base.
              and_then (map_result (validate_point L) (p # ps)) (\<lambda>validated.
                Inr \<lparr>base_config = base, points = validated\<rparr>))
          | _ \<Rightarrow> Inl (ValueError ''sweep configuration points must be a non-empty list''))
     | Yaml _ \<Rightarrow> Inl (ValueError ''top-level sweep configuration must be a mapping''))"

text \<open>\<open>config.load_config\<close>, for which \<open>validate\<close> is \<open>ExperimentConfig.model_validate\<close>.\<close>

definition load_config :: "((string \<times> json) list \<Rightarrow> ExperimentConfig result) \<Rightarrow> yaml_text \<Rightarrow> ExperimentConfig result"
where
  "load_config validate text_read =
    (case text_read of
       Unreadable \<Rightarrow> Inl (ValueError ''cannot read configuration file'')
     | InvalidYaml \<Rightarrow> Inl (ValueError ''invalid YAML in configuration file'')
     | Yaml (JObject raw) \<Rightarrow> validate raw
     | Yaml _ \<Rightarrow> Inl (ValueError ''top-level configuration must be a mapping''))"

section \<open>Rows\<close>

fun length_source_value :: "LengthSource \<Rightarrow> string" where
  "length_source_value LENGTH_TRUE = ''true''"
| "length_source_value LENGTH_ADVERTISED = ''advertised''"
| "length_source_value LENGTH_LEARNED = ''learned''"

fun clip_source_value :: "ClipSource \<Rightarrow> string" where
  "clip_source_value CLIP_ADVERTISED = ''advertised''"
| "clip_source_value CLIP_LEARNED = ''learned''"

fun signal_value :: "AdaptiveClipSignal \<Rightarrow> string" where
  "signal_value QUEUE_DEPTH_EWMA = ''queue_depth_ewma''"
| "signal_value IN_SYSTEM = ''in_system''"
| "signal_value RHO_HAT = ''rho_hat''"

fun length_model_value :: "LengthModel \<Rightarrow> string" where
  "length_model_value UNIFORM_CAP = ''uniform_cap''"
| "length_model_value REALISTIC = ''realistic''"

definition class_rate :: "MetricsSummary \<Rightarrow> RequestClass \<Rightarrow> json" where
  "class_rate m k = (case map_of (ms_slo_by_class m) k of Some a \<Rightarrow> JFloat (att_rate a) | None \<Rightarrow> JNull)"

definition count_json :: "nat \<Rightarrow> json" where
  "count_json n = JInt (int n)"

definition percentile_fields :: "string \<Rightarrow> Percentiles \<Rightarrow> (string \<times> json) list" where
  "percentile_fields name p = [(name @ ''_p50_s'', optional_float (p50 p)),
     (name @ ''_p95_s'', optional_float (p95 p)), (name @ ''_p99_s'', optional_float (p99 p))]"

definition admission_fields :: "(json \<Rightarrow> string) \<Rightarrow> AdmissionControlConfig \<Rightarrow> (string \<times> json) list" where
  "admission_fields dumps c =
    [(''clip_enabled'', JBool (clip_enabled c)), (''clip_max_tokens'', JInt (clip_max_tokens c)),
     (''clip_source'', JString (clip_source_value (clip_source c))),
     (''clip_estimator_path'', optional_string (clip_estimator_path c)),
     (''adaptive_clip_enabled'', JBool (adaptive_clip_enabled c)),
     (''adaptive_clip_signal'', JString (signal_value (adaptive_clip_signal c))),
     (''adaptive_clip_caps'', JString (dumps (JArray (map JInt (adaptive_clip_caps c))))),
     (''adaptive_clip_tighten_thresholds'',
        JString (dumps (JArray (map JFloat (adaptive_clip_tighten_thresholds c))))),
     (''adaptive_clip_relax_thresholds'',
        JString (dumps (JArray (map JFloat (adaptive_clip_relax_thresholds c))))),
     (''adaptive_clip_ewma_tau_s'', JFloat (adaptive_clip_ewma_tau_s c)),
     (''adaptive_clip_tighten_hold_s'', JFloat (adaptive_clip_tighten_hold_s c)),
     (''adaptive_clip_relax_hold_s'', JFloat (adaptive_clip_relax_hold_s c)),
     (''adaptive_clip_capacity_rps'', optional_float (adaptive_clip_capacity_rps c))]"

definition realistic_fields ::
    "(json \<Rightarrow> string) \<Rightarrow> RealisticLengthConfig option \<Rightarrow> (string \<times> json) list" where
  "realistic_fields dumps realistic =
    (let field = (\<lambda>f. case realistic of None \<Rightarrow> JNull | Some r \<Rightarrow> f r) in
    [(''prompt_kinds'', field (\<lambda>r. JString (dumps (JArray (map JString (kinds r)))))),
     (''prompt_kind_fractions'', field (\<lambda>r. JString (dumps (JArray (map JFloat (kind_fractions r)))))),
     (''log_mu_by_kind'', field (\<lambda>r. JString (dumps (JArray (map JFloat (log_mu_by_kind r)))))),
     (''log_sigma'', field (\<lambda>r. JFloat (log_sigma r))),
     (''advertised_cap_tokens'', field (\<lambda>r. JInt (realistic_advertised_cap_tokens r))),
     (''clamp_min'', field (\<lambda>r. JInt (clamp_min r))),
     (''clamp_max'', field (\<lambda>r. JInt (clamp_max r))),
     (''force_exact_output_tokens'',
        JBool (case realistic of None \<Rightarrow> False | Some r \<Rightarrow> realistic_force_exact r))])"

definition metric_fields :: "MetricsSummary \<Rightarrow> (string \<times> json) list" where
  "metric_fields m =
    [(''request_count'', count_json (ms_request_count m)),
     (''success_count'', count_json (ms_success_count m)),
     (''error_count'', count_json (ms_error_count m)),
     (''timeout_count'', count_json (ms_timeout_count m)),
     (''cancelled_count'', count_json (ms_cancelled_count m)),
     (''rejected_count'', count_json (ms_rejected_count m)),
     (''success_output_tokens'', JInt (ms_success_output_tokens m)),
     (''wall_clock_window_s'', optional_float (ms_wall_clock_window_s m)),
     (''token_throughput_per_s'', optional_float (ms_token_throughput_per_s m))]
    @ percentile_fields ''ttft'' (ms_ttft_s m) @ percentile_fields ''tpot'' (ms_tpot_s m)
    @ percentile_fields ''end_to_end'' (ms_end_to_end_s m) @ percentile_fields ''queue_wait'' (ms_queue_wait_s m)
    @ [(''queue_wait_mean_s'', optional_float (ms_queue_wait_mean_s m)),
     (''longest_queue_wait_s'', optional_float (ms_longest_queue_wait_s m)),
     (''clip_applied_count'', count_json (ms_clip_applied_count m)),
     (''clip_applied_rate'', optional_float (ms_clip_applied_rate m)),
     (''realized_truncation_count'', count_json (ms_realized_truncation_count m)),
     (''realized_truncation_rate'', optional_float (ms_realized_truncation_rate m)),
     (''mean_cap_reduction_tokens'', optional_float (ms_mean_cap_reduction_tokens m)),
     (''slo_overall_rate'', JFloat (att_rate (ms_slo_overall m))),
     (''slo_interactive_rate'', class_rate m INTERACTIVE),
     (''slo_batch_rate'', class_rate m BATCH),
     (''slo_attainment_gap'', JFloat (ms_slo_attainment_gap m)),
     (''jain_fairness_index'', JFloat (ms_jain_fairness_index m))]"

definition metric_row ::
    "(json \<Rightarrow> string) \<Rightarrow> string \<Rightarrow> ExperimentConfig \<Rightarrow> MetricsSummary \<Rightarrow> (string \<times> json) list" where
  "metric_row dumps label c m =
    (let slo = exp_slo_aware c; workload = exp_workload c in
    [(''label'', JString label),
     (''policy'', JString (policy_value (router_policy (exp_router c)))),
     (''request_rate_rps'', JFloat (request_rate_rps workload)),
     (''random_seed'', JInt (random_seed workload)),
     (''interactive_fraction'', JFloat (interactive_fraction workload)),
     (''max_in_flight'', JInt (max_in_flight (exp_router c))),
     (''aging_threshold_s'', JFloat (aging_threshold_s slo)),
     (''cost_weight'', JFloat (cost_weight slo)), (''slack_weight'', JFloat (slack_weight slo)),
     (''waiting_weight'', JFloat (waiting_weight slo)),
     (''disable_length_estimate'', JBool (disable_length_estimate slo)),
     (''length_source'', JString (length_source_value (length_source slo))),
     (''length_estimator_path'', optional_string (length_estimator_path slo))]
    @ admission_fields dumps (exp_admission c)
    @ [(''length_model'', JString (length_model_value (length_model workload)))]
    @ realistic_fields dumps (realistic_length workload)
    @ [(''aging_levels'', JInt (aging_levels slo)), (''adaptive_ceiling'', JBool (adaptive_ceiling slo)),
     (''ceiling_margin'', JFloat (ceiling_margin slo)), (''ceiling_floor_s'', JFloat (ceiling_floor_s slo)),
     (''ceiling_cap_s'', JFloat (ceiling_cap_s slo))]
    @ metric_fields m)"

definition SWEEP_RESULT_COLUMNS :: "string list" where
  "SWEEP_RESULT_COLUMNS =
    [''label'', ''policy'', ''request_rate_rps'', ''random_seed'', ''interactive_fraction'',
     ''max_in_flight'', ''aging_threshold_s'', ''cost_weight'', ''slack_weight'', ''waiting_weight'',
     ''disable_length_estimate'', ''length_source'', ''length_estimator_path'', ''clip_enabled'',
     ''clip_max_tokens'', ''clip_source'', ''clip_estimator_path'', ''adaptive_clip_enabled'',
     ''adaptive_clip_signal'', ''adaptive_clip_caps'', ''adaptive_clip_tighten_thresholds'',
     ''adaptive_clip_relax_thresholds'', ''adaptive_clip_ewma_tau_s'', ''adaptive_clip_tighten_hold_s'',
     ''adaptive_clip_relax_hold_s'', ''adaptive_clip_capacity_rps'', ''length_model'', ''prompt_kinds'',
     ''prompt_kind_fractions'', ''log_mu_by_kind'', ''log_sigma'', ''advertised_cap_tokens'', ''clamp_min'',
     ''clamp_max'', ''force_exact_output_tokens'', ''aging_levels'', ''adaptive_ceiling'',
     ''ceiling_margin'', ''ceiling_floor_s'', ''ceiling_cap_s'', ''request_count'', ''success_count'',
     ''error_count'', ''timeout_count'', ''cancelled_count'', ''rejected_count'',
     ''success_output_tokens'', ''wall_clock_window_s'', ''token_throughput_per_s'', ''ttft_p50_s'',
     ''ttft_p95_s'', ''ttft_p99_s'', ''tpot_p50_s'', ''tpot_p95_s'', ''tpot_p99_s'', ''end_to_end_p50_s'',
     ''end_to_end_p95_s'', ''end_to_end_p99_s'', ''queue_wait_p50_s'', ''queue_wait_p95_s'',
     ''queue_wait_p99_s'', ''queue_wait_mean_s'', ''longest_queue_wait_s'', ''clip_applied_count'',
     ''clip_applied_rate'', ''realized_truncation_count'', ''realized_truncation_rate'',
     ''mean_cap_reduction_tokens'', ''slo_overall_rate'', ''slo_interactive_rate'', ''slo_batch_rate'',
     ''slo_attainment_gap'', ''jain_fairness_index'']"

text \<open>\<open>csv.DictWriter\<close>: a row with a key that is no column raises; a missing key is an empty cell.\<close>

definition csv_result_row :: "conversions \<Rightarrow> (string \<times> json) list \<Rightarrow> string list result" where
  "csv_result_row conv row =
     (if set (map fst row) \<subseteq> set SWEEP_RESULT_COLUMNS
      then Inr (map (\<lambda>n. case map_of row n of Some v \<Rightarrow> csv_cell conv v | None \<Rightarrow> []) SWEEP_RESULT_COLUMNS)
      else Inl (ValueError ''dict contains fields not in fieldnames''))"

section \<open>File names\<close>

definition ascii_alnum :: "char \<Rightarrow> bool" where
  "ascii_alnum ch \<longleftrightarrow> (let n = of_char ch :: nat in
     48 \<le> n \<and> n \<le> 57 \<or> 65 \<le> n \<and> n \<le> 90 \<or> 97 \<le> n \<and> n \<le> 122)"

text \<open>\<open>re.sub("[^a-zA-Z0-9]+", "-", s)\<close>: each run of other characters becomes one dash.\<close>

fun dash_runs :: "bool \<Rightarrow> string \<Rightarrow> string" where
  "dash_runs in_run [] = []"
| "dash_runs in_run (ch # cs) =
     (if ascii_alnum ch then ch # dash_runs False cs
      else if in_run then dash_runs True cs else CHR ''-'' # dash_runs True cs)"

definition strip_dashes :: "string \<Rightarrow> string" where
  "strip_dashes s = rev (dropWhile (\<lambda>ch. ch = CHR ''-'') (rev (dropWhile (\<lambda>ch. ch = CHR ''-'') s)))"

definition ascii_lower :: "char \<Rightarrow> char" where
  "ascii_lower ch = (let n = of_char ch :: nat in if 65 \<le> n \<and> n \<le> 90 then char_of (n + 32) else ch)"

definition slug :: "string \<Rightarrow> string" where
  "slug label = (let s = map ascii_lower (strip_dashes (dash_runs False label)) in
     if s = [] then ''point'' else s)"

definition file_stem :: "nat \<Rightarrow> string \<Rightarrow> string" where
  "file_stem index label = ''sweep-'' @ zero_padded 3 index @ ''-'' @ slug label"

section \<open>Running a sweep\<close>

record SweepResult =
  sweep_rows :: "(string \<times> json) list list"
  sweep_csv :: "string list \<times> string list list"
  sweep_csv_path :: string
  sweep_json_path :: string

definition run_point ::
    "(string \<Rightarrow> string option \<times> int option) \<Rightarrow> (json \<Rightarrow> string) \<Rightarrow> (nat \<Rightarrow> 'g benchmark_world) \<Rightarrow>
     (nat \<Rightarrow> GpuSample list option) \<Rightarrow> ExperimentConfig \<Rightarrow> string \<Rightarrow> nat \<times> SweepPoint \<Rightarrow>
     (string \<times> json) list result" where
  "run_point urlsplit dumps worlds samples base env_version = (\<lambda>(index, p).
     and_then (config_for_point urlsplit base p) (\<lambda>c.
     and_then (run_benchmark (worlds index) c env_version None (samples index) (file_stem index (sp_label p)))
       (\<lambda>b. Inr (metric_row dumps (sp_label p) c (bench_metrics b)))))"

definition run_sweep ::
    "conversions \<Rightarrow> (string \<Rightarrow> string option \<times> int option) \<Rightarrow> (json \<Rightarrow> string) \<Rightarrow>
     (nat \<Rightarrow> 'g benchmark_world) \<Rightarrow> (nat \<Rightarrow> GpuSample list option) \<Rightarrow> ExperimentConfig \<Rightarrow>
     SweepPoint list \<Rightarrow> string \<Rightarrow> SweepResult result" where
  "run_sweep conv urlsplit dumps worlds samples base ps env_version =
    (if env_version = [] then Inl (ValueError ''env_version must not be empty'')
     else if ps = [] then Inl (ValueError ''points must not be empty'')
     else
       and_then (map_result (run_point urlsplit dumps worlds samples base env_version)
                   (zip [0..<length ps] ps)) (\<lambda>rows.
       and_then (map_result (csv_result_row conv) rows) (\<lambda>cells.
       let dir = output_directory (exp_metrics base) in
       Inr \<lparr>sweep_rows = rows, sweep_csv = (SWEEP_RESULT_COLUMNS, cells),
         sweep_csv_path = dir @ ''/sweep-results.csv'', sweep_json_path = dir @ ''/sweep-results.json''\<rparr>)))"

end
