(* ===== verification/BenchmarkProperties.thy ===== *)
theory BenchmarkProperties
  imports Benchmark AdmissionProperties
begin

text \<open>
  What the benchmark pipeline keeps from the queue to the records: one valid record per generated
  request, in order, or an exception; a report that leaves no figure unexplained.
\<close>

section \<open>What became of a submission\<close>

lemma submit_outcome:
  assumes w: "wf q clock s" and clk: "mono clock" and q: "settings_ok q" and e: "valid_envelope e"
    and r: "submit q clock e s = (s', Inr x)"
  shows "case x of Rejected r \<Rightarrow> r = rejection e (clock (reads s)) (clock (Suc (reads s)))
    | Enqueued i \<Rightarrow> i < length (objects s') \<and> same_request e (envelope (objects s' ! i))"
proof -
  obtain s1 r1 where s1: "submit q clock e s = (s1, r1)"
    and full: "started s \<and> \<not> closing s \<and> \<not> closed s \<Longrightarrow> capacity q \<le> int (length (waiting s)) \<Longrightarrow>
      r1 = Inr (Rejected (rejection e (clock (reads s)) (clock (Suc (reads s)))))"
    and room: "started s \<and> \<not> closing s \<and> \<not> closed s \<Longrightarrow> int (length (waiting s)) < capacity q \<Longrightarrow>
      r1 = Inr (Enqueued (length (objects s))) \<and> length (objects s1) = Suc (length (objects s)) \<and>
      same_request e (envelope (objects s1 ! length (objects s)))"
    and shut: "\<not> (started s \<and> \<not> closing s \<and> \<not> closed s) \<Longrightarrow>
      r1 = Inl (RuntimeError ''admission queue is not accepting requests'')"
    by (rule submit_ok [OF w clk q e]) blast
  with r shut have op: "started s \<and> \<not> closing s \<and> \<not> closed s" by auto
  show ?thesis
  proof (cases "capacity q \<le> int (length (waiting s))")
    case True
    with full [OF op] s1 r show ?thesis by auto
  next
    case False
    with room [OF op] s1 r show ?thesis by auto
  qed
qed

lemma run_submissions:
  assumes "admission_run q clock s0 tr s" and "start_ok_queue q s0" and "mono clock"
  shows "\<forall>e x. (Submit e, Inr (Some x)) \<in> set tr \<longrightarrow> valid_envelope e \<and>
    (case x of Rejected r \<Rightarrow> \<exists>k. r = rejection e (clock k) (clock (Suc k))
     | Enqueued i \<Rightarrow> i < length (objects s) \<and> same_request e (envelope (objects s ! i)))"
  using assms(1)
proof induction
  case (run_event tr s ev s' r)
  note w = run_wf [OF run_event.hyps(1) assms(2,3)]
  have lat: "later s s'"
    using perform_ok [OF w(1) assms(3) w(2) run_event.hyps(2-4)] by blast
  show ?case
  proof (intro allI impI)
    fix e x assume m: "(Submit e, Inr (Some x)) \<in> set (tr @ [(ev, r)])"
    show "valid_envelope e \<and>
      (case x of Rejected r \<Rightarrow> \<exists>k. r = rejection e (clock k) (clock (Suc k))
       | Enqueued i \<Rightarrow> i < length (objects s') \<and> same_request e (envelope (objects s' ! i)))"
    proof (cases "(Submit e, Inr (Some x)) \<in> set tr")
      case True
      then have old: "valid_envelope e \<and>
        (case x of Rejected r \<Rightarrow> \<exists>k. r = rejection e (clock k) (clock (Suc k))
         | Enqueued i \<Rightarrow> i < length (objects s) \<and> same_request e (envelope (objects s ! i)))"
        using run_event.IH by blast
      moreover have "i < length (objects s') \<and> same_request (envelope (objects s ! i)) (envelope (objects s' ! i))"
        if "i < length (objects s)" for i
        using lat that by (auto simp: later_def settled_def)
      ultimately show ?thesis by (cases x) (auto intro: same_request_trans)
    next
      case False
      with m have "ev = Submit e" "r = Inr (Some x)" by auto
      with run_event.hyps(3,4) have "valid_envelope e" "submit q clock e s = (s', Inr x)"
        by (auto simp: and_do_def split: prod.splits sum.splits)
      then show ?thesis using submit_outcome [OF w(1) assms(3) w(2)] by (cases x) fastforce+
    qed
  qed
qed simp

text \<open>The result \<open>submit\<close> returned to the arrival task of \<open>e\<close>, over a whole run.\<close>

definition served ::
    "(event \<times> submitted option result) list \<Rightarrow> AdmissionQueue \<Rightarrow> RequestEnvelope \<Rightarrow> AdmissionResult \<Rightarrow> bool"
where
  "served tr s e r \<longleftrightarrow> (Submit e, Inr (Some (Rejected r))) \<in> set tr \<or>
     (\<exists>i. (Submit e, Inr (Some (Enqueued i))) \<in> set tr \<and> result_future (objects s ! i) = Some r)"

lemma served_result:
  assumes "admission_run q clock s0 tr s" and "start_ok_queue q s0" and "mono clock" and "served tr s e r"
  shows "valid_envelope e" and "same_request e (res_effective_envelope r)"
    and "valid_envelope (res_effective_envelope r)"
    and "res_request_id r = request_id e" and "res_sequence_id r = sequence_id e"
    and "\<exists>t. res_completion_time_s r = Some t \<and> res_enqueue_time_s r \<le> t \<and>
      (\<forall>d. res_dispatch_time_s r = Some d \<longrightarrow> res_enqueue_time_s r \<le> d \<and> d \<le> t)"
    and "res_status r = SUCCESS \<Longrightarrow> res_dispatch_time_s r \<noteq> None"
    and "res_error_message r = None \<longleftrightarrow> res_status r = SUCCESS"
proof -
  note sub = run_submissions [OF assms(1-3)]
  have "valid_envelope e \<and> same_request e (res_effective_envelope r) \<and> valid_envelope (res_effective_envelope r) \<and>
    res_request_id r = request_id (res_effective_envelope r) \<and>
    res_sequence_id r = sequence_id (res_effective_envelope r) \<and>
    (\<exists>t. res_completion_time_s r = Some t \<and> res_enqueue_time_s r \<le> t \<and>
      (\<forall>d. res_dispatch_time_s r = Some d \<longrightarrow> res_enqueue_time_s r \<le> d \<and> d \<le> t)) \<and>
    (res_status r = SUCCESS \<longrightarrow> res_dispatch_time_s r \<noteq> None) \<and>
    (res_error_message r = None \<longleftrightarrow> res_status r = SUCCESS)"
    using assms(4) unfolding served_def
  proof (elim disjE exE conjE)
    assume "(Submit e, Inr (Some (Rejected r))) \<in> set tr"
    then obtain k where "valid_envelope e" "r = rejection e (clock k) (clock (Suc k))"
      using sub by fastforce
    with assms(3) show ?thesis by (simp add: rejection_def mono_iff_le_Suc)
  next
    fix i assume i: "(Submit e, Inr (Some (Enqueued i))) \<in> set tr" "result_future (objects s ! i) = Some r"
    then have e: "valid_envelope e" "i < length (objects s)" "same_request e (envelope (objects s ! i))"
      using sub by fastforce+
    have "entry_times q clock (reads s) (objects s ! i)"
      using run_wf(1) [OF assms(1-3)] inv_entry e(2) by (auto simp: wf_def)
    with i(2) e show ?thesis by (auto simp: entry_times_def result_ok_def)
  qed
  then show "valid_envelope e" "same_request e (res_effective_envelope r)"
    "valid_envelope (res_effective_envelope r)"
    "res_request_id r = request_id e" "res_sequence_id r = sequence_id e"
    "\<exists>t. res_completion_time_s r = Some t \<and> res_enqueue_time_s r \<le> t \<and>
      (\<forall>d. res_dispatch_time_s r = Some d \<longrightarrow> res_enqueue_time_s r \<le> d \<and> d \<le> t)"
    "res_status r = SUCCESS \<Longrightarrow> res_dispatch_time_s r \<noteq> None"
    "res_error_message r = None \<longleftrightarrow> res_status r = SUCCESS"
    using same_request_fields by auto
qed

section \<open>The record of a request\<close>

definition joined_record ::
    "join_context \<Rightarrow> HttpCallTelemetry option \<Rightarrow> AdmissionResult \<Rightarrow> real \<Rightarrow> RequestRecord" where
  "joined_record ctx call r completion =
    (let eff = res_effective_envelope r in
     \<lparr>rec_request_id = request_id eff, rec_sequence_id = sequence_id eff,
      rec_request_class = request_class eff, rec_arrival_time_s = arrival_time_s eff,
      rec_enqueue_time_s = res_enqueue_time_s r, rec_dispatch_time_s = res_dispatch_time_s r,
      rec_first_token_time_s = (case call of Some t \<Rightarrow> tel_first_token_time_s t | None \<Rightarrow> None),
      rec_completion_time_s = completion, rec_input_tokens = input_tokens eff,
      rec_output_tokens = (case call of Some t \<Rightarrow> tel_output_tokens t | None \<Rightarrow> 0),
      rec_status = res_status r,
      rec_error_type = or_string (res_error_message r) (case call of Some t \<Rightarrow> tel_error t | None \<Rightarrow> None),
      rec_policy_name = join_policy ctx, rec_config_hash = join_hash ctx,
      rec_repetition_index = join_repetition_index ctx, rec_env_version = join_env_version ctx,
      rec_requested_output_tokens = Some (max_output_tokens eff),
      rec_backend_max_output_tokens = Some (effective_max_output_tokens eff),
      rec_finish_reason = (case call of Some t \<Rightarrow> tel_finish_reason t | None \<Rightarrow> None)\<rparr>)"

definition call_of :: "telemetry_map \<Rightarrow> AdmissionResult \<Rightarrow> HttpCallTelemetry option" where
  "call_of calls r = (if res_dispatch_time_s r \<noteq> None then calls (res_request_id r) else None)"

lemma RequestRecord_init_Fin: "RequestRecord_init (map_times Fin r) = Inr r' \<longleftrightarrow> r' = r \<and> valid_record r"
  by (auto simp: valid_record_def RequestRecord_init_def and_then_Inr raise_simps Let_def)

lemma join_request_Inr:
  assumes "map_of rs (sequence_id e) = Some r"
  shows "join_request ctx calls rs e = Inr rec \<longleftrightarrow>
    res_request_id r = request_id e \<and> res_request_id r = request_id (res_effective_envelope r) \<and>
    res_sequence_id r = sequence_id (res_effective_envelope r) \<and>
    (\<exists>t. res_completion_time_s r = Some t \<and> rec = joined_record ctx (call_of calls r) r t \<and>
      valid_record rec)"
proof -
  have raw: "record_from_envelope (res_effective_envelope r) (Fin (res_enqueue_time_s r))
      (map_option Fin (res_dispatch_time_s r))
      (case call_of calls r of Some t \<Rightarrow> map_option Fin (tel_first_token_time_s t) | None \<Rightarrow> None) (Fin t)
      (case call_of calls r of Some t \<Rightarrow> tel_output_tokens t | None \<Rightarrow> 0) (res_status r)
      (or_string (res_error_message r) (case call_of calls r of Some t \<Rightarrow> tel_error t | None \<Rightarrow> None))
      (join_policy ctx) (join_hash ctx) (join_repetition_index ctx) (join_env_version ctx)
      (case call_of calls r of Some t \<Rightarrow> tel_finish_reason t | None \<Rightarrow> None)
    = RequestRecord_init (map_times Fin (joined_record ctx (call_of calls r) r t))" for t
    by (simp add: record_from_envelope_def joined_record_def map_times_def Let_def split: option.split)
  show ?thesis
    unfolding join_request_def Let_def call_of_def [symmetric]
    by (cases "res_completion_time_s r") (auto simp: assms raw RequestRecord_init_Fin)
qed

text \<open>
  What the join needs of the telemetry of a dispatched request: times within the call, and for a
  success a first token; texts that are present are not empty.
\<close>

definition call_consistent :: "AdmissionResult \<Rightarrow> HttpCallTelemetry option \<Rightarrow> bool" where
  "call_consistent r call \<longleftrightarrow>
     res_error_message r \<noteq> Some [] \<and> (res_status r = SUCCESS \<longrightarrow> call \<noteq> None) \<and>
     (\<forall>t. call = Some t \<longrightarrow>
        0 \<le> tel_output_tokens t \<and> tel_finish_reason t \<noteq> Some [] \<and>
        (res_status r = SUCCESS \<longrightarrow> tel_first_token_time_s t \<noteq> None \<and> tel_error t \<noteq> Some []) \<and>
        (\<forall>f. tel_first_token_time_s t = Some f \<longrightarrow> 1 \<le> tel_output_tokens t \<and>
           (\<forall>d. res_dispatch_time_s r = Some d \<longrightarrow> d \<le> f) \<and>
           (\<forall>c. res_completion_time_s r = Some c \<longrightarrow> f \<le> c)))"

definition context_ok :: "join_context \<Rightarrow> bool" where
  "context_ok ctx \<longleftrightarrow> is_sha256 (join_hash ctx) \<and> 0 \<le> join_repetition_index ctx \<and> join_env_version ctx \<noteq> []"

lemma joined_record_valid:
  assumes "context_ok ctx" and eff: "valid_envelope (res_effective_envelope r)"
    and c: "call_consistent r (call_of calls r)"
    and t: "res_enqueue_time_s r \<le> t" "res_completion_time_s r = Some t"
      "\<forall>d. res_dispatch_time_s r = Some d \<longrightarrow> res_enqueue_time_s r \<le> d \<and> d \<le> t"
    and arr: "arrival_time_s (res_effective_envelope r) \<le> res_enqueue_time_s r"
    and st: "res_status r = SUCCESS \<longrightarrow> res_dispatch_time_s r \<noteq> None"
      "res_error_message r = None \<longleftrightarrow> res_status r = SUCCESS"
  shows "valid_record (joined_record ctx (call_of calls r) r t)"
proof -
  let ?rec = "joined_record ctx (call_of calls r) r t"
  have v: "request_id (res_effective_envelope r) \<noteq> []" "0 \<le> sequence_id (res_effective_envelope r)"
    "1 \<le> input_tokens (res_effective_envelope r)" "0 \<le> arrival_time_s (res_effective_envelope r)"
    using eff by (simp_all add: valid_envelope_def)
  note b = effective_bounds [OF eff]
  have err: "or_string (res_error_message r) (case call_of calls r of Some t \<Rightarrow> tel_error t | None \<Rightarrow> None) \<noteq> Some []"
    using c st(2) by (cases "res_error_message r"; cases "call_of calls r") (auto simp: or_string_def call_consistent_def)
  have "raise_if (identity_guards ?rec) = None"
    using assms(1) v b err c
    by (cases "call_of calls r")
      (auto simp: raise_simps identity_guards_def joined_record_def Let_def context_ok_def call_consistent_def)
  moreover have "raise_if (finite_guards (map_times Fin ?rec)) = None"
    using v arr t by (auto simp: raise_simps finite_guards_def joined_record_def Let_def split: option.splits)
  moreover have "raise_if (timeline_guards ?rec) = None"
    using arr t st(1) c
    by (cases "res_dispatch_time_s r"; cases "call_of calls r"; cases "res_status r = SUCCESS")
      (auto simp: raise_simps timeline_guards_def joined_record_def Let_def call_of_def call_consistent_def
        split: option.splits dest!: sym [of "Some _" "tel_first_token_time_s _"])
  ultimately show ?thesis
    by (auto simp: valid_record_def RequestRecord_init_def and_then_Inr raise_simps Let_def)
qed

lemma lookup_result:
  assumes "distinct (map sequence_id es)" and "list_all2 (\<lambda>e r. res_sequence_id r = sequence_id e) es rs"
    and "i < length es"
  shows "map_of (dict_by res_sequence_id rs) (sequence_id (es ! i)) = Some (rs ! i)"
    and "length (dict_by res_sequence_id rs) = length es"
proof -
  have ids: "map res_sequence_id rs = map sequence_id es"
    using assms(2) by (auto simp: list_all2_conv_all_nth intro: nth_equalityI)
  then have d: "distinct (map res_sequence_id rs)" using assms(1) by simp
  have i: "i < length rs" "res_sequence_id (rs ! i) = sequence_id (es ! i)"
    using assms(2,3) by (simp_all add: list_all2_conv_all_nth)
  show "map_of (dict_by res_sequence_id rs) (sequence_id (es ! i)) = Some (rs ! i)"
    using dict_by_lookup [OF d, of "rs ! i"] i by simp
  have "length rs = length es" using assms(2) by (rule list_all2_lengthD [symmetric])
  moreover have "card (res_sequence_id ` set rs) = length rs" using d by (metis distinct_card length_map set_map)
  ultimately show "length (dict_by res_sequence_id rs) = length es" by (simp add: dict_by_length)
qed


lemma sample_served:
  obtains tr s r r' where "admission_run sample_queue sample_clock (queue_start None) tr s"
    and "served tr s (sample_env 0) r" "served tr s (sample_env 2) r'"
    and "res_status r = SUCCESS" "res_error_message r = None" "res_enqueue_time_s r = 0"
      "res_dispatch_time_s r = Some 3" "res_completion_time_s r = Some 8"
    and "res_status r' = REJECTED" "res_dispatch_time_s r' = None" "res_enqueue_time_s r' = 5"
      "res_error_message r' = Some ''admission waiting queue is full''"
proof -
  have "\<exists>tr s r r'. run_events sample_queue sample_clock
      [Start, Submit (sample_env 0), Submit (sample_env 1), Submit (sample_env 2), BackendEnds 0 Returned]
      (queue_start None) = Some (tr, s) \<and>
    tr ! 1 = (Submit (sample_env 0), Inr (Some (Enqueued 0))) \<and> result_future (objects s ! 0) = Some r \<and>
    tr ! 3 = (Submit (sample_env 2), Inr (Some (Rejected r'))) \<and> length tr = 5 \<and>
    res_status r = SUCCESS \<and> res_error_message r = None \<and> res_enqueue_time_s r = 0 \<and>
    res_dispatch_time_s r = Some 3 \<and> res_completion_time_s r = Some 8 \<and> res_status r' = REJECTED \<and>
    res_dispatch_time_s r' = None \<and> res_enqueue_time_s r' = 5 \<and>
    res_error_message r' = Some ''admission waiting queue is full''"
    by (simp add: queue_eval admit_available.simps sample_env_valid run_backend_def Let_def
      final_message_def rejection_def)
  then obtain tr s r r' where t: "run_events sample_queue sample_clock
      [Start, Submit (sample_env 0), Submit (sample_env 1), Submit (sample_env 2), BackendEnds 0 Returned]
      (queue_start None) = Some (tr, s)"
    "tr ! 1 = (Submit (sample_env 0), Inr (Some (Enqueued 0)))" "result_future (objects s ! 0) = Some r"
    "tr ! 3 = (Submit (sample_env 2), Inr (Some (Rejected r')))" "length tr = 5"
    and r: "res_status r = SUCCESS" "res_error_message r = None" "res_enqueue_time_s r = 0"
      "res_dispatch_time_s r = Some 3" "res_completion_time_s r = Some 8"
      "res_status r' = REJECTED" "res_dispatch_time_s r' = None" "res_enqueue_time_s r' = 5"
      "res_error_message r' = Some ''admission waiting queue is full''"
    by (elim exE conjE)
  have "tr ! 1 \<in> set tr" "tr ! 3 \<in> set tr" using t(5) by simp_all
  then have "served tr s (sample_env 0) r" "served tr s (sample_env 2) r'"
    using t(2-4) unfolding served_def by auto
  then show ?thesis using that run_events_run [OF t(1)] r by blast
qed

definition sample_call :: HttpCallTelemetry where
  "sample_call = \<lparr>tel_first_token_time_s = Some 5, tel_output_tokens = 7, tel_http_status = Some 200,
     tel_finish_reason = Some ''length'', tel_error = None\<rparr>"

definition sample_context :: join_context where
  "sample_context = \<lparr>join_policy = FCFS, join_hash = replicate 64 CHR ''a'', join_repetition_index = 0,
     join_env_version = ''v''\<rparr>"

lemma sample_context_ok: "context_ok sample_context"
  by (simp add: context_ok_def sample_context_def is_sha256_def list_all_iff)


section \<open>Answers that lose a run\<close>

lemma map_result_Inl: "x \<in> set xs \<Longrightarrow> (\<And>y. f x \<noteq> Inr y) \<Longrightarrow> \<exists>e. map_result f xs = Inl e"
proof (induction xs)
  case (Cons a xs)
  then show ?case by (cases "f a"; cases "map_result f xs") auto
qed simp

lemma no_first_token: "http_send loads clock (Responds code True m [data_prefix @ ''[DONE]''] fin) = (t, Returned)
  \<Longrightarrow> tel_first_token_time_s t = None \<and> tel_output_tokens t = 0"
  by (auto simp: data_prefix_def finish_stream_def new_telemetry_def Let_def)



section \<open>The report\<close>

definition fields_ok :: "(string \<times> ReportField) list \<Rightarrow> bool" where
  "fields_ok fs \<longleftrightarrow> distinct (map fst fs) \<and> (\<forall>(name, f) \<in> set fs. ReportField_init f = Inr f)"

text \<open>
  The completeness report leaves nothing unexplained: whatever the metrics and the samples, every
  field is one the field constructor accepts, so it holds a value or a reason but never both nor
  neither; the names are pairwise different, so no figure overwrites another; and for metrics the
  program calculates the report states that the statuses add up to the number of requests.
\<close>

theorem report_is_complete:
  "fields_ok (report_metrics (build_completeness_report m samples)) \<and>
   fields_ok (report_gpu (build_completeness_report m samples)) \<and>
   (calculate_metrics c rs = Inr m \<longrightarrow>
     map_of (report_metrics (build_completeness_report m samples)) ''terminal_count_matches_request_count''
       = Some (value_field (JBool True)))"
proof -
  have opt: "ReportField_init (optional_field v w) = Inr (optional_field v w)" for v w
    by (simp add: optional_field_def split: option.split)
  have att: "ReportField_init (attainment_field a) = Inr (attainment_field a)" for a
    by (simp add: attainment_field_def)
  have cnt: "ReportField_init (count_field n) = Inr (count_field n)" for n by (simp add: count_field_def)
  have "fields_ok (report_metrics (build_completeness_report m samples))"
    by (simp add: fields_ok_def build_completeness_report_def latency_group_def opt att cnt split: option.split)
  moreover have "fields_ok (report_gpu (build_completeness_report m samples))"
    by (auto simp: fields_ok_def build_completeness_report_def gpu_report_def Let_def split: option.split list.split)
  moreover have "map_of (report_metrics (build_completeness_report m samples)) ''terminal_count_matches_request_count''
       = Some (value_field (JBool True))" if "calculate_metrics c rs = Inr m"
    using that
    by (auto simp: calculate_metrics_def build_completeness_report_def latency_group_def Let_def split: if_splits)
  ultimately show ?thesis by blast
qed

theorem report_is_complete_witness:
  "\<exists>m. calculate_metrics sample_workload [sample_record 0 SUCCESS] = Inr m \<and>
    map_of (report_metrics (build_completeness_report m None)) ''terminal_count_matches_request_count''
      = Some (value_field (JBool True))"
proof -
  obtain m where "calculate_metrics sample_workload [sample_record 0 SUCCESS] = Inr m"
    by (simp add: calculate_metrics_def successes_def status_count_def sample_record_def Let_def)
  with report_is_complete [of m None] show ?thesis by blast
qed

section \<open>The whole run\<close>

lemma generated_numbers:
  assumes "generate_from R c k ts g = Inr es"
  shows "map sequence_id es = map int [k..<k + length ts]"
  using assms
proof (induction ts arbitrary: k g es)
  case (Cons t ts)
  then obtain e g' es' where e: "generate_one R c k t g = Inr (e, g')" "generate_from R c (Suc k) ts g' = Inr es'"
    "es = e # es'" by (auto simp: and_then_Inr)
  have "sequence_id e = int k"
    using e(1) by (auto simp: generate_one_def and_then_Inr RequestEnvelope_init_Inr Let_def split: prod.splits)
  moreover have "[k..<k + length (t # ts)] = k # [Suc k..<Suc k + length ts]" by (simp add: upt_rec)
  ultimately show ?case using Cons.IH [OF e(2)] e(3) by simp
qed simp

lemma generate_requests_numbered:
  assumes "generate_requests R c None = Inr es"
  shows "map sequence_id es = map int [0..<nat (warmup_requests c + total_requests c)]"
proof -
  obtain ts where ts: "int (length ts) = warmup_requests c + total_requests c"
    and es: "generate_from R c 0 ts (seeded R (random_seed c)) = Inr es"
    using assms by (auto simp: generate_requests_def and_then_Inr Let_def split: if_splits)
  have "length ts = nat (warmup_requests c + total_requests c)" using ts by simp
  then show ?thesis using generated_numbers [OF es] by simp
qed

lemma clip_apply_sequence: "clip_apply k e = Inr e' \<Longrightarrow> sequence_id e' = sequence_id e"
  by (auto simp: clip_apply_def and_then_Inr replace_backend_cap_def RequestEnvelope_init_Inr Let_def
      split: if_splits)

lemma place_on_clock_sequence: "place_on_clock t e = Inr e' \<Longrightarrow> sequence_id e' = sequence_id e"
  by (auto simp: place_on_clock_def RequestEnvelope_init_Inr)

lemma prepared_numbers:
  assumes "prepare_repetition W c k t es = Inr (es', q, s)"
  shows "map sequence_id es' = map sequence_id es"
proof -
  have "list_all2 (\<lambda>e e'. sequence_id e' = sequence_id e) es es'"
    using assms
    by (auto simp: prepare_repetition_def and_then_Inr map_result_Inr Let_def elim!: list.rel_mono_strong
        dest!: place_on_clock_sequence clip_apply_sequence split: if_splits)
  then show ?thesis by (auto simp: list_all2_conv_all_nth intro: nth_equalityI)
qed

definition record_index :: "RequestRecord \<Rightarrow> int \<times> int" where
  "record_index r = (rec_repetition_index r, rec_sequence_id r)"

lemma joined_index:
  assumes "join_repetition ctx es rs calls = Inr recs"
  shows "map record_index recs = map (Pair (join_repetition_index ctx)) (map sequence_id es)"
    and "\<forall>r \<in> set recs. valid_record r"
proof -
  let ?d = "dict_by res_sequence_id rs"
  have "record_index rec = (join_repetition_index ctx, sequence_id e) \<and> valid_record rec"
    if j: "join_request ctx calls ?d e = Inr rec" for e rec
  proof -
    obtain r where r: "map_of ?d (sequence_id e) = Some r"
      using j by (cases "map_of ?d (sequence_id e)") (auto simp: join_request_def)
    with j join_request_Inr [OF r] dict_by_member [OF r] show ?thesis
      by (auto simp: record_index_def joined_record_def Let_def)
  qed
  moreover have "list_all2 (\<lambda>e rec. join_request ctx calls ?d e = Inr rec) es recs"
    using assms by (simp add: join_repetition_def map_result_Inr Let_def split: if_splits)
  ultimately have "list_all2 (\<lambda>e rec. record_index rec = (join_repetition_index ctx, sequence_id e) \<and>
      valid_record rec) es recs"
    by (blast intro: list.rel_mono_strong)
  then show "map record_index recs = map (Pair (join_repetition_index ctx)) (map sequence_id es)"
    "\<forall>r \<in> set recs. valid_record r"
    by (auto simp: list_all2_conv_all_nth in_set_conv_nth intro: nth_equalityI)
qed

lemma run_repetition_index:
  assumes "run_repetition W c k env i (rs, ds) = Inr (rs', ds')"
  shows "map record_index rs' = map record_index rs
      @ map (Pair (int i)) (map int [0..<nat (warmup_requests (exp_workload c) + total_requests (exp_workload c))])"
    and "(\<forall>r \<in> set rs. valid_record r) \<Longrightarrow> \<forall>r \<in> set rs'. valid_record r"
proof -
  obtain rel es q s res calls ctx joined where
    g: "generate_requests (world_random W) (exp_workload c) None = Inr rel"
    and p: "prepare_repetition W c k (world_start W i) rel = Inr (es, q, s)"
    and j: "join_repetition ctx es res calls = Inr joined" "join_repetition_index ctx = int i" "rs' = rs @ joined"
    using assms by (auto simp: run_repetition_def and_then_Inr)
  note ids = generate_requests_numbered [OF g] prepared_numbers [OF p] joined_index [OF j(1)]
  show "map record_index rs' = map record_index rs
      @ map (Pair (int i)) (map int [0..<nat (warmup_requests (exp_workload c) + total_requests (exp_workload c))])"
    using ids(1-3) j(2,3) by simp
  show "(\<forall>r \<in> set rs. valid_record r) \<Longrightarrow> \<forall>r \<in> set rs'. valid_record r"
    using ids(4) j(3) by auto
qed

lemma run_repetitions_index:
  assumes "fold_result (run_repetition W c k env) is (rs, ds) = Inr (rs', ds')" and "\<forall>r \<in> set rs. valid_record r"
  shows "map record_index rs' = map record_index rs @ List.product (map int is)
      (map int [0..<nat (warmup_requests (exp_workload c) + total_requests (exp_workload c))])
    \<and> (\<forall>r \<in> set rs'. valid_record r)"
  using assms
proof (induction "is" arbitrary: rs ds)
  case (Cons i ks)
  obtain r1 d1 where 1: "run_repetition W c k env i (rs, ds) = Inr (r1, d1)"
    "fold_result (run_repetition W c k env) ks (r1, d1) = Inr (rs', ds')"
    using Cons.prems(1) by (auto simp: and_then_Inr)
  note ix = run_repetition_index [OF 1(1)]
  from Cons.IH [OF 1(2) ix(2) [OF Cons.prems(2)]] ix(1) show ?case by simp
qed simp

lemma filter_product_length:
  "length (filter (\<lambda>(a, b). P b) (List.product xs ys)) = length xs * length (filter P ys)"
  by (induction xs) (simp_all add: filter_map comp_def)

lemma filter_upt_int: "length (filter (\<lambda>b. w \<le> b) (map int [0..<n])) = n - nat w"
proof -
  have "length (filter (\<lambda>b. w \<le> b) (map int [0..<n])) = card {i. i < n \<and> w \<le> int ([0..<n] ! i)}"
    by (simp add: filter_map length_filter_conv_card comp_def)
  also have "{i. i < n \<and> w \<le> int ([0..<n] ! i)} = {nat w..<n}" by auto
  finally show ?thesis by simp
qed


text \<open>A benchmark of one request, which its queue rejects.\<close>

definition sample_world :: "unit benchmark_world" where
  "sample_world = \<lparr>world_random = constant_source, world_load = \<lambda>p. Inl (ValueError p),
     world_describe = \<lambda>t. ''10'', world_hash = \<lambda>c. replicate 64 CHR ''a'', world_start = \<lambda>k. 2,
     world_serve = \<lambda>k q s es. Inr (map (\<lambda>e. rejection e 5 6) es, [], \<lambda>_. None)\<rparr>"

lemma sample_sha: "is_sha256 (replicate 64 CHR ''a'')"
  by (simp add: is_sha256_def list_all_iff)

lemma sample_workload_of_experiment: "valid_workload (exp_workload sample_experiment)"
  by (simp add: valid_workload_def WorkloadConfig_init_def RequestProfileConfig_init_def
      TokenRangeConfig_init_def checked_def raise_if.simps sample_experiment_def sample_profile_def Let_def)

lemma sample_benchmark:
  assumes "write_request_records (exp_metrics sample_experiment) stem = Inr ps"
  shows "\<exists>b. run_benchmark sample_world sample_experiment ''v'' None None stem = Inr b"
  using assms
  by (simp add: run_benchmark_def OutputClipper_init_def sample_experiment_def sample_clip_config_def
      default_admission_def run_repetition_def sample_world_def generate_requests_def
      arrival_schedule_from_config_def poisson_arrival_times_def constant_source_def generate_one_def
      sample_request_class_def sample_lengths_def randint_def profile_for_class_def sample_profile_def Let_def
      RequestEnvelope_init_def envelope_guards_def checked_def raise_if.simps request_name_def prepare_repetition_def place_on_clock_def
      build_policy_def SloAwarePolicy_init_def sample_slo_def AdmissionQueue_init_def
      build_adaptive_clip_controller_def AdaptiveClipController_init_def join_repetition_def dict_by_def join_request_def rejection_def
      record_from_envelope_def RequestRecord_init_def identity_guards_def finite_guards_def timeline_guards_def
      map_times_def sample_sha or_string_def effective_max_output_tokens_def
      calculate_metrics_def successes_def status_count_def)


end
