(* ===== verification/SweepProperties.thy ===== *)
theory SweepProperties
  imports Sweep BenchmarkProperties
begin

text \<open>
  Properties of the sweep: configuration merging, distinct result files, one complete row per point.
\<close>

section \<open>Merging configurations\<close>

fun json_at :: "string list \<Rightarrow> json \<Rightarrow> json option" where
  "json_at [] v = Some v"
| "json_at (k # ks) (JObject m) = (case map_of m k of None \<Rightarrow> None | Some v \<Rightarrow> json_at ks v)"
| "json_at (k # ks) _ = None"

text \<open>The overrides do not reach a path when one of its keys is missing in them.\<close>

fun untouched :: "string list \<Rightarrow> json \<Rightarrow> bool" where
  "untouched (k # ks) (JObject m) = (case map_of m k of None \<Rightarrow> True | Some v \<Rightarrow> untouched ks v)"
| "untouched _ _ = False"

definition is_object :: "json \<Rightarrow> bool" where
  "is_object v \<longleftrightarrow> (\<exists>m. v = JObject m)"

text \<open>A parsed mapping is a dict at every level: no key occurs twice.\<close>

definition dict_json :: "json \<Rightarrow> bool" where
  "dict_json v \<longleftrightarrow> (\<forall>path m. json_at path v = Some (JObject m) \<longrightarrow> distinct (map fst m))"

definition merged_value :: "json option \<Rightarrow> json \<Rightarrow> json" where
  "merged_value current v = (case (current, v) of
     (Some (JObject c), JObject i) \<Rightarrow> JObject (merge_mappings c i) | _ \<Rightarrow> v)"

lemma merge_step: "merge_mappings b ((k, v) # rest)
    = merge_mappings (AList.update k (merged_value (map_of b k) v) b) rest"
  by (cases v; cases "map_of b k") (auto simp: merged_value_def split: json.split)

lemma merge_lookup:
  assumes "distinct (map fst o')"
  shows "map_of (merge_mappings b o') k
    = (case map_of o' k of None \<Rightarrow> map_of b k | Some v \<Rightarrow> Some (merged_value (map_of b k) v))"
  using assms
proof (induction o' arbitrary: b)
  case (Cons kv rest)
  obtain k' v where kv: "kv = (k', v)" by (cases kv) auto
  have "map_of rest k' = None" using Cons.prems by (auto simp: kv map_of_eq_None_iff)
  with Cons show ?case
    by (cases "k = k'") (auto simp: kv merge_step update_conv' simp del: merge_mappings.simps split: option.split)
qed simp

lemma dict_json_object: "dict_json (JObject m) \<Longrightarrow> distinct (map fst m)"
  unfolding dict_json_def by (drule spec [of _ "[]"]) simp

lemma dict_json_sub: "dict_json (JObject m) \<Longrightarrow> map_of m k = Some v \<Longrightarrow> dict_json v"
  unfolding dict_json_def by (intro allI impI, drule spec [of _ "k # path" for path]) auto

lemma merge_leaf:
  assumes "dict_json (JObject o')" and "json_at path (JObject o') = Some v" and "\<not> is_object v"
  shows "json_at path (JObject (merge_mappings b o')) = Some v"
  using assms
proof (induction path arbitrary: b o')
  case (Cons k ks)
  obtain w where w: "map_of o' k = Some w" "json_at ks w = Some v"
    using Cons.prems(2) by (auto split: option.splits)
  note look = merge_lookup [OF dict_json_object [OF Cons.prems(1)], of b k]
  show ?case
  proof (cases "\<exists>c i. map_of b k = Some (JObject c) \<and> w = JObject i")
    case True
    then obtain c i where ci: "map_of b k = Some (JObject c)" "w = JObject i" by blast
    have "json_at ks (JObject (merge_mappings c i)) = Some v"
      using Cons.IH [of i c] dict_json_sub [OF Cons.prems(1) w(1)] w(2) Cons.prems(3) ci(2) by simp
    then show ?thesis using look w ci by (simp add: merged_value_def)
  next
    case False
    then have "merged_value (map_of b k) w = w"
      by (auto simp: merged_value_def split: option.splits json.splits)
    then show ?thesis using look w by simp
  qed
qed (auto simp: is_object_def)

lemma merge_untouched:
  assumes "dict_json (JObject o')" and "untouched path (JObject o')"
  shows "json_at path (JObject (merge_mappings b o')) = json_at path (JObject b)"
  using assms
proof (induction path arbitrary: b o')
  case (Cons k ks)
  note look = merge_lookup [OF dict_json_object [OF Cons.prems(1)], of b k]
  show ?case
  proof (cases "map_of o' k")
    case None
    then show ?thesis using look by simp
  next
    case (Some w)
    then have u: "untouched ks w" using Cons.prems(2) by simp
    then obtain k' ks' i where i: "ks = k' # ks'" "w = JObject i" by (cases ks; cases w) auto
    have miss: "untouched p x \<Longrightarrow> json_at p x = None" for p x
      by (induction p x rule: untouched.induct) (auto split: option.splits)
    show ?thesis
    proof (cases "\<exists>c. map_of b k = Some (JObject c)")
      case True
      then obtain c where c: "map_of b k = Some (JObject c)" by blast
      have "json_at ks (JObject (merge_mappings c i)) = json_at ks (JObject c)"
        using Cons.IH [of i c] dict_json_sub [OF Cons.prems(1) Some] u i(2) by simp
      then show ?thesis using look Some c i(2) by (simp add: merged_value_def)
    next
      case False
      then have "merged_value (map_of b k) w = w" "json_at (k # ks) (JObject b) = None"
        by (cases "map_of b k"; cases "the (map_of b k)"; auto simp: merged_value_def i)+
      then show ?thesis using look Some miss [OF u] by simp
    qed
  qed
qed simp

text \<open>
  Overrides win, and only overrides: when \<open>base_overrides\<close> is merged into the referenced
  configuration, every value the overrides give at a path, at any depth, is the value of the
  merged mapping there, and at every path the overrides do not reach the merged mapping has what
  the base has, so no sibling of an overridden field is lost.
\<close>

theorem merge_overrides_win:
  assumes "dict_json (JObject overrides)"
  shows "(\<forall>path v. json_at path (JObject overrides) = Some v \<and> \<not> is_object v \<longrightarrow>
      json_at path (JObject (merge_mappings base overrides)) = Some v) \<and>
    (\<forall>path. untouched path (JObject overrides) \<longrightarrow>
      json_at path (JObject (merge_mappings base overrides)) = json_at path (JObject base))"
  using merge_leaf [OF assms] merge_untouched [OF assms] by blast

definition sample_overrides :: "(string \<times> json) list" where
  "sample_overrides = [(''router'', JObject [(''policy'', JString ''fcfs'')])]"

lemma sample_overrides_dict: "dict_json (JObject sample_overrides)"
proof -
  have "distinct (map fst m)" if "json_at path (JObject sample_overrides) = Some (JObject m)" for path m
    using that by (cases path; cases "tl path"; cases "tl (tl path)")
      (auto simp: sample_overrides_def split: if_splits)
  then show ?thesis by (simp add: dict_json_def)
qed

theorem merge_overrides_win_witness:
  "json_at [''router'', ''policy''] (JObject (merge_mappings
      [(''router'', JObject [(''policy'', JString ''slo_aware''), (''max_in_flight'', JInt 4)])] sample_overrides))
    = Some (JString ''fcfs'') \<and>
   json_at [''router'', ''max_in_flight''] (JObject (merge_mappings
      [(''router'', JObject [(''policy'', JString ''slo_aware''), (''max_in_flight'', JInt 4)])] sample_overrides))
    = Some (JInt 4)"
proof -
  let ?b = "[(''router'', JObject [(''policy'', JString ''slo_aware''), (''max_in_flight'', JInt 4)])]"
  have p: "json_at [''router'', ''policy''] (JObject sample_overrides) = Some (JString ''fcfs'')"
    "\<not> is_object (JString ''fcfs'')" "untouched [''router'', ''max_in_flight''] (JObject sample_overrides)"
    "json_at [''router'', ''max_in_flight''] (JObject ?b) = Some (JInt 4)"
    by (simp_all add: sample_overrides_def is_object_def)
  show ?thesis
    using merge_overrides_win [OF sample_overrides_dict, of ?b] p(1,2)
    unfolding p(4) [symmetric] by (intro conjI) (use p(3) in blast)+
qed

section \<open>Result files\<close>

lemma nat_digits_low:
  assumes "of_char ch < (48 :: nat)"
  shows "ch \<notin> set (nat_digits n)"
proof (induction n rule: nat_digits.induct)
  case (1 n)
  have d: "ch \<noteq> char_of (48 + k :: nat)" if "k < 10" for k
  proof
    assume "ch = char_of (48 + k)"
    then have "of_char ch = 48 + k" using that by simp
    with assms show False by simp
  qed
  show ?case by (subst nat_digits.simps) (use 1 d in auto)
qed

lemmas nat_digits_no_dash = nat_digits_low [of "CHR ''-''", simplified]
lemmas nat_digits_no_slash = nat_digits_low [of "CHR ''/''", simplified]

lemma zero_padded_inject: "zero_padded w m = zero_padded w n \<longleftrightarrow> m = n"
  by (metis digits_value_nat_digits digits_value_zeros zero_padded_def)

lemma file_stem_inject:
  assumes "file_stem i a = file_stem j b"
  shows "i = j"
proof -
  have "CHR ''-'' \<notin> set (zero_padded 3 n)" for n
    using nat_digits_no_dash by (auto simp: zero_padded_def)
  then have t: "takeWhile (\<lambda>ch. ch \<noteq> CHR ''-'') (zero_padded 3 n @ CHR ''-'' # xs) = zero_padded 3 n" for n xs
    by (simp add: takeWhile_append)
  have "zero_padded 3 i @ CHR ''-'' # slug a = zero_padded 3 j @ CHR ''-'' # slug b"
    using assms by (simp add: file_stem_def)
  with t have "zero_padded 3 i = zero_padded 3 j" by metis
  then show ?thesis by (simp add: zero_padded_inject)
qed

lemma metric_row_columns: "map fst (metric_row dumps label c m) = SWEEP_RESULT_COLUMNS"
  by (simp add: metric_row_def admission_fields_def realistic_fields_def metric_fields_def percentile_fields_def
      SWEEP_RESULT_COLUMNS_def Let_def)

lemma columns_distinct: "distinct SWEEP_RESULT_COLUMNS"
  by (simp add: SWEEP_RESULT_COLUMNS_def)

lemma run_point_row:
  assumes "run_point urlsplit dumps worlds samples base env (i, p) = Inr row"
  obtains c b where "config_for_point urlsplit base p = Inr c" "valid_experiment urlsplit c"
    "run_benchmark (worlds i) c env None (samples i) (file_stem i (sp_label p)) = Inr b"
    "row = metric_row dumps (sp_label p) c (bench_metrics b)"
proof -
  obtain c b where c: "config_for_point urlsplit base p = Inr c"
    "run_benchmark (worlds i) c env None (samples i) (file_stem i (sp_label p)) = Inr b"
    "row = metric_row dumps (sp_label p) c (bench_metrics b)"
    using assms by (auto simp: run_point_def and_then_Inr)
  moreover have "valid_experiment urlsplit c"
    using c(1) by (auto simp: config_for_point_def valid_experiment_def ExperimentConfig_init_def and_then_Inr raise_simps)
  ultimately show ?thesis using that by blast
qed

text \<open>
  C29. A sweep that returns is complete. If \<open>run_sweep\<close> returns, there is one row per point in the
  order of the points; row \<open>i\<close> has exactly the documented columns, so writing the CSV can never
  raise, and carries the label of its point and the metrics of a benchmark of that point's own
  validated configuration; and no two points, whatever their labels, write to the same files.
\<close>

theorem sweep_is_complete:
  assumes "run_sweep conv urlsplit dumps worlds samples base ps env_version = Inr r"
  shows "length (sweep_rows r) = length ps \<and> length (snd (sweep_csv r)) = length ps \<and>
    (\<forall>i < length ps. \<exists>c b. config_for_point urlsplit base (ps ! i) = Inr c \<and> valid_experiment urlsplit c \<and>
       run_benchmark (worlds i) c env_version None (samples i) (file_stem i (sp_label (ps ! i))) = Inr b \<and>
       sweep_rows r ! i = metric_row dumps (sp_label (ps ! i)) c (bench_metrics b) \<and>
       map fst (sweep_rows r ! i) = SWEEP_RESULT_COLUMNS \<and>
       csv_result_row conv (sweep_rows r ! i) = Inr (snd (sweep_csv r) ! i)) \<and>
    distinct (map (\<lambda>i. file_stem i (sp_label (ps ! i))) [0..<length ps])"
proof -
  let ?run = "run_point urlsplit dumps worlds samples base env_version"
  obtain rows cells where rows: "map_result ?run (zip [0..<length ps] ps) = Inr rows"
    and cells: "map_result (csv_result_row conv) rows = Inr cells"
    and r: "sweep_rows r = rows" "sweep_csv r = (SWEEP_RESULT_COLUMNS, cells)"
    using assms by (auto simp: run_sweep_def and_then_Inr Let_def split: if_splits)
  have l: "length rows = length ps" "length cells = length ps"
    using rows cells by (auto simp: map_result_Inr dest!: list_all2_lengthD)
  have "\<exists>c b. config_for_point urlsplit base (ps ! i) = Inr c \<and> valid_experiment urlsplit c \<and>
       run_benchmark (worlds i) c env_version None (samples i) (file_stem i (sp_label (ps ! i))) = Inr b \<and>
       rows ! i = metric_row dumps (sp_label (ps ! i)) c (bench_metrics b) \<and>
       map fst (rows ! i) = SWEEP_RESULT_COLUMNS \<and> csv_result_row conv (rows ! i) = Inr (cells ! i)"
    if i: "i < length ps" for i
  proof -
    have "?run (i, ps ! i) = Inr (rows ! i)" "csv_result_row conv (rows ! i) = Inr (cells ! i)"
      using rows cells i l by (auto simp: map_result_Inr list_all2_conv_all_nth)
    then show ?thesis using metric_row_columns by (elim run_point_row) auto
  qed
  moreover have "distinct (map (\<lambda>i. file_stem i (sp_label (ps ! i))) [0..<length ps])"
    using file_stem_inject by (auto simp: distinct_map inj_on_def)
  ultimately show ?thesis using l r by simp
qed

definition sample_point :: SweepPoint where
  "sample_point = \<lparr>sp_label = ''A b'', sp_policy = None, sp_request_rate_rps = Some 2,
     sp_random_seed = None, sp_interactive_fraction = None, sp_max_in_flight = None,
     sp_aging_threshold_s = None, sp_cost_weight = None, sp_slack_weight = None,
     sp_waiting_weight = None, sp_disable_length_estimate = None, sp_length_source = None,
     sp_length_estimator_path = None, sp_clip_enabled = None, sp_clip_max_tokens = None,
     sp_clip_source = None, sp_clip_estimator_path = None, sp_adaptive_clip_enabled = None,
     sp_adaptive_clip_signal = None, sp_adaptive_clip_caps = None,
     sp_adaptive_clip_tighten_thresholds = None, sp_adaptive_clip_relax_thresholds = None,
     sp_adaptive_clip_ewma_tau_s = None, sp_adaptive_clip_tighten_hold_s = None,
     sp_adaptive_clip_relax_hold_s = None, sp_adaptive_clip_capacity_rps = None,
     sp_aging_levels = None, sp_adaptive_ceiling = None, sp_ceiling_margin = None,
     sp_ceiling_floor_s = None, sp_ceiling_cap_s = None\<rparr>"

definition idle_point :: SweepPoint where
  "idle_point = sample_point\<lparr>sp_request_rate_rps := None\<rparr>"

lemma idle_point_config: "point_config c idle_point = c"
  by (simp add: point_config_def point_router_def point_workload_def point_admission_def point_slo_aware_def
      override_def override_path_def override_real_def idle_point_def sample_point_def)

abbreviation sample_sweep :: "SweepResult result" where
  "sample_sweep \<equiv> run_sweep \<lparr>int_text = \<lambda>s. None, float_text = \<lambda>s. None, str_of = \<lambda>v. []\<rparr>
     (\<lambda>u. (Some ''h'', Some 80)) (\<lambda>v. []) (\<lambda>i. sample_world) (\<lambda>i. None) sample_experiment
     [idle_point, idle_point] ''v''"

lemma file_stem_writes: "\<exists>ps. write_request_records m (file_stem i ''A b'') = Inr ps"
proof -
  have "CHR ''/'' \<noteq> char_of (97 :: nat)" by (simp add: char_of_def)
  then have "CHR ''/'' \<notin> set (file_stem i ''A b'')"
    using nat_digits_no_slash
    by (simp add: file_stem_def zero_padded_def slug_def strip_dashes_def ascii_alnum_def ascii_lower_def Let_def)
  then show ?thesis by (simp add: write_request_records_def file_stem_def)
qed

theorem sweep_is_complete_witness:
  "\<exists>r. sample_sweep = Inr r \<and> length (sweep_rows r) = 2 \<and> map fst (sweep_rows r ! 1) = SWEEP_RESULT_COLUMNS"
proof -
  have c: "config_for_point (\<lambda>u. (Some ''h'', Some 80)) sample_experiment idle_point = Inr sample_experiment"
    using sample_experiment_valid by (simp add: config_for_point_def idle_point_config valid_experiment_def)
  have l: "sp_label idle_point = ''A b''" by (simp add: idle_point_def sample_point_def)
  have b: "\<exists>b. run_benchmark sample_world sample_experiment ''v'' None None (file_stem i ''A b'') = Inr b" for i
    using file_stem_writes [of "exp_metrics sample_experiment" i] sample_benchmark by blast
  obtain b0 b1 where
    "run_benchmark sample_world sample_experiment ''v'' None None (file_stem 0 ''A b'') = Inr b0"
    "run_benchmark sample_world sample_experiment ''v'' None None (file_stem 1 ''A b'') = Inr b1"
    using b by blast
  then obtain r where r: "sample_sweep = Inr r"
    by (simp add: run_sweep_def run_point_def c l csv_result_row_def metric_row_columns Let_def)
  from sweep_is_complete [OF this] have "length (sweep_rows r) = 2"
    "\<forall>i < 2. map fst (sweep_rows r ! i) = SWEEP_RESULT_COLUMNS"
    by (simp, force simp: numeral_2_eq_2)
  with r show ?thesis by (intro exI [of _ r]) simp
qed

end
