(* ===== verification/ExpLReconcile.thy ===== *)
theory ExpLReconcile
  imports ExpLControl SweepProperties
begin

text \<open>
  The reconciliation of a sweep row with the request facts (src/sloserve/analysis/expl.py,
  \<open>_metrics_mapping\<close> and \<open>reconcile_point\<close>): the metrics are computed again from the raw records
  and every aggregate of the CSV row must agree with them. The rows are those \<open>run_sweep\<close> writes,
  read by \<open>csv.DictReader\<close>.
\<close>

section \<open>The recomputed aggregates\<close>

text \<open>\<open>int | float | None\<close>\<close>

definition json_count :: "nat \<Rightarrow> real option" where
  "json_count n = Some (real n)"

definition class_attainment :: "MetricsSummary \<Rightarrow> RequestClass \<Rightarrow> real option" where
  "class_attainment m k = map_option att_rate (map_of (ms_slo_by_class m) k)"

definition metrics_mapping :: "MetricsSummary \<Rightarrow> (string \<times> real option) list" where
  "metrics_mapping m =
    [(''request_count'', json_count (ms_request_count m)),
     (''success_count'', json_count (ms_success_count m)),
     (''error_count'', json_count (ms_error_count m)),
     (''timeout_count'', json_count (ms_timeout_count m)),
     (''cancelled_count'', json_count (ms_cancelled_count m)),
     (''rejected_count'', json_count (ms_rejected_count m)),
     (''success_output_tokens'', Some (of_int (ms_success_output_tokens m))),
     (''wall_clock_window_s'', ms_wall_clock_window_s m),
     (''token_throughput_per_s'', ms_token_throughput_per_s m),
     (''end_to_end_p50_s'', p50 (ms_end_to_end_s m)), (''end_to_end_p95_s'', p95 (ms_end_to_end_s m)),
     (''end_to_end_p99_s'', p99 (ms_end_to_end_s m)),
     (''queue_wait_p50_s'', p50 (ms_queue_wait_s m)), (''queue_wait_p95_s'', p95 (ms_queue_wait_s m)),
     (''queue_wait_p99_s'', p99 (ms_queue_wait_s m)),
     (''queue_wait_mean_s'', ms_queue_wait_mean_s m),
     (''longest_queue_wait_s'', ms_longest_queue_wait_s m),
     (''clip_applied_count'', json_count (ms_clip_applied_count m)),
     (''clip_applied_rate'', ms_clip_applied_rate m),
     (''realized_truncation_count'', json_count (ms_realized_truncation_count m)),
     (''realized_truncation_rate'', ms_realized_truncation_rate m),
     (''mean_cap_reduction_tokens'', ms_mean_cap_reduction_tokens m),
     (''slo_overall_rate'', Some (att_rate (ms_slo_overall m))),
     (''slo_interactive_rate'', class_attainment m INTERACTIVE),
     (''slo_batch_rate'', class_attainment m BATCH)]"

definition reconciled_fields :: "string list" where
  "reconciled_fields =
    [''request_count'', ''success_count'', ''error_count'', ''timeout_count'', ''cancelled_count'',
     ''rejected_count'', ''success_output_tokens'', ''wall_clock_window_s'', ''token_throughput_per_s'',
     ''end_to_end_p50_s'', ''end_to_end_p95_s'', ''end_to_end_p99_s'', ''queue_wait_p50_s'',
     ''queue_wait_p95_s'', ''queue_wait_p99_s'', ''queue_wait_mean_s'', ''longest_queue_wait_s'',
     ''clip_applied_count'', ''clip_applied_rate'', ''realized_truncation_count'',
     ''realized_truncation_rate'', ''mean_cap_reduction_tokens'', ''slo_overall_rate'',
     ''slo_interactive_rate'', ''slo_batch_rate'']"

section \<open>Comparison\<close>

text \<open>\<open>math.isclose\<close> with both tolerances \<open>1e-9\<close>; \<open>b\<close> is finite.\<close>

fun is_close :: "pyfloat \<Rightarrow> real \<Rightarrow> bool" where
  "is_close (Fin a) b \<longleftrightarrow> \<bar>a - b\<bar> \<le> max (1/10^9 * max \<bar>a\<bar> \<bar>b\<bar>) (1/10^9)"
| "is_close _ b \<longleftrightarrow> False"

text \<open>
  One field: \<open>row\<close> maps a column to its cell, which \<open>DictReader\<close> gives as a string, or as \<open>None\<close> when
  the line is too short.
\<close>

definition reconcile_field ::
    "conversions \<Rightarrow> (string \<times> string option) list \<Rightarrow> (string \<times> real option) list \<Rightarrow> string \<Rightarrow> unit result" where
  "reconcile_field conv row recomputed field =
    (case map_of row field of
       None \<Rightarrow> Inl (ExpLIntegrityError ''sweep CSV is missing reconciliation field'')
     | Some raw \<Rightarrow>
        (case map_of recomputed field of
           None \<Rightarrow> Inl (KeyError field)
         | Some None \<Rightarrow>
             if raw = Some [] \<or> raw = None then Inr ()
             else Inl (ExpLIntegrityError ''aggregate mismatch: raw is null'')
         | Some (Some expected) \<Rightarrow>
             (case raw of
                None \<Rightarrow> Inl (ExpLIntegrityError ''aggregate is not numeric'')
              | Some cell \<Rightarrow>
                 (case float_text conv cell of
                    None \<Rightarrow> Inl (ExpLIntegrityError ''aggregate is not numeric'')
                  | Some obs \<Rightarrow>
                     if is_close obs expected then Inr ()
                     else Inl (ExpLIntegrityError ''aggregate mismatch'')))))"

text \<open>With \<open>force_exact_output_tokens\<close> every success has as many tokens as it was capped to.\<close>

definition forced_exactly :: "RequestRecord \<Rightarrow> bool" where
  "forced_exactly r \<longleftrightarrow> (rec_status r = SUCCESS \<longrightarrow>
     rec_backend_max_output_tokens r = Some (rec_output_tokens r) \<and> rec_finish_reason r = Some ''length'')"

definition instrumented :: "RequestRecord \<Rightarrow> bool" where
  "instrumented r \<longleftrightarrow> rec_requested_output_tokens r \<noteq> None \<and> rec_backend_max_output_tokens r \<noteq> None"

definition reconcile_guards :: "RequestRecord list \<Rightarrow> ExperimentConfig \<Rightarrow> (bool \<times> py_error) list" where
  "reconcile_guards records c =
    [(\<not> distinct (map record_identity records),
        ExpLIntegrityError ''duplicate request identity in request JSONL''),
     (\<not> list_all instrumented records, ExpLIntegrityError ''expL request facts lack cap instrumentation''),
     (realistic_length (exp_workload c) = None, ExpLIntegrityError ''expL requires the realistic workload''),
     ((case realistic_length (exp_workload c) of None \<Rightarrow> False | Some l \<Rightarrow>
         realistic_force_exact l \<and> \<not> list_all forced_exactly records),
        ExpLIntegrityError ''force-exact success disagrees with backend cap or finish_reason'')]"

definition reconcile_point ::
    "conversions \<Rightarrow> (string \<times> string option) list \<Rightarrow> RequestRecord list \<Rightarrow> ExperimentConfig \<Rightarrow>
     (string \<times> real option) list result" where
  "reconcile_point conv row records c =
     and_then (checked (reconcile_guards records c) ()) (\<lambda>_.
     and_then (calculate_metrics (exp_workload c) records) (\<lambda>m.
     let recomputed = metrics_mapping m in
     and_then (map_result (reconcile_field conv row recomputed) reconciled_fields) (\<lambda>_. Inr recomputed)))"

text \<open>What \<open>csv.DictReader\<close> gives for a line: cells that are missing are \<open>None\<close>.\<close>

definition dict_row :: "string list \<Rightarrow> string list \<Rightarrow> (string \<times> string option) list" where
  "dict_row header cells =
     zip header (map Some cells @ replicate (length header - length cells) None)"

section \<open>Written rows reconcile\<close>

text \<open>What a written number means when it is read as an aggregate.\<close>

fun aggregate_of :: "json \<Rightarrow> real option" where
  "aggregate_of (JInt i) = Some (of_int i)"
| "aggregate_of (JFloat x) = Some x"
| "aggregate_of _ = None"

fun is_aggregate :: "json \<Rightarrow> bool" where
  "is_aggregate JNull = True"
| "is_aggregate (JInt i) = True"
| "is_aggregate (JFloat x) = True"
| "is_aggregate _ = False"

text \<open>Python prints a number so that \<open>float\<close> reads the same value.\<close>

definition number_prints_back :: "conversions \<Rightarrow> json \<Rightarrow> bool" where
  "number_prints_back conv v \<longleftrightarrow>
     (\<forall>x. aggregate_of v = Some x \<longrightarrow> float_text conv (str_of conv v) = Some (Fin x) \<and> str_of conv v \<noteq> [])"

lemma optional_aggregate [simp]:
  "aggregate_of (optional_float x) = x" "is_aggregate (optional_float x)"
  "aggregate_of (count_json n) = json_count n" "is_aggregate (count_json n)"
  "aggregate_of (class_rate m k) = class_attainment m k" "is_aggregate (class_rate m k)"
  by (simp_all add: optional_float_def count_json_def json_count_def class_rate_def class_attainment_def
      split: option.split)

lemma metric_row_parts:
  "drop 40 (metric_row dumps label c m) = metric_fields m"
  "map fst (take 40 (metric_row dumps label c m)) = take 40 SWEEP_RESULT_COLUMNS"
  by (simp_all add: metric_row_def admission_fields_def realistic_fields_def SWEEP_RESULT_COLUMNS_def Let_def)

lemma reconciled_not_settings: "list_all (\<lambda>n. n \<notin> set (take 40 SWEEP_RESULT_COLUMNS)) reconciled_fields"
  by code_simp

lemma reconciled_written: "list_all (\<lambda>n. n \<in> set (drop 40 SWEEP_RESULT_COLUMNS)) reconciled_fields"
  by code_simp

lemma metric_fields_keys: "map fst (metric_fields m) = drop 40 SWEEP_RESULT_COLUMNS"
  by (simp add: metric_fields_def percentile_fields_def SWEEP_RESULT_COLUMNS_def)

lemma metric_fields_aggregates: "\<forall>(n, v) \<in> set (metric_fields m). is_aggregate v"
  by (simp add: metric_fields_def percentile_fields_def)

lemma metrics_mapping_written:
  "metrics_mapping m = map (\<lambda>(n, v). (n, aggregate_of v))
     (filter (\<lambda>(n, v). n \<in> set reconciled_fields) (metric_fields m))"
  by (simp add: metrics_mapping_def metric_fields_def percentile_fields_def reconciled_fields_def)

lemma map_of_select:
  "map_of (map (\<lambda>(n, v). (n, f v)) (filter (\<lambda>(n, v). P n) xs)) n = (if P n then map_option f (map_of xs n) else None)"
  by (induction xs) auto

lemma metric_row_aggregate:
  assumes "n \<in> set reconciled_fields"
  shows "\<exists>v. map_of (metric_row dumps label c m) n = Some v \<and> (n, v) \<in> set (metric_fields m) \<and> is_aggregate v \<and>
    map_of (metrics_mapping m) n = Some (aggregate_of v)"
proof -
  let ?r = "metric_row dumps label c m"
  have "n \<notin> fst ` set (take 40 ?r)"
    using reconciled_not_settings assms metric_row_parts(2) [of dumps label c m]
    by (metis list.set_map list_all_iff)
  then have "map_of (take 40 ?r) n = None" by (simp add: map_of_eq_None_iff)
  moreover have "map_of ?r n = (map_of (metric_fields m) ++ map_of (take 40 ?r)) n"
    by (metis append_take_drop_id map_of_append metric_row_parts(1))
  ultimately have r: "map_of ?r n = map_of (metric_fields m) n" by (simp add: map_add_def)
  have "n \<in> fst ` set (metric_fields m)"
    using reconciled_written assms metric_fields_keys [of m] by (metis list.set_map list_all_iff)
  then obtain v where v: "map_of (metric_fields m) n = Some v"
    by (metis domD dom_map_of_conv_image_fst)
  then have "is_aggregate v" using metric_fields_aggregates [of m] map_of_SomeD by fastforce
  moreover have "map_of (metrics_mapping m) n = Some (aggregate_of v)"
    unfolding metrics_mapping_written map_of_select using assms v by simp
  ultimately show ?thesis using r v map_of_SomeD [OF v] by simp
qed

lemma is_close_refl [simp]: "is_close (Fin x) x"
  by simp

lemma dict_row_written:
  assumes "csv_result_row conv row = Inr cells" and "map_of row n = Some v"
  shows "map_of (dict_row SWEEP_RESULT_COLUMNS cells) n = Some (Some (csv_cell conv v))"
proof -
  let ?f = "\<lambda>n. case map_of row n of Some v \<Rightarrow> csv_cell conv v | None \<Rightarrow> []"
  have cells: "cells = map ?f SWEEP_RESULT_COLUMNS" "set (map fst row) \<subseteq> set SWEEP_RESULT_COLUMNS"
    using assms(1) by (auto simp: csv_result_row_def split: if_splits)
  have "n \<in> set SWEEP_RESULT_COLUMNS" using cells(2) map_of_SomeD [OF assms(2)] by force
  then have "map_of (zip SWEEP_RESULT_COLUMNS (map (Some \<circ> ?f) SWEEP_RESULT_COLUMNS)) n = Some (Some (?f n))"
    by (simp add: map_of_zip_map)
  then show ?thesis using assms(2) by (simp add: dict_row_def cells)
qed

lemma reconcile_written_field:
  assumes "csv_result_row conv row = Inr cells" and "map_of row n = Some v" and "is_aggregate v"
    and "number_prints_back conv v" and "map_of recomputed n = Some (aggregate_of v)"
  shows "reconcile_field conv (dict_row SWEEP_RESULT_COLUMNS cells) recomputed n = Inr ()"
  using assms(3-5) dict_row_written [OF assms(1,2)]
  by (cases v) (auto simp: reconcile_field_def number_prints_back_def csv_cell_def)

lemma written_fields_reconcile:
  assumes "csv_result_row conv (metric_row dumps label c m) = Inr cells"
    and "\<forall>(n, v) \<in> set (metric_fields m). n \<in> set reconciled_fields \<longrightarrow> number_prints_back conv v"
  shows "map_result (reconcile_field conv (dict_row SWEEP_RESULT_COLUMNS cells) (metrics_mapping m)) reconciled_fields
    = Inr (map (\<lambda>_. ()) reconciled_fields)"
proof (rule map_result_total)
  fix n assume n: "n \<in> set reconciled_fields"
  obtain v where v: "map_of (metric_row dumps label c m) n = Some v" "(n, v) \<in> set (metric_fields m)"
    "is_aggregate v" "map_of (metrics_mapping m) n = Some (aggregate_of v)"
    using metric_row_aggregate [OF n] by blast
  moreover have "number_prints_back conv v" using assms(2) n v(2) by fastforce
  ultimately show "reconcile_field conv (dict_row SWEEP_RESULT_COLUMNS cells) (metrics_mapping m) n = Inr ()"
    using reconcile_written_field [OF assms(1)] by blast
qed

text \<open>
  C33. What the sweep writes, the analysis accepts. Read back from the CSV file, the row the sweep
  wrote for some records is reconciled with the same records without any disagreement: the
  analysis returns the aggregates recomputed from them, and it refuses a point only for what its
  own guards say of the records and the configuration, never for an aggregate of the row.
\<close>

theorem sweep_row_reconciles:
  assumes "calculate_metrics (exp_workload c) records = Inr m"
    and "csv_result_row conv (metric_row dumps label c m) = Inr cells"
    and "\<forall>(n, v) \<in> set (metric_fields m). n \<in> set reconciled_fields \<longrightarrow> number_prints_back conv v"
  shows "reconcile_point conv (dict_row SWEEP_RESULT_COLUMNS cells) records c =
    (case raise_if (reconcile_guards records c) of None \<Rightarrow> Inr (metrics_mapping m) | Some e \<Rightarrow> Inl e)"
  using assms(1) written_fields_reconcile [OF assms(2,3)]
  by (auto simp: reconcile_point_def checked_def Let_def simp del: raise_if.simps split: option.split)

text \<open>
  A tampered row is refused. Whatever the row: if it is accepted, then the guards hold of the
  records, the result is the aggregates recomputed from the records, and every aggregate the
  records have is in the row, as a number that differs from it by at most one billionth of the
  larger of the two, or one billionth; where the records have none, the cell is empty.
\<close>

theorem accepted_row_agrees:
  assumes "reconcile_point conv row records c = Inr r"
  shows "raise_if (reconcile_guards records c) = None \<and>
    (\<exists>m. calculate_metrics (exp_workload c) records = Inr m \<and> r = metrics_mapping m) \<and>
    (\<forall>n \<in> set reconciled_fields. case the (map_of r n) of
        None \<Rightarrow> map_of row n = Some (Some []) \<or> map_of row n = Some None
      | Some e \<Rightarrow> \<exists>cell x. map_of row n = Some (Some cell) \<and> float_text conv cell = Some (Fin x) \<and>
          \<bar>x - e\<bar> \<le> max (1/10^9 * max \<bar>x\<bar> \<bar>e\<bar>) (1/10^9))"
proof -
  obtain m where m: "calculate_metrics (exp_workload c) records = Inr m" "r = metrics_mapping m"
    and g: "raise_if (reconcile_guards records c) = None"
    and fs: "map_result (reconcile_field conv row r) reconciled_fields \<noteq> Inl e" for e
    using assms by (auto simp: reconcile_point_def and_then_Inr checked_Inr Let_def simp del: raise_if.simps)
  obtain us where "map_result (reconcile_field conv row r) reconciled_fields = Inr us"
    using fs by (cases "map_result (reconcile_field conv row r) reconciled_fields") auto
  then have ok: "reconcile_field conv row r n = Inr ()" if "n \<in> set reconciled_fields" for n
    using that by (auto simp: map_result_Inr in_set_conv_nth list_all2_conv_all_nth)
  have "case the (map_of r n) of
        None \<Rightarrow> map_of row n = Some (Some []) \<or> map_of row n = Some None
      | Some e \<Rightarrow> \<exists>cell x. map_of row n = Some (Some cell) \<and> float_text conv cell = Some (Fin x) \<and>
          \<bar>x - e\<bar> \<le> max (1/10^9 * max \<bar>x\<bar> \<bar>e\<bar>) (1/10^9)"
    if n: "n \<in> set reconciled_fields" for n
  proof -
    obtain v where v: "map_of r n = Some v"
      using metric_row_aggregate [OF n, of undefined undefined undefined m] m(2) by blast
    have close: "is_close y e \<Longrightarrow> \<exists>x. y = Fin x \<and> \<bar>x - e\<bar> \<le> max (1/10^9 * max \<bar>x\<bar> \<bar>e\<bar>) (1/10^9)" for y e
      by (cases y) simp_all
    show ?thesis using ok [OF n] v close
      by (auto simp: reconcile_field_def split: option.splits if_splits)
  qed
  with m g show ?thesis by blast
qed

text \<open>A text form of the natural numbers, for the examples.\<close>

definition unary :: conversions where
  "unary = \<lparr>int_text = \<lambda>s. Some (int (length s) - 1), float_text = \<lambda>s. Some (Fin (real (length s) - 1)),
     str_of = \<lambda>v. CHR ''n'' # (case aggregate_of v of Some x \<Rightarrow> replicate (nat \<lfloor>x\<rfloor>) CHR ''i'' | None \<Rightarrow> [])\<rparr>"

lemma unary_prints_back: "(\<And>x. aggregate_of v = Some x \<Longrightarrow> x \<in> \<nat>) \<Longrightarrow> number_prints_back unary v"
  by (auto simp: number_prints_back_def unary_def elim!: Nats_cases)

definition sample_realistic_experiment :: ExperimentConfig where
  "sample_realistic_experiment = sample_experiment\<lparr>exp_workload := sample_workload\<rparr>"

lemma sample_guards: "raise_if (reconcile_guards [sample_record 0 ERROR] sample_realistic_experiment) = None"
  by (simp add: reconcile_guards_def raise_if.simps instrumented_def forced_exactly_def sample_record_def
      sample_realistic_experiment_def sample_workload_def Let_def)

lemma sample_error_metrics:
  "\<exists>m. calculate_metrics (exp_workload sample_realistic_experiment) [sample_record 0 ERROR] = Inr m \<and>
     (\<forall>(n, v) \<in> set (metric_fields m). \<forall>x. aggregate_of v = Some x \<longrightarrow> n \<in> set reconciled_fields \<longrightarrow> x \<in> \<nat>)"
  by (simp add: calculate_metrics_def successes_def status_count_def sample_record_def percentiles_def
      nearest_rank_def ttft_values_def tpot_values_def end_to_end_values_def queue_wait_values_def
      List.map_filter_def clipping_instrumented_def clipped_records_def record_clip_applied_def
      realized_truncations_def cap_reductions_def cap_reduction_tokens_def rate_or_none_def mean_or_none_def
      attainment_def meets_slo_def slo_by_class_def metric_fields_def percentile_fields_def count_json_def
      optional_float_def class_rate_def reconciled_fields_def Let_def)

lemma sample_row_accepted: "\<exists>m cells.
    csv_result_row unary (metric_row (\<lambda>v. []) ''a'' sample_realistic_experiment m) = Inr cells \<and>
    calculate_metrics (exp_workload sample_realistic_experiment) [sample_record 0 ERROR] = Inr m \<and>
    (\<forall>(n, v) \<in> set (metric_fields m). n \<in> set reconciled_fields \<longrightarrow> number_prints_back unary v)"
proof -
  obtain m where m: "calculate_metrics (exp_workload sample_realistic_experiment) [sample_record 0 ERROR] = Inr m"
    "\<forall>(n, v) \<in> set (metric_fields m). \<forall>x. aggregate_of v = Some x \<longrightarrow> n \<in> set reconciled_fields \<longrightarrow> x \<in> \<nat>"
    using sample_error_metrics by blast
  then have "\<forall>(n, v) \<in> set (metric_fields m). n \<in> set reconciled_fields \<longrightarrow> number_prints_back unary v"
    using unary_prints_back by fast
  with m(1) show ?thesis by (simp add: csv_result_row_def metric_row_columns)
qed

theorem sweep_row_reconciles_witness: "\<exists>m cells.
    csv_result_row unary (metric_row (\<lambda>v. []) ''a'' sample_realistic_experiment m) = Inr cells \<and>
    reconcile_point unary (dict_row SWEEP_RESULT_COLUMNS cells) [sample_record 0 ERROR] sample_realistic_experiment
      = Inr (metrics_mapping m)"
  using sample_row_accepted sweep_row_reconciles sample_guards by fastforce

lemma sample_accepted:
  "\<exists>row r. reconcile_point unary row [sample_record 0 ERROR] sample_realistic_experiment = Inr r"
proof -
  obtain m cells where m: "csv_result_row unary (metric_row (\<lambda>v. []) ''a'' sample_realistic_experiment m) = Inr cells"
    "calculate_metrics (exp_workload sample_realistic_experiment) [sample_record 0 ERROR] = Inr m"
    "\<forall>(n, v) \<in> set (metric_fields m). n \<in> set reconciled_fields \<longrightarrow> number_prints_back unary v"
    using sample_row_accepted by blast
  have "reconcile_point unary (dict_row SWEEP_RESULT_COLUMNS cells) [sample_record 0 ERROR]
      sample_realistic_experiment = Inr (metrics_mapping m)"
    unfolding reconcile_point_def checked_def sample_guards m(2) Let_def and_then.simps option.case
      written_fields_reconcile [OF m(1,3)] by (rule refl)
  then show ?thesis by blast
qed

theorem accepted_row_agrees_witness: "\<exists>row r m.
    reconcile_point unary row [sample_record 0 ERROR] sample_realistic_experiment = Inr r \<and>
    calculate_metrics (exp_workload sample_realistic_experiment) [sample_record 0 ERROR] = Inr m \<and>
    r = metrics_mapping m"
proof -
  obtain row r where "reconcile_point unary row [sample_record 0 ERROR] sample_realistic_experiment = Inr r"
    using sample_accepted by blast
  with accepted_row_agrees [OF this] show ?thesis by blast
qed

end
