(* ===== verification/TimeTable.thy ===== *)
theory TimeTable
  imports Prelude
begin

text \<open>
  Dictionaries of numbers (\<open>defaultdict(float)\<close>, \<open>d[k] = d.get(k, 0) + x\<close>) as association lists, the
  sums over them, and the interface of the components that charge the time they observe to a key: the
  replay of a depth trace charges it to a depth, the probe to a depth and to a controller level.
\<close>

section \<open>Adding to a key\<close>

definition add_at :: "'k \<Rightarrow> 'v::comm_monoid_add \<Rightarrow> ('k \<times> 'v) list \<Rightarrow> ('k \<times> 'v) list" where
  "add_at k x m = AList.update k ((case map_of m k of None \<Rightarrow> 0 | Some v \<Rightarrow> v) + x) m"

lemma add_at_Nil [simp]: "add_at k x [] = [(k, x)]"
  by (simp add: add_at_def)

lemma add_at_Cons [simp]:
  "add_at k x ((k', v) # m) = (if k = k' then (k, v + x) # m else (k', v) # add_at k x m)"
  by (simp add: add_at_def)

lemma add_at_keys [simp]: "fst ` set (add_at k x m) = insert k (fst ` set m)"
  by (induction m) (force split: if_splits)+

lemma add_at_distinct: "distinct (map fst m) \<Longrightarrow> distinct (map fst (add_at k x m))"
  by (simp add: add_at_def distinct_update)

text \<open>
  A sum over the entries grows by what the new amount contributes; \<open>f k\<close> is additive.
\<close>

definition entry_sum :: "('k \<Rightarrow> 'v \<Rightarrow> real) \<Rightarrow> ('k \<times> 'v) list \<Rightarrow> real" where
  "entry_sum f m = sum_list (map (\<lambda>(k, v). f k v) m)"

lemma entry_sum_simps [simp]:
  "entry_sum f [] = 0" "entry_sum f ((k, v) # m) = f k v + entry_sum f m"
  "entry_sum f (m @ m') = entry_sum f m + entry_sum f m'"
  by (simp_all add: entry_sum_def)

lemma entry_sum_add_at:
  assumes "\<And>v. f k (v + x) = f k v + f k x"
  shows "entry_sum f (add_at k x m) = entry_sum f m + f k x"
  by (induction m) (auto simp: assms)

lemma entry_sum_sort: "entry_sum f (sort_key g m) = entry_sum f m"
  unfolding entry_sum_def by (metis (no_types) mset_map mset_sort sum_mset_sum_list)

lemma entry_sum_cong: "(\<And>k v. (k, v) \<in> set m \<Longrightarrow> f k v = g k v) \<Longrightarrow> entry_sum f m = entry_sum g m"
  unfolding entry_sum_def by (induction m) auto

lemma entry_sum_lookup:
  assumes "distinct ks" and "distinct (map fst m)" and "fst ` set m \<subseteq> set ks"
  shows "sum_list (map (\<lambda>k. case map_of m k of Some v \<Rightarrow> f k v | None \<Rightarrow> 0) ks) = entry_sum f m"
  using assms(2,3)
proof (induction m)
  case (Cons e m)
  obtain k0 v0 where e: "e = (k0, v0)" by (cases e)
  have new: "map_of m k0 = None" using Cons.prems(1) by (simp add: e map_of_eq_None_iff)
  have "sum_list (map (\<lambda>k. case map_of (e # m) k of Some v \<Rightarrow> f k v | None \<Rightarrow> 0) ks)
      = sum_list (map (\<lambda>k. (if k0 = k then f k0 v0 else 0)
          + (case map_of m k of Some v \<Rightarrow> f k v | None \<Rightarrow> 0)) ks)"
    by (rule arg_cong [where f = sum_list]) (auto simp: e new)
  also have "\<dots> = sum_list (map (\<lambda>k. if k0 = k then f k0 v0 else 0) ks) + entry_sum f m"
    using Cons by (simp add: sum_list_addf)
  also have "sum_list (map (\<lambda>k. if k0 = k then f k0 v0 else 0) ks) = f k0 v0"
    using assms(1) Cons.prems(2) e by (simp add: sum_list_distinct_conv_sum_set sum.delta)
  finally show ?case by (simp add: e)
qed simp

lemma sum_list_charge:
  fixes x :: real
  shows "k < length xs \<Longrightarrow> sum_list (xs[k := xs ! k + x]) = sum_list xs + x"
  by (induction xs arbitrary: k) (auto split: nat.split)

section \<open>Charging time\<close>

locale time_table =
  fixes charged :: "'s \<Rightarrow> ('k \<times> real) list" and charge :: "'k \<Rightarrow> real \<Rightarrow> 's \<Rightarrow> 's"
  assumes charge_law: "charged (charge k x s) = add_at k x (charged s)"
begin

definition total :: "'s \<Rightarrow> real" where
  "total s = entry_sum (\<lambda>k x. x) (charged s)"

definition weighted :: "('k \<Rightarrow> real) \<Rightarrow> 's \<Rightarrow> real" where
  "weighted w s = entry_sum (\<lambda>k x. w k * x) (charged s)"

definition time_in :: "('k \<Rightarrow> bool) \<Rightarrow> 's \<Rightarrow> real" where
  "time_in P s = entry_sum (\<lambda>k x. if P k then x else 0) (charged s)"

lemma total_charge: "total (charge k x s) = total s + x"
  by (simp add: total_def charge_law entry_sum_add_at)

lemma weighted_charge: "weighted w (charge k x s) = weighted w s + w k * x"
  by (simp add: weighted_def charge_law entry_sum_add_at distrib_left)

lemma time_in_charge: "time_in P (charge k x s) = time_in P s + (if P k then x else 0)"
  by (simp add: time_in_def charge_law entry_sum_add_at)

lemma charged_distinct: "distinct (map fst (charged s)) \<Longrightarrow> distinct (map fst (charged (charge k x s)))"
  by (simp add: charge_law add_at_distinct)

lemma charged_nonneg:
  assumes "\<forall>(k, v) \<in> set (charged s). 0 \<le> v" and "0 \<le> x"
  shows "\<forall>(k, v) \<in> set (charged (charge k x s)). 0 \<le> v"
proof -
  have "\<forall>(k, v) \<in> set m. 0 \<le> v \<Longrightarrow> \<forall>(k, v) \<in> set (add_at k x m). 0 \<le> v" for m :: "('k \<times> real) list"
    using assms(2) by (induction m) (auto split: if_splits)
  then show ?thesis using assms(1) by (simp add: charge_law)
qed

lemma time_in_le_total:
  assumes "\<forall>(k, v) \<in> set (charged s). 0 \<le> v"
  shows "time_in P s \<le> total s"
proof -
  have "entry_sum (\<lambda>k x. if P k then x else 0) m \<le> entry_sum (\<lambda>k x. x) m"
    if "\<forall>(k, v) \<in> set m. 0 \<le> v" for m :: "('k \<times> real) list"
    using that by (induction m) auto
  then show ?thesis using assms by (simp add: time_in_def total_def)
qed

end

section \<open>Loops that may raise\<close>

lemma fold_result_invariant:
  assumes "fold_result f xs s = Inr s'" and "I s"
    and "\<And>x s s'. x \<in> set xs \<Longrightarrow> I s \<Longrightarrow> f x s = Inr s' \<Longrightarrow> I s'"
  shows "I s'"
  using assms by (induction xs arbitrary: s) (auto simp: and_then_Inr)

lemma fold_result_returns:
  assumes "I s" and "\<And>x s. x \<in> set xs \<Longrightarrow> I s \<Longrightarrow> \<exists>s'. f x s = Inr s' \<and> I s'"
  shows "\<exists>s'. fold_result f xs s = Inr s' \<and> I s'"
  using assms
proof (induction xs arbitrary: s)
  case (Cons x xs)
  obtain s1 where s1: "f x s = Inr s1" "I s1" using Cons.prems by force
  obtain s' where "fold_result f xs s1 = Inr s'" "I s'"
    using Cons.IH [OF s1(2)] Cons.prems(2) by force
  then show ?case using s1(1) by simp
qed simp

text \<open>Each pass adds its share to a quantity of the state.\<close>

lemma fold_result_sum:
  fixes q :: "'s \<Rightarrow> real"
  assumes "fold_result f xs s = Inr s'" and "I s"
    and "\<And>x s s'. x \<in> set xs \<Longrightarrow> I s \<Longrightarrow> f x s = Inr s' \<Longrightarrow> I s' \<and> q s' = q s + share x"
  shows "I s' \<and> q s' = q s + sum_list (map share xs)"
  using assms
proof (induction xs arbitrary: s)
  case (Cons x xs)
  obtain s1 where s1: "f x s = Inr s1" "fold_result f xs s1 = Inr s'"
    using Cons.prems(1) by (auto simp: and_then_Inr)
  have "I s1 \<and> q s1 = q s + share x" using Cons.prems(3) [of x s s1] Cons.prems(2) s1(1) by simp
  moreover have "I s' \<and> q s' = q s1 + sum_list (map share xs)"
    by (rule Cons.IH [OF s1(2)]) (use Cons.prems(3) calculation in auto)
  ultimately show ?case by simp
qed simp

lemma sum_list_by_key:
  fixes f :: "'a \<Rightarrow> 'b::comm_monoid_add"
  assumes "distinct ks" and "key ` set xs \<subseteq> set ks"
  shows "sum_list (map (\<lambda>k. sum_list (map f (filter (\<lambda>x. key x = k) xs))) ks) = sum_list (map f xs)"
  using assms(2)
proof (induction xs)
  case (Cons x xs)
  have one: "sum_list (map (\<lambda>k. if key x = k then f x else 0) ks) = f x"
    using assms(1) Cons.prems by (simp add: sum_list_distinct_conv_sum_set sum.delta)
  have "sum_list (map (\<lambda>k. sum_list (map f (filter (\<lambda>y. key y = k) (x # xs)))) ks)
      = sum_list (map (\<lambda>k. (if key x = k then f x else 0) + sum_list (map f (filter (\<lambda>y. key y = k) xs))) ks)"
    by (rule arg_cong [where f = sum_list]) simp
  also have "\<dots> = f x + sum_list (map f xs)"
    using Cons one by (simp add: sum_list_addf)
  finally show ?case by simp
qed simp

lemma sum_list_group_by: "sum_list (map (\<lambda>(k, ys). length ys) (group_by key xs)) = length xs"
  using sum_list_by_key [of "first_occurrences (map key xs)" key xs "\<lambda>_. 1 :: nat"]
  by (simp add: group_by_def comp_def sum_list_triv)

lemma map_eq_by_list_all2: "list_all2 (\<lambda>x y. f x = g y) xs ys \<Longrightarrow> map f xs = map g ys"
  by (induction rule: list_all2_induct) auto

end
