(* ===== verification/Labels.thy ===== *)
theory Labels
  imports Prelude
begin

text \<open>
  Point labels and file names. A label ends in \<open>-s\<close> and the digits of its seed; the analyses of
  src/sloserve/analysis find the arm and the seed with the regular expression \<open>-s[0-9]+$\<close>, whose
  \<open>$\<close> also matches before a final newline.
\<close>

definition is_digit :: "char \<Rightarrow> bool" where
  "is_digit ch \<longleftrightarrow> (let n = of_char ch :: nat in 48 \<le> n \<and> n \<le> 57)"

definition chop_newline :: "string \<Rightarrow> string" where
  "chop_newline s = (if s \<noteq> [] \<and> last s = CHR 0x0A then butlast s else s)"

text \<open>The match of \<open>-s[0-9]+\<close> at the end of a string: what is before it, and its digits.\<close>

definition split_seed :: "string \<Rightarrow> (string \<times> string) option" where
  "split_seed s =
    (let r = rev s; digits = takeWhile is_digit r; rest = dropWhile is_digit r in
     if digits \<noteq> [] \<and> take 2 rest = ''s-'' then Some (rev (drop 2 rest), rev digits) else None)"

lemma split_seed_Some:
  assumes "split_seed s = Some (before, digits)"
  shows "s = before @ ''-s'' @ digits" and "digits \<noteq> []" and "list_all is_digit digits"
proof -
  let ?d = "takeWhile is_digit (rev s)" and ?r = "dropWhile is_digit (rev s)"
  have d: "digits = rev ?d" "before = rev (drop 2 ?r)" "take 2 ?r = ''s-''" "?d \<noteq> []"
    using assms by (auto simp: split_seed_def Let_def split: if_splits)
  have "rev s = ?d @ take 2 ?r @ drop 2 ?r" by simp
  then have "s = rev (drop 2 ?r) @ rev (take 2 ?r) @ rev ?d" by (metis append.assoc rev_append rev_rev_ident)
  then show "s = before @ ''-s'' @ digits" using d by simp
  show "digits \<noteq> []" using d by simp
  show "list_all is_digit digits" using d by (auto simp: list_all_iff dest: set_takeWhileD)
qed

lemma split_seed_suffix:
  assumes "digits \<noteq> []" and "list_all is_digit digits"
  shows "split_seed (before @ ''-s'' @ digits) = Some (before, digits)"
proof -
  have "\<not> is_digit CHR ''s''" by (simp add: is_digit_def)
  then have "takeWhile is_digit (rev digits @ ''s-'' @ rev before) = rev digits"
    "dropWhile is_digit (rev digits @ ''s-'' @ rev before) = ''s-'' @ rev before"
    using assms(2) by (auto simp: takeWhile_append dropWhile_append list_all_iff)
  then show ?thesis using assms(1) by (simp add: split_seed_def Let_def)
qed

end
