(* ===== verification/ExpLStats.thy ===== *)
theory ExpLStats
  imports Prelude
begin

text \<open>
  The statistics and the preregistered gates of src/sloserve/analysis/expl.py that work on one
  number per seed: the exact bootstrap over seed clusters, and the low-load, depth, latency,
  retention and recovery gates. A \<open>Mapping[int, float]\<close> is an association list.
\<close>

type_synonym SeedValues = "(int \<times> real) list"

section \<open>Bootstrap over seeds\<close>

record IntervalEstimate =
  estimate :: real
  low_95 :: real
  high_95 :: real
  seed_count :: nat

definition expl_nearest_rank :: "real list \<Rightarrow> real \<Rightarrow> real result" where
  "expl_nearest_rank values proportion =
     (case nearest_rank (sort values) proportion of
        None \<Rightarrow> Inl (ValueError ''a percentile requires at least one value'')
      | Some v \<Rightarrow> Inr v)"

text \<open>Every mapping has the seeds of the first one; they are returned sorted.\<close>

definition aligned_seeds :: "SeedValues list \<Rightarrow> int list result" where
  "aligned_seeds samples =
     (case samples of
        [] \<Rightarrow> Inl (ValueError ''paired statistics require at least one sample'')
      | d # ds \<Rightarrow>
          if d = [] \<or> list_ex (\<lambda>e. set (map fst e) \<noteq> set (map fst d)) ds
          then Inl (ValueError ''paired statistics require identical non-empty seed sets'')
          else Inr (sorted_list_of_set (set (map fst d))))"

text \<open>\<open>d[seed]\<close>, for a seed \<open>aligned_seeds\<close> has found in every mapping.\<close>

definition seed_value :: "SeedValues \<Rightarrow> int \<Rightarrow> real" where
  "seed_value d seed = (case map_of d seed of Some v \<Rightarrow> v | None \<Rightarrow> 0)"

text \<open>\<open>itertools.product(seeds, repeat=len(seeds))\<close>\<close>

definition resamples :: "int list \<Rightarrow> int list list" where
  "resamples seeds = product_lists (replicate (length seeds) seeds)"

definition bootstrap_seed_statistic ::
    "SeedValues list \<Rightarrow> (int list \<Rightarrow> real) \<Rightarrow> IntervalEstimate result" where
  "bootstrap_seed_statistic samples statistic =
     and_then (aligned_seeds samples) (\<lambda>seeds.
       let point = statistic seeds in
       if \<not> length seeds \<le> 6
       then Inl (ValueError ''exact seed bootstrap supports at most six seed clusters'')
       else let values = map statistic (resamples seeds) in
         and_then (expl_nearest_rank values (25/1000)) (\<lambda>low.
         and_then (expl_nearest_rank values (975/1000)) (\<lambda>high.
         Inr \<lparr>estimate = point, low_95 = low, high_95 = high, seed_count = length seeds\<rparr>)))"

definition cluster_mean_interval :: "SeedValues \<Rightarrow> IntervalEstimate result" where
  "cluster_mean_interval values =
     bootstrap_seed_statistic [values] (\<lambda>seeds. average (map (seed_value values) seeds))"

definition paired_difference_interval :: "SeedValues \<Rightarrow> SeedValues \<Rightarrow> IntervalEstimate result" where
  "paired_difference_interval treatment baseline =
     bootstrap_seed_statistic [treatment, baseline]
       (\<lambda>seeds. average (map (\<lambda>s. seed_value treatment s - seed_value baseline s) seeds))"

definition paired_ratio_interval :: "SeedValues \<Rightarrow> SeedValues \<Rightarrow> IntervalEstimate result" where
  "paired_ratio_interval numerator denominator =
     and_then (aligned_seeds [numerator, denominator]) (\<lambda>seeds.
       if list_ex (\<lambda>s. seed_value denominator s \<le> 0) seeds
       then Inl (ValueError ''paired ratios require positive denominators'')
       else bootstrap_seed_statistic [numerator, denominator]
         (\<lambda>seeds. average (map (\<lambda>s. seed_value numerator s / seed_value denominator s) seeds)))"

section \<open>Gates\<close>

record LowLoadEvidence =
  low_clip_applied_count :: nat
  low_realized_truncation_count :: nat
  every_backend_cap_matches_request :: bool
  every_decision_is_l0 :: bool
  paired_trace_equal :: bool
  no_clip_throughput_by_seed :: SeedValues
  adaptive_throughput_by_seed :: SeedValues

definition check_low_load_gate :: "LowLoadEvidence \<Rightarrow> IntervalEstimate result" where
  "check_low_load_gate e =
    (let failures = [low_clip_applied_count e \<noteq> 0, low_realized_truncation_count e \<noteq> 0,
           \<not> every_backend_cap_matches_request e, \<not> every_decision_is_l0 e, \<not> paired_trace_equal e] in
     and_then (paired_ratio_interval (adaptive_throughput_by_seed e) (no_clip_throughput_by_seed e))
       (\<lambda>ratio.
         if list_ex id (failures @ [low_95 ratio < 95/100 \<or> 105/100 < high_95 ratio])
         then Inl (PreRegistrationFailure ''low-load zero-utility gate failed'')
         else Inr ratio))"

text \<open>What the depth gate reads of the replay: the trigger eligibility and the longest episodes.\<close>

record DepthReplay =
  eligible_levels :: "(string \<times> bool) list"
  l3_reachable :: bool
  episode_max_s :: "(string \<times> real) list"

definition check_depth_eligibility :: "DepthReplay \<Rightarrow> real \<Rightarrow> DepthReplay result" where
  "check_depth_eligibility replay tighten_hold_s =
    (if \<not> (set (map fst (eligible_levels replay)) = {''L1'', ''L2'', ''L3''} \<and>
           list_all (\<lambda>l. map_of (eligible_levels replay) l = Some True) [''L1'', ''L2'', ''L3''])
     then Inl (PreRegistrationFailure ''default L1/L2/L3 do not all have non-zero trigger eligibility'')
     else if \<not> l3_reachable replay
     then Inl (PreRegistrationFailure ''L3 is not reachable in the saved expK-B depth trace'')
     else if \<not> list_ex (\<lambda>(k, v). tighten_hold_s \<le> v) (episode_max_s replay)
     then Inl (PreRegistrationFailure
            ''all saved high-load pressure episodes are shorter than tighten hold'')
     else Inr replay)"

definition check_latency_benefit ::
    "SeedValues \<Rightarrow> SeedValues \<Rightarrow> SeedValues \<Rightarrow> SeedValues \<Rightarrow>
     (IntervalEstimate \<times> IntervalEstimate) result" where
  "check_latency_benefit no_clip_wait adaptive_wait no_clip_slo adaptive_slo =
     and_then (paired_difference_interval no_clip_wait adaptive_wait) (\<lambda>wait_improvement.
     and_then (paired_difference_interval adaptive_slo no_clip_slo) (\<lambda>slo_improvement.
       if low_95 wait_improvement \<le> 0 \<or> low_95 slo_improvement \<le> 0
       then Inl (PreRegistrationFailure ''high-load latency benefit is not stable'')
       else Inr (wait_improvement, slo_improvement)))"

text \<open>\<open>retention\<close> for the wait (\<open>sign = -1\<close>: less is better) and for the SLO rate.\<close>

definition retention ::
    "bool \<Rightarrow> SeedValues \<Rightarrow> SeedValues \<Rightarrow> SeedValues \<Rightarrow> int list \<Rightarrow> real result" where
  "retention slo no_clip fixed adaptive resampled =
    (let gain = (\<lambda>d. average (map (\<lambda>s. if slo then seed_value d s - seed_value no_clip s
                                        else seed_value no_clip s - seed_value d s) resampled));
         numerator = gain adaptive; denominator = gain fixed in
     if denominator \<le> 0 then Inl (ZeroDivisionError ''retention'')
     else Inr (numerator / denominator))"

record RetentionReport =
  wait_retention :: real
  slo_retention :: real
  wait_bootstrap_95 :: "(real \<times> real) option"
  slo_bootstrap_95 :: "(real \<times> real) option"
  invalid_wait :: nat
  invalid_slo :: nat

definition interpretable :: "(int list \<Rightarrow> real result) \<Rightarrow> int list list \<Rightarrow> real list" where
  "interpretable f rs = List.map_filter (\<lambda>r. case f r of Inr v \<Rightarrow> Some v | Inl _ \<Rightarrow> None) rs"

definition uninterpretable :: "(int list \<Rightarrow> real result) \<Rightarrow> int list list \<Rightarrow> nat" where
  "uninterpretable f rs = length (filter (\<lambda>r. case f r of Inr _ \<Rightarrow> False | Inl _ \<Rightarrow> True) rs)"

definition bootstrap_95 :: "real list \<Rightarrow> (real \<times> real) option result" where
  "bootstrap_95 values =
    (if values = [] then Inr None
     else and_then (expl_nearest_rank values (25/1000)) (\<lambda>low.
          and_then (expl_nearest_rank values (975/1000)) (\<lambda>high. Inr (Some (low, high)))))"

definition check_benefit_retention ::
    "SeedValues \<Rightarrow> SeedValues \<Rightarrow> SeedValues \<Rightarrow> SeedValues \<Rightarrow> SeedValues \<Rightarrow> SeedValues \<Rightarrow>
     RetentionReport result" where
  "check_benefit_retention no_clip_wait fixed_wait adaptive_wait no_clip_slo fixed_slo adaptive_slo =
     and_then (aligned_seeds [no_clip_wait, fixed_wait, adaptive_wait, no_clip_slo, fixed_slo, adaptive_slo])
     (\<lambda>seeds.
       let wait = retention False no_clip_wait fixed_wait adaptive_wait;
           slo = retention True no_clip_slo fixed_slo adaptive_slo;
           wait_denominator = average (map (\<lambda>s. seed_value no_clip_wait s - seed_value fixed_wait s) seeds);
           slo_denominator = average (map (\<lambda>s. seed_value fixed_slo s - seed_value no_clip_slo s) seeds) in
       if wait_denominator \<le> 0 \<or> slo_denominator \<le> 0
       then Inl (PreRegistrationFailure ''benefit retention is uninterpretable'')
       else and_then (wait seeds) (\<lambda>wait_point. and_then (slo seeds) (\<lambda>slo_point.
         if wait_point < 75/100 \<or> slo_point < 75/100
         then Inl (PreRegistrationFailure
                ''adaptive benefit retention is below the frozen 0.75 threshold'')
         else and_then (bootstrap_95 (interpretable wait (resamples seeds))) (\<lambda>wb.
              and_then (bootstrap_95 (interpretable slo (resamples seeds))) (\<lambda>sb.
              Inr \<lparr>wait_retention = wait_point, slo_retention = slo_point,
                wait_bootstrap_95 = wb, slo_bootstrap_95 = sb,
                invalid_wait = uninterpretable wait (resamples seeds),
                invalid_slo = uninterpretable slo (resamples seeds)\<rparr>)))))"

definition check_utility_recovery ::
    "SeedValues \<Rightarrow> SeedValues \<Rightarrow> SeedValues \<Rightarrow> SeedValues \<Rightarrow>
     (IntervalEstimate \<times> IntervalEstimate) result" where
  "check_utility_recovery fixed_throughput adaptive_throughput fixed_truncation adaptive_truncation =
     and_then (paired_difference_interval adaptive_throughput fixed_throughput) (\<lambda>gain.
     and_then (paired_difference_interval fixed_truncation adaptive_truncation) (\<lambda>reduction.
       if low_95 gain \<le> 0 \<and> low_95 reduction \<le> 0
       then Inl (PreRegistrationFailure
              ''adaptive clipping neither stably improves throughput nor stably reduces truncation'')
       else Inr (gain, reduction)))"

section \<open>Facts about the bootstrap\<close>

lemma expl_nearest_rank_Inr:
  assumes "values \<noteq> []"
  obtains v where "expl_nearest_rank values p = Inr v"
proof -
  have "sort values \<noteq> []" using assms by (metis length_0_conv length_sort)
  then show ?thesis using that by (auto simp: expl_nearest_rank_def nearest_rank_def)
qed

lemma expl_nearest_rank_mem:
  "expl_nearest_rank values p = Inr v \<Longrightarrow> 0 < p \<Longrightarrow> p \<le> 1 \<Longrightarrow> v \<in> set values"
  using nearest_rank_mem [of "sort values" p v] by (auto simp: expl_nearest_rank_def split: option.splits)

lemma expl_nearest_rank_mono:
  "expl_nearest_rank values p = Inr u \<Longrightarrow> expl_nearest_rank values q = Inr v \<Longrightarrow> 0 < p \<Longrightarrow> p \<le> q \<Longrightarrow>
   q \<le> 1 \<Longrightarrow> u \<le> v"
  using nearest_rank_mono [of "sort values" p u q v]
  by (auto simp: expl_nearest_rank_def split: option.splits)

lemma resamples_elements:
  "r \<in> set (resamples seeds) \<Longrightarrow> length r = length seeds \<and> set r \<subseteq> set seeds"
  by (auto simp: resamples_def product_lists_set list_all2_conv_all_nth in_set_conv_nth)

lemma resamples_length: "length (resamples seeds) = length seeds ^ length seeds"
proof -
  have "length (product_lists (replicate n seeds)) = length seeds ^ n" for n
    by (induction n) (simp_all add: length_concat comp_def sum_list_triv)
  then show ?thesis by (simp add: resamples_def)
qed

lemma resamples_nonempty: "resamples seeds \<noteq> []"
  by (metis length_0_conv list.size(3) one_neq_zero power_0 power_eq_0_iff resamples_length)

lemma aligned_seeds_Inr:
  "aligned_seeds (d # ds) = Inr seeds \<longleftrightarrow> d \<noteq> [] \<and> (\<forall>e \<in> set ds. set (map fst e) = set (map fst d)) \<and>
     seeds = sorted_list_of_set (set (map fst d))"
  by (auto simp: aligned_seeds_def list_ex_iff)

text \<open>
  The interval of any statistic that averages a function over the resampled seeds: it is computed
  for one to six seeds, its ends are ordered, and everything lies between the least and the
  greatest value a seed has.
\<close>

lemma bootstrap_average:
  assumes "bootstrap_seed_statistic (d # ds) (\<lambda>seeds. average (map f seeds)) = Inr e"
    and "\<And>s. s \<in> set (map fst d) \<Longrightarrow> l \<le> f s \<and> f s \<le> u"
  shows "l \<le> low_95 e" and "low_95 e \<le> high_95 e" and "high_95 e \<le> u"
    and "l \<le> estimate e" and "estimate e \<le> u"
proof -
  let ?seeds = "sorted_list_of_set (set (map fst d))"
  let ?stat = "\<lambda>seeds. average (map f seeds)"
  have d: "d \<noteq> []" and est: "estimate e = ?stat ?seeds"
    and low: "expl_nearest_rank (map ?stat (resamples ?seeds)) (25/1000) = Inr (low_95 e)"
    and high: "expl_nearest_rank (map ?stat (resamples ?seeds)) (975/1000) = Inr (high_95 e)"
    using assms(1)
    by (auto simp: bootstrap_seed_statistic_def and_then_Inr aligned_seeds_Inr Let_def split: if_splits)
  have ne: "?seeds \<noteq> []" using d by simp
  have between: "l \<le> ?stat r \<and> ?stat r \<le> u" if "r \<noteq> []" "set r \<subseteq> set ?seeds" for r
    using average_bounds [of "map f r" l u] that assms(2) by fastforce
  show "l \<le> estimate e" "estimate e \<le> u" using between [of ?seeds] ne by (simp_all add: est)
  have res: "l \<le> ?stat r \<and> ?stat r \<le> u" if "r \<in> set (resamples ?seeds)" for r
    using between [of r] resamples_elements [OF that] ne by fastforce
  have "low_95 e \<in> ?stat ` set (resamples ?seeds)" "high_95 e \<in> ?stat ` set (resamples ?seeds)"
    using expl_nearest_rank_mem [OF low] expl_nearest_rank_mem [OF high] by simp_all
  with res show "l \<le> low_95 e" "high_95 e \<le> u" by auto
  show "low_95 e \<le> high_95 e" using expl_nearest_rank_mono [OF low high] by simp
qed

text \<open>
  The bootstrap is sound: for mappings with the same one to six seeds the paired difference
  always exists, its 95% interval is ordered, and both the estimate and the interval lie within
  the smallest and the largest per-seed difference. So an interval that excludes zero, which is
  what the latency and recovery gates ask for, implies that some seed shows the benefit, and a
  benefit shown by every seed gives such an interval.
\<close>

theorem paired_interval_sound:
  assumes "treatment \<noteq> []" and "set (map fst baseline) = set (map fst treatment)"
    and "card (set (map fst treatment)) \<le> 6"
  shows "\<exists>e. paired_difference_interval treatment baseline = Inr e \<and>
    low_95 e \<le> high_95 e \<and>
    (let differences = (\<lambda>s. seed_value treatment s - seed_value baseline s) ` set (map fst treatment) in
     Min differences \<le> low_95 e \<and> high_95 e \<le> Max differences \<and>
     Min differences \<le> estimate e \<and> estimate e \<le> Max differences)"
proof -
  let ?f = "\<lambda>s. seed_value treatment s - seed_value baseline s"
  let ?seeds = "sorted_list_of_set (set (map fst treatment))"
  let ?means = "map (\<lambda>r. average (map ?f r)) (resamples ?seeds)"
  have ne: "?means \<noteq> []" by (simp add: resamples_nonempty)
  obtain low where low: "expl_nearest_rank ?means (25/1000) = Inr low" by (rule expl_nearest_rank_Inr [OF ne])
  obtain high where high: "expl_nearest_rank ?means (975/1000) = Inr high" by (rule expl_nearest_rank_Inr [OF ne])
  have seeds: "aligned_seeds [treatment, baseline] = Inr ?seeds"
    using assms by (simp add: aligned_seeds_Inr)
  obtain e where e: "paired_difference_interval treatment baseline = Inr e"
    using assms(3) by (simp add: paired_difference_interval_def bootstrap_seed_statistic_def
        seeds low [simplified] high [simplified])
  have "Min (?f ` set (map fst treatment)) \<le> ?f s \<and> ?f s \<le> Max (?f ` set (map fst treatment))"
    if "s \<in> set (map fst treatment)" for s
    using that by (auto intro!: Min_le Max_ge)
  note b = bootstrap_average [OF e [unfolded paired_difference_interval_def] this]
  show ?thesis
    unfolding Let_def by (intro exI [of _ e] conjI e b)
qed

theorem paired_interval_sound_witness:
  "\<exists>e. paired_difference_interval [(11, 3), (202, 5)] [(202, 1), (11, 2)] = Inr e \<and>
     1 \<le> low_95 e \<and> high_95 e \<le> 4"
proof -
  let ?t = "[(11, 3), (202, 5)] :: SeedValues" and ?b = "[(202, 1), (11, 2)] :: SeedValues"
  have keys: "?t \<noteq> []" "set (map fst ?b) = set (map fst ?t)" "card (set (map fst ?t)) \<le> 6" by auto
  have differences: "(\<lambda>s. seed_value ?t s - seed_value ?b s) ` set (map fst ?t) = {1, 4}"
    by (simp add: seed_value_def)
  have "Min {1, 4 :: real} = 1" "Max {1, 4 :: real} = 4" by simp_all
  then show ?thesis
    using paired_interval_sound [OF keys] unfolding differences Let_def by auto
qed

section \<open>Facts about retention\<close>

lemma interpretable_count:
  "length (interpretable f rs) + uninterpretable f rs = length rs"
  by (induction rs) (auto simp: interpretable_def uninterpretable_def List.map_filter_def split: sum.splits)

lemma retention_point:
  "retention False n f a seeds =
    (let denominator = average (map (\<lambda>s. seed_value n s - seed_value f s) seeds) in
     if denominator \<le> 0 then Inl (ZeroDivisionError ''retention'')
     else Inr (average (map (\<lambda>s. seed_value n s - seed_value a s) seeds) / denominator))"
  "retention True n f a seeds =
    (let denominator = average (map (\<lambda>s. seed_value f s - seed_value n s) seeds) in
     if denominator \<le> 0 then Inl (ZeroDivisionError ''retention'')
     else Inr (average (map (\<lambda>s. seed_value a s - seed_value n s) seeds) / denominator))"
  by (simp_all add: retention_def Let_def)

lemma bootstrap_95_total: "\<exists>r. bootstrap_95 vs = Inr r"
proof (cases "vs = []")
  case False
  then obtain low high where "expl_nearest_rank vs (25/1000) = Inr low"
    "expl_nearest_rank vs (975/1000) = Inr high" using expl_nearest_rank_Inr by metis
  with False show ?thesis by (simp add: bootstrap_95_def)
qed (simp add: bootstrap_95_def)

text \<open>
  The retention gate never lets a division by zero escape, and no bootstrap sample is dropped:
  the interpretable and the uninterpretable samples add up to all of them.
\<close>

lemma retention_gate_total:
  assumes "check_benefit_retention nw fw aw ns fs as = Inl err"
  shows "(\<exists>m. err = ValueError m) \<or> (\<exists>m. err = PreRegistrationFailure m)"
proof (cases "aligned_seeds [nw, fw, aw, ns, fs, as]")
  case (Inl e)
  with assms show ?thesis
    by (auto simp: check_benefit_retention_def aligned_seeds_def split: if_splits)
next
  case (Inr seeds)
  obtain wb sb where "bootstrap_95 (interpretable (retention False nw fw aw) (resamples seeds)) = Inr wb"
    "bootstrap_95 (interpretable (retention True ns fs as) (resamples seeds)) = Inr sb"
    using bootstrap_95_total by metis
  with assms Inr show ?thesis
    by (auto simp: check_benefit_retention_def Let_def retention_point split: if_splits)
qed

lemma retention_gate_counts:
  assumes "check_benefit_retention nw fw aw ns fs as = Inr r"
    and "aligned_seeds [nw, fw, aw, ns, fs, as] = Inr seeds"
  shows "length (interpretable (retention False nw fw aw) (resamples seeds)) + invalid_wait r
      = length seeds ^ length seeds"
    and "length (interpretable (retention True ns fs as) (resamples seeds)) + invalid_slo r
      = length seeds ^ length seeds"
    and "75/100 \<le> wait_retention r" and "75/100 \<le> slo_retention r"
  using assms interpretable_count [of "retention False nw fw aw" "resamples seeds"]
    interpretable_count [of "retention True ns fs as" "resamples seeds"]
  by (auto simp: check_benefit_retention_def and_then_Inr Let_def resamples_length split: if_splits)

end
