(* ===== verification/ExpLReplay.thy ===== *)
theory ExpLReplay
  imports TimeTable Labels ExpLStats Records
begin

text \<open>
  The replay of the waiting depth of an earlier run (src/sloserve/analysis/expl.py,
  \<open>replay_expkb_depth_eligibility\<close>). Of every repetition of every fact file the depth is rebuilt from
  the intervals between enqueue and dispatch, the time is charged to the depths, and the episodes
  at or above each threshold are measured. A file is its name and the lines read from it; the names
  are those the glob found, in sorted order.
\<close>

section \<open>Events\<close>

definition waiting_interval :: "RequestRecord \<Rightarrow> (real \<times> int) list \<Rightarrow> (real \<times> int) list result" where
  "waiting_interval r events =
    (case rec_dispatch_time_s r of
       None \<Rightarrow> Inl (ExpLIntegrityError ''expK-B depth trace has an invalid waiting interval'')
     | Some dispatch \<Rightarrow>
         if dispatch < rec_enqueue_time_s r
         then Inl (ExpLIntegrityError ''expK-B depth trace has an invalid waiting interval'')
         else Inr (add_at dispatch (-1) (add_at (rec_enqueue_time_s r) 1 events)))"

section \<open>Episodes\<close>

text \<open>
  The dictionaries by threshold are functions; \<open>episode_starts\<close> is fresh in every repetition.
\<close>

record ReplayTotals =
  duration_by_depth :: "(int \<times> real) list"
  episode_durations :: "int \<Rightarrow> real list"
  observation_time :: real

record ReplayRun =
  totals :: ReplayTotals
  replay_depth :: int
  replay_previous :: "real option"
  episode_starts :: "int \<Rightarrow> real option"
  seed_peak :: int

definition charge_depth :: "int \<Rightarrow> real \<Rightarrow> ReplayTotals \<Rightarrow> ReplayTotals" where
  "charge_depth depth duration t =
     t\<lparr>duration_by_depth := add_at depth duration (duration_by_depth t),
       observation_time := observation_time t + duration\<rparr>"

definition end_episode :: "int \<Rightarrow> real \<Rightarrow> ReplayTotals \<Rightarrow> ReplayTotals" where
  "end_episode threshold duration t =
     t\<lparr>episode_durations := (episode_durations t)(threshold := episode_durations t threshold @ [duration])\<rparr>"

definition watch_threshold :: "real \<Rightarrow> int \<Rightarrow> ReplayRun \<Rightarrow> ReplayRun" where
  "watch_threshold previous threshold s =
    (case episode_starts s threshold of
       None \<Rightarrow> if threshold \<le> replay_depth s
         then s\<lparr>episode_starts := (episode_starts s)(threshold := Some previous)\<rparr> else s
     | Some start \<Rightarrow> if replay_depth s < threshold
         then s\<lparr>totals := end_episode threshold (previous - start) (totals s),
                episode_starts := (episode_starts s)(threshold := None)\<rparr>
         else s)"

text \<open>One timestamp of the loop: \<open>change\<close> is \<open>events[timestamp]\<close>.\<close>

definition replay_interval :: "int list \<Rightarrow> real \<Rightarrow> ReplayRun \<Rightarrow> ReplayRun result" where
  "replay_interval thresholds timestamp s =
    (case replay_previous s of
       None \<Rightarrow> Inr s
     | Some previous \<Rightarrow>
         (let duration = timestamp - previous in
          if duration < 0 then Inl (ExpLIntegrityError ''expK-B depth timestamps are not monotonic'')
          else Inr (fold (watch_threshold previous) thresholds
                 (s\<lparr>totals := charge_depth (replay_depth s) duration (totals s)\<rparr>))))"

definition replay_event :: "int list \<Rightarrow> real \<times> int \<Rightarrow> ReplayRun \<Rightarrow> ReplayRun result" where
  "replay_event thresholds = (\<lambda>(timestamp, change) s.
     and_then (replay_interval thresholds timestamp s) (\<lambda>s1.
       let depth = replay_depth s1 + change in
       if depth < 0 then Inl (ExpLIntegrityError ''expK-B depth reconstruction became negative'')
       else Inr (s1\<lparr>replay_depth := depth, seed_peak := max (seed_peak s1) depth,
                    replay_previous := Some timestamp\<rparr>)))"

text \<open>The episodes still open at the end of a repetition.\<close>

definition close_episode :: "(int \<Rightarrow> real option) \<Rightarrow> real \<Rightarrow> int \<Rightarrow> ReplayTotals \<Rightarrow> ReplayTotals" where
  "close_episode starts previous threshold t =
     (case starts threshold of None \<Rightarrow> t | Some start \<Rightarrow> end_episode threshold (previous - start) t)"

definition replay_repetition ::
    "int list \<Rightarrow> RequestRecord list \<Rightarrow> int \<Rightarrow> ReplayTotals \<times> int \<Rightarrow> (ReplayTotals \<times> int) result" where
  "replay_repetition thresholds records repetition = (\<lambda>(t, peak).
     and_then (fold_result waiting_interval (filter (\<lambda>r. rec_repetition_index r = repetition) records) [])
       (\<lambda>events.
     and_then (fold_result (replay_event thresholds) (sort_key fst events)
         \<lparr>totals = t, replay_depth = 0, replay_previous = None, episode_starts = \<lambda>_. None,
          seed_peak = peak\<rparr>) (\<lambda>s.
     case replay_previous s of
       None \<Rightarrow> Inl (ExpLIntegrityError ''expK-B waiting intervals did not close'')
     | Some previous \<Rightarrow>
         if replay_depth s \<noteq> 0 then Inl (ExpLIntegrityError ''expK-B waiting intervals did not close'')
         else Inr (fold (close_episode (episode_starts s) previous) (first_occurrences thresholds) (totals s),
                   seed_peak s))))"

section \<open>Files\<close>

text \<open>\<open>re.search("-s([0-9]+).jsonl$", name)\<close>, whose \<open>$\<close> also matches before a final newline.\<close>

definition seed_suffix :: "string \<Rightarrow> string option" where
  "seed_suffix name =
    (let find = (\<lambda>s. let n = length s - 6 in
         if drop n s = ''.jsonl'' then map_option snd (split_seed (take n s)) else None) in
     case find name of Some d \<Rightarrow> Some d | None \<Rightarrow> find (chop_newline name))"

definition replay_file ::
    "conversions \<Rightarrow> int \<Rightarrow> int list \<Rightarrow> string \<times> jsonl_line list \<Rightarrow> ReplayTotals \<times> (string \<times> int) list \<Rightarrow>
     (ReplayTotals \<times> (string \<times> int) list) result" where
  "replay_file conv warmup thresholds = (\<lambda>(name, ls) (t, peaks).
     and_then (read_request_records_jsonl conv ls) (\<lambda>all_records.
     let records = filter (\<lambda>r. warmup \<le> rec_sequence_id r) all_records in
     and_then (fold_result (replay_repetition thresholds records)
         (sorted_list_of_set (set (map rec_repetition_index records))) (t, 0)) (\<lambda>(t', peak).
     Inr (t', AList.update (case seed_suffix name of Some d \<Rightarrow> d | None \<Rightarrow> name) peak peaks))))"

section \<open>The report\<close>

record ReplayReport = DepthReplay +
  source_files :: "string list"
  replay_scope :: string
  observation_time_s :: real
  depth_time_s :: "(int \<times> real) list"
  depth_time_fraction :: "(int \<times> real) list"
  threshold_time_s :: "(int \<times> real) list"
  threshold_time_fraction :: "(int \<times> real) list"
  episode_count :: "(int \<times> nat) list"
  peak_depth_by_seed_suffix :: "(string \<times> int) list"

definition threshold_time :: "ReplayTotals \<Rightarrow> int \<Rightarrow> real" where
  "threshold_time t threshold =
     sum_list (map snd (filter (\<lambda>(depth, duration). threshold \<le> depth) (duration_by_depth t)))"

definition longest_episode :: "ReplayTotals \<Rightarrow> int \<Rightarrow> real" where
  "longest_episode t threshold =
    (let ds = episode_durations t threshold in if ds \<noteq> [] then Max (set ds) else 0)"

definition replay_report ::
    "string list \<Rightarrow> int \<Rightarrow> int \<times> int \<times> int \<Rightarrow> ReplayTotals \<Rightarrow> (string \<times> int) list \<Rightarrow> ReplayReport result" where
  "replay_report names warmup = (\<lambda>(th1, th2, th3) t peaks.
    (let keys = first_occurrences [th1, th2, th3]; seen = sort_key fst (duration_by_depth t) in
     if observation_time t = 0 then Inl (ZeroDivisionError ''float division by zero'')
     else Inr \<lparr>
       eligible_levels = [(''L1'', 0 < threshold_time t th1), (''L2'', 0 < threshold_time t th2),
                          (''L3'', 0 < threshold_time t th3)],
       l3_reachable = 0 < threshold_time t th3,
       episode_max_s = map (\<lambda>k. (int_str k, longest_episode t k)) keys,
       source_files = names,
       replay_scope = ''formal requests with sequence_id >= '' @ int_str warmup,
       observation_time_s = observation_time t,
       depth_time_s = seen,
       depth_time_fraction = map (\<lambda>(d, x). (d, x / observation_time t)) seen,
       threshold_time_s = map (\<lambda>k. (k, threshold_time t k)) keys,
       threshold_time_fraction = map (\<lambda>k. (k, threshold_time t k / observation_time t)) keys,
       episode_count = map (\<lambda>k. (k, length (episode_durations t k))) keys,
       peak_depth_by_seed_suffix = peaks\<rparr>))"

definition replay_expkb_depth_eligibility ::
    "conversions \<Rightarrow> (string \<times> jsonl_line list) list \<Rightarrow> int \<Rightarrow> int \<times> int \<times> int \<Rightarrow> ReplayReport result" where
  "replay_expkb_depth_eligibility conv files warmup = (\<lambda>(th1, th2, th3).
     if files = []
     then Inl (ExpLIntegrityError ''expK-B no-clip request JSONL files are missing'')
     else and_then (fold_result (replay_file conv warmup [th1, th2, th3]) files
         (\<lparr>duration_by_depth = [], episode_durations = \<lambda>_. [], observation_time = 0\<rparr>, []))
       (\<lambda>(t, peaks). replay_report (map fst files) warmup (th1, th2, th3) t peaks))"

section \<open>Where the time goes\<close>

interpretation depth_time: time_table duration_by_depth charge_depth
  by unfold_locales (simp add: charge_depth_def)

definition area :: "ReplayTotals \<Rightarrow> real" where
  "area t = depth_time.weighted of_int t"

definition waiting_time :: "RequestRecord \<Rightarrow> real" where
  "waiting_time r = (case rec_dispatch_time_s r of Some d \<Rightarrow> d - rec_enqueue_time_s r | None \<Rightarrow> 0)"

definition moment :: "(real \<times> int) list \<Rightarrow> real" where
  "moment events = entry_sum (\<lambda>t n. t * of_int n) events"

lemma end_episode_simps [simp]:
  "duration_by_depth (end_episode th x t) = duration_by_depth t"
  "observation_time (end_episode th x t) = observation_time t"
  "area (end_episode th x t) = area t" "depth_time.total (end_episode th x t) = depth_time.total t"
  "depth_time.time_in P (end_episode th x t) = depth_time.time_in P t"
  by (simp_all add: end_episode_def area_def depth_time.weighted_def depth_time.total_def depth_time.time_in_def)

lemma moment_add_at: "moment (add_at t n es) = moment es + t * of_int n"
  unfolding moment_def by (rule entry_sum_add_at) (simp add: distrib_left)

lemma waiting_interval_moment:
  assumes "waiting_interval r es = Inr es'"
  shows "moment es' = moment es - waiting_time r"
  using assms
  by (auto simp: waiting_interval_def waiting_time_def moment_add_at split: option.splits if_splits)

lemma waiting_events_moment:
  assumes "fold_result waiting_interval rs [] = Inr es"
  shows "moment es = - sum_list (map waiting_time rs)"
  using fold_result_sum [OF assms, of "\<lambda>_. True" moment "\<lambda>r. - waiting_time r"] waiting_interval_moment
  by (force simp: moment_def comp_def uminus_sum_list_map)

text \<open>The watch over the thresholds touches the episodes only.\<close>

definition open_time :: "ReplayRun \<Rightarrow> real \<Rightarrow> int \<Rightarrow> real" where
  "open_time s previous th = sum_list (episode_durations (totals s) th)
     + (case episode_starts s th of None \<Rightarrow> 0 | Some start \<Rightarrow> previous - start)"

lemma watch_threshold_frame [simp]:
  "duration_by_depth (totals (watch_threshold p th s)) = duration_by_depth (totals s)"
  "observation_time (totals (watch_threshold p th s)) = observation_time (totals s)"
  "replay_depth (watch_threshold p th s) = replay_depth s"
  "replay_previous (watch_threshold p th s) = replay_previous s"
  by (simp_all add: watch_threshold_def split: option.split)

lemma watch_threshold_open:
  "open_time (watch_threshold p th s) p th' = open_time s p th'"
  "(episode_starts (watch_threshold p th s) th' \<noteq> None) =
    (if th' = th then th \<le> replay_depth s else episode_starts s th' \<noteq> None)"
  by (auto simp: watch_threshold_def open_time_def end_episode_def split: option.splits)

lemma watch_all_frame [simp]:
  "duration_by_depth (totals (fold (watch_threshold p) ths s)) = duration_by_depth (totals s)"
  "observation_time (totals (fold (watch_threshold p) ths s)) = observation_time (totals s)"
  "replay_depth (fold (watch_threshold p) ths s) = replay_depth s"
  "replay_previous (fold (watch_threshold p) ths s) = replay_previous s"
  by (induction ths arbitrary: s) simp_all

lemma watch_all_open:
  "open_time (fold (watch_threshold p) ths s) p th = open_time s p th"
  "(episode_starts (fold (watch_threshold p) ths s) th \<noteq> None) =
    (if th \<in> set ths then th \<le> replay_depth s else episode_starts s th \<noteq> None)"
  by (induction ths arbitrary: s) (simp_all add: watch_threshold_open del: not_None_eq)

text \<open>
  What the totals always satisfy: the charged time is the observed time, nothing is charged to a
  negative depth, and the episodes of a threshold add up to the time at or above it.
\<close>

definition charges_ok :: "ReplayTotals \<Rightarrow> bool" where
  "charges_ok t \<longleftrightarrow> depth_time.total t = observation_time t \<and>
     (\<forall>(d, x) \<in> set (duration_by_depth t). 0 \<le> x) \<and> fst ` set (duration_by_depth t) \<subseteq> {0..}"

definition episodes_ok :: "int list \<Rightarrow> ReplayTotals \<Rightarrow> bool" where
  "episodes_ok ths t \<longleftrightarrow> (\<forall>th \<in> set ths. depth_time.time_in (\<lambda>d. th \<le> d) t = sum_list (episode_durations t th)
     \<and> (\<forall>x \<in> set (episode_durations t th). 0 \<le> x))"

lemma charges_ok_charge:
  assumes "charges_ok t" and "0 \<le> d" and "0 \<le> x"
  shows "charges_ok (charge_depth d x t)"
  using assms depth_time.charged_nonneg [of t x d]
  by (simp add: charges_ok_def depth_time.total_charge) (simp add: charge_depth_def)

lemma area_charge: "area (charge_depth d x t) = area t + of_int d * x"
  by (simp add: area_def depth_time.weighted_charge)

lemma charges_ok_cong:
  "duration_by_depth t = duration_by_depth t' \<Longrightarrow> observation_time t = observation_time t' \<Longrightarrow>
   charges_ok t = charges_ok t'"
  by (simp add: charges_ok_def depth_time.total_def)

lemma time_in_cong: "duration_by_depth t = duration_by_depth t' \<Longrightarrow> depth_time.time_in P t = depth_time.time_in P t'"
  by (simp add: depth_time.time_in_def)

lemma area_cong: "duration_by_depth t = duration_by_depth t' \<Longrightarrow> area t = area t'"
  by (simp add: area_def depth_time.weighted_def)

definition forward :: "ReplayRun \<Rightarrow> real \<Rightarrow> int \<Rightarrow> bool" where
  "forward s p th \<longleftrightarrow> (\<forall>x \<in> set (episode_durations (totals s) th). 0 \<le> x) \<and>
     (\<forall>a. episode_starts s th = Some a \<longrightarrow> a \<le> p)"

lemma watch_threshold_forward: "forward s p th' \<Longrightarrow> forward (watch_threshold p th s) p th'"
  by (auto simp: forward_def watch_threshold_def end_episode_def split: option.splits)

lemma watch_all_forward: "forward s p th' \<Longrightarrow> forward (fold (watch_threshold p) ths s) p th'"
  by (induction ths arbitrary: s) (simp_all add: watch_threshold_forward)

text \<open>Between two events of a repetition.\<close>

definition run_ok :: "int list \<Rightarrow> ReplayRun \<Rightarrow> bool" where
  "run_ok ths s \<longleftrightarrow> charges_ok (totals s) \<and> 0 \<le> replay_depth s \<and>
     (case replay_previous s of
        None \<Rightarrow> replay_depth s = 0 \<and> (\<forall>th. episode_starts s th = None) \<and> episodes_ok ths (totals s)
      | Some p \<Rightarrow> (\<forall>th \<in> set ths. depth_time.time_in (\<lambda>d. th \<le> d) (totals s) = open_time s p th \<and> forward s p th))"

lemma replay_interval_ok:
  assumes "run_ok ths s" and "replay_previous s = Some p" and "replay_interval ths t s = Inr s'"
    and "th \<in> set ths"
  shows "depth_time.time_in (\<lambda>d. th \<le> d) (totals s') = open_time s' t th \<and> forward s' t th"
proof -
  let ?c = "s\<lparr>totals := charge_depth (replay_depth s) (t - p) (totals s)\<rparr>"
  have t: "p \<le> t" and s': "s' = fold (watch_threshold p) ths ?c"
    using assms(2,3) by (auto simp: replay_interval_def Let_def split: if_splits)
  have o: "open_time ?c p th = open_time s p th" "forward ?c p th = forward s p th"
    by (simp_all add: open_time_def forward_def charge_depth_def)
  have ok: "depth_time.time_in (\<lambda>d. th \<le> d) (totals s) = open_time s p th" "forward s p th"
    using assms(1,2,4) by (simp_all add: run_ok_def)
  have "depth_time.time_in (\<lambda>d. th \<le> d) (totals s') = depth_time.time_in (\<lambda>d. th \<le> d) (totals ?c)"
    unfolding s' by (rule time_in_cong) simp
  also have "\<dots> = open_time s' p th + (if th \<le> replay_depth s then t - p else 0)"
    using ok(1) o(1) by (simp add: depth_time.time_in_charge s' watch_all_open)
  also have "\<dots> = open_time s' t th"
  proof -
    have "episode_starts s' th \<noteq> None \<longleftrightarrow> th \<le> replay_depth s"
      using watch_all_open(2) [of p ths ?c th] assms(4) by (simp add: s' del: not_None_eq)
    then show ?thesis by (cases "episode_starts s' th") (simp_all add: open_time_def)
  qed
  finally have time: "depth_time.time_in (\<lambda>d. th \<le> d) (totals s') = open_time s' t th" .
  have "forward s' p th" using watch_all_forward [of ?c p th ths] ok(2) o(2) by (simp add: s')
  then have "forward s' t th" using t unfolding forward_def by (meson order_trans)
  with time show ?thesis by blast
qed

lemma replay_interval_frame:
  assumes "run_ok ths s" and "replay_interval ths t s = Inr s'"
  shows "charges_ok (totals s')" and "replay_depth s' = replay_depth s" and "0 \<le> replay_depth s'"
    and "area (totals s') = area (totals s)
      + (case replay_previous s of None \<Rightarrow> 0 | Some p \<Rightarrow> of_int (replay_depth s) * (t - p))"
proof -
  note ok = assms(1) [unfolded run_ok_def]
  have "replay_depth s' = replay_depth s \<and> charges_ok (totals s') \<and>
    area (totals s') = area (totals s)
      + (case replay_previous s of None \<Rightarrow> 0 | Some p \<Rightarrow> of_int (replay_depth s) * (t - p))"
  proof (cases "replay_previous s")
    case None
    then show ?thesis using assms(2) ok by (auto simp: replay_interval_def)
  next
    case (Some p)
    let ?c = "s\<lparr>totals := charge_depth (replay_depth s) (t - p) (totals s)\<rparr>"
    have t: "0 \<le> t - p" and s': "s' = fold (watch_threshold p) ths ?c"
      using assms(2) Some by (auto simp: replay_interval_def Let_def split: if_splits)
    have d: "duration_by_depth (totals s') = duration_by_depth (charge_depth (replay_depth s) (t - p) (totals s))"
      "observation_time (totals s') = observation_time (charge_depth (replay_depth s) (t - p) (totals s))"
      by (simp_all add: s')
    have "charges_ok (totals s')"
      using charges_ok_charge [of "totals s" "replay_depth s" "t - p"] ok t charges_ok_cong [OF d] by blast
    moreover have "area (totals s') = area (totals s) + of_int (replay_depth s) * (t - p)"
      using area_cong [OF d(1)] area_charge by simp
    ultimately show ?thesis using Some by (simp add: s')
  qed
  with ok show "charges_ok (totals s')" "replay_depth s' = replay_depth s" "0 \<le> replay_depth s'"
    "area (totals s') = area (totals s)
      + (case replay_previous s of None \<Rightarrow> 0 | Some p \<Rightarrow> of_int (replay_depth s) * (t - p))" by simp_all
qed

text \<open>The waiting time a repetition has shown so far, less what is still open.\<close>

definition shown :: "ReplayRun \<Rightarrow> real" where
  "shown s = area (totals s)
     - (case replay_previous s of None \<Rightarrow> 0 | Some p \<Rightarrow> of_int (replay_depth s) * p)"

lemma replay_event_ok:
  assumes "run_ok ths s" and "replay_event ths (t, n) s = Inr s'"
  shows "run_ok ths s' \<and> shown s' = shown s + - (t * of_int n)"
proof -
  obtain s1 where s1: "replay_interval ths t s = Inr s1" and d: "0 \<le> replay_depth s1 + n"
    and s': "s' = s1\<lparr>replay_depth := replay_depth s1 + n,
      seed_peak := max (seed_peak s1) (replay_depth s1 + n), replay_previous := Some t\<rparr>"
    using assms(2) by (auto simp: replay_event_def and_then_Inr Let_def split: if_splits)
  note f = replay_interval_frame [OF assms(1) s1]
  have same: "totals s' = totals s1" "episode_starts s' = episode_starts s1" "replay_previous s' = Some t"
    "replay_depth s' = replay_depth s1 + n" by (simp_all add: s')
  have eps: "depth_time.time_in (\<lambda>d. th \<le> d) (totals s') = open_time s' t th \<and> forward s' t th"
    if th: "th \<in> set ths" for th
  proof (cases "replay_previous s")
    case None
    then have "s1 = s" using s1 by (simp add: replay_interval_def)
    then show ?thesis using assms(1) None th same
      by (simp add: run_ok_def episodes_ok_def open_time_def forward_def)
  next
    case (Some p)
    then show ?thesis using replay_interval_ok [OF assms(1) Some s1 th] same
      by (simp add: open_time_def forward_def)
  qed
  have "run_ok ths s'" unfolding run_ok_def using f(1) d eps same by simp
  moreover have "shown s' = shown s + - (t * of_int n)"
    using f(2,4) assms(1) same
    by (cases "replay_previous s") (simp_all add: shown_def run_ok_def algebra_simps)
  ultimately show ?thesis by blast
qed

lemma close_episode_frame [simp]:
  "duration_by_depth (close_episode starts p th t) = duration_by_depth t"
  "observation_time (close_episode starts p th t) = observation_time t"
  by (simp_all add: close_episode_def split: option.split)

lemma close_all_frame [simp]:
  "duration_by_depth (fold (close_episode starts p) ks t) = duration_by_depth t"
  "observation_time (fold (close_episode starts p) ks t) = observation_time t"
  by (induction ks arbitrary: t) simp_all

lemma close_all_durations:
  "distinct ks \<Longrightarrow> episode_durations (fold (close_episode starts p) ks t) th = episode_durations t th @
     (if th \<in> set ks then (case starts th of None \<Rightarrow> [] | Some a \<Rightarrow> [p - a]) else [])"
  by (induction ks arbitrary: t) (auto simp: close_episode_def end_episode_def split: option.split)

lemma replay_repetition_ok:
  assumes "replay_repetition ths rs k (t, peak) = Inr (t', peak')" and "charges_ok t" and "episodes_ok ths t"
  shows "charges_ok t' \<and> episodes_ok ths t' \<and>
    area t' = area t + sum_list (map waiting_time (filter (\<lambda>r. rec_repetition_index r = k) rs))"
proof -
  let ?rs = "filter (\<lambda>r. rec_repetition_index r = k) rs"
  let ?s0 = "\<lparr>totals = t, replay_depth = 0, replay_previous = None, episode_starts = \<lambda>_. None, seed_peak = peak\<rparr>"
  obtain events s p where ev: "fold_result waiting_interval ?rs [] = Inr events"
    and s: "fold_result (replay_event ths) (sort_key fst events) ?s0 = Inr s"
    and p: "replay_previous s = Some p" "replay_depth s = 0"
    and t': "t' = fold (close_episode (episode_starts s) p) (first_occurrences ths) (totals s)"
    using assms(1) by (auto simp: replay_repetition_def and_then_Inr split: option.splits if_splits)
  have s0: "run_ok ths ?s0" "shown ?s0 = area t" using assms(2,3) by (simp_all add: run_ok_def shown_def)
  have "run_ok ths s \<and> shown s = shown ?s0 + sum_list (map (\<lambda>(t, n). - (t * of_int n)) (sort_key fst events))"
    by (rule fold_result_sum [OF s, of "run_ok ths" shown]) (use s0 replay_event_ok in \<open>auto split: prod.splits\<close>)
  moreover have "sum_list (map (\<lambda>(t, n). - (t * of_int n)) (sort_key fst events)) = - moment events"
  proof -
    have "sum_list (map (\<lambda>(t, n). - (t * of_int n)) es) = - moment es" for es :: "(real \<times> int) list"
      by (induction es) (auto simp: moment_def)
    then show ?thesis by (simp add: moment_def entry_sum_sort)
  qed
  ultimately have run: "run_ok ths s" and a: "area (totals s) = area t + sum_list (map waiting_time ?rs)"
    using s0(2) p waiting_events_moment [OF ev] by (simp_all add: shown_def)
  have "charges_ok t'" using run charges_ok_cong [of t' "totals s"] by (simp add: t' run_ok_def)
  moreover have "area t' = area (totals s)" unfolding t' by (rule area_cong) simp
  moreover have "episodes_ok ths t'" unfolding episodes_ok_def
  proof
    fix th assume th: "th \<in> set ths"
    have ok: "depth_time.time_in (\<lambda>d. th \<le> d) (totals s) = open_time s p th" "forward s p th"
      using run p(1) th by (simp_all add: run_ok_def)
    have "depth_time.time_in (\<lambda>d. th \<le> d) t' = depth_time.time_in (\<lambda>d. th \<le> d) (totals s)"
      unfolding t' by (rule time_in_cong) simp
    with ok th show "depth_time.time_in (\<lambda>d. th \<le> d) t' = sum_list (episode_durations t' th) \<and>
        (\<forall>x \<in> set (episode_durations t' th). 0 \<le> x)"
      by (cases "episode_starts s th") (auto simp: t' close_all_durations open_time_def forward_def)
  qed
  ultimately show ?thesis using a by simp
qed

text \<open>The formal waiting time of one file.\<close>

definition file_waiting :: "conversions \<Rightarrow> int \<Rightarrow> string \<times> jsonl_line list \<Rightarrow> real" where
  "file_waiting conv warmup = (\<lambda>(name, ls). case read_request_records_jsonl conv ls of
     Inl e \<Rightarrow> 0
   | Inr rs \<Rightarrow> sum_list (map waiting_time (filter (\<lambda>r. warmup \<le> rec_sequence_id r) rs)))"

definition replay_ok :: "int list \<Rightarrow> ReplayTotals \<times> 'a \<Rightarrow> bool" where
  "replay_ok ths = (\<lambda>(t, _). charges_ok t \<and> episodes_ok ths t)"

lemma replay_file_ok:
  assumes "replay_file conv warmup ths f (t, peaks) = Inr (t', peaks')" and "replay_ok ths (t, peaks)"
  shows "replay_ok ths (t', peaks') \<and> area t' = area t + file_waiting conv warmup f"
proof -
  obtain name ls rs peak where f: "f = (name, ls)" and rs: "read_request_records_jsonl conv ls = Inr rs"
    and g: "fold_result (replay_repetition ths (filter (\<lambda>r. warmup \<le> rec_sequence_id r) rs))
        (sorted_list_of_set (set (map rec_repetition_index (filter (\<lambda>r. warmup \<le> rec_sequence_id r) rs)))) (t, 0)
      = Inr (t', peak)"
    using assms(1) by (cases f) (auto simp: replay_file_def and_then_Inr Let_def)
  let ?rs = "filter (\<lambda>r. warmup \<le> rec_sequence_id r) rs"
  let ?ks = "sorted_list_of_set (set (map rec_repetition_index ?rs))"
  let ?share = "\<lambda>k. sum_list (map waiting_time (filter (\<lambda>r. rec_repetition_index r = k) ?rs))"
  have "replay_ok ths (t', peak) \<and> area (fst (t', peak)) = area (fst (t, 0 :: int)) + sum_list (map ?share ?ks)"
    by (rule fold_result_sum [OF g, of "replay_ok ths" "\<lambda>s. area (fst s)"])
      (use assms(2) replay_repetition_ok in \<open>auto simp: replay_ok_def\<close>)
  moreover have "sum_list (map ?share ?ks) = sum_list (map waiting_time ?rs)"
    by (rule sum_list_by_key) auto
  ultimately show ?thesis using f rs by (simp add: file_waiting_def replay_ok_def)
qed

lemma threshold_time_in: "threshold_time t th = depth_time.time_in (\<lambda>d. th \<le> d) t"
proof -
  have "sum_list (map snd (filter (\<lambda>(d, x). th \<le> d) m)) = entry_sum (\<lambda>d x. if th \<le> d then x else 0) m"
    for m :: "(int \<times> real) list"
    by (induction m) auto
  then show ?thesis by (simp add: threshold_time_def depth_time.time_in_def)
qed

lemma longest_episode_bounds:
  fixes ds :: "real list"
  assumes "\<forall>x \<in> set ds. 0 \<le> x"
  shows "(if ds \<noteq> [] then Max (set ds) else 0) \<le> sum_list ds" (is "?m \<le> _")
    and "sum_list ds \<le> real (length ds) * (if ds \<noteq> [] then Max (set ds) else 0)"
proof -
  have le: "x \<le> ?m" if "x \<in> set ds" for x using that by (cases ds) auto
  have "sum_list ys \<le> real (length ys) * ?m" if "set ys \<subseteq> set ds" for ys
    using that by (induction ys) (auto simp: distrib_right dest!: le)
  then show "sum_list ds \<le> real (length ds) * ?m" by blast
  have mem: "x \<le> sum_list ys" if "x \<in> set ys" "\<forall>y \<in> set ys. 0 \<le> y" for x and ys :: "real list"
    using that
  proof (induction ys)
    case (Cons y ys)
    then have "0 \<le> y" "0 \<le> sum_list ys" by (auto intro: sum_list_nonneg)
    with Cons show ?case by fastforce
  qed simp
  show "?m \<le> sum_list ds" using mem [of "Max (set ds)" ds] assms by (auto simp: Max_in)
qed

text \<open>What a returned replay has summed, and where the report shows it.\<close>

lemma replay_returns:
  assumes "replay_expkb_depth_eligibility conv files warmup (th1, th2, th3) = Inr r"
  obtains t where "charges_ok t" and "episodes_ok [th1, th2, th3] t"
    and "area t = sum_list (map (file_waiting conv warmup) files)" and "observation_time t \<noteq> 0"
    and "depth_time_s r = sort_key fst (duration_by_depth t)" and "observation_time_s r = observation_time t"
    and "threshold_time_s r = map (\<lambda>k. (k, threshold_time t k)) (first_occurrences [th1, th2, th3])"
    and "episode_count r = map (\<lambda>k. (k, length (episode_durations t k))) (first_occurrences [th1, th2, th3])"
    and "episode_max_s r = map (\<lambda>k. (int_str k, longest_episode t k)) (first_occurrences [th1, th2, th3])"
proof -
  let ?ths = "[th1, th2, th3]"
  let ?t0 = "\<lparr>duration_by_depth = [], episode_durations = \<lambda>_. [], observation_time = 0\<rparr>"
  obtain t peaks where f: "fold_result (replay_file conv warmup ?ths) files (?t0, []) = Inr (t, peaks)"
    and r: "replay_report (map fst files) warmup (th1, th2, th3) t peaks = Inr r"
    using assms by (auto simp: replay_expkb_depth_eligibility_def and_then_Inr split: if_splits)
  have t0: "replay_ok ?ths (?t0, [])" "area ?t0 = 0"
    by (simp_all add: replay_ok_def charges_ok_def episodes_ok_def area_def depth_time.total_def
        depth_time.time_in_def depth_time.weighted_def)
  have "replay_ok ?ths (t, peaks) \<and>
      area (fst (t, peaks)) = area (fst (?t0, [] :: (string \<times> int) list)) + sum_list (map (file_waiting conv warmup) files)"
    by (rule fold_result_sum [OF f, of "replay_ok ?ths" "\<lambda>s. area (fst s)"])
      (use t0 replay_file_ok in \<open>auto simp del: fold_result.simps\<close>)
  then show thesis
    using that [of t] t0 r by (auto simp: replay_ok_def replay_report_def Let_def split: if_splits)
qed

lemma threshold_report:
  assumes "charges_ok t" and "episodes_ok ths t" and "th \<in> set ths"
  shows "longest_episode t th \<le> threshold_time t th"
    and "threshold_time t th \<le> real (length (episode_durations t th)) * longest_episode t th"
    and "threshold_time t th \<le> observation_time t"
proof -
  have e: "threshold_time t th = sum_list (episode_durations t th)" "\<forall>x \<in> set (episode_durations t th). 0 \<le> x"
    using assms(2,3) by (auto simp: episodes_ok_def threshold_time_in)
  show "longest_episode t th \<le> threshold_time t th"
    "threshold_time t th \<le> real (length (episode_durations t th)) * longest_episode t th"
    using longest_episode_bounds [OF e(2)] e(1) by (simp_all add: longest_episode_def Let_def)
  show "threshold_time t th \<le> observation_time t"
    using assms(1) depth_time.time_in_le_total [of t] by (simp add: charges_ok_def threshold_time_in)
qed

lemma observation_positive: "charges_ok t \<Longrightarrow> observation_time t \<noteq> 0 \<Longrightarrow> 0 < observation_time t"
proof -
  assume ok: "charges_ok t" and nz: "observation_time t \<noteq> 0"
  have "0 \<le> entry_sum (\<lambda>d x. x) m" if "\<forall>(d, x) \<in> set m. 0 \<le> x" for m :: "(int \<times> real) list"
    using that by (induction m) auto
  from this [of "duration_by_depth t"] show ?thesis
    using ok nz by (simp add: charges_ok_def depth_time.total_def less_le)
qed

text \<open>
  C34. The replay loses no waiting time. When the replay of some fact files returns, the depths
  weighted by the time spent at them add up to the total waiting time of the formal requests
  (the area under the depth curve), the charged times are non-negative and add up to the observed
  time, and for each threshold the time at or above it is at least the longest episode and at
  most the number of episodes times the longest one.
\<close>

theorem replay_accounts_for_waiting:
  assumes "replay_expkb_depth_eligibility conv files warmup (th1, th2, th3) = Inr r"
  shows "entry_sum (\<lambda>d x. of_int d * x) (depth_time_s r) = sum_list (map (file_waiting conv warmup) files) \<and>
    entry_sum (\<lambda>d x. x) (depth_time_s r) = observation_time_s r \<and> 0 < observation_time_s r \<and>
    (\<forall>(d, x) \<in> set (depth_time_s r). 0 \<le> d \<and> 0 \<le> x) \<and>
    (\<forall>th \<in> {th1, th2, th3}. \<exists>T k m. (th, T) \<in> set (threshold_time_s r) \<and> (th, k) \<in> set (episode_count r) \<and>
       (int_str th, m) \<in> set (episode_max_s r) \<and> m \<le> T \<and> T \<le> real k * m \<and> T \<le> observation_time_s r)"
proof -
  obtain t where ok: "charges_ok t" "episodes_ok [th1, th2, th3] t"
    and a: "area t = sum_list (map (file_waiting conv warmup) files)" and nz: "observation_time t \<noteq> 0"
    and fields: "depth_time_s r = sort_key fst (duration_by_depth t)" "observation_time_s r = observation_time t"
    "threshold_time_s r = map (\<lambda>k. (k, threshold_time t k)) (first_occurrences [th1, th2, th3])"
    "episode_count r = map (\<lambda>k. (k, length (episode_durations t k))) (first_occurrences [th1, th2, th3])"
    "episode_max_s r = map (\<lambda>k. (int_str k, longest_episode t k)) (first_occurrences [th1, th2, th3])"
    using replay_returns [OF assms] .
  have "\<exists>T k m. (th, T) \<in> set (threshold_time_s r) \<and> (th, k) \<in> set (episode_count r) \<and>
       (int_str th, m) \<in> set (episode_max_s r) \<and> m \<le> T \<and> T \<le> real k * m \<and> T \<le> observation_time_s r"
    if th: "th \<in> {th1, th2, th3}" for th
  proof -
    have "(th, threshold_time t th) \<in> set (threshold_time_s r)"
      "(th, length (episode_durations t th)) \<in> set (episode_count r)"
      "(int_str th, longest_episode t th) \<in> set (episode_max_s r)"
      using th unfolding fields set_map first_occurrences_set by auto
    then show ?thesis using threshold_report [OF ok, of th] th unfolding fields(2) by auto
  qed
  moreover have "\<forall>(d, x) \<in> set (depth_time_s r). 0 \<le> d \<and> 0 \<le> x"
    using ok(1) by (force simp: fields charges_ok_def)
  ultimately show ?thesis
    using ok(1) a observation_positive [OF ok(1) nz]
    by (simp add: fields entry_sum_sort charges_ok_def depth_time.total_def area_def depth_time.weighted_def)
qed

definition sample_replay :: "ReplayReport result" where
  "sample_replay = replay_expkb_depth_eligibility
     \<lparr>int_text = \<lambda>s. None, float_text = \<lambda>s. None, str_of = \<lambda>v. []\<rparr>
     [(''sweep-000-no-clip-s11.jsonl'', write_request_records_jsonl [sample_record 0 SUCCESS])] 0 (1, 2, 3)"

lemma sample_replay_returns: "\<exists>r. sample_replay = Inr r \<and> peak_depth_by_seed_suffix r = [(''11'', 1)]"
proof -
  let ?r = "sample_record 0 SUCCESS"
  have sel: "rec_sequence_id ?r = 0" "rec_enqueue_time_s ?r = 0" "rec_dispatch_time_s ?r = Some 1"
    "rec_repetition_index ?r = 0"
    by (simp_all add: sample_record_def)
  have "read_request_records_jsonl conv (write_request_records_jsonl [?r]) = Inr [?r]" for conv
    using read_written_records sample_record_valid by simp
  note R = this
  let ?t0 = "\<lparr>duration_by_depth = [], episode_durations = \<lambda>_. [], observation_time = 0\<rparr>"
  obtain T where T: "replay_repetition [1, 2, 3] [?r] 0 (?t0, 0) = Inr (T, 1)" "observation_time T = 1"
    by (simp add: replay_repetition_def waiting_interval_def sel replay_event_def replay_interval_def
        charge_depth_def watch_threshold_def close_episode_def first_occurrences_def Let_def)
  have F: "filter (\<lambda>r. 0 \<le> rec_sequence_id r) [?r] = [?r]"
    "sorted_list_of_set (set (map rec_repetition_index [?r])) = [0]" by (simp_all add: sel)
  have S: "seed_suffix ''sweep-000-no-clip-s11.jsonl'' = Some ''11''"
    by (simp add: seed_suffix_def split_seed_def is_digit_def Let_def)
  show ?thesis
    unfolding sample_replay_def replay_expkb_depth_eligibility_def prod.case fold_result.simps replay_file_def
      R and_then.simps Let_def F T(1) S option.case
    by (simp add: replay_report_def T(2) Let_def)
qed

theorem replay_accounts_for_waiting_witness:
  "\<exists>r. sample_replay = Inr r \<and> entry_sum (\<lambda>d x. of_int d * x) (depth_time_s r)
     = file_waiting \<lparr>int_text = \<lambda>s. None, float_text = \<lambda>s. None, str_of = \<lambda>v. []\<rparr> 0
         (''sweep-000-no-clip-s11.jsonl'', write_request_records_jsonl [sample_record 0 SUCCESS])"
proof -
  obtain r where r: "sample_replay = Inr r" using sample_replay_returns by blast
  from replay_accounts_for_waiting [OF r [unfolded sample_replay_def]] r show ?thesis
    by (intro exI [of _ r]) simp
qed

end
