(* ===== verification/ExpLControlProperties.thy ===== *)
theory ExpLControlProperties
  imports ExpLControl
begin

text \<open>
  What the control-loop gates say about decisions a controller really took: the hold part of the
  thrash gate cannot fail on them, the directionality gate can; and the health summary accounts for
  the whole observation window.
\<close>

section \<open>Logs of a controller\<close>

text \<open>The facts read back from the log a run of one repetition leaves.\<close>

definition logged :: "int \<Rightarrow> AdaptiveAdmissionDecision list \<Rightarrow> DecisionFact list" where
  "logged repetition ads = map (\<lambda>a. fact_of_record
     \<lparr>cap_request_id = decided_request_id a, cap_repetition_index = repetition,
      cap_decision_time_s = decision_time_s (decided a), cap_q_inst = decision_q_inst (decided a),
      cap_q_bar = decision_q_bar (decided a), cap_old_level = old_level (decided a),
      cap_new_level = new_level (decided a), cap_selected_cap = decision_selected_cap (decided a),
      cap_trigger_reason = trigger_reason (decided a)\<rparr>) ads"

lemma logged_nth [simp]:
  assumes "m < length ads"
  shows "fact_old_level (logged k ads ! m) = old_level (decided (ads ! m))"
    and "fact_new_level (logged k ads ! m) = new_level (decided (ads ! m))"
    and "fact_decision_time_s (logged k ads ! m) = decision_time_s (decided (ads ! m))"
    and "fact_q_inst (logged k ads ! m) = decision_q_inst (decided (ads ! m))"
    and "fact_q_bar (logged k ads ! m) = decision_q_bar (decided (ads ! m))"
  using assms by (simp_all add: logged_def fact_of_record_def)

lemma logged_length [simp]: "length (logged k ads) = length ads"
  by (simp add: logged_def)

text \<open>\<open>a\<close> occurs before \<open>b\<close>.\<close>

lemma pairwise_subseq: "(a, b) \<in> set (pairwise xs) \<Longrightarrow> subseq [a, b] xs"
proof (induction xs)
  case (Cons x xs)
  show ?case
  proof (cases "(a, b) \<in> set (pairwise xs)")
    case False
    with Cons.prems obtain ys where "x = a" "xs = b # ys"
      by (cases xs) (auto simp: pairwise_def)
    then show ?thesis by simp
  qed (intro list_emb_Cons Cons.IH)
qed (simp add: pairwise_def)

lemma subseq_pair_nth:
  "subseq [a, b] xs \<Longrightarrow> \<exists>i j. i < j \<and> j < length xs \<and> xs ! i = a \<and> xs ! j = b"
proof (induct xs)
  case (Cons x xs)
  show ?case
  proof (cases "subseq [a, b] xs")
    case True
    then obtain i j where "i < j" "j < length xs" "xs ! i = a" "xs ! j = b"
      using Cons.hyps by blast
    then show ?thesis by (intro exI [of _ "Suc i"] exI [of _ "Suc j"]) simp
  next
    case False
    then have "a = x" "b \<in> set xs"
      using Cons.prems by (auto simp: subseq_singleton_left split: if_splits)
    then obtain j where "j < length xs" "xs ! j = b" by (auto simp: in_set_conv_nth)
    with \<open>a = x\<close> show ?thesis by (intro exI [of _ 0] exI [of _ "Suc j"]) simp
  qed
qed simp

lemma subseq_set: "subseq [a, b] xs \<Longrightarrow> a \<in> set xs \<and> b \<in> set xs"
  using subseq_pair_nth [of a b xs] by (metis less_trans nth_mem)

text \<open>
  The facts handed to the gates: those of one repetition are a selection, in order, of what a run
  of a controller logged in that repetition.
\<close>

definition facts_of_runs :: "AdmissionControlConfig \<Rightarrow> DecisionFact list \<Rightarrow> bool" where
  "facts_of_runs c facts \<longleftrightarrow> (\<forall>k. \<exists>s ads. ctl_run c s (map decided ads) \<and>
     subseq (filter (\<lambda>f. fact_repetition_index f = k) facts) (logged k ads))"

lemma transitions_in_order:
  assumes "facts_of_runs c facts" and "(a, b) \<in> set (pairwise (transition_facts facts))"
    and "fact_repetition_index a = fact_repetition_index b"
  obtains s ads i j where "ctl_run c s (map decided ads)" and "i < j" and "j < length ads"
    and "logged (fact_repetition_index a) ads ! i = a" and "logged (fact_repetition_index a) ads ! j = b"
proof -
  let ?k = "fact_repetition_index a"
  obtain s ads where run: "ctl_run c s (map decided ads)"
    and sub: "subseq (filter (\<lambda>f. fact_repetition_index f = ?k) facts) (logged ?k ads)"
    using assms(1) unfolding facts_of_runs_def by blast
  have "subseq [a, b] facts"
    using pairwise_subseq [OF assms(2)] by (metis transition_facts_def subseq_filter_left subseq_order.order_trans)
  then have "subseq (filter (\<lambda>f. fact_repetition_index f = ?k) [a, b])
      (filter (\<lambda>f. fact_repetition_index f = ?k) facts)" by (rule subseq_filter)
  then have "subseq [a, b] (logged ?k ads)"
    using assms(3) sub by (simp add: subseq_order.order_trans)
  from subseq_pair_nth [OF this] obtain i j where "i < j" "j < length ads"
    "logged ?k ads ! i = a" "logged ?k ads ! j = b" by auto
  with that run show ?thesis by blast
qed

text \<open>Two consecutive changes in opposite directions are at least the hold of the second apart.\<close>

lemma reverse_after_hold:
  assumes "facts_of_runs c facts" and "valid_admission c" and pair: "(a, b) \<in> set (pairwise (transition_facts facts))"
    and r: "reverse_interval (adaptive_clip_tighten_hold_s c) (adaptive_clip_relax_hold_s c) (a, b) = Some r"
  shows "required_hold_s r \<le> interval_s r"
proof -
  have k: "fact_repetition_index a = fact_repetition_index b" and opp: "tightens a \<noteq> tightens b"
    using r by (auto simp: reverse_interval_def split: if_splits)
  have change: "fact_new_level a \<noteq> fact_old_level a" "fact_new_level b \<noteq> fact_old_level b"
    using subseq_set [OF pairwise_subseq [OF pair]] by (auto simp: transition_facts_def)
  obtain s ads i j where run: "ctl_run c s (map decided ads)" and ij: "i < j" "j < length ads"
    and a: "logged (fact_repetition_index a) ads ! i = a"
    and b: "logged (fact_repetition_index a) ads ! j = b"
    by (rule transitions_in_order [OF assms(1) pair k])
  have j: "j < length (map decided ads)" using ij by simp
  note far = relax_after_tighten [OF run assms(2) ij(1) j] tighten_after_relax [OF run assms(2) ij(1) j]
  have la: "fact_old_level a = old_level (decided (ads ! i))" "fact_new_level a = new_level (decided (ads ! i))"
    "fact_decision_time_s a = decision_time_s (decided (ads ! i))"
    using ij logged_nth [of i ads "fact_repetition_index a"] by (simp_all add: a)
  have lb: "fact_old_level b = old_level (decided (ads ! j))" "fact_new_level b = new_level (decided (ads ! j))"
    "fact_decision_time_s b = decision_time_s (decided (ads ! j))"
    using ij logged_nth [of j ads "fact_repetition_index a"] by (simp_all add: b)
  show ?thesis
  proof (cases "tightens a")
    case True
    then have "fact_new_level b < fact_old_level b"
      using opp change by (auto simp: tightens_def)
    with True far(1) ij r la lb k opp show ?thesis
      by (auto simp: tightens_def reverse_interval_def split: if_splits)
  next
    case False
    then have "fact_new_level a < fact_old_level a" using change by (auto simp: tightens_def)
    with False far(2) ij r la lb k opp show ?thesis
      by (auto simp: tightens_def reverse_interval_def split: if_splits)
  qed
qed


definition sample_ads :: "AdaptiveClipDecision list \<Rightarrow> AdaptiveAdmissionDecision list" where
  "sample_ads ds = map (\<lambda>d. \<lparr>decided_request_id = ''r'', decided = d\<rparr>) ds"

lemma sample_ads_decided [simp]: "map decided (sample_ads ds) = ds"
  by (simp add: sample_ads_def comp_def)

lemma logged_repetition: "f \<in> set (logged k ads) \<Longrightarrow> fact_repetition_index f = k"
  by (auto simp: logged_def fact_of_record_def)

lemma single_run_facts:
  assumes "ctl_run c s ds" and "controller_config c"
  shows "facts_of_runs c (logged 0 (sample_ads ds))"
proof -
  have "filter (\<lambda>f. fact_repetition_index f = k) (logged 0 (sample_ads ds)) =
      (if k = 0 then logged 0 (sample_ads ds) else [])" for k
    using logged_repetition [of _ 0 "sample_ads ds"] by (auto simp: filter_empty_conv filter_id_conv)
  moreover have "ctl_run c (controller_start c) (map decided [])"
    using controller_config_run [OF assms(2)] by simp
  ultimately show ?thesis
    using assms(1) by (auto simp: facts_of_runs_def intro!: exI [of _ s] exI [of _ "sample_ads ds"])
qed


section \<open>Directionality\<close>

lemma run_extend:
  assumes "ctl_run c s ds" and "valid_admission c" and "length (tighten_since_s s) = 3" and "accepted s q t"
  shows "\<exists>s' d. ctl_run c s' (ds @ [d]) \<and> length (tighten_since_s s') = 3 \<and>
    q_inst s' = q \<and> q_bar s' = next_q_bar c s t \<and> last_update_s s' = Some t \<and>
    decision_time_s d = t \<and> decision_q_inst d = q \<and> decision_q_bar d = next_q_bar c s t"
proof -
  obtain s' d k where "update c s q (Fin t) = (s', Inr d)" "length (tighten_since_s s') = 3"
    "q_inst s' = q" "q_bar s' = next_q_bar c s t" "last_update_s s' = Some t"
    "decision_time_s d = t" "decision_q_inst d = q" "decision_q_bar d = next_q_bar c s t"
    using update_outcome [OF assms(2-4)] by metis
  then show ?thesis using ctl_run.ctl_step [OF assms(1)] by blast
qed

lemma half_exp: "exp (- 1 :: real) \<le> 1/2" "0 < exp (- 1 :: real)"
proof -
  have "2 \<le> exp (1 :: real)" using exp_ge_add_one_self [of 1] by simp
  then show "exp (- 1 :: real) \<le> 1/2" by (simp add: exp_minus field_simps)
qed simp

text \<open>Depth 10, then none, then 1, each a smoothing time apart: the depth rises, the memory fades.\<close>

lemma fading_run:
  assumes "controller_config c"
  shows "\<exists>s d0 d1 d2. ctl_run c s [d0, d1, d2] \<and> map decision_q_inst [d0, d1, d2] = [10, 0, 1] \<and>
    decision_time_s d0 < decision_time_s d1 \<and> decision_time_s d1 < decision_time_s d2 \<and>
    max 1 (decision_q_bar d2) < decision_q_bar d1"
proof -
  let ?tau = "adaptive_clip_ewma_tau_s c"
  have v: "valid_admission c" using assms by (simp add: controller_config_def)
  have tau: "0 < ?tau" using valid_admission_fields [OF v] by simp
  have start: "ctl_run c (controller_start c) []" using controller_config_run [OF assms] .
  have s0: "length (tighten_since_s (controller_start c)) = 3" "last_update_s (controller_start c) = None"
    "q_bar (controller_start c) = 0"
    using ctl_run_hist [OF start v] by (auto simp: hist_def controller_start_def)
  have "accepted (controller_start c) 10 0" by (simp add: accepted_def s0)
  from run_extend [OF start v s0(1) this] obtain s1 d0 where
    r1: "ctl_run c s1 [d0]" "length (tighten_since_s s1) = 3" "q_inst s1 = 10" "q_bar s1 = 0"
      "last_update_s s1 = Some 0" "decision_time_s d0 = 0" "decision_q_inst d0 = 10"
    by (auto simp: next_q_bar_def s0)
  have "accepted s1 0 ?tau" using tau by (simp add: accepted_def r1)
  from run_extend [OF r1(1) v r1(2) this] obtain s2 d1 where
    r2: "ctl_run c s2 [d0, d1]" "length (tighten_since_s s2) = 3" "q_inst s2 = 0"
      "q_bar s2 = next_q_bar c s1 ?tau" "last_update_s s2 = Some ?tau" "decision_time_s d1 = ?tau"
      "decision_q_inst d1 = 0" "decision_q_bar d1 = next_q_bar c s1 ?tau" by auto
  have "accepted s2 1 (2 * ?tau)" using tau by (simp add: accepted_def r2)
  from run_extend [OF r2(1) v r2(2) this] obtain s3 d2 where
    r3: "ctl_run c s3 [d0, d1, d2]" "decision_time_s d2 = 2 * ?tau" "decision_q_inst d2 = 1"
      "decision_q_bar d2 = next_q_bar c s2 (2 * ?tau)" by auto
  have q1: "next_q_bar c s1 ?tau = 10 * (1 - exp (- 1))"
    unfolding next_q_bar_def r1(3-5) using tau by (simp add: ewma_def Let_def)
  have q2: "next_q_bar c s2 (2 * ?tau) = exp (- 1) * (10 * (1 - exp (- 1)))"
    unfolding next_q_bar_def [of c s2] r2(3-5) q1 using tau by (simp add: ewma_def Let_def)
  have "exp (- 1) * (10 * (1 - exp (- 1 :: real))) \<le> 1/2 * (10 * (1 - exp (- 1)))"
    using half_exp by (intro mult_right_mono) auto
  then have "max 1 (decision_q_bar d2) < decision_q_bar d1"
    using half_exp by (simp add: r2 r3 q1 q2)
  with r1 r2 r3 tau show ?thesis by (intro exI [of _ s3] exI [of _ d0] exI [of _ d1] exI [of _ d2]) simp
qed

lemma directionality_pair:
  assumes "anomalous (a, b)" and "fact_repetition_index a = k" and "fact_repetition_index b = k"
    and "fact_repetition_index z = k"
    and "fact_decision_time_s z < fact_decision_time_s a" and "fact_decision_time_s a < fact_decision_time_s b"
  shows "check_directionality [z, a, b]
    = Inl (PreRegistrationFailure ''q_inst rose while persisted pressure or level became looser'')"
  using assms
  by (simp add: check_directionality_def group_by_def first_occurrences_def pairwise_def)

text \<open>
  C26. The directionality gate rejects correct controllers. For every configuration that enables
  the controller there is a run of it, three decisions one smoothing time apart, whose log fails
  the gate: the waiting depth goes from 0 to 1 while the smoothed depth still fades from an earlier
  burst, so the recorded pressure falls as the instantaneous depth rises. The gate's failure is
  therefore no evidence of the defect it is meant to report.
\<close>

theorem directionality_gate_rejects_controller:
  assumes "controller_config c"
  shows "\<exists>s ads. ctl_run c s (map decided ads) \<and> length ads = 3 \<and>
    check_directionality (logged 0 ads)
      = Inl (PreRegistrationFailure ''q_inst rose while persisted pressure or level became looser'')"
proof -
  obtain s d0 d1 d2 where r: "ctl_run c s [d0, d1, d2]" "map decision_q_inst [d0, d1, d2] = [10, 0, 1]"
    "decision_time_s d0 < decision_time_s d1" "decision_time_s d1 < decision_time_s d2"
    "max 1 (decision_q_bar d2) < decision_q_bar d1"
    using fading_run [OF assms] by (elim exE conjE)
  have "check_directionality (logged 0 (sample_ads [d0, d1, d2]))
      = Inl (PreRegistrationFailure ''q_inst rose while persisted pressure or level became looser'')"
    using r unfolding sample_ads_def logged_def list.map
    by (intro directionality_pair [of _ _ 0]) (auto simp: anomalous_def fact_of_record_def fact_pressure_def)
  with r(1) show ?thesis
    by (intro exI [of _ s] exI [of _ "sample_ads [d0, d1, d2]"]) (simp add: sample_ads_def)
qed

theorem directionality_gate_rejects_controller_witness:
  "\<exists>s ads. ctl_run sample_burst_config s (map decided ads) \<and> length ads = 3 \<and>
    check_directionality (logged 0 ads) \<noteq> Inr 0"
  using directionality_gate_rejects_controller [OF sample_burst_config] by fastforce

section \<open>Health\<close>

text \<open>What the loop over one repetition has spent in completed episodes.\<close>

definition residence :: "HealthTotals \<Rightarrow> real" where
  "residence t = sum_list (map (\<lambda>k. sum_list (level_episodes t k)) all_levels)"

lemma residence_add: "residence (add_episode l x t) = residence t + x"
  by (cases l) (simp_all add: residence_def all_levels_def add_episode_def)

lemma residence_other [simp]:
  "residence (count_entry l t) = residence t" "residence (count_transition d t) = residence t"
  "residence (t\<lparr>response_latencies := rl\<rparr>) = residence t"
  "residence (t\<lparr>zero_to_relax_latencies := zl\<rparr>) = residence t"
  "residence (t\<lparr>health_reverse_intervals := hi, health_cycles := hc\<rparr>) = residence t"
  by (simp_all add: residence_def count_entry_def count_transition_def Let_def)

lemma health_transition_residence:
  "health_transition d (e, t) = (e', t') \<Longrightarrow>
   residence t' = residence t \<and> episode_start e' = episode_start e \<and> episode_level e' = episode_level e"
  by (auto simp: health_transition_def Let_def split: option.splits if_splits prod.splits)

lemma health_step_residence:
  assumes "health_step d (e, t) = (e', t')"
  shows "residence t' + fact_decision_time_s d - episode_start e' = residence t + fact_decision_time_s d - episode_start e"
    and "episode_start e' = episode_start e \<or> episode_start e' = fact_decision_time_s d"
proof -
  let ?e1 = "e\<lparr>positive_start := next_positive_start e d, zero_after_tighten := next_zero_after_tighten e d\<rparr>"
  obtain e1 t1 where 1: "health_transition d (?e1, t) = (e1, t1)" by fastforce
  obtain e2 t2 where 2: "health_episode d (e1, t1) = (e2, t2)" by fastforce
  have "e' = e2\<lparr>previous_q_inst := fact_q_inst d\<rparr>" "t' = t2"
    using assms by (simp_all add: health_step_def 1 2)
  then show "residence t' + fact_decision_time_s d - episode_start e'
      = residence t + fact_decision_time_s d - episode_start e"
    and "episode_start e' = episode_start e \<or> episode_start e' = fact_decision_time_s d"
    using health_transition_residence [OF 1] 2
    by (auto simp: health_episode_def residence_add split: if_splits)
qed

lemma health_fold_residence:
  assumes "fold health_step ds (e, t) = (e', t')" and "\<forall>d \<in> set ds. fact_decision_time_s d \<le> u"
    and "episode_start e \<le> u"
  shows "residence t' - episode_start e' = residence t - episode_start e" and "episode_start e' \<le> u"
proof -
  have "residence t' - episode_start e' = residence t - episode_start e \<and> episode_start e' \<le> u"
    using assms
  proof (induction ds arbitrary: e t)
    case (Cons d ds)
    obtain e1 t1 where 1: "health_step d (e, t) = (e1, t1)" by fastforce
    with Cons.prems have "fold health_step ds (e1, t1) = (e', t')" "\<forall>d \<in> set ds. fact_decision_time_s d \<le> u"
      "episode_start e1 \<le> u" using health_step_residence(2) [OF 1] by auto
    from Cons.IH [OF this] show ?case using health_step_residence(1) [OF 1] by simp
  qed simp
  then show "residence t' - episode_start e' = residence t - episode_start e" "episode_start e' \<le> u"
    by simp_all
qed

lemma health_window:
  assumes "health_repetition records warmup tighten_hold_s relax_hold_s (repetition, facts) t = Inr t'"
    and "facts \<noteq> []"
    and "final_dispatch records warmup repetition
           (fact_decision_time_s (last (sort_key fact_decision_time_s facts))) = Inr final"
    and "\<forall>d \<in> set facts. fact_decision_time_s d \<le> final"
  shows "residence t' = residence t + (final - Min (fact_decision_time_s ` set facts))"
proof -
  let ?ordered = "sort_key fact_decision_time_s facts"
  have ne: "?ordered \<noteq> []" using assms(2) by (metis length_0_conv length_sort)
  obtain e t1 where f: "fold health_step ?ordered
      (health_start (hd ?ordered), count_entry (fact_new_level (hd ?ordered)) t) = (e, t1)" by fastforce
  have first: "fact_decision_time_s (hd ?ordered) = Min (fact_decision_time_s ` set facts)"
  proof (rule Min_eqI [symmetric])
    show "fact_decision_time_s (hd ?ordered) \<in> fact_decision_time_s ` set facts"
      using ne hd_in_set [of ?ordered] by simp
    show "\<And>y. y \<in> fact_decision_time_s ` set facts \<Longrightarrow> fact_decision_time_s (hd ?ordered) \<le> y"
      using sort_key_hd_min by auto
  qed simp
  have start: "episode_start (health_start (hd ?ordered)) = fact_decision_time_s (hd ?ordered)"
    by (simp add: health_start_def)
  have "\<forall>d \<in> set ?ordered. fact_decision_time_s d \<le> final" using assms(4) by simp
  moreover have "episode_start (health_start (hd ?ordered)) \<le> final"
    using assms(4) ne hd_in_set [of ?ordered] by (simp add: start)
  ultimately have r: "residence t1 - episode_start e = residence t - fact_decision_time_s (hd ?ordered)"
    "episode_start e \<le> final"
    using health_fold_residence [OF f, of final] by (simp_all add: start)
  have "residence t' = residence t1 + (final - episode_start e)"
    using assms(1,3) ne r(2) by (auto simp: health_repetition_def f Let_def residence_add)
  then show ?thesis using r(1) by (simp add: first)
qed

lemma residence_fractions:
  "0 < residence t \<Longrightarrow> sum_list (map (\<lambda>l. residence_fraction (residence_of t l)) all_levels) = 1"
  by (simp add: residence_of_def residence_def all_levels_def Let_def add_divide_distrib [symmetric])

text \<open>
  The residence times account for the whole window: for a repetition with at least one formal
  decision, whose last formal dispatch (at time \<open>final\<close>) is not before its last decision, the
  episodes the summary adds to the levels last exactly from the first decision to that dispatch,
  with nothing lost or counted twice at a transition; and the time fractions the summary reports
  for the four levels sum to one whenever any time was observed.
\<close>

theorem health_accounts_for_window:
  assumes "health_repetition records warmup tighten_hold_s relax_hold_s (repetition, facts) t = Inr t'"
    and "facts \<noteq> []"
    and "final_dispatch records warmup repetition
           (fact_decision_time_s (last (sort_key fact_decision_time_s facts))) = Inr final"
    and "\<forall>d \<in> set facts. fact_decision_time_s d \<le> final"
  shows "residence t' = residence t + (final - Min (fact_decision_time_s ` set facts)) \<and>
    (0 < residence t' \<longrightarrow> sum_list (map (\<lambda>l. residence_fraction (residence_of t' l)) all_levels) = 1)"
  using health_window [OF assms] residence_fractions by blast

definition sample_fact :: "real \<Rightarrow> AdaptiveClipLevel \<Rightarrow> AdaptiveClipLevel \<Rightarrow> DecisionFact" where
  "sample_fact t a b = \<lparr>fact_request_id = ''r'', fact_repetition_index = 0, fact_decision_time_s = t,
     fact_q_inst = 1, fact_q_bar = 0, fact_old_level = a, fact_new_level = b, fact_selected_cap = None,
     fact_trigger_reason = NO_CHANGE\<rparr>"

theorem health_accounts_for_window_witness:
  "\<exists>t'. health_repetition [sample_record 4 SUCCESS] 0 4 30
      (0, [sample_fact 3 L0 L2, sample_fact 1 L0 L0]) health_zero = Inr t' \<and> residence t' = 4"
proof -
  let ?facts = "[sample_fact 3 L0 L2, sample_fact 1 L0 L0]"
  have sorted: "sort_key fact_decision_time_s ?facts = [sample_fact 1 L0 L0, sample_fact 3 L0 L2]"
    by (simp add: sample_fact_def)
  have final: "final_dispatch [sample_record 4 SUCCESS] 0 0
      (fact_decision_time_s (last (sort_key fact_decision_time_s ?facts))) = Inr 5"
    by (simp add: sorted final_dispatch_def sample_record_def List.map_filter_def)
  obtain e t1 where f: "fold health_step [sample_fact 1 L0 L0, sample_fact 3 L0 L2]
      (health_start (sample_fact 1 L0 L0), count_entry (fact_new_level (sample_fact 1 L0 L0)) health_zero)
      = (e, t1)" by fastforce
  obtain t' where t': "health_repetition [sample_record 4 SUCCESS] 0 4 30 (0, ?facts) health_zero = Inr t'"
    unfolding health_repetition_def case_prod_conv Let_def final unfolding sorted list.sel f by simp
  have "\<forall>d \<in> set ?facts. fact_decision_time_s d \<le> 5" by (simp add: sample_fact_def)
  from health_accounts_for_window [OF t' _ final this] have "residence t' = 4"
    by (simp add: sample_fact_def residence_def health_zero_def all_levels_def)
  with t' show ?thesis by blast
qed

end
