(* ===== verification/Queueing.thy ===== *)
theory Queueing
  imports Records
begin

text \<open>
  The M/G/1 baseline (src/sloserve/analysis/queueing.py): the least-squares fit of service time
  against output tokens, and the Pollaczek-Khinchine estimate of the mean wait. The fit is shown
  to be the least-squares line and its coefficient of determination to lie in [0,1]; the wait is
  shown to be defined exactly below saturation, positive, and to shrink with concurrency.
\<close>

section \<open>The fit\<close>

record LinearServiceFit =
  seconds_per_output_token :: real
  intercept_s :: real
  r_squared :: real
  sample_count :: nat

record Mg1Estimate =
  mg1_arrival_rate_rps :: real
  concurrency :: int
  mean_service_s :: real
  second_moment_service_s2 :: real
  utilization :: real
  mean_queue_wait_s :: "real option"

definition stable :: "Mg1Estimate \<Rightarrow> bool" where
  "stable e \<longleftrightarrow> utilization e < 1"

text \<open>The pairs of token count and service time the fit uses.\<close>

definition service_samples :: "RequestRecord list \<Rightarrow> (real \<times> real) list" where
  "service_samples rs = List.map_filter
     (\<lambda>r. case rec_dispatch_time_s r of
            None \<Rightarrow> None
          | Some d \<Rightarrow> if rec_status r = SUCCESS \<and> 0 < rec_output_tokens r
              then Some (of_int (rec_output_tokens r), rec_completion_time_s r - d) else None) rs"

definition square_sum :: "real list \<Rightarrow> real" where
  "square_sum xs = sum_list (map (\<lambda>x. x * x) xs)"

definition residuals :: "real \<Rightarrow> real \<Rightarrow> (real \<times> real) list \<Rightarrow> real list" where
  "residuals a c samples = map (\<lambda>(x, y). y - (a * x + c)) samples"

definition fit_samples :: "(real \<times> real) list \<Rightarrow> LinearServiceFit" where
  "fit_samples samples =
    (let token_counts = map fst samples; service_times = map snd samples;
         token_mean = average token_counts; service_mean = average service_times;
         centered_square_sum = square_sum (map (\<lambda>x. x - token_mean) token_counts);
         slope = sum_list (map (\<lambda>(x, y). (x - token_mean) * (y - service_mean)) samples)
                   / centered_square_sum;
         intercept = service_mean - slope * token_mean;
         residual_square_sum = square_sum (residuals slope intercept samples);
         total_square_sum = square_sum (map (\<lambda>y. y - service_mean) service_times) in
     \<lparr>seconds_per_output_token = slope, intercept_s = intercept,
      r_squared = (if total_square_sum > 0 then 1 - residual_square_sum / total_square_sum else 1),
      sample_count = length samples\<rparr>)"

definition fit_linear_service_time :: "RequestRecord list \<Rightarrow> LinearServiceFit result" where
  "fit_linear_service_time rs =
    (let samples = service_samples rs in
     if length samples < 2
     then Inl (ValueError ''service-time fitting requires at least two successful samples'')
     else if card (set (map fst samples)) < 2
     then Inl (ValueError ''service-time fitting requires at least two distinct output lengths'')
     else Inr (fit_samples samples))"

section \<open>The estimate\<close>

definition service_times :: "int list \<Rightarrow> LinearServiceFit \<Rightarrow> int \<Rightarrow> real list" where
  "service_times lengths fit c =
     map (\<lambda>n. (seconds_per_output_token fit * of_int n + intercept_s fit) / of_int c) lengths"

definition estimate_mg1_wait ::
    "int list \<Rightarrow> pyfloat \<Rightarrow> LinearServiceFit \<Rightarrow> int \<Rightarrow> Mg1Estimate result" where
  "estimate_mg1_wait lengths rate fit c =
    (if lengths = [] then Inl (ValueError ''M/G/1 estimation requires at least one output length'')
     else if \<not> pf_less (Fin 0) rate \<or> \<not> isfinite rate
     then Inl (ValueError ''arrival_rate_rps must be finite and positive'')
     else if c < 1 then Inl (ValueError ''concurrency must be at least one'')
     else if list_ex (\<lambda>n. n < 1) lengths then Inl (ValueError ''output lengths must be positive'')
     else let times = service_times lengths fit c in
       if list_ex (\<lambda>t. t \<le> 0) times
       then Inl (ValueError ''fitted service times must be finite and positive'')
       else let r = real_of rate; mean_service = average times;
                second_moment = average (map (\<lambda>t. t * t) times); u = r * mean_service in
         Inr \<lparr>mg1_arrival_rate_rps = r, concurrency = c, mean_service_s = mean_service,
              second_moment_service_s2 = second_moment, utilization = u,
              mean_queue_wait_s =
                (if u < 1 then Some (r * second_moment / (2 * (1 - u))) else None)\<rparr>)"

section \<open>The fit is the least-squares line\<close>

lemma sum_list_linear:
  "sum_list (map (\<lambda>(x, y). a * x + b * y + c) zs) =
   a * sum_list (map fst zs) + b * sum_list (map snd zs) + c * real (length zs)"
  for zs :: "(real \<times> real) list"
  by (induction zs) (auto simp: algebra_simps)

lemma sum_list_minus: "sum_list (map (\<lambda>x. x - m) xs) = sum_list xs - m * real (length xs)"
  for xs :: "real list"
  by (induction xs) (auto simp: algebra_simps)

lemma mean_centered: "xs \<noteq> [] \<Longrightarrow> sum_list (map (\<lambda>x. x - average xs) xs) = 0"
  by (simp add: sum_list_minus average_def)

lemma square_sum_nonneg: "0 \<le> square_sum xs"
  unfolding square_sum_def by (induction xs) auto

lemma square_sum_pos: "x \<in> set xs \<Longrightarrow> x \<noteq> 0 \<Longrightarrow> 0 < square_sum xs"
proof (induction xs)
  case (Cons y ys)
  show ?case
  proof (cases "y = 0")
    case True
    with Cons show ?thesis by (auto simp: square_sum_def)
  next
    case False
    then have "0 < y * y" using zero_less_mult_iff by (metis linorder_neqE_linordered_idom)
    with square_sum_nonneg [of ys] show ?thesis by (simp add: square_sum_def add_pos_nonneg)
  qed
qed simp

text \<open>
  In centred coordinates \<open>u = x - mean x\<close> and \<open>v = y - mean y\<close> the squared residual of the line
  with slope \<open>a\<close> and offset \<open>d\<close> is \<open>Svv - 2 a Suv + a\<^sup>2 Suu + n d\<^sup>2\<close>.
\<close>

lemma residual_expansion:
  fixes zs :: "(real \<times> real) list"
  shows "sum_list (map (\<lambda>(u, v). (v - a * u - d) * (v - a * u - d)) zs) =
    sum_list (map (\<lambda>(u, v). v * v) zs) - 2 * a * sum_list (map (\<lambda>(u, v). u * v) zs)
    + a * a * sum_list (map (\<lambda>(u, v). u * u) zs) + real (length zs) * (d * d)
    - 2 * d * sum_list (map snd zs) + 2 * a * d * sum_list (map fst zs)"
  by (induction zs) (auto simp: algebra_simps)

definition centred :: "(real \<times> real) list \<Rightarrow> (real \<times> real) list" where
  "centred zs = map (\<lambda>(x, y). (x - average (map fst zs), y - average (map snd zs))) zs"

lemma centred_sums:
  assumes "zs \<noteq> []"
  shows "sum_list (map fst (centred zs)) = 0" and "sum_list (map snd (centred zs)) = 0"
proof -
  have "map fst (centred zs) = map (\<lambda>x. x - average (map fst zs)) (map fst zs)"
    and "map snd (centred zs) = map (\<lambda>x. x - average (map snd zs)) (map snd zs)"
    by (simp_all add: centred_def case_prod_beta comp_def)
  then show "sum_list (map fst (centred zs)) = 0" "sum_list (map snd (centred zs)) = 0"
    using assms mean_centered [of "map fst zs"] mean_centered [of "map snd zs"] by simp_all
qed

lemma residual_centred:
  assumes "zs \<noteq> []"
  defines "suu \<equiv> sum_list (map (\<lambda>(u, v). u * u) (centred zs))"
    and "suv \<equiv> sum_list (map (\<lambda>(u, v). u * v) (centred zs))"
    and "svv \<equiv> sum_list (map (\<lambda>(u, v). v * v) (centred zs))"
    and "d \<equiv> \<lambda>a c. a * average (map fst zs) + c - average (map snd zs)"
  shows "square_sum (residuals a c zs) = svv - 2 * a * suv + a * a * suu + real (length zs) * (d a c * d a c)"
proof -
  have "square_sum (residuals a c zs) =
      sum_list (map (\<lambda>(u, v). (v - a * u - d a c) * (v - a * u - d a c)) (centred zs))"
    by (simp add: square_sum_def residuals_def centred_def d_def comp_def case_prod_beta algebra_simps)
  then show ?thesis
    using centred_sums [OF assms(1)]
    by (simp add: residual_expansion suu_def suv_def svv_def) (simp add: centred_def)
qed

lemma fit_samples_centred:
  "seconds_per_output_token (fit_samples zs) =
     sum_list (map (\<lambda>(u, v). u * v) (centred zs)) / sum_list (map (\<lambda>(u, v). u * u) (centred zs))"
  "intercept_s (fit_samples zs) =
     average (map snd zs) - seconds_per_output_token (fit_samples zs) * average (map fst zs)"
  by (simp_all add: fit_samples_def Let_def square_sum_def centred_def comp_def case_prod_beta')

lemma distinct_lengths_spread:
  assumes "\<not> card (set (map fst zs)) < 2"
  shows "0 < sum_list (map (\<lambda>(u, v). u * u) (centred zs))"
proof -
  let ?m = "average (map fst zs)"
  have "\<not> set (map fst zs) \<subseteq> {?m}"
    using assms card_mono [of "{?m}" "set (map fst zs)"] by auto
  then obtain x where "x \<in> set (map fst zs)" "x \<noteq> ?m" by blast
  then have "0 < square_sum (map (\<lambda>x. x - ?m) (map fst zs))"
    by (intro square_sum_pos [of "x - ?m"]) auto
  then show ?thesis by (simp add: square_sum_def centred_def comp_def case_prod_beta)
qed

lemma fit_samples_optimal:
  assumes "\<not> card (set (map fst zs)) < 2"
  shows "square_sum (residuals (seconds_per_output_token (fit_samples zs))
      (intercept_s (fit_samples zs)) zs) \<le> square_sum (residuals a c zs)"
proof -
  let ?suu = "sum_list (map (\<lambda>(u, v). u * u) (centred zs))"
  let ?suv = "sum_list (map (\<lambda>(u, v). u * v) (centred zs))"
  let ?s = "seconds_per_output_token (fit_samples zs)"
  have ne: "zs \<noteq> []" using assms by auto
  have pos: "0 < ?suu" using distinct_lengths_spread [OF assms] .
  have s: "?s * ?suu = ?suv" using pos by (simp add: fit_samples_centred(1))
  have offset: "?s * average (map fst zs) + intercept_s (fit_samples zs) - average (map snd zs) = 0"
    by (simp add: fit_samples_centred(2))
  have "0 \<le> (a - ?s) * (a - ?s) * ?suu" using pos by simp
  then have "?s * ?s * ?suu - 2 * ?s * ?suv \<le> a * a * ?suu - 2 * a * ?suv"
    using s by (simp add: algebra_simps)
  moreover have "0 \<le> real (length zs) * (d * d)" for d :: real by simp
  ultimately show ?thesis
    unfolding residual_centred [OF ne] offset by (simp add: add_increasing2)
qed

lemma residuals_mean: "residuals 0 (average (map snd zs)) zs = map (\<lambda>y. y - average (map snd zs)) (map snd zs)"
  by (simp add: residuals_def case_prod_beta comp_def)

lemma fit_r_squared:
  assumes "\<not> card (set (map fst zs)) < 2"
  shows "0 \<le> r_squared (fit_samples zs)" and "r_squared (fit_samples zs) \<le> 1"
proof -
  let ?res = "square_sum (residuals (seconds_per_output_token (fit_samples zs))
      (intercept_s (fit_samples zs)) zs)"
  let ?total = "square_sum (map (\<lambda>y. y - average (map snd zs)) (map snd zs))"
  have r: "r_squared (fit_samples zs) = (if 0 < ?total then 1 - ?res / ?total else 1)"
    by (simp add: fit_samples_def Let_def)
  have "?res \<le> ?total"
    using fit_samples_optimal [OF assms, of 0 "average (map snd zs)"] by (simp only: residuals_mean)
  then show "0 \<le> r_squared (fit_samples zs)" "r_squared (fit_samples zs) \<le> 1"
    unfolding r using square_sum_nonneg [of "residuals (seconds_per_output_token (fit_samples zs))
      (intercept_s (fit_samples zs)) zs"] by auto
qed

text \<open>
  C27. The service-time fit is the least-squares line: when the fit succeeds it used at least two
  samples, no line \<open>a * tokens + c\<close> has a smaller squared residual on the successful dispatches,
  and the reported coefficient of determination lies in [0,1].
\<close>

theorem fit_is_least_squares:
  assumes "fit_linear_service_time rs = Inr f"
  shows "2 \<le> sample_count f \<and>
    (\<forall>a c. square_sum (residuals (seconds_per_output_token f) (intercept_s f) (service_samples rs))
       \<le> square_sum (residuals a c (service_samples rs))) \<and>
    0 \<le> r_squared f \<and> r_squared f \<le> 1"
proof -
  have spread: "\<not> card (set (map fst (service_samples rs))) < 2"
    and f: "f = fit_samples (service_samples rs)" and n: "\<not> length (service_samples rs) < 2"
    using assms by (simp_all add: fit_linear_service_time_def Let_def split: if_splits)
  have "2 \<le> sample_count f" using n by (simp add: f fit_samples_def Let_def)
  moreover have "\<forall>a c. square_sum (residuals (seconds_per_output_token f) (intercept_s f) (service_samples rs))
      \<le> square_sum (residuals a c (service_samples rs))"
    unfolding f using fit_samples_optimal [OF spread] by blast
  moreover have "0 \<le> r_squared f" "r_squared f \<le> 1" unfolding f using fit_r_squared [OF spread] .
  ultimately show ?thesis by blast
qed

definition fit_sample_records :: "RequestRecord list" where
  "fit_sample_records =
     [(sample_record 0 SUCCESS)\<lparr>rec_output_tokens := 1\<rparr>, (sample_record 1 SUCCESS)\<lparr>rec_output_tokens := 3\<rparr>]"

lemma fit_sample_spread: "service_samples fit_sample_records = [(1, 3), (3, 3)]"
  by (simp add: fit_sample_records_def service_samples_def sample_record_def List.map_filter_def)

theorem fit_is_least_squares_witness:
  "\<exists>f. fit_linear_service_time fit_sample_records = Inr f \<and> 2 \<le> sample_count f \<and> r_squared f \<le> 1"
proof -
  have "fit_linear_service_time fit_sample_records = Inr (fit_samples [(1, 3), (3, 3)])"
    by (simp add: fit_linear_service_time_def fit_sample_spread Let_def)
  then show ?thesis
    using fit_is_least_squares [of fit_sample_records] by blast
qed

section \<open>The wait\<close>

lemma mean_pos: "xs \<noteq> [] \<Longrightarrow> (\<And>x. x \<in> set xs \<Longrightarrow> 0 < x) \<Longrightarrow> 0 < average xs"
proof -
  have "xs \<noteq> [] \<Longrightarrow> (\<And>x. x \<in> set xs \<Longrightarrow> 0 < x) \<Longrightarrow> 0 < sum_list xs"
  proof (induction xs)
    case (Cons x xs)
    then show ?case by (cases "xs = []") (auto intro: add_pos_pos)
  qed simp
  then show "xs \<noteq> [] \<Longrightarrow> (\<And>x. x \<in> set xs \<Longrightarrow> 0 < x) \<Longrightarrow> 0 < average xs" by (simp add: average_def)
qed

lemma mean_scale: "average (map (\<lambda>x. k * x) xs) = k * average xs"
  by (simp add: average_def sum_list_const_mult)

text \<open>The square of a mean is at most the mean of the squares.\<close>

lemma mean_square_le: "average xs * average xs \<le> average (map (\<lambda>x. x * x) xs)"
proof (cases "xs = []")
  case False
  then have n: "0 < real (length xs)" by simp
  have c: "square_sum (map (\<lambda>x. x - average xs) xs) =
      square_sum xs - 2 * average xs * sum_list xs + real (length xs) * (average xs * average xs)" for xs
  proof -
    have "square_sum (map (\<lambda>x. x - m) xs) = square_sum xs - 2 * m * sum_list xs + real (length xs) * (m * m)" for m
      by (induction xs) (auto simp: square_sum_def algebra_simps)
    then show ?thesis .
  qed
  have s: "sum_list xs = average xs * real (length xs)" using n by (simp add: average_def)
  have "real (length xs) * (average xs * average xs) \<le> square_sum xs"
    using square_sum_nonneg [of "map (\<lambda>x. x - average xs) xs"] unfolding c s by (simp add: algebra_simps)
  then show ?thesis using n by (simp add: average_def [of "map _ xs"] square_sum_def pos_le_divide_eq mult.commute)
qed (simp add: average_def)

text \<open>What the checks leave to the formula.\<close>

lemma estimate_Inr:
  "estimate_mg1_wait lengths rate fit c = Inr e \<longleftrightarrow>
     lengths \<noteq> [] \<and> (\<exists>r>0. rate = Fin r) \<and> 1 \<le> c \<and> (\<forall>n \<in> set lengths. 1 \<le> n) \<and>
     (\<forall>t \<in> set (service_times lengths fit c). 0 < t) \<and>
     e = (let times = service_times lengths fit c; r = real_of rate; m = average times;
              m2 = average (map (\<lambda>t. t * t) times) in
          \<lparr>mg1_arrival_rate_rps = r, concurrency = c, mean_service_s = m,
           second_moment_service_s2 = m2, utilization = r * m,
           mean_queue_wait_s = (if r * m < 1 then Some (r * m2 / (2 * (1 - r * m))) else None)\<rparr>)"
  by (cases rate) (auto simp: estimate_mg1_wait_def Let_def list_ex_iff not_le not_less)

lemma service_times_scale:
  assumes "1 \<le> c" and "c \<le> c'"
  shows "service_times lengths fit c' = map (\<lambda>t. (of_int c / of_int c') * t) (service_times lengths fit c)"
  using assms by (simp add: service_times_def)

lemma wait_mono:
  fixes r m m2 k :: real
  assumes "0 < r" and "0 < m" and "0 < m2" and "0 < k" and "k \<le> 1" and "r * m < 1"
  shows "r * (k * m) < 1" and "r * (k * k * m2) / (2 * (1 - r * (k * m))) \<le> r * m2 / (2 * (1 - r * m))"
proof -
  have km: "k * m \<le> m" and kk: "k * k * m2 \<le> m2"
    using assms by (simp_all add: mult_left_le_one_le mult_le_one)
  then have rkm: "r * (k * m) \<le> r * m" using assms(1) by simp
  with assms(6) show "r * (k * m) < 1" by linarith
  show "r * (k * k * m2) / (2 * (1 - r * (k * m))) \<le> r * m2 / (2 * (1 - r * m))"
    using assms kk rkm by (intro frac_le) auto
qed

lemma estimate_defined:
  assumes "estimate_mg1_wait lengths rate fit c = Inr e"
  shows "mean_queue_wait_s e \<noteq> None \<longleftrightarrow> stable e"
  using assms unfolding estimate_Inr by (auto simp: Let_def stable_def)

lemma estimate_times:
  assumes "estimate_mg1_wait lengths rate fit c = Inr e"
  obtains r where "lengths \<noteq> []" "0 < r" "rate = Fin r" "1 \<le> c" "\<forall>n \<in> set lengths. 1 \<le> n"
    "\<forall>t \<in> set (service_times lengths fit c). 0 < t" "0 < average (service_times lengths fit c)"
    "0 < average (map (\<lambda>t. t * t) (service_times lengths fit c))"
    "utilization e = r * average (service_times lengths fit c)"
    "mean_service_s e = average (service_times lengths fit c)" "mg1_arrival_rate_rps e = r"
    "mean_queue_wait_s e = (if r * average (service_times lengths fit c) < 1
       then Some (r * average (map (\<lambda>t. t * t) (service_times lengths fit c))
                    / (2 * (1 - r * average (service_times lengths fit c)))) else None)"
proof -
  let ?times = "service_times lengths fit c"
  obtain r where *: "lengths \<noteq> []" "0 < r" "rate = Fin r" "1 \<le> c" "\<forall>n \<in> set lengths. 1 \<le> n"
    "\<forall>t \<in> set ?times. 0 < t" "utilization e = r * average ?times" "mean_service_s e = average ?times"
    "mg1_arrival_rate_rps e = r"
    "mean_queue_wait_s e = (if r * average ?times < 1
       then Some (r * average (map (\<lambda>t. t * t) ?times) / (2 * (1 - r * average ?times))) else None)"
    using assms unfolding estimate_Inr by (auto simp: Let_def)
  then have "?times \<noteq> []" by (simp add: service_times_def)
  with * have "0 < average ?times" "0 < average (map (\<lambda>t. t * t) ?times)" by (auto intro!: mean_pos)
  with * show ?thesis by (intro that) auto
qed

lemma estimate_lower_bound:
  assumes "estimate_mg1_wait lengths rate fit c = Inr e" and w: "mean_queue_wait_s e = Some w"
  shows "0 < w \<and>
    mg1_arrival_rate_rps e * (mean_service_s e * mean_service_s e) / (2 * (1 - utilization e)) \<le> w"
proof (rule estimate_times [OF assms(1)])
  fix r
  let ?m = "average (service_times lengths fit c)" and ?m2 = "average (map (\<lambda>t. t * t) (service_times lengths fit c))"
  assume r: "0 < r" and m2: "0 < ?m2"
    and e: "utilization e = r * ?m" "mean_service_s e = ?m" "mg1_arrival_rate_rps e = r"
      "mean_queue_wait_s e = (if r * ?m < 1 then Some (r * ?m2 / (2 * (1 - r * ?m))) else None)"
  from w have u: "r * ?m < 1" and wv: "w = r * ?m2 / (2 * (1 - r * ?m))"
    by (simp_all add: e split: if_splits)
  have "0 < w" using u r m2 by (simp add: wv)
  moreover have "r * (?m * ?m) / (2 * (1 - r * ?m)) \<le> w"
    unfolding wv using u r mean_square_le [of "service_times lengths fit c"] by (intro divide_right_mono) auto
  ultimately show ?thesis by (simp add: e)
qed

lemma estimate_concurrency:
  assumes "estimate_mg1_wait lengths rate fit c = Inr e" and c': "c \<le> c'"
  shows "\<exists>e'. estimate_mg1_wait lengths rate fit c' = Inr e' \<and> utilization e' \<le> utilization e \<and>
    (\<forall>w. mean_queue_wait_s e = Some w \<longrightarrow> (\<exists>w'. mean_queue_wait_s e' = Some w' \<and> w' \<le> w))"
proof (rule estimate_times [OF assms(1)])
  fix r
  let ?times = "service_times lengths fit c" and ?k = "of_int c / of_int c' :: real"
  let ?m = "average ?times" and ?m2 = "average (map (\<lambda>t. t * t) ?times)"
  assume ne: "lengths \<noteq> []" and r: "0 < r" "rate = Fin r" and c: "1 \<le> c"
    and ge: "\<forall>n \<in> set lengths. 1 \<le> n" and pos: "\<forall>t \<in> set ?times. 0 < t"
    and m: "0 < ?m" and m2: "0 < ?m2" and e: "utilization e = r * ?m"
      "mean_queue_wait_s e = (if r * ?m < 1 then Some (r * ?m2 / (2 * (1 - r * ?m))) else None)"
  have k: "0 < ?k" "?k \<le> 1" using c c' by auto
  note scale = service_times_scale [OF c c', of lengths fit]
  have m': "average (service_times lengths fit c') = ?k * ?m" by (simp only: scale mean_scale)
  have m2': "average (map (\<lambda>t. t * t) (service_times lengths fit c')) = ?k * ?k * ?m2"
    using mean_scale [of "?k * ?k" "map (\<lambda>t. t * t) ?times"] by (simp add: scale comp_def mult_ac)
  have pos': "\<forall>t \<in> set (service_times lengths fit c'). 0 < t" using pos k c c' by (auto simp: scale)
  have "1 \<le> c'" using c c' by simp
  then obtain e' where est: "estimate_mg1_wait lengths rate fit c' = Inr e'"
    and e': "utilization e' = r * (?k * ?m)"
      "mean_queue_wait_s e' = (if r * (?k * ?m) < 1
         then Some (r * (?k * ?k * ?m2) / (2 * (1 - r * (?k * ?m)))) else None)"
    unfolding estimate_Inr using ne r ge pos' by (simp only: Let_def m' m2') auto
  have "utilization e' \<le> utilization e"
    using k m r by (simp add: e e' mult_left_le_one_le del: times_divide_eq_left times_divide_eq_right)
  moreover have "\<exists>w'. mean_queue_wait_s e' = Some w' \<and> w' \<le> w" if "mean_queue_wait_s e = Some w" for w
    using that wait_mono [OF r(1) m m2 k] by (simp add: e e' split: if_splits)
  ultimately show ?thesis using est by blast
qed

text \<open>
  The wait estimate behaves as the formula it names. It is defined exactly when the
  utilization is below one, is then positive and at least the wait of constant service times of
  the same mean; and raising the concurrency keeps the estimate legal, lowers the utilization
  and never raises the wait.
\<close>

theorem mg1_wait_sound:
  assumes "estimate_mg1_wait lengths rate fit c = Inr e"
  shows "(mean_queue_wait_s e \<noteq> None \<longleftrightarrow> stable e) \<and>
    (\<forall>w. mean_queue_wait_s e = Some w \<longrightarrow> 0 < w \<and>
      mg1_arrival_rate_rps e * (mean_service_s e * mean_service_s e) / (2 * (1 - utilization e)) \<le> w) \<and>
    (\<forall>c' \<ge> c. \<exists>e'. estimate_mg1_wait lengths rate fit c' = Inr e' \<and> utilization e' \<le> utilization e \<and>
      (\<forall>w. mean_queue_wait_s e = Some w \<longrightarrow> (\<exists>w'. mean_queue_wait_s e' = Some w' \<and> w' \<le> w)))"
  using estimate_defined [OF assms] estimate_lower_bound [OF assms] estimate_concurrency [OF assms] by blast

definition sample_fit :: LinearServiceFit where
  "sample_fit = \<lparr>seconds_per_output_token = 1, intercept_s = 0, r_squared = 1, sample_count = 2\<rparr>"

theorem mg1_wait_sound_witness:
  "\<exists>e. estimate_mg1_wait [1, 3] (Fin (1/4)) sample_fit 1 = Inr e \<and>
     (mean_queue_wait_s e \<noteq> None \<longleftrightarrow> stable e) \<and> stable e \<and>
     (\<exists>e'. estimate_mg1_wait [1, 3] (Fin (1/4)) sample_fit 2 = Inr e' \<and> utilization e' \<le> utilization e)"
proof -
  obtain e where e: "estimate_mg1_wait [1, 3] (Fin (1/4)) sample_fit 1 = Inr e" "utilization e = 1/2"
    by (simp add: estimate_mg1_wait_def service_times_def sample_fit_def average_def)
  have "stable e" by (simp add: stable_def e(2))
  moreover note mg1_wait_sound [OF e(1)]
  moreover have "(1 :: int) \<le> 2" by simp
  ultimately show ?thesis using e(1) by blast
qed

end
