(* ===== verification/ExpLAnalysis.thy ===== *)
theory ExpLAnalysis
  imports ExpLReconcile ExpLReplay ExpLControlProperties Queueing
begin

text \<open>
  The complete analysis of src/sloserve/analysis/expl.py (\<open>analyze_expl\<close>): the frozen matrix of
  points, one audit per point, the aggregates per load and arm, the evidence of the low-load gate and
  the list of preregistered gates. The result directory is a parameter: the rows of
  \<open>sweep-results.csv\<close> as \<open>csv.DictReader\<close> gives them, and the contents of the files a glob pattern
  finds.
\<close>

section \<open>Labels and files\<close>

definition gate_loads :: "(string \<times> real) list" where
  "gate_loads = [(''low'', 8/100), (''high'', 17/100)]"

text \<open>\<open>^(low|high)-(.+)-s[0-9]+$\<close> with \<open>fullmatch\<close>; the dot matches everything but a newline.\<close>

definition point_identity :: "SweepPoint \<Rightarrow> (string \<times> string) result" where
  "point_identity p =
    (let failure = Inl (ExpLIntegrityError ''expL label does not encode load and arm'');
         identity = (\<lambda>load arm. if arm \<noteq> [] \<and> CHR 0x0A \<notin> set arm then Inr (load, arm) else failure) in
     case split_seed (sp_label p) of
       None \<Rightarrow> failure
     | Some (before, _) \<Rightarrow>
         if take 4 before = ''low-'' then identity ''low'' (drop 4 before)
         else if take 5 before = ''high-'' then identity ''high'' (drop 5 before)
         else failure)"

record analysis_files =
  result_rows :: "(string \<times> string option) list list"
  result_glob :: "string \<Rightarrow> jsonl_line list list"
  reference_files :: "(string \<times> jsonl_line list) list"

definition one_matching_file :: "analysis_files \<Rightarrow> string \<Rightarrow> string \<Rightarrow> jsonl_line list result" where
  "one_matching_file F label ending =
    (case result_glob F (''sweep-*-'' @ label @ ending) of
       [ls] \<Rightarrow> Inr ls
     | _ \<Rightarrow> Inl (ExpLIntegrityError ''expected one fact file''))"

definition label_counts :: "string list \<Rightarrow> (string \<times> nat) list" where
  "label_counts loads = map (\<lambda>(l, ls). (l, length ls)) (group_by id loads)"

definition validate_matrix :: "SweepDefinition \<Rightarrow> unit result" where
  "validate_matrix d =
    (if length (points d) \<noteq> 24 \<or> card (set (map sp_label (points d))) \<noteq> 24
     then Inl (ExpLIntegrityError ''expL requires exactly 24 unique configured labels'')
     else and_then (map_result point_identity (points d)) (\<lambda>ids.
       if set (label_counts (map fst ids)) \<noteq> {(''high'', 18), (''low'', 6)}
       then Inl (ExpLIntegrityError ''expL configured load counts differ'') else Inr ()))"

section \<open>Gates\<close>

text \<open>The details of a passed gate are what its check returned.\<close>

datatype gate_details =
    NoDetails
  | LowLoadDetails IntervalEstimate
  | DepthDetails DepthReplay
  | LatencyDetails "IntervalEstimate \<times> IntervalEstimate"
  | RetentionDetails RetentionReport
  | RecoveryDetails "IntervalEstimate \<times> IntervalEstimate"
  | ThrashDetails ThrashReport
  | DirectionalityDetails nat

record GateResult =
  gate_name :: string
  gate_passed :: bool
  gate_diagnostic :: string
  gate_details :: gate_details

definition capture_gate :: "string \<Rightarrow> ('a \<Rightarrow> gate_details) \<Rightarrow> 'a result \<Rightarrow> GateResult result" where
  "capture_gate name details outcome =
    (case outcome of
       Inr d \<Rightarrow> Inr \<lparr>gate_name = name, gate_passed = True, gate_diagnostic = ''passed'', gate_details = details d\<rparr>
     | Inl (PreRegistrationFailure m) \<Rightarrow>
         Inr \<lparr>gate_name = name, gate_passed = False, gate_diagnostic = m, gate_details = NoDetails\<rparr>
     | Inl e \<Rightarrow> Inl e)"

fun joined_with :: "string \<Rightarrow> string list \<Rightarrow> string" where
  "joined_with sep [] = []"
| "joined_with sep [x] = x"
| "joined_with sep (x # xs) = x @ sep @ joined_with sep xs"

definition require_gate_results :: "GateResult list \<Rightarrow> unit result" where
  "require_gate_results gates =
    (let failures = map gate_name (filter (\<lambda>g. \<not> gate_passed g) gates) in
     if failures \<noteq> []
     then Inl (PreRegistrationFailure (''failed preregistered expL gates: '' @ joined_with '', '' failures))
     else Inr ())"

section \<open>One point\<close>

record PointAudit =
  audit_label :: string
  audit_load :: string
  audit_arm :: string
  audit_config :: ExperimentConfig
  audit_records :: "RequestRecord list"
  audit_decisions :: "DecisionFact list"
  audit_metrics :: "(string \<times> real option) list"
  audit_control :: "ControllerHealth option"

definition audit_seed :: "PointAudit \<Rightarrow> int" where
  "audit_seed a = random_seed (exp_workload (audit_config a))"

definition formal_records :: "ExperimentConfig \<Rightarrow> RequestRecord list \<Rightarrow> RequestRecord list" where
  "formal_records c rs = filter (\<lambda>r. warmup_requests (exp_workload c) \<le> rec_sequence_id r) rs"

definition is_close_relative :: "real \<Rightarrow> real \<Rightarrow> bool" where
  "is_close_relative a b \<longleftrightarrow> \<bar>a - b\<bar> \<le> 1/10^9 * max \<bar>a\<bar> \<bar>b\<bar>"

definition audit_point ::
    "conversions \<Rightarrow> (string \<Rightarrow> string option \<times> int option) \<Rightarrow> analysis_files \<Rightarrow>
     (string option \<times> (string \<times> string option) list) list \<Rightarrow> ExperimentConfig \<Rightarrow> SweepPoint \<Rightarrow> PointAudit result" where
  "audit_point conv urlsplit F rows_by_label base p =
     and_then (point_identity p) (\<lambda>(load, arm).
     and_then (config_for_point urlsplit base p) (\<lambda>c.
     if \<not> is_close_relative (request_rate_rps (exp_workload c)) (the (map_of gate_loads load))
     then Inl (ExpLIntegrityError ''label/load rate mismatch'')
     else
     and_then (one_matching_file F (sp_label p) ''.jsonl'') (\<lambda>ls.
     and_then (read_request_records_jsonl conv ls) (\<lambda>records.
     case map_of rows_by_label (Some (sp_label p)) of
       None \<Rightarrow> Inl (KeyError (sp_label p))
     | Some row \<Rightarrow>
     and_then (reconcile_point conv row (formal_records c records) c) (\<lambda>metrics.
     let audit = \<lparr>audit_label = sp_label p, audit_load = load, audit_arm = arm, audit_config = c,
           audit_records = records, audit_decisions = [], audit_metrics = metrics, audit_control = None\<rparr> in
     if \<not> adaptive_clip_enabled (exp_admission c) then Inr audit
     else
     and_then (one_matching_file F (sp_label p) ''-adaptive-cap-decisions.jsonl'') (\<lambda>sidecar.
     and_then (load_and_reconcile_decisions conv sidecar records) (\<lambda>decisions.
     and_then (summarize_controller_health records decisions (warmup_requests (exp_workload c))
         (adaptive_clip_tighten_hold_s (exp_admission c)) (adaptive_clip_relax_hold_s (exp_admission c)))
       (\<lambda>health.
     Inr (audit\<lparr>audit_decisions := decisions, audit_control := Some health\<rparr>)))))))))"

section \<open>Groups\<close>

definition group_metric_names :: "string list" where
  "group_metric_names =
    [''queue_wait_mean_s'', ''queue_wait_p50_s'', ''queue_wait_p95_s'', ''queue_wait_p99_s'',
     ''longest_queue_wait_s'', ''end_to_end_p50_s'', ''end_to_end_p95_s'', ''end_to_end_p99_s'',
     ''slo_interactive_rate'', ''slo_batch_rate'', ''slo_overall_rate'', ''clip_applied_rate'',
     ''realized_truncation_rate'', ''mean_cap_reduction_tokens'', ''success_output_tokens'',
     ''token_throughput_per_s'', ''success_count'', ''error_count'', ''timeout_count'', ''cancelled_count'',
     ''rejected_count'']"

text \<open>\<open>{seed: metric for payload in payloads if metric is not None}\<close>\<close>

definition seed_metric :: "PointAudit list \<Rightarrow> string \<Rightarrow> SeedValues" where
  "seed_metric audits field =
     fold (\<lambda>a d. case map_of (audit_metrics a) field of Some (Some x) \<Rightarrow> AList.update (audit_seed a) x d | _ \<Rightarrow> d)
       audits []"

record GroupReport =
  group_key :: "string \<times> string"
  group_seed_count :: nat
  group_aggregates :: "(string \<times> IntervalEstimate option) list"
  group_output_tokens :: real
  group_mechanism :: Mg1Estimate

definition group_lengths :: "ExperimentConfig \<Rightarrow> PointAudit list \<Rightarrow> int list" where
  "group_lengths base audits =
     map rec_output_tokens (filter (\<lambda>r. warmup_requests (exp_workload base) \<le> rec_sequence_id r \<and> rec_status r = SUCCESS)
       (concat (map audit_records audits)))"

definition group_report ::
    "ExperimentConfig \<Rightarrow> LinearServiceFit \<Rightarrow> (string \<times> string) \<times> PointAudit list \<Rightarrow> GroupReport result" where
  "group_report base fit = (\<lambda>(key, audits).
     and_then (map_result (\<lambda>name. let values_by_seed = seed_metric audits name in
         if values_by_seed = [] then Inr (name, None)
         else and_then (cluster_mean_interval values_by_seed) (\<lambda>e. Inr (name, Some e))) group_metric_names)
       (\<lambda>aggregates.
     and_then (estimate_mg1_wait (group_lengths base audits) (Fin (the (map_of gate_loads (fst key)))) fit
         (max_in_flight (exp_router base))) (\<lambda>theory.
     Inr \<lparr>group_key = key, group_seed_count = length audits, group_aggregates = aggregates,
       group_output_tokens = sum_list (map (\<lambda>a. case map_of (audit_metrics a) ''success_output_tokens'' of
         Some (Some x) \<Rightarrow> x | _ \<Rightarrow> 0) audits),
       group_mechanism = theory\<rparr>)))"

section \<open>The low-load evidence\<close>

text \<open>\<open>round(x, 9)\<close>\<close>

definition round_nine :: "real \<Rightarrow> real" where
  "round_nine x = of_int (round_half_even (x * 10^9)) / 10^9"

record TraceEntry =
  trace_identity :: "string \<times> int \<times> int"
  trace_class :: RequestClass
  trace_tokens :: "int \<times> int option \<times> int option \<times> int"
  trace_offset_s :: real

definition repetition_start :: "RequestRecord list \<Rightarrow> int \<Rightarrow> real" where
  "repetition_start rs k = Min (set (map rec_arrival_time_s (filter (\<lambda>r. rec_repetition_index r = k) rs)))"

definition paired_trace :: "RequestRecord list \<Rightarrow> TraceEntry list" where
  "paired_trace rs = map (\<lambda>r.
     \<lparr>trace_identity = (rec_request_id r, rec_repetition_index r, rec_sequence_id r),
      trace_class = rec_request_class r,
      trace_tokens = (rec_input_tokens r, rec_requested_output_tokens r, rec_backend_max_output_tokens r,
        rec_output_tokens r),
      trace_offset_s = round_nine (rec_arrival_time_s r - repetition_start rs (rec_repetition_index r))\<rparr>) rs"

definition paired_with_baseline :: "(int \<times> PointAudit) list \<Rightarrow> PointAudit \<Rightarrow> bool result" where
  "paired_with_baseline baseline_by_seed a =
    (case map_of baseline_by_seed (audit_seed a) of
       None \<Rightarrow> Inl (KeyError ''seed'')
     | Some b \<Rightarrow> Inr (paired_trace (audit_records b) = paired_trace (audit_records a)))"

definition low_load_evidence :: "PointAudit list \<Rightarrow> PointAudit list \<Rightarrow> LowLoadEvidence result" where
  "low_load_evidence no_clip adaptive =
     and_then (map_result (paired_with_baseline (dict_by audit_seed no_clip)) adaptive) (\<lambda>equal.
     let records = concat (map audit_records adaptive); decisions = concat (map audit_decisions adaptive) in
     Inr \<lparr>low_clip_applied_count = length (filter (\<lambda>r. record_clip_applied r = Some True) records),
       low_realized_truncation_count = length (filter (\<lambda>r. record_clip_applied r = Some True
         \<and> rec_finish_reason r = Some ''length'') records),
       every_backend_cap_matches_request =
         list_all (\<lambda>r. rec_backend_max_output_tokens r = rec_requested_output_tokens r) records,
       every_decision_is_l0 = list_all (\<lambda>d. fact_new_level d = L0) decisions,
       paired_trace_equal = list_all id equal,
       no_clip_throughput_by_seed = seed_metric no_clip ''token_throughput_per_s'',
       adaptive_throughput_by_seed = seed_metric adaptive ''token_throughput_per_s''\<rparr>)"

section \<open>The list of gates\<close>

text \<open>The five gates on the whole matrix.\<close>

definition matrix_gates :: "((string \<times> string) \<Rightarrow> PointAudit list) \<Rightarrow> LowLoadEvidence \<Rightarrow> DepthReplay \<Rightarrow>
    GateResult list result" where
  "matrix_gates points_of evidence replay =
    (let metric = (\<lambda>load arm field. seed_metric (points_of (load, arm)) field);
         wait = (\<lambda>arm. metric ''high'' arm ''queue_wait_mean_s'');
         slo = (\<lambda>arm. metric ''high'' arm ''slo_interactive_rate'') in
     and_then (capture_gate ''low_load_zero_utility'' LowLoadDetails (check_low_load_gate evidence)) (\<lambda>g1.
     and_then (capture_gate ''depth_trigger_eligibility'' DepthDetails (check_depth_eligibility replay 4)) (\<lambda>g2.
     and_then (capture_gate ''high_load_latency_benefit'' LatencyDetails
         (check_latency_benefit (wait ''no-clip'') (wait ''adaptive-q-default'')
            (slo ''no-clip'') (slo ''adaptive-q-default''))) (\<lambda>g3.
     and_then (capture_gate ''fixed512_benefit_retention'' RetentionDetails
         (check_benefit_retention (wait ''no-clip'') (wait ''fixed-512'') (wait ''adaptive-q-default'')
            (slo ''no-clip'') (slo ''fixed-512'') (slo ''adaptive-q-default''))) (\<lambda>g4.
     and_then (capture_gate ''utility_recovery'' RecoveryDetails
         (check_utility_recovery (metric ''high'' ''fixed-512'' ''token_throughput_per_s'')
            (metric ''high'' ''adaptive-q-default'' ''token_throughput_per_s'')
            (metric ''high'' ''fixed-512'' ''realized_truncation_rate'')
            (metric ''high'' ''adaptive-q-default'' ''realized_truncation_rate''))) (\<lambda>g5.
     Inr [g1, g2, g3, g4, g5]))))))"

text \<open>Two gates for each point with a controller.\<close>

definition formal_dispatches :: "PointAudit \<Rightarrow> (string \<times> int) set" where
  "formal_dispatches a = set (map record_identity (filter (\<lambda>r. rec_dispatch_time_s r \<noteq> None)
     (formal_records (audit_config a) (audit_records a))))"

definition control_gates :: "PointAudit \<Rightarrow> GateResult list result" where
  "control_gates a =
    (if audit_control a = None then Inr []
     else
       let ds = filter (\<lambda>d. fact_identity d \<in> formal_dispatches a) (audit_decisions a);
           c = exp_admission (audit_config a) in
       and_then (capture_gate (''thrash/'' @ audit_label a) ThrashDetails
         (check_thrash ds (int (card (formal_dispatches a))) (adaptive_clip_tighten_hold_s c)
            (adaptive_clip_relax_hold_s c))) (\<lambda>g1.
       and_then (capture_gate (''directionality/'' @ audit_label a) DirectionalityDetails (check_directionality ds))
         (\<lambda>g2. Inr [g1, g2])))"

record ExpLResult =
  baseline_service_fit :: LinearServiceFit
  depth_replay :: ReplayReport
  audited_points :: "PointAudit list"
  group_reports :: "GroupReport list"
  gate_results :: "GateResult list"

definition group_of :: "PointAudit list \<Rightarrow> string \<times> string \<Rightarrow> PointAudit list" where
  "group_of audits key = filter (\<lambda>a. (audit_load a, audit_arm a) = key) audits"

definition analyze_expl ::
    "conversions \<Rightarrow> (string \<Rightarrow> string option \<times> int option) \<Rightarrow> analysis_files \<Rightarrow> SweepDefinition \<Rightarrow> bool \<Rightarrow>
     ExpLResult result" where
  "analyze_expl conv urlsplit F d enforce_gates =
     and_then (validate_matrix d) (\<lambda>_.
     and_then (map_result (\<lambda>row. case map_of row ''label'' of
         None \<Rightarrow> Inl (KeyError ''label'') | Some l \<Rightarrow> Inr (l, row)) (result_rows F)) (\<lambda>labelled.
     let rows_by_label = map (\<lambda>(l, lr). (l, snd lr)) (dict_by fst labelled) in
     if length rows_by_label \<noteq> length (result_rows F) \<or>
        set (map fst rows_by_label) \<noteq> Some ` set (map sp_label (points d))
     then Inl (ExpLIntegrityError ''sweep CSV labels are duplicate, missing, or outside the frozen matrix'')
     else
     and_then (map_result (audit_point conv urlsplit F rows_by_label (base_config d)) (points d)) (\<lambda>audits.
     and_then (fit_linear_service_time (concat (map (\<lambda>a. formal_records (audit_config a) (audit_records a))
         (group_of audits (''high'', ''no-clip''))))) (\<lambda>fit.
     and_then (map_result (group_report (base_config d) fit)
         (group_by (\<lambda>a. (audit_load a, audit_arm a)) audits)) (\<lambda>groups.
     and_then (low_load_evidence (group_of audits (''low'', ''no-clip''))
         (group_of audits (''low'', ''adaptive-q-default''))) (\<lambda>evidence.
     and_then (replay_expkb_depth_eligibility conv (reference_files F) 4 (1, 2, 3)) (\<lambda>replay.
     and_then (matrix_gates (group_of audits) evidence (DepthReplay.truncate replay)) (\<lambda>gates.
     and_then (map_result control_gates audits) (\<lambda>point_gates.
     let all_gates = gates @ concat point_gates in
     and_then (if enforce_gates then require_gate_results all_gates else Inr ()) (\<lambda>_.
     Inr \<lparr>baseline_service_fit = fit, depth_replay = replay, audited_points = audits,
       group_reports = groups, gate_results = all_gates\<rparr>))))))))))"

section \<open>What an analysis shows\<close>

lemma capture_gate_Inr:
  "capture_gate name details outcome = Inr g \<Longrightarrow> gate_name g = name \<and>
     (if gate_passed g then \<exists>d. outcome = Inr d \<and> gate_details g = details d
      else \<exists>m. outcome = Inl (PreRegistrationFailure m) \<and> gate_diagnostic g = m)"
  by (auto simp: capture_gate_def split: sum.splits py_error.splits)

lemma require_gate_results_cases:
  "require_gate_results gates = (if list_all gate_passed gates then Inr () else
     Inl (PreRegistrationFailure (''failed preregistered expL gates: ''
       @ joined_with '', '' (map gate_name (filter (\<lambda>g. \<not> gate_passed g) gates)))))"
  by (auto simp: require_gate_results_def list_all_iff filter_empty_conv Let_def)

text \<open>The gates every analysis evaluates, by name.\<close>

definition matrix_gate_names :: "string list" where
  "matrix_gate_names = [''low_load_zero_utility'', ''depth_trigger_eligibility'', ''high_load_latency_benefit'',
     ''fixed512_benefit_retention'', ''utility_recovery'']"

definition control_gate_names :: "PointAudit \<Rightarrow> string list" where
  "control_gate_names a = (if audit_control a = None then []
     else [''thrash/'' @ audit_label a, ''directionality/'' @ audit_label a])"

lemma matrix_gates_names:
  "matrix_gates g evidence replay = Inr gs \<Longrightarrow> map gate_name gs = matrix_gate_names"
  by (auto simp: matrix_gates_def and_then_Inr matrix_gate_names_def Let_def dest!: capture_gate_Inr)

lemma control_gates_names: "control_gates a = Inr gs \<Longrightarrow> map gate_name gs = control_gate_names a"
  by (auto simp: control_gates_def and_then_Inr control_gate_names_def Let_def dest!: capture_gate_Inr
      split: if_splits)

lemma control_gates_all_names:
  "map_result control_gates audits = Inr gss \<Longrightarrow> map gate_name (concat gss) = concat (map control_gate_names audits)"
proof (induction audits arbitrary: gss)
  case (Cons a audits)
  then obtain gs gss' where "control_gates a = Inr gs" "map_result control_gates audits = Inr gss'" "gss = gs # gss'"
    by (auto simp: and_then_Inr)
  with Cons.IH control_gates_names show ?case by simp
qed (auto simp: map_result_Inr)

text \<open>What the audit of a point establishes.\<close>

definition audited :: "(string \<Rightarrow> string option \<times> int option) \<Rightarrow> ExperimentConfig \<Rightarrow> SweepPoint \<Rightarrow> PointAudit \<Rightarrow> bool" where
  "audited urlsplit base p a \<longleftrightarrow> audit_label a = sp_label p \<and>
     point_identity p = Inr (audit_load a, audit_arm a) \<and> config_for_point urlsplit base p = Inr (audit_config a) \<and>
     (audit_control a \<noteq> None) = adaptive_clip_enabled (exp_admission (audit_config a)) \<and>
     (\<exists>m. calculate_metrics (exp_workload (audit_config a)) (formal_records (audit_config a) (audit_records a)) = Inr m \<and>
        audit_metrics a = metrics_mapping m)"

lemma reconcile_point_metrics:
  "reconcile_point conv row records c = Inr r \<Longrightarrow>
   \<exists>m. calculate_metrics (exp_workload c) records = Inr m \<and> r = metrics_mapping m"
  by (auto simp: reconcile_point_def and_then_Inr Let_def)

lemma audit_point_audited:
  "audit_point conv urlsplit F rows base p = Inr a \<Longrightarrow> audited urlsplit base p a"
  by (auto simp: audit_point_def and_then_Inr Let_def audited_def split: if_splits option.splits
      dest!: reconcile_point_metrics)

lemma analyze_expl_enforced:
  "analyze_expl conv urlsplit F d True =
     and_then (analyze_expl conv urlsplit F d False) (\<lambda>r. and_then (require_gate_results (gate_results r)) (\<lambda>_. Inr r))"
proof -
  have assoc: "and_then (and_then x f) g = and_then x (\<lambda>y. and_then (f y) g)" for x :: "'x result" and f :: "'x \<Rightarrow> 'y result" and g :: "'y \<Rightarrow> 'z result"
    by (cases x) simp_all
  have if_then: "and_then (if b then Inl e else x) g = (if b then Inl e else and_then x g)"
    for b e and x :: "'y result" and g :: "'y \<Rightarrow> 'z result" by simp
  show ?thesis
    by (simp add: analyze_expl_def assoc if_then Let_def cong: if_cong)
qed

text \<open>What a result contains.\<close>

definition expl_complete :: "(string \<Rightarrow> string option \<times> int option) \<Rightarrow> SweepDefinition \<Rightarrow> ExpLResult \<Rightarrow> bool" where
  "expl_complete urlsplit d r \<longleftrightarrow>
     length (audited_points r) = 24 \<and> distinct (map audit_label (audited_points r)) \<and>
     list_all2 (audited urlsplit (base_config d)) (points d) (audited_points r) \<and>
     length (filter (\<lambda>a. audit_load a = ''high'') (audited_points r)) = 18 \<and>
     length (filter (\<lambda>a. audit_load a = ''low'') (audited_points r)) = 6 \<and>
     sum_list (map group_seed_count (group_reports r)) = 24 \<and>
     map gate_name (gate_results r) = matrix_gate_names @ concat (map control_gate_names (audited_points r))"

lemma label_counts_count:
  assumes "(l, n) \<in> set (label_counts loads)"
  shows "length (filter (\<lambda>x. x = l) loads) = n"
  using assms by (auto simp: label_counts_def group_by_def)

lemma group_reports_seeds:
  assumes "map_result (group_report base fit) (group_by key audits) = Inr groups"
  shows "sum_list (map group_seed_count groups) = length audits"
proof -
  have "list_all2 (\<lambda>(k, ys) g. group_seed_count g = length ys) (group_by key audits) groups"
    using assms unfolding map_result_Inr
    by (rule list.rel_mono_strong) (auto simp: group_report_def and_then_Inr)
  then have "map group_seed_count groups = map (\<lambda>(k, ys). length ys) (group_by key audits)"
    by (intro map_eq_by_list_all2 [symmetric]) (auto elim: list.rel_mono_strong)
  then show ?thesis by (simp add: sum_list_group_by)
qed

lemma audited_labels:
  assumes au: "list_all2 (audited urlsplit c) ps audits" and ids: "map_result point_identity ps = Inr ids"
  shows "map audit_label audits = map sp_label ps" and "map fst ids = map audit_load audits"
proof -
  show "map audit_label audits = map sp_label ps"
    by (rule map_eq_by_list_all2 [symmetric], rule list.rel_mono_strong [OF au]) (simp add: audited_def)
  have "list_all2 (\<lambda>i a. fst i = audit_load a) ids audits"
  proof (rule list_all2_all_nthI)
    show "length ids = length audits"
      using au ids by (simp add: map_result_Inr) (metis list_all2_lengthD)
  next
    fix i assume "i < length ids"
    then show "fst (ids ! i) = audit_load (audits ! i)"
      using au ids by (simp add: map_result_Inr list_all2_conv_all_nth audited_def) (metis Inr_inject fst_conv)
  qed
  then show "map fst ids = map audit_load audits" by (rule map_eq_by_list_all2)
qed

lemma analysis_result_complete:
  assumes "analyze_expl conv urlsplit F d False = Inr r"
  shows "expl_complete urlsplit d r"
proof -
  obtain rows fit evidence replay gates point_gates where
    v: "validate_matrix d = Inr ()"
    and a: "map_result (audit_point conv urlsplit F rows (base_config d)) (points d) = Inr (audited_points r)"
    and g: "map_result (group_report (base_config d) fit)
      (group_by (\<lambda>a. (audit_load a, audit_arm a)) (audited_points r)) = Inr (group_reports r)"
    and m: "matrix_gates (group_of (audited_points r)) evidence replay = Inr gates"
    and c: "map_result control_gates (audited_points r) = Inr point_gates"
    and all: "gate_results r = gates @ concat point_gates"
    using assms by (auto simp: analyze_expl_def and_then_Inr Let_def split: if_splits)
  have au: "list_all2 (audited urlsplit (base_config d)) (points d) (audited_points r)"
    using a unfolding map_result_Inr by (rule list.rel_mono_strong) (rule audit_point_audited)
  obtain ids where ids: "map_result point_identity (points d) = Inr ids"
    and n: "length (points d) = 24" "card (set (map sp_label (points d))) = 24"
    and counts: "set (label_counts (map fst ids)) = {(''high'', 18), (''low'', 6)}"
    using v by (auto simp: validate_matrix_def and_then_Inr split: if_splits)
  note labels = audited_labels [OF au ids]
  have "distinct (map audit_label (audited_points r))"
    unfolding labels(1) by (rule card_distinct) (use n in simp)
  moreover have load: "length (filter (\<lambda>a. audit_load a = l) (audited_points r)) = k"
    if "(l, k) \<in> {(''high'', 18), (''low'', 6)}" for l k
  proof -
    have "(l, k) \<in> set (label_counts (map fst ids))" using that counts by blast
    from label_counts_count [OF this] show ?thesis by (simp add: labels(2) filter_map comp_def)
  qed
  moreover have "length (audited_points r) = 24" using n(1) au by (simp add: list_all2_lengthD)
  moreover have "map gate_name (gate_results r) = matrix_gate_names @ concat (map control_gate_names (audited_points r))"
    using matrix_gates_names [OF m] control_gates_all_names [OF c] all by simp
  ultimately show ?thesis
    using au group_reports_seeds [OF g] load by (simp add: expl_complete_def)
qed


end
