(* ===== verification/ExpKB.thy ===== *)
theory ExpKB
  imports TimeTable Labels Queueing
begin

text \<open>
  The aggregation of the clipping study (src/sloserve/analysis/expkb.py): the rows of one or more result
  directories grouped by arm, seed aggregates of nine metrics, and the M/G/1 diagnostics of each arm
  with the service fit of the \<open>no-clip\<close> arm. A directory is a parameter: the rows of
  \<open>sweep-results.csv\<close> as \<open>csv.DictReader\<close> gives them and the files a glob pattern finds.
\<close>

section \<open>Rows and files\<close>

definition aggregate_fields :: "string list" where
  "aggregate_fields = [''queue_wait_mean_s'', ''queue_wait_p99_s'', ''end_to_end_p99_s'', ''slo_overall_rate'',
     ''slo_interactive_rate'', ''token_throughput_per_s'', ''clip_applied_rate'', ''realized_truncation_rate'',
     ''mean_cap_reduction_tokens'']"

type_synonym row_cells = "(string \<times> string option) list"

record result_dir =
  dir_rows :: "row_cells list"
  dir_glob :: "string \<Rightarrow> jsonl_line list list"

text \<open>\<open>_SEED_SUFFIX.sub("", label)\<close>\<close>

definition arm_of :: "string \<Rightarrow> string" where
  "arm_of label =
    (case split_seed label of
       Some (before, _) \<Rightarrow> before
     | None \<Rightarrow> (case split_seed (chop_newline label) of
         Some (before, _) \<Rightarrow> before @ drop (length (chop_newline label)) label | None \<Rightarrow> label))"

definition float_or_none :: "conversions \<Rightarrow> string option \<Rightarrow> pyfloat option result" where
  "float_or_none conv v =
     (if v = None \<or> v = Some [] then Inr None
      else case float_text conv (the v) of
        None \<Rightarrow> Inl (ValueError ''could not convert string to float'') | Some x \<Rightarrow> Inr (Some x))"

text \<open>\<open>row[name]\<close> of a cell the analysis needs as a number.\<close>

definition row_cell :: "row_cells \<Rightarrow> string \<Rightarrow> string result" where
  "row_cell row name =
    (case map_of row name of
       None \<Rightarrow> Inl (KeyError name)
     | Some None \<Rightarrow> Inl (TypeError ''expected a string'')
     | Some (Some cell) \<Rightarrow> Inr cell)"

definition row_float :: "conversions \<Rightarrow> row_cells \<Rightarrow> string \<Rightarrow> pyfloat result" where
  "row_float conv row name = and_then (row_cell row name) (\<lambda>cell.
     case float_text conv cell of
       None \<Rightarrow> Inl (ValueError ''could not convert string to float'') | Some x \<Rightarrow> Inr x)"

definition row_int :: "conversions \<Rightarrow> row_cells \<Rightarrow> string \<Rightarrow> int result" where
  "row_int conv row name = and_then (row_cell row name) (\<lambda>cell.
     case int_text conv cell of
       None \<Rightarrow> Inl (ValueError ''invalid literal for int()'') | Some i \<Rightarrow> Inr i)"

definition read_formal_records :: "conversions \<Rightarrow> result_dir \<Rightarrow> string \<Rightarrow> int \<Rightarrow> RequestRecord list result" where
  "read_formal_records conv dir label warmup =
    (case dir_glob dir (''sweep-*-'' @ label @ ''.jsonl'') of
       [ls] \<Rightarrow> and_then (read_request_records_jsonl conv ls) (\<lambda>rs. Inr (filter (\<lambda>r. warmup \<le> rec_sequence_id r) rs))
     | _ \<Rightarrow> Inl (ValueError ''expected one request fact file''))"

section \<open>Aggregates\<close>

text \<open>
  \<open>statistics.fmean\<close> and \<open>statistics.pstdev\<close>. What the library does with values that are not finite is a
  parameter; the sweep writes none.
\<close>

record Aggregate =
  agg_mean :: pyfloat
  agg_std :: pyfloat
  agg_n :: nat

definition aggregate_values :: "(pyfloat list \<Rightarrow> (pyfloat \<times> pyfloat) result) \<Rightarrow> pyfloat list \<Rightarrow> Aggregate option result" where
  "aggregate_values special xs =
    (if xs = [] then Inr None
     else if list_all isfinite xs
     then let values = map real_of xs; mean = average values in
       Inr (Some \<lparr>agg_mean = Fin mean, agg_std = Fin (sqrt (average (map (\<lambda>x. (x - mean)\<^sup>2) values))), agg_n = length xs\<rparr>)
     else and_then (special xs) (\<lambda>(mean, std). Inr (Some \<lparr>agg_mean = mean, agg_std = std, agg_n = length xs\<rparr>)))"

definition field_aggregate ::
    "conversions \<Rightarrow> (pyfloat list \<Rightarrow> (pyfloat \<times> pyfloat) result) \<Rightarrow> row_cells list \<Rightarrow> string \<Rightarrow>
     (string \<times> Aggregate option) result" where
  "field_aggregate conv special rows field =
     and_then (map_result (\<lambda>row. float_or_none conv (case map_of row field of Some v \<Rightarrow> v | None \<Rightarrow> None)) rows)
       (\<lambda>parsed. and_then (aggregate_values special (List.map_filter id parsed)) (\<lambda>a. Inr (field, a)))"

section \<open>Locating the rows\<close>

text \<open>The loop over the rows: the labels seen, and per row its label, cells and records.\<close>

record LocatedRow =
  located_label :: string
  located_row :: row_cells
  located_records :: "RequestRecord list"

definition located_arm :: "LocatedRow \<Rightarrow> string" where
  "located_arm r = arm_of (located_label r)"

definition locate_row ::
    "conversions \<Rightarrow> int \<Rightarrow> result_dir \<times> row_cells \<Rightarrow> LocatedRow list \<Rightarrow> LocatedRow list result" where
  "locate_row conv warmup = (\<lambda>(dir, row) seen.
     and_then (row_cell row ''label'') (\<lambda>label.
     if label \<in> set (map located_label seen)
     then Inl (ValueError ''duplicate expK-B label across result directories'')
     else and_then (read_formal_records conv dir label warmup) (\<lambda>rs.
       Inr (seen @ [\<lparr>located_label = label, located_row = row, located_records = rs\<rparr>]))))"

section \<open>The analysis\<close>

record ArmResult =
  arm_seed_count :: nat
  arm_aggregates :: "(string \<times> Aggregate option) list"
  arm_mg1 :: Mg1Estimate

record ExpKBResult =
  kb_arrival_rate_rps :: pyfloat
  kb_concurrency :: int
  kb_service_fit :: LinearServiceFit
  kb_arms :: "(string \<times> ArmResult) list"

definition arm_lengths :: "LocatedRow list \<Rightarrow> int list" where
  "arm_lengths rows = map rec_output_tokens (filter (\<lambda>r. rec_status r = SUCCESS \<and> 0 < rec_output_tokens r)
     (concat (map located_records rows)))"

definition arm_result ::
    "conversions \<Rightarrow> (pyfloat list \<Rightarrow> (pyfloat \<times> pyfloat) result) \<Rightarrow> pyfloat \<Rightarrow> LinearServiceFit \<Rightarrow> int \<Rightarrow>
     string \<times> LocatedRow list \<Rightarrow> (string \<times> ArmResult) result" where
  "arm_result conv special rate fit k = (\<lambda>(arm, rows).
     and_then (map_result (field_aggregate conv special (map located_row rows)) aggregate_fields) (\<lambda>aggregates.
     and_then (estimate_mg1_wait (arm_lengths rows) rate fit k) (\<lambda>theory.
     Inr (arm, \<lparr>arm_seed_count = length rows, arm_aggregates = aggregates, arm_mg1 = theory\<rparr>))))"

definition analyze_expkb ::
    "conversions \<Rightarrow> (pyfloat list \<Rightarrow> (pyfloat \<times> pyfloat) result) \<Rightarrow> result_dir list \<Rightarrow> int \<Rightarrow> ExpKBResult result" where
  "analyze_expkb conv special dirs warmup =
    (if warmup < 0 then Inl (ValueError ''warmup_requests must be non-negative'')
     else if dirs = [] then Inl (ValueError ''expK-B analysis requires at least one results directory'')
     else let located = concat (map (\<lambda>dir. map (Pair dir) (dir_rows dir)) dirs) in
     if located = [] then Inl (ValueError ''expK-B sweep results are empty'')
     else and_then (fold_result (locate_row conv warmup) located []) (\<lambda>rows.
     let baseline = filter (\<lambda>r. located_arm r = ''no-clip'') rows;
         baseline_records = concat (map located_records baseline) in
     if baseline_records = [] then Inl (ValueError ''expK-B analysis requires the no-clip arm'')
     else and_then (fit_linear_service_time baseline_records) (\<lambda>fit.
     and_then (row_float conv (located_row (hd baseline)) ''request_rate_rps'') (\<lambda>rate.
     and_then (row_int conv (located_row (hd baseline)) ''max_in_flight'') (\<lambda>k.
     and_then (map_result (arm_result conv special rate fit k) (group_by located_arm rows)) (\<lambda>arms.
     Inr \<lparr>kb_arrival_rate_rps = rate, kb_concurrency = k, kb_service_fit = fit, kb_arms = arms\<rparr>))))))"

section \<open>Every row is counted once\<close>

lemma row_cell_Inr: "row_cell row name = Inr cell \<longleftrightarrow> map_of row name = Some (Some cell)"
  by (auto simp: row_cell_def split: option.splits)

lemma locate_row_Inr:
  "locate_row conv w (dir, row) seen = Inr seen' \<Longrightarrow> \<exists>r. seen' = seen @ [r] \<and> located_row r = row \<and>
     map_of row ''label'' = Some (Some (located_label r)) \<and> located_label r \<notin> set (map located_label seen)"
  by (auto simp: locate_row_def and_then_Inr row_cell_Inr split: if_splits)

lemma locate_rows:
  assumes "fold_result (locate_row conv w) located seen = Inr rows" and "distinct (map located_label seen)"
  shows "\<exists>rs. rows = seen @ rs \<and> map located_row rs = map snd located \<and> distinct (map located_label rows) \<and>
    (\<forall>r \<in> set rs. map_of (located_row r) ''label'' = Some (Some (located_label r)))"
  using assms
proof (induction located arbitrary: seen)
  case (Cons l located)
  obtain dir row where l: "l = (dir, row)" by (cases l)
  obtain seen' where 1: "locate_row conv w (dir, row) seen = Inr seen'"
    "fold_result (locate_row conv w) located seen' = Inr rows"
    using Cons.prems(1) by (auto simp: l and_then_Inr)
  obtain r where r: "seen' = seen @ [r]" "located_row r = row" "located_label r \<notin> set (map located_label seen)"
    "map_of row ''label'' = Some (Some (located_label r))"
    using locate_row_Inr [OF 1(1)] by blast
  have "distinct (map located_label seen')" using Cons.prems(2) r by auto
  from Cons.IH [OF 1(2) this] obtain rs where "rows = seen' @ rs" "map located_row rs = map snd located"
    "distinct (map located_label rows)"
    "\<forall>r \<in> set rs. map_of (located_row r) ''label'' = Some (Some (located_label r))" by blast
  then show ?case using r l by (intro exI [of _ "r # rs"]) simp
qed simp

definition row_arm :: "row_cells \<Rightarrow> string option" where
  "row_arm row = (case map_of row ''label'' of Some (Some l) \<Rightarrow> Some (arm_of l) | _ \<Rightarrow> None)"

lemma field_aggregate_n:
  assumes "field_aggregate conv special rows field = Inr (f, Some g)"
  shows "f = field \<and> 0 < agg_n g \<and> agg_n g \<le> length rows"
proof -
  obtain parsed where p: "length parsed = length rows" "aggregate_values special (List.map_filter id parsed) = Inr (Some g)"
    "f = field"
    using assms by (auto simp: field_aggregate_def and_then_Inr map_result_Inr dest: list_all2_lengthD)
  have "length (List.map_filter id parsed) \<le> length parsed" by (simp add: List.map_filter_def)
  moreover have "agg_n g = length (List.map_filter id parsed) \<and> List.map_filter id parsed \<noteq> []"
    using p(2) by (auto simp: aggregate_values_def and_then_Inr Let_def split: if_splits)
  ultimately show ?thesis using p(1,3) by simp
qed

lemma arm_result_Inr:
  assumes "arm_result conv special rate fit k (arm, rows) = Inr (arm', a)"
  shows "arm' = arm \<and> arm_seed_count a = length rows \<and> map fst (arm_aggregates a) = aggregate_fields \<and>
    (\<forall>(f, g) \<in> set (arm_aggregates a). case g of None \<Rightarrow> True | Some g \<Rightarrow> agg_n g \<le> length rows) \<and>
    estimate_mg1_wait (arm_lengths rows) rate fit k = Inr (arm_mg1 a)"
proof -
  have r: "arm' = arm" "arm_seed_count a = length rows"
    "map_result (field_aggregate conv special (map located_row rows)) aggregate_fields = Inr (arm_aggregates a)"
    "estimate_mg1_wait (arm_lengths rows) rate fit k = Inr (arm_mg1 a)"
    using assms by (auto simp: arm_result_def and_then_Inr)
  have fs: "list_all2 (\<lambda>field (f, g). f = field \<and> (case g of None \<Rightarrow> True | Some g \<Rightarrow> agg_n g \<le> length rows))
      aggregate_fields (arm_aggregates a)"
  proof (rule list.rel_mono_strong [OF r(3) [unfolded map_result_Inr]])
    fix field fg
    assume f: "field_aggregate conv special (map located_row rows) field = Inr fg"
    obtain f' g where fg: "fg = (f', g)" by (cases fg)
    have "f' = field" using f fg by (auto simp: field_aggregate_def and_then_Inr)
    then show "case fg of (f, g) \<Rightarrow> f = field \<and> (case g of None \<Rightarrow> True | Some g \<Rightarrow> agg_n g \<le> length rows)"
      using field_aggregate_n [of conv special "map located_row rows" field f'] f fg by (auto split: option.split)
  qed
  have "map (\<lambda>x. x) aggregate_fields = map fst (arm_aggregates a)"
    by (rule map_eq_by_list_all2, rule list.rel_mono_strong [OF fs]) auto
  moreover have "\<forall>(f, g) \<in> set (arm_aggregates a). case g of None \<Rightarrow> True | Some g \<Rightarrow> agg_n g \<le> length rows"
    using fs by (induction rule: list_all2_induct) auto
  ultimately show ?thesis using r by simp
qed

text \<open>What an arm of the result rests on, given how many rows it has.\<close>

definition arm_sound :: "ExpKBResult \<Rightarrow> nat \<Rightarrow> ArmResult \<Rightarrow> bool" where
  "arm_sound r n a \<longleftrightarrow> arm_seed_count a = n \<and> map fst (arm_aggregates a) = aggregate_fields \<and>
     (\<forall>(f, g) \<in> set (arm_aggregates a). case g of None \<Rightarrow> True | Some g \<Rightarrow> agg_n g \<le> n) \<and>
     Fin (mg1_arrival_rate_rps (arm_mg1 a)) = kb_arrival_rate_rps r \<and> concurrency (arm_mg1 a) = kb_concurrency r"

lemma estimate_fields:
  "estimate_mg1_wait lengths rate fit k = Inr e \<Longrightarrow> Fin (mg1_arrival_rate_rps e) = rate \<and> concurrency e = k"
  by (cases rate) (auto simp: estimate_mg1_wait_def Let_def split: if_splits)

lemma arm_result_sound:
  assumes "arm_result conv special (kb_arrival_rate_rps r) fit (kb_concurrency r) (arm, rows) = Inr (arm', a)"
  shows "arm' = arm \<and> arm_sound r (length rows) a"
proof -
  note a = arm_result_Inr [OF assms]
  have "Fin (mg1_arrival_rate_rps (arm_mg1 a)) = kb_arrival_rate_rps r \<and> concurrency (arm_mg1 a) = kb_concurrency r"
    using a estimate_fields by blast
  with a show ?thesis by (simp add: arm_sound_def)
qed

text \<open>The rows in the order they were located, and what their arms count.\<close>

lemma located_rows:
  assumes "fold_result (locate_row conv warmup) (concat (map (\<lambda>dir. map (Pair dir) (dir_rows dir)) dirs)) [] = Inr rows"
  shows "length rows = length (concat (map dir_rows dirs))"
    and "distinct (map (\<lambda>row. map_of row ''label'') (concat (map dir_rows dirs)))"
    and "length (filter (\<lambda>row. row_arm row = Some k) (concat (map dir_rows dirs)))
      = length (filter (\<lambda>r. located_arm r = k) rows)"
proof -
  let ?all = "concat (map dir_rows dirs)"
  have "map snd (concat (map (\<lambda>dir. map (Pair dir) (dir_rows dir)) dirs)) = ?all" by (simp add: map_concat comp_def)
  then have rs: "map located_row rows = ?all" "distinct (map located_label rows)"
    "\<forall>r \<in> set rows. map_of (located_row r) ''label'' = Some (Some (located_label r))"
    using locate_rows [OF assms] by auto
  show "length rows = length ?all" using rs(1) by (metis length_map)
  have "map (\<lambda>row. map_of row ''label'') ?all = map (\<lambda>r. Some (Some (located_label r))) rows"
    using rs(3) unfolding rs(1) [symmetric] by simp
  then show "distinct (map (\<lambda>row. map_of row ''label'') ?all)" using rs(2) by (simp add: distinct_map inj_on_def)
  have "filter (\<lambda>x. row_arm (located_row x) = Some k) rows = filter (\<lambda>x. located_arm x = k) rows"
    by (rule filter_cong) (use rs(3) in \<open>auto simp: row_arm_def located_arm_def\<close>)
  then show "length (filter (\<lambda>row. row_arm row = Some k) ?all) = length (filter (\<lambda>r. located_arm r = k) rows)"
    unfolding rs(1) [symmetric] by (simp add: filter_map comp_def)
qed

lemma arms_of_groups:
  assumes "map_result (arm_result conv special (kb_arrival_rate_rps r) (kb_service_fit r) (kb_concurrency r))
      (group_by located_arm rows) = Inr arms"
  shows "map fst arms = first_occurrences (map located_arm rows)"
    and "sum_list (map (\<lambda>(arm, a). arm_seed_count a) arms) = length rows"
    and "(arm, a) \<in> set arms \<Longrightarrow> arm_sound r (length (filter (\<lambda>r. located_arm r = arm) rows)) a"
proof -
  have each: "list_all2 (\<lambda>(k, ys) (arm, a). arm = k \<and> arm_sound r (length ys) a) (group_by located_arm rows) arms"
    using assms unfolding map_result_Inr by (rule list.rel_mono_strong) (auto dest: arm_result_sound)
  have "map fst (group_by located_arm rows) = map fst arms"
    by (rule map_eq_by_list_all2, rule list.rel_mono_strong [OF each]) auto
  then show "map fst arms = first_occurrences (map located_arm rows)" by (simp add: group_by_def comp_def)
  have "map (\<lambda>(k, ys). length ys) (group_by located_arm rows) = map (\<lambda>(arm, a). arm_seed_count a) arms"
    by (rule map_eq_by_list_all2, rule list.rel_mono_strong [OF each]) (auto simp: arm_sound_def)
  then show "sum_list (map (\<lambda>(arm, a). arm_seed_count a) arms) = length rows"
    using sum_list_group_by [of located_arm rows] by simp
  show "arm_sound r (length (filter (\<lambda>r. located_arm r = arm) rows)) a" if mem: "(arm, a) \<in> set arms"
  proof -
    obtain ys where "(arm, ys) \<in> set (group_by located_arm rows)" "arm_sound r (length ys) a"
      using each mem by (fastforce simp: list_all2_conv_all_nth in_set_conv_nth)
    then show ?thesis by (simp add: group_by_mem)
  qed
qed

lemma analysis_parts:
  assumes "analyze_expkb conv special dirs warmup = Inr r"
  obtains rows where
    "fold_result (locate_row conv warmup) (concat (map (\<lambda>dir. map (Pair dir) (dir_rows dir)) dirs)) [] = Inr rows"
    and "''no-clip'' \<in> set (map located_arm rows)"
    and "map_result (arm_result conv special (kb_arrival_rate_rps r) (kb_service_fit r) (kb_concurrency r))
        (group_by located_arm rows) = Inr (kb_arms r)"
  using assms by (force simp: analyze_expkb_def and_then_Inr Let_def split: if_splits)

text \<open>
  C40. Every row is counted once. When the aggregation of some result directories returns, no label
  occurred twice, the arms are distinct and \<open>no-clip\<close> is one of them, each arm has as many seeds as
  there are rows of that arm, so that the seeds of all arms are the rows of all directories, its
  nine aggregates rest on at most that many values, and its queueing estimate was made with the
  arrival rate and the concurrency of the baseline.
\<close>

theorem expkb_counts_every_row:
  assumes "analyze_expkb conv special dirs warmup = Inr r"
  shows "distinct (map (\<lambda>row. map_of row ''label'') (concat (map dir_rows dirs))) \<and>
    distinct (map fst (kb_arms r)) \<and> ''no-clip'' \<in> set (map fst (kb_arms r)) \<and>
    sum_list (map (\<lambda>(arm, a). arm_seed_count a) (kb_arms r)) = length (concat (map dir_rows dirs)) \<and>
    (\<forall>(arm, a) \<in> set (kb_arms r).
       arm_sound r (length (filter (\<lambda>row. row_arm row = Some arm) (concat (map dir_rows dirs)))) a)"
proof -
  obtain rows where f: "fold_result (locate_row conv warmup) (concat (map (\<lambda>dir. map (Pair dir) (dir_rows dir)) dirs)) [] = Inr rows"
    and base: "''no-clip'' \<in> set (map located_arm rows)"
    and arms: "map_result (arm_result conv special (kb_arrival_rate_rps r) (kb_service_fit r) (kb_concurrency r))
        (group_by located_arm rows) = Inr (kb_arms r)"
    using assms by (rule analysis_parts)
  note rows = located_rows [OF f] and groups = arms_of_groups [OF arms]
  have "''no-clip'' \<in> set (map fst (kb_arms r))" unfolding groups(1) using base by simp
  then show ?thesis using rows groups by auto
qed

text \<open>One directory, one baseline row, two formal requests.\<close>

definition sample_long_record :: RequestRecord where
  "sample_long_record = (sample_record 1 SUCCESS)\<lparr>rec_output_tokens := 6, rec_completion_time_s := 8\<rparr>"

definition sample_dir :: result_dir where
  "sample_dir = \<lparr>dir_rows = [[(''label'', Some ''no-clip-s1''), (''request_rate_rps'', Some ''x''),
       (''max_in_flight'', Some ''x'')]],
     dir_glob = \<lambda>p. [write_request_records_jsonl [sample_record 0 SUCCESS, sample_long_record]]\<rparr>"

definition tenth :: conversions where
  "tenth = \<lparr>int_text = \<lambda>s. Some 1, float_text = \<lambda>s. Some (Fin (1/10)), str_of = \<lambda>v. []\<rparr>"

lemma sample_long_record_valid: "valid_record sample_long_record"
proof -
  have "is_sha256 (replicate 64 CHR ''a'')" by (simp add: is_sha256_def list_all_iff)
  then show ?thesis
    by (simp add: valid_record_def RequestRecord_init_def checked_def raise_if.simps Let_def
        identity_guards_def finite_guards_def timeline_guards_def sample_record_def sample_long_record_def map_times_def)
qed

lemma sample_analysis: "\<exists>r. analyze_expkb tenth (\<lambda>xs. Inl (ValueError [])) [sample_dir] 0 = Inr r"
proof -
  let ?rs = "[sample_record 0 SUCCESS, sample_long_record]"
  have R: "read_request_records_jsonl tenth (write_request_records_jsonl ?rs) = Inr ?rs"
    by (rule read_written_records) (simp add: sample_record_valid sample_long_record_valid)
  have F: "filter (\<lambda>r. 0 \<le> rec_sequence_id r) ?rs = ?rs"
    by (simp add: sample_record_def sample_long_record_def)
  have A: "arm_of ''no-clip-s1'' = ''no-clip''"
    by (simp add: arm_of_def split_seed_def is_digit_def Let_def)
  have L: "fold_result (locate_row tenth 0) [(sample_dir, hd (dir_rows sample_dir))] []
      = Inr [\<lparr>located_label = ''no-clip-s1'', located_row = hd (dir_rows sample_dir), located_records = ?rs\<rparr>]"
    by (simp add: locate_row_def row_cell_def read_formal_records_def sample_dir_def R F del: filter.simps)
  have S: "service_samples ?rs = [(3, 3), (6, 6)]"
    by (simp add: service_samples_def sample_record_def sample_long_record_def List.map_filter_def)
  have T: "fit_linear_service_time ?rs = Inr (fit_samples [(3, 3), (6, 6)])"
    by (simp add: fit_linear_service_time_def S Let_def)
  have fit: "seconds_per_output_token (fit_samples [(3, 3), (6, 6)]) = 1"
    "intercept_s (fit_samples [(3, 3), (6, 6)]) = 0"
    by (simp_all add: fit_samples_def average_def square_sum_def Let_def)
  have N: "arm_lengths [\<lparr>located_label = ''no-clip-s1'', located_row = hd (dir_rows sample_dir), located_records = ?rs\<rparr>]
      = [3, 6]"
    by (simp add: arm_lengths_def sample_record_def sample_long_record_def)
  have E: "\<exists>e. estimate_mg1_wait [3, 6] (Fin (1/10)) (fit_samples [(3, 3), (6, 6)]) 1 = Inr e"
    by (simp add: estimate_mg1_wait_def service_times_def fit average_def Let_def)
  have G: "\<exists>g. map_result (field_aggregate tenth (\<lambda>xs. Inl (ValueError [])) [hd (dir_rows sample_dir)]) aggregate_fields = Inr g"
    by (simp add: aggregate_fields_def field_aggregate_def sample_dir_def float_or_none_def aggregate_values_def
        List.map_filter_def)
  let ?row = "hd (dir_rows sample_dir)"
  let ?located = "\<lparr>located_label = ''no-clip-s1'', located_row = ?row, located_records = ?rs\<rparr>"
  have located: "concat (map (\<lambda>dir. map (Pair dir) (dir_rows dir)) [sample_dir]) = [(sample_dir, ?row)]"
    by (simp add: sample_dir_def)
  have cells: "row_float tenth ?row ''request_rate_rps'' = Inr (Fin (1/10))" "row_int tenth ?row ''max_in_flight'' = Inr 1"
    by (simp_all add: row_float_def row_int_def row_cell_def sample_dir_def tenth_def)
  have arm: "located_arm ?located = ''no-clip''" by (simp add: located_arm_def A)
  have grouped: "group_by located_arm [?located] = [(''no-clip'', [?located])]"
    by (simp add: group_by_def first_occurrences_def arm)
  obtain g e where g: "map_result (field_aggregate tenth (\<lambda>xs. Inl (ValueError [])) [?row]) aggregate_fields = Inr g"
    and e: "estimate_mg1_wait [3, 6] (Fin (1/10)) (fit_samples [(3, 3), (6, 6)]) 1 = Inr e"
    using E G by blast
  have one: "arm_result tenth (\<lambda>xs. Inl (ValueError [])) (Fin (1/10)) (fit_samples [(3, 3), (6, 6)]) 1 (''no-clip'', [?located])
      = Inr (''no-clip'', \<lparr>arm_seed_count = 1, arm_aggregates = g, arm_mg1 = e\<rparr>)"
    by (simp add: arm_result_def N g e)
  show ?thesis
    unfolding analyze_expkb_def located Let_def L and_then.simps(2)
    by (simp add: arm T cells grouped one)
qed

theorem expkb_counts_every_row_witness:
  "\<exists>r. analyze_expkb tenth (\<lambda>xs. Inl (ValueError [])) [sample_dir] 0 = Inr r \<and>
    sum_list (map (\<lambda>(arm, a). arm_seed_count a) (kb_arms r)) = 1"
proof -
  obtain r where r: "analyze_expkb tenth (\<lambda>xs. Inl (ValueError [])) [sample_dir] 0 = Inr r"
    using sample_analysis by blast
  with expkb_counts_every_row [OF r] show ?thesis
    by (intro exI [of _ r]) (simp add: sample_dir_def)
qed

end
