(* ===== verification/PredictorProperties.thy ===== *)
theory PredictorProperties
  imports Generator
begin

text \<open>
  What the length predictor promises to the scheduler and the clipper that use it: trained on the
  generator's pairs it is well-formed and predicts lengths the workload can have, and its artifact
  loads back to a predictor that answers every query alike.
\<close>

section \<open>Training\<close>

text \<open>The dictionary of buckets while it is filled: distinct keys, no empty bucket, values in range.\<close>

definition buckets_ok :: "int \<Rightarrow> int \<Rightarrow> (bucket \<times> int list) list \<Rightarrow> bool" where
  "buckets_ok l u d \<longleftrightarrow> distinct (map fst d) \<and>
     (\<forall>((c, kind), vs) \<in> set d. c \<in> range class_value \<and> vs \<noteq> [] \<and> (\<forall>v \<in> set vs. l \<le> v \<and> v \<le> u))"

lemma set_update_cases: "(k, v) \<in> set (AList.update k' v' d) \<Longrightarrow> (k, v) = (k', v') \<or> (k, v) \<in> set d"
  by (induction d) (auto split: if_splits)

lemma bucket_append_ok:
  assumes "buckets_ok l u d" and "l \<le> v" and "v \<le> u"
  shows "buckets_ok l u (bucket_append (class_value cls, kind) v d)"
proof -
  let ?k = "(class_value cls, kind)"
  let ?vs = "(case map_of d ?k of None \<Rightarrow> [] | Some vs \<Rightarrow> vs) @ [v]"
  have vs: "?vs \<noteq> []" "\<forall>w \<in> set ?vs. l \<le> w \<and> w \<le> u"
    using assms by (auto simp: buckets_ok_def dest!: map_of_SomeD split: option.splits)
  have "distinct (map fst (AList.update ?k ?vs d))"
    using assms(1) by (simp add: buckets_ok_def distinct_update)
  moreover have "c \<in> range class_value \<and> ws \<noteq> [] \<and> (\<forall>w \<in> set ws. l \<le> w \<and> w \<le> u)"
    if "((c, kd), ws) \<in> set (AList.update ?k ?vs d)" for c kd ws
    using set_update_cases [OF that]
  proof
    assume "((c, kd), ws) = (?k, ?vs)"
    with vs show ?thesis by blast
  qed (use assms(1) in \<open>auto simp: buckets_ok_def\<close>)
  ultimately show ?thesis by (auto simp: buckets_ok_def bucket_append_def)
qed

lemma bucket_append_nonempty: "bucket_append k v d \<noteq> []"
  by (cases d) (auto simp: bucket_append_def)

lemma collect_buckets_ok:
  assumes "\<forall>p \<in> set ps. l \<le> pair_target_tokens p \<and> pair_target_tokens p \<le> u" and "1 \<le> l"
    and "buckets_ok l u d"
  shows "\<exists>d'. collect_buckets ps d ts = Inr (d', ts @ map pair_target_tokens ps) \<and> buckets_ok l u d' \<and>
    (d \<noteq> [] \<or> ps \<noteq> [] \<longrightarrow> d' \<noteq> [])"
  using assms(1,3)
proof (induction ps arbitrary: d ts)
  case (Cons p ps)
  let ?d = "bucket_append (class_value (pair_class p), pair_prompt_kind p) (pair_target_tokens p) d"
  have "buckets_ok l u ?d" using Cons.prems by (intro bucket_append_ok) auto
  with Cons.IH [of ?d "ts @ [pair_target_tokens p]"] Cons.prems(1) obtain d' where
    "collect_buckets ps ?d (ts @ [pair_target_tokens p])
       = Inr (d', (ts @ [pair_target_tokens p]) @ map pair_target_tokens ps)" "buckets_ok l u d'"
    "?d \<noteq> [] \<longrightarrow> d' \<noteq> []" by auto
  moreover have "\<not> pair_target_tokens p < 1" using Cons.prems(1) assms(2) by force
  ultimately show ?case using bucket_append_nonempty by auto
qed simp

lemma int_median_ok:
  assumes "vs \<noteq> []" and "\<forall>v \<in> set vs. l \<le> v \<and> v \<le> u"
  shows "\<exists>m. int_median vs = Inr m \<and> of_int l \<le> m \<and> m \<le> of_int u"
proof -
  have "length (map real_of_int vs) \<noteq> 0" using assms(1) by simp
  then have "\<exists>m. int_median vs = Inr m"
    unfolding int_median_def median_def Let_def by (cases "odd (length (map real_of_int vs))") metis+
  then obtain m where m: "int_median vs = Inr m" ..
  have "of_int l \<le> m \<and> m \<le> of_int u"
    by (rule median_bounds [OF m [unfolded int_median_def]]) (use assms(2) in auto)
  with m show ?thesis by blast
qed

text \<open>The predictions of a predictor all lie in \<open>[l, u]\<close>.\<close>

definition predicts_within :: "real \<Rightarrow> real \<Rightarrow> LengthPredictor \<Rightarrow> bool" where
  "predicts_within l u p \<longleftrightarrow> l \<le> global_median p \<and> global_median p \<le> u \<and>
     (\<forall>(k, m) \<in> set (bucket_medians p). l \<le> m \<and> m \<le> u)"

lemma predicts_within_predict: "predicts_within l u p \<Longrightarrow> l \<le> predict p c kind \<and> predict p c kind \<le> u"
  by (auto simp: predicts_within_def predict_def dest!: map_of_SomeD split: option.splits)

definition class_keys :: "LengthPredictor \<Rightarrow> bool" where
  "class_keys p \<longleftrightarrow> (\<forall>((c, kind), m) \<in> set (bucket_medians p). c \<in> range class_value)"

text \<open>The median of a bucket that has values.\<close>

definition median_of :: "int list \<Rightarrow> real" where
  "median_of vs = (case int_median vs of Inr m \<Rightarrow> m | Inl _ \<Rightarrow> 0)"

lemma bucket_median_ok:
  assumes "buckets_ok l u d" and "((c, kd), vs) \<in> set d"
  shows "int_median vs = Inr (median_of vs) \<and> of_int l \<le> median_of vs \<and> median_of vs \<le> of_int u \<and> c \<in> range class_value"
  using assms int_median_ok [of vs l u] by (fastforce simp: buckets_ok_def median_of_def)

lemma bucket_medians_ok:
  assumes "buckets_ok l u d"
  shows "map_result (\<lambda>(k, vs). and_then (int_median vs) (\<lambda>m. Inr (k, m))) d
    = Inr (map (\<lambda>(k, vs). (k, median_of vs)) d)"
proof (rule map_result_total)
  fix x assume x: "x \<in> set d"
  obtain c kd vs where e: "x = ((c, kd), vs)" by (metis surj_pair)
  then have "int_median vs = Inr (median_of vs)" using bucket_median_ok [OF assms] x by blast
  then show "(case x of (k, vs) \<Rightarrow> and_then (int_median vs) (\<lambda>m. Inr (k, m)))
      = Inr (case x of (k, vs) \<Rightarrow> (k, median_of vs))" by (simp add: e)
qed

lemma train_ok:
  assumes "ps \<noteq> []" and "\<forall>p \<in> set ps. l \<le> pair_target_tokens p \<and> pair_target_tokens p \<le> u" and "1 \<le> l"
  shows "\<exists>p. LengthPredictor_train ps = Inr p \<and> valid_predictor p \<and> class_keys p \<and>
    predicts_within (of_int l) (of_int u) p"
proof -
  have "buckets_ok l u []" by (simp add: buckets_ok_def)
  from collect_buckets_ok [OF assms(2,3) this, of "[]"] assms(1) obtain d where
    d: "collect_buckets ps [] [] = Inr (d, map pair_target_tokens ps)" "buckets_ok l u d" "d \<noteq> []" by auto
  note bucket = bucket_median_ok [OF d(2)] and meds = bucket_medians_ok [OF d(2)]
  obtain g where g: "int_median (map pair_target_tokens ps) = Inr g" "of_int l \<le> g" "g \<le> of_int u"
    using int_median_ok [of "map pair_target_tokens ps" l u] assms(1,2) by auto
  let ?p = "\<lparr>bucket_medians = map (\<lambda>(k, vs). (k, median_of vs)) d, global_median = g\<rparr>"
  have pos: "1 \<le> (of_int l :: real)" using assms(3) by simp
  have "map (\<lambda>(k, vs). (k, median_of vs)) d \<noteq> []" using d(3) by simp
  moreover have "0 < g" using g(2) pos by linarith
  ultimately have "LengthPredictor_train ps = Inr ?p"
    using assms(1) d(1) g(1)
    by (simp only: LengthPredictor_train_def if_not_P meds and_then.simps case_prod_conv
        LengthPredictor_init_def checked_def raise_if.simps not_le) simp
  moreover have fsts: "map fst (map (\<lambda>(k, vs). (k, median_of vs)) d) = map fst d"
    by (simp add: case_prod_beta comp_def)
  moreover have "0 < m" if km: "(k, m) \<in> set (map (\<lambda>(k, vs). (k, median_of vs)) d)" for k m
  proof -
    obtain vs where "(k, vs) \<in> set d" "m = median_of vs" using km by auto
    then show ?thesis using bucket [of "fst k" "snd k" vs] pos by simp
  qed
  then have positive: "\<forall>(k, m) \<in> set (map (\<lambda>(k, vs). (k, median_of vs)) d). 0 < m" by blast
  have "distinct (map fst d)" using d(2) by (simp add: buckets_ok_def)
  then have "distinct (map fst (map (\<lambda>(k, vs). (k, median_of vs)) d))" by (simp only: fsts)
  then have "valid_predictor ?p"
    using \<open>0 < g\<close> d(3) positive by (simp only: valid_predictor_def LengthPredictor.select_convs) simp
  moreover have "class_keys ?p" using bucket by (auto simp: class_keys_def)
  moreover have "predicts_within (of_int l) (of_int u) ?p"
    using bucket g(2,3) by (auto simp: predicts_within_def)
  ultimately show ?thesis by blast
qed

section \<open>From configuration to predictions\<close>

lemma build_training_pairs_ok:
  assumes "random_laws R" and "valid_workload c" and "length_model c = REALISTIC"
    and "realistic_length c = Some r" and "arrival_process c \<noteq> BURST" and "0 \<le> seed" and "1 \<le> n"
  shows "\<exists>ps. build_training_pairs R c seed n = Inr ps \<and> int (length ps) = n \<and>
    (\<forall>p \<in> set ps. clamp_min r \<le> pair_target_tokens p \<and> pair_target_tokens p \<le> clamp_max r)"
proof -
  let ?c = "c\<lparr>random_seed := seed, total_requests := n, warmup_requests := 0\<rparr>"
  have init: "WorkloadConfig_init ?c = Inr ?c"
    using assms(2,6,7) by (auto simp: valid_workload_def WorkloadConfig_init_def and_then_Inr raise_simps)
  then have v: "valid_workload ?c" by (simp add: valid_workload_def)
  obtain f ts where ts: "arrival_schedule_from_config R ?c = Inr f" "f n = Inr ts" "int (length ts) = n"
      "sorted ts" "hd ts = 0"
    using schedule_ok [OF assms(1) v _ , of n] assms(5,7) by auto
  have "ts \<noteq> []" using ts(3) assms(7) by auto
  then have "\<forall>t \<in> set ts. 0 \<le> t" using ts(4,5) by (cases ts) auto
  from generate_from_ok [OF assms(1) v this, of 0 "seeded R seed"] obtain es where
    es: "generate_from R ?c 0 ts (seeded R seed) = Inr es" "length es = length ts"
      "\<forall>i < length ts. generated_ok ?c i (ts ! i) (es ! i)" by auto
  have "clamp_min r \<le> max_output_tokens e \<and> max_output_tokens e \<le> clamp_max r"
    if e: "e \<in> set es" for e
  proof -
    obtain i where "i < length es" "e = es ! i" using e by (metis in_set_conv_nth)
    with es(2,3) have "length_in_range ?c e" by (simp add: generated_ok_def)
    with assms(3,4) show ?thesis by (simp add: length_in_range_def)
  qed
  then have range: "\<forall>p \<in> set (map pair_of_request es).
      clamp_min r \<le> pair_target_tokens p \<and> pair_target_tokens p \<le> clamp_max r"
    by (simp add: pair_of_request_def)
  have gen: "generate_requests R ?c None = Inr es"
    using ts(1-3) es(1) by (simp add: generate_requests_def)
  have "\<not> seed < 0" "\<not> n < 1" using assms(6,7) by simp_all
  then have "build_training_pairs R c seed n = Inr (map pair_of_request es)"
    using assms(3) by (simp only: build_training_pairs_def if_not_P not_not init and_then.simps gen if_False simp_thms)
  moreover have "int (length (map pair_of_request es)) = n" using ts(3) es(2) by simp
  ultimately show ?thesis using range by blast
qed

text \<open>
  A predictor trained on the program's own workload is fit for use: for a validated realistic
  workload, a legal seed and a positive count, building the pairs and training on them never
  raises, and every prediction of the result (for any class and prompt kind, seen in training or
  not) lies between the workload's clamps, so it is positive and a length the workload can have.
\<close>

theorem trained_predictor_in_range:
  assumes "random_laws R" and "valid_workload c" and "length_model c = REALISTIC"
    and "realistic_length c = Some r" and "arrival_process c \<noteq> BURST" and "0 \<le> seed" and "1 \<le> n"
  shows "\<exists>ps p. build_training_pairs R c seed n = Inr ps \<and> LengthPredictor_train ps = Inr p \<and>
    valid_predictor p \<and>
    (\<forall>cls kind. of_int (clamp_min r) \<le> predict p cls kind \<and> predict p cls kind \<le> of_int (clamp_max r))"
proof -
  obtain ps where ps: "build_training_pairs R c seed n = Inr ps" "int (length ps) = n"
    "\<forall>p \<in> set ps. clamp_min r \<le> pair_target_tokens p \<and> pair_target_tokens p \<le> clamp_max r"
    using build_training_pairs_ok [OF assms] by blast
  have "ps \<noteq> []" using ps(2) assms(7) by auto
  from train_ok [OF this ps(3)] valid_workload_fields(10) [OF assms(2,4)] obtain p where
    "LengthPredictor_train ps = Inr p" "valid_predictor p"
    "predicts_within (of_int (clamp_min r)) (of_int (clamp_max r)) p" by auto
  with ps(1) show ?thesis using predicts_within_predict by blast
qed

theorem trained_predictor_in_range_witness:
  "\<exists>ps p. build_training_pairs constant_source sample_workload 3 5 = Inr ps \<and>
     LengthPredictor_train ps = Inr p \<and> 16 \<le> predict p BATCH (Some ''chat'') \<and> predict p BATCH None \<le> 64"
proof -
  obtain r where r: "realistic_length sample_workload = Some r" "clamp_min r = 16" "clamp_max r = 64"
    by (simp add: sample_workload_def Let_def)
  have "length_model sample_workload = REALISTIC" "arrival_process sample_workload \<noteq> BURST"
    by (simp_all add: sample_workload_def Let_def)
  from trained_predictor_in_range [OF constant_source_laws sample_workload_valid this(1) r(1) this(2),
      of 3 5] r show ?thesis by auto
qed

section \<open>The artifact\<close>

lemma load_bucket_back:
  assumes "c \<in> range class_value" and "0 < m"
  shows "load_bucket (bucket_to_json ((c, kind), m)) = Inr ((c, kind), m)"
  using assms by (cases kind) (auto simp: bucket_to_json_def json_get_def optional_string_def)

lemma update_append: "k \<notin> fst ` set d \<Longrightarrow> AList.update k v d = d @ [(k, v)]"
  by (induction d) auto

lemma load_buckets_back:
  assumes "\<forall>((c, kind), m) \<in> set bs. c \<in> range class_value \<and> 0 < m"
    and "distinct (map fst (d @ bs))"
  shows "load_buckets (map bucket_to_json bs) d = Inr (d @ bs)"
  using assms
proof (induction bs arbitrary: d)
  case (Cons b bs)
  obtain c kind m where b: "b = ((c, kind), m)" by (cases b) auto
  have "load_bucket (bucket_to_json b) = Inr ((c, kind), m)"
    using Cons.prems(1) unfolding b by (intro load_bucket_back) auto
  moreover have "AList.update (c, kind) m d = d @ [((c, kind), m)]"
    using Cons.prems(2) by (intro update_append) (auto simp: b)
  moreover have "load_buckets (map bucket_to_json bs) (d @ [((c, kind), m)]) = Inr ((d @ [((c, kind), m)]) @ bs)"
    using Cons.prems by (intro Cons.IH) (auto simp: b)
  ultimately show ?case by (simp add: b)
qed simp

text \<open>
  The artifact keeps the predictor: for a well-formed predictor whose keys are request classes
  (what training yields), loading the serialized artifact succeeds and the loaded predictor is
  well-formed and gives the same prediction for every class and prompt kind.
\<close>

theorem artifact_roundtrip:
  assumes "valid_predictor p" and "class_keys p"
  shows "\<exists>p'. load_json (to_json p) = Inr p' \<and> valid_predictor p' \<and>
    (\<forall>c kind. predict p' c kind = predict p c kind)"
proof -
  let ?bs = "sort_key bucket_sort_key (bucket_medians p)"
  let ?p = "\<lparr>bucket_medians = ?bs, global_median = global_median p\<rparr>"
  have v: "distinct (map fst (bucket_medians p))" "0 < global_median p" "bucket_medians p \<noteq> []"
    "\<forall>(k, m) \<in> set (bucket_medians p). 0 < m"
    using assms(1) by (auto simp: valid_predictor_def)
  have set: "set ?bs = set (bucket_medians p)" by simp
  have m: "mset ?bs = mset (bucket_medians p)" by simp
  have "distinct (map fst ?bs)"
    using v(1) m by (metis distinct_map mset_map mset_eq_imp_distinct_iff)
  moreover have "\<forall>((c, kind), m) \<in> set ?bs. c \<in> range class_value \<and> 0 < m"
    using assms(2) v(4) by (fastforce simp: class_keys_def)
  ultimately have "load_buckets (map bucket_to_json ?bs) [] = Inr ?bs"
    using load_buckets_back [of ?bs "[]"] by simp
  moreover have "?bs \<noteq> []" using v(3) by (metis length_0_conv length_sort)
  ultimately have load: "load_json (to_json p) = Inr ?p"
    using v(2) by (simp add: to_json_def json_get_def LengthPredictor_init_def checked_def raise_if.simps)
  have "map_of ?bs = map_of (bucket_medians p)"
    using \<open>distinct (map fst ?bs)\<close> v(1) set by (intro map_of_inject_set [THEN iffD2]) auto
  then have "\<forall>c kind. predict ?p c kind = predict p c kind" by (simp add: predict_def split: option.split)
  moreover have "valid_predictor ?p"
    using v \<open>distinct (map fst ?bs)\<close> \<open>?bs \<noteq> []\<close> by (simp add: valid_predictor_def)
  ultimately show ?thesis using load by blast
qed

definition sample_predictor :: LengthPredictor where
  "sample_predictor = \<lparr>bucket_medians = [((''interactive'', Some ''chat''), 40), ((''batch'', None), 300)],
     global_median = 120\<rparr>"

theorem artifact_roundtrip_witness:
  "\<exists>p. load_json (to_json sample_predictor) = Inr p \<and> predict p BATCH None = 300 \<and>
     predict p INTERACTIVE None = 120"
proof -
  have "''interactive'' = class_value INTERACTIVE" "''batch'' = class_value BATCH" by simp_all
  then have "class_keys sample_predictor" by (auto simp: class_keys_def sample_predictor_def simp del: class_value.simps)
  moreover have "valid_predictor sample_predictor" by (simp add: valid_predictor_def sample_predictor_def)
  ultimately obtain p where "load_json (to_json sample_predictor) = Inr p"
    "\<forall>c kind. predict p c kind = predict sample_predictor c kind"
    using artifact_roundtrip by blast
  moreover have "predict sample_predictor BATCH None = 300" "predict sample_predictor INTERACTIVE None = 120"
    by (simp_all add: predict_def sample_predictor_def)
  ultimately show ?thesis by (intro exI [of _ p]) simp
qed

end
