(* ===== verification/Correctness.thy ===== *)
theory Correctness
  imports Benchmark
begin

text \<open>
  The correctness experiment (src/sloserve/experiments/correctness.py): one benchmark per scheduling
  policy, and from the raw records of each the facts that bound starvation. The JSON of the
  report is in ReportFiles; entering a backend and a sampler for each policy is part of the world of
  that benchmark.
\<close>

section \<open>Facts of one policy\<close>

datatype StarvationVerdict = NO_CONTENTION | WITHIN_BOUND | BOUND_EXCEEDED

fun verdict_name :: "StarvationVerdict \<Rightarrow> string" where
  "verdict_name NO_CONTENTION = ''no_contention''"
| "verdict_name WITHIN_BOUND = ''within_bound''"
| "verdict_name BOUND_EXCEEDED = ''bound_exceeded''"

record ClassWaitSummary =
  cw_request_class :: string
  cw_dispatched_count :: nat
  cw_max_queue_wait_s :: "real option"
  cw_p95_queue_wait_s :: "real option"

record PolicyCorrectness =
  pc_policy_name :: string
  pc_formal_count :: nat
  pc_terminal_count :: nat
  pc_all_terminal :: bool
  pc_dispatched_count :: nat
  pc_rejected_count :: nat
  pc_unfinished_count :: nat
  pc_max_queue_wait_s :: real
  pc_max_queue_depth :: int
  pc_observed_max_service_s :: real
  pc_aging_threshold_s :: real
  pc_bound_margin_s :: real
  pc_aging_bound_s :: real
  pc_within_aging_bound :: bool
  pc_class_waits :: "ClassWaitSummary list"
  pc_verdict :: StarvationVerdict

text \<open>
  The queue depth: every dispatched request waits in \<open>[enqueue, dispatch)\<close>; the events are sorted
  by time, departures first, and the running depth is maximised.
\<close>

definition depth_events :: "RequestRecord list \<Rightarrow> (real \<times> int) list" where
  "depth_events records = concat (map (\<lambda>r. case rec_dispatch_time_s r of
      None \<Rightarrow> [] | Some d \<Rightarrow> [(rec_enqueue_time_s r, 1), (d, - 1)]) records)"

fun peak_depth :: "(real \<times> int) list \<Rightarrow> int \<Rightarrow> int \<Rightarrow> int" where
  "peak_depth [] depth peak = peak"
| "peak_depth ((t, delta) # es) depth peak =
     peak_depth es (depth + delta) (max peak (depth + delta))"

definition max_queue_depth :: "RequestRecord list \<Rightarrow> int" where
  "max_queue_depth records =
     peak_depth (sort_key (\<lambda>e. [fst e, of_int (snd e)]) (depth_events records)) 0 0"

definition dispatched_records :: "RequestRecord list \<Rightarrow> RequestRecord list" where
  "dispatched_records records = filter (\<lambda>r. rec_dispatch_time_s r \<noteq> None) records"

definition class_wait_summary :: "RequestRecord list \<Rightarrow> RequestClass \<Rightarrow> ClassWaitSummary" where
  "class_wait_summary dispatched k =
    (let waits = sort (List.map_filter (\<lambda>r. if rec_request_class r = k
           then map_option (\<lambda>d. d - rec_arrival_time_s r) (rec_dispatch_time_s r) else None) dispatched) in
     \<lparr>cw_request_class = class_value k, cw_dispatched_count = length waits,
      cw_max_queue_wait_s = (if waits \<noteq> [] then Some (last waits) else None),
      cw_p95_queue_wait_s = nearest_rank waits (95/100)\<rparr>)"

definition verdict :: "int \<Rightarrow> bool \<Rightarrow> nat \<Rightarrow> bool \<Rightarrow> StarvationVerdict" where
  "verdict depth all_terminal unfinished_count within_aging_bound =
     (if depth < 2 then NO_CONTENTION
      else if all_terminal \<and> unfinished_count = 0 \<and> within_aging_bound then WITHIN_BOUND
      else BOUND_EXCEEDED)"

text \<open>\<open>_TERMINAL_STATUSES\<close>, and \<open>max(xs) if xs else 0.0\<close>.\<close>

definition terminal_statuses :: "DispatchStatus set" where
  "terminal_statuses = {SUCCESS, ERROR, TIMEOUT, CANCELLED, REJECTED}"

definition max_or_zero :: "real list \<Rightarrow> real" where
  "max_or_zero vs = (if vs \<noteq> [] then Max (set vs) else 0)"

definition policy_facts :: "RequestRecord list \<Rightarrow> string \<Rightarrow> real \<Rightarrow> real \<Rightarrow> PolicyCorrectness" where
  "policy_facts formal policy_name threshold_s bound_margin_s =
    (let terminal_count = length (filter (\<lambda>r. rec_status r \<in> terminal_statuses) formal);
         all_terminal = (terminal_count = length formal);
         unfinished_count = length formal - terminal_count;
         dispatched = dispatched_records formal;
         max_queue_wait_s = max_or_zero (queue_wait_values dispatched);
         services = List.map_filter (\<lambda>r. map_option (\<lambda>d. rec_completion_time_s r - d)
           (rec_dispatch_time_s r)) dispatched;
         depth = max_queue_depth formal;
         aging_bound_s = threshold_s + bound_margin_s;
         in_bound = (max_queue_wait_s \<le> aging_bound_s) in
     \<lparr>pc_policy_name = policy_name, pc_formal_count = length formal,
      pc_terminal_count = terminal_count, pc_all_terminal = all_terminal,
      pc_dispatched_count = length dispatched,
      pc_rejected_count = length (filter (\<lambda>r. rec_status r = REJECTED) formal),
      pc_unfinished_count = unfinished_count, pc_max_queue_wait_s = max_queue_wait_s,
      pc_max_queue_depth = depth, pc_observed_max_service_s = max_or_zero services,
      pc_aging_threshold_s = threshold_s, pc_bound_margin_s = bound_margin_s,
      pc_aging_bound_s = aging_bound_s, pc_within_aging_bound = in_bound,
      pc_class_waits = map (class_wait_summary dispatched) [INTERACTIVE, BATCH],
      pc_verdict = verdict depth all_terminal unfinished_count in_bound\<rparr>)"

definition analyze_policy ::
    "RequestRecord list \<Rightarrow> string \<Rightarrow> pyfloat \<Rightarrow> pyfloat \<Rightarrow> PolicyCorrectness result" where
  "analyze_policy records policy_name threshold_s bound_margin_s =
    (if \<not> isfinite threshold_s \<or> real_of threshold_s \<le> 0
     then Inl (ValueError ''aging_threshold_s must be finite and positive'')
     else if \<not> isfinite bound_margin_s \<or> real_of bound_margin_s < 0
     then Inl (ValueError ''bound_margin_s must be finite and non-negative'')
     else Inr (policy_facts records policy_name (real_of threshold_s) (real_of bound_margin_s)))"

section \<open>The experiment\<close>

record CorrectnessReport =
  cr_scope_note :: string
  cr_config_hash :: string
  cr_env_version :: string
  cr_bound_margin_s :: real
  cr_policies :: "PolicyCorrectness list"

definition with_policy :: "ExperimentConfig \<Rightarrow> SchedulerPolicyName \<Rightarrow> ExperimentConfig" where
  "with_policy c p = c\<lparr>exp_router := (exp_router c)\<lparr>router_policy := p\<rparr>\<rparr>"

definition default_policies :: "SchedulerPolicyName list" where
  "default_policies = [FCFS, STATIC_PRIORITY, SLO_AWARE]"

text \<open>
  A fresh backend is entered for each policy: \<open>worlds p\<close> is the world of the benchmark of policy
  \<open>p\<close>, and \<open>samples p\<close> what its sampler collected, if there is one.
\<close>

definition correctness_of_policy ::
    "(SchedulerPolicyName \<Rightarrow> 'g benchmark_world) \<Rightarrow> (SchedulerPolicyName \<Rightarrow> GpuSample list option) \<Rightarrow>
     ExperimentConfig \<Rightarrow> string \<Rightarrow> pyfloat \<Rightarrow> SchedulerPolicyName \<Rightarrow> PolicyCorrectness result" where
  "correctness_of_policy worlds samples c env_version bound_margin_s p =
     and_then (run_benchmark (worlds p) (with_policy c p) env_version None (samples p)
                 (''correctness-'' @ policy_value p)) (\<lambda>b.
     analyze_policy (bench_formal_records b) (policy_value p)
       (Fin (aging_threshold_s (exp_slo_aware c))) bound_margin_s)"

definition run_correctness_experiment ::
    "(SchedulerPolicyName \<Rightarrow> 'g benchmark_world) \<Rightarrow> (SchedulerPolicyName \<Rightarrow> GpuSample list option) \<Rightarrow>
     (ExperimentConfig \<Rightarrow> string) \<Rightarrow> ExperimentConfig \<Rightarrow> string \<Rightarrow> SchedulerPolicyName list \<Rightarrow> pyfloat \<Rightarrow>
     CorrectnessReport result" where
  "run_correctness_experiment worlds samples hash c env_version policies bound_margin_s =
    (if env_version = [] then Inl (ValueError ''env_version must not be empty'')
     else if \<not> isfinite bound_margin_s \<or> real_of bound_margin_s < 0
     then Inl (ValueError ''bound_margin_s must be finite and non-negative'')
     else and_then (map_result (correctness_of_policy worlds samples c env_version bound_margin_s) policies)
       (\<lambda>results. Inr
         \<lparr>cr_scope_note = ''single-GPU correctness experiment: behaviour and starvation checks, not a policy performance comparison'',
          cr_config_hash = hash c, cr_env_version = env_version,
          cr_bound_margin_s = real_of bound_margin_s, cr_policies = results\<rparr>))"

definition correctness_report_path :: "string \<Rightarrow> string" where
  "correctness_report_path dir = dir @ ''/correctness-report.json''"

section \<open>What the verdict means\<close>

text \<open>How many dispatched requests are waiting at time \<open>t\<close>.\<close>

definition waiting_at :: "RequestRecord list \<Rightarrow> real \<Rightarrow> int" where
  "waiting_at records t = int (length (filter (\<lambda>r. case rec_dispatch_time_s r of
      None \<Rightarrow> False | Some d \<Rightarrow> rec_enqueue_time_s r \<le> t \<and> t < d) records))"

definition depth_until :: "real \<Rightarrow> (real \<times> int) list \<Rightarrow> int" where
  "depth_until t es = sum_list (map snd (filter (\<lambda>e. fst e \<le> t) es))"

lemma depth_until_events:
  assumes "\<forall>r \<in> set rs. valid_record r"
  shows "depth_until t (depth_events rs) = waiting_at rs t"
  using assms
proof (induction rs)
  case (Cons r rs)
  then have IH: "depth_until t (depth_events rs) = waiting_at rs t" by simp
  show ?case
  proof (cases "rec_dispatch_time_s r")
    case None
    with IH show ?thesis by (simp add: depth_events_def waiting_at_def)
  next
    case (Some d)
    then have "rec_enqueue_time_s r \<le> d" using valid_record_times(4) Cons.prems by simp
    with Some IH show ?thesis
      by (auto simp: depth_events_def waiting_at_def depth_until_def)
  qed
qed (simp add: depth_events_def waiting_at_def depth_until_def)

lemma depth_until_mset: "mset es = mset es' \<Longrightarrow> depth_until t es = depth_until t es'"
proof -
  assume "mset es = mset es'"
  then have "mset (map snd (filter (\<lambda>e. fst e \<le> t) es)) = mset (map snd (filter (\<lambda>e. fst e \<le> t) es'))"
    by simp
  then show ?thesis unfolding depth_until_def by (metis sum_mset_sum_list)
qed

lemma peak_depth_ge: "p \<le> peak_depth es d p"
  by (induction es d p rule: peak_depth.induct) (auto intro: order_trans)

lemma peak_depth_until:
  assumes "sorted (map fst es)"
  shows "d + depth_until t es \<le> max d (peak_depth es d p)"
  using assms
proof (induction es arbitrary: d p)
  case (Cons e es)
  obtain u x where e: "e = (u, x)" by (cases e) auto
  show ?case
  proof (cases "u \<le> t")
    case True
    have "d + x \<le> peak_depth es (d + x) (max p (d + x))"
      using peak_depth_ge [of "max p (d + x)"] by (meson max.bounded_iff)
    moreover have "d + x + depth_until t es \<le> max (d + x) (peak_depth es (d + x) (max p (d + x)))"
      using Cons by simp
    ultimately show ?thesis using True by (simp add: e depth_until_def)
  next
    case False
    then have "filter (\<lambda>e. fst e \<le> t) es = []" using Cons.prems by (auto simp: e filter_empty_conv)
    with False show ?thesis by (simp add: e depth_until_def)
  qed
qed (simp add: depth_until_def)

lemma peak_depth_attained:
  "peak_depth es d p = p \<or> (\<exists>k \<le> length es. peak_depth es d p = d + sum_list (map snd (take k es)))"
proof (induction es d p rule: peak_depth.induct)
  case (2 t x es d p)
  let ?m = "max p (d + x)"
  consider "peak_depth es (d + x) ?m = ?m"
    | k where "k \<le> length es" "peak_depth es (d + x) ?m = d + x + sum_list (map snd (take k es))"
    using 2 by blast
  then show ?case
  proof cases
    case 1
    then show ?thesis
      by (cases "p \<le> d + x") (auto intro!: exI [of _ "Suc 0"] simp: max_def)
  next
    case (2 k)
    then show ?thesis by (intro disjI2 exI [of _ "Suc k"]) simp
  qed
qed simp

lemma sum_list_positive: "\<forall>x \<in> set xs. 0 \<le> (x :: int) \<Longrightarrow> 0 \<le> sum_list xs"
  by (induction xs) auto

text \<open>
  With departures before arrivals at equal times, every running depth is bounded by the number
  waiting at some time.
\<close>

text \<open>Right after an arrival, the depth at its time is at least that of the prefix it ends.\<close>

lemma prefix_depth_at_arrival:
  assumes le: "\<And>i j. i \<le> j \<Longrightarrow> j < length es \<Longrightarrow>
      fst (es ! i) < fst (es ! j) \<or> fst (es ! i) = fst (es ! j) \<and> snd (es ! i) \<le> snd (es ! j)"
    and k: "k < length es" and up: "snd (es ! k) = 1"
  shows "sum_list (map snd (take (Suc k) es)) \<le> depth_until (fst (es ! k)) es"
proof -
  let ?t = "fst (es ! k)"
  have "fst e \<le> ?t" if e: "e \<in> set (take (Suc k) es)" for e
  proof -
    obtain i where "i < Suc k" "e = es ! i" using e k by (auto simp: in_set_conv_nth)
    with le [of i k] k show ?thesis by auto
  qed
  then have "filter (\<lambda>e. fst e \<le> ?t) (take (Suc k) es) = take (Suc k) es" by simp
  then have "depth_until ?t es = sum_list (map snd (take (Suc k) es))
      + sum_list (map snd (filter (\<lambda>e. fst e \<le> ?t) (drop (Suc k) es)))"
    unfolding depth_until_def by (metis append_take_drop_id filter_append map_append sum_list.append)
  moreover have "0 \<le> snd e" if e: "e \<in> set (filter (\<lambda>e. fst e \<le> ?t) (drop (Suc k) es))" for e
  proof -
    obtain j where "j < length es - Suc k" "e = es ! (Suc k + j)" "fst e \<le> ?t"
      using e by (auto simp: in_set_conv_nth)
    moreover from this have "Suc k + j < length es" by simp
    ultimately show ?thesis using le [of k "Suc k + j"] up by auto
  qed
  then have "0 \<le> sum_list (map snd (filter (\<lambda>e. fst e \<le> ?t) (drop (Suc k) es)))"
    by (intro sum_list_positive) auto
  ultimately show ?thesis by simp
qed

lemma prefix_depth_bound:
  assumes "sorted (map (\<lambda>e. [fst e, of_int (snd e)]) es)" and "\<forall>e \<in> set es. snd e = 1 \<or> snd e = - 1"
    and "k \<le> length es"
  shows "sum_list (map snd (take k es)) \<le> 0 \<or> (\<exists>t. sum_list (map snd (take k es)) \<le> depth_until t es)"
  using assms(3)
proof (induction k)
  case (Suc k)
  then have k: "k < length es" by simp
  have tk: "take (Suc k) es = take k es @ [es ! k]" using k by (simp add: take_Suc_conv_app_nth)
  have le: "fst (es ! i) < fst (es ! j) \<or> fst (es ! i) = fst (es ! j) \<and> snd (es ! i) \<le> snd (es ! j)"
    if "i \<le> j" "j < length es" for i j
  proof -
    have "[fst (es ! i), real_of_int (snd (es ! i))] \<le> [fst (es ! j), of_int (snd (es ! j))]"
      using sorted_nth_mono [OF assms(1), of i j] that by simp
    then show ?thesis by auto
  qed
  have "snd (es ! k) = 1 \<or> snd (es ! k) = - 1" using assms(2) k by simp
  then show ?case
  proof
    assume down: "snd (es ! k) = - 1"
    have sum: "sum_list (map snd (take (Suc k) es)) = sum_list (map snd (take k es)) - 1"
      using down by (simp add: tk)
    from Suc.IH k have "sum_list (map snd (take k es)) \<le> 0 \<or>
      (\<exists>t. sum_list (map snd (take k es)) \<le> depth_until t es)" by simp
    then show ?thesis
    proof
      assume "\<exists>t. sum_list (map snd (take k es)) \<le> depth_until t es"
      then obtain t where "sum_list (map snd (take k es)) \<le> depth_until t es" ..
      then show ?thesis unfolding sum by (intro disjI2 exI [of _ t]) simp
    qed (simp add: sum)
  next
    assume up: "snd (es ! k) = 1"
    from prefix_depth_at_arrival [OF le k up] show ?thesis by blast
  qed
qed simp

lemma max_queue_depth_exact:
  assumes "\<forall>r \<in> set rs. valid_record r"
  shows "waiting_at rs t \<le> max_queue_depth rs"
    and "max_queue_depth rs = 0 \<or> (\<exists>t. waiting_at rs t = max_queue_depth rs)"
proof -
  let ?key = "\<lambda>e. [fst e, real_of_int (snd e)]"
  let ?es = "sort_key ?key (depth_events rs)"
  have sorted: "sorted (map ?key ?es)" by simp
  have "fst a \<le> fst b" if "?key a \<le> ?key b" for a b :: "real \<times> int" using that by auto
  then have times: "sorted (map fst ?es)"
    using sorted by (auto simp: sorted_iff_nth_mono)
  have count: "depth_until u ?es = waiting_at rs u" for u
    using depth_until_mset [of ?es "depth_events rs" u] depth_until_events [OF assms] by simp
  have unit: "\<forall>e \<in> set ?es. snd e = 1 \<or> snd e = - 1"
    by (auto simp: depth_events_def split: option.splits)
  have peak: "max_queue_depth rs = peak_depth ?es 0 0" by (simp add: max_queue_depth_def)
  have pos: "0 \<le> max_queue_depth rs" using peak_depth_ge [of 0 ?es 0] by (simp add: peak)
  have ge: "waiting_at rs u \<le> max_queue_depth rs" for u
    using peak_depth_until [OF times, of 0 u 0] pos by (simp add: peak count)
  then show "waiting_at rs t \<le> max_queue_depth rs" .
  show "max_queue_depth rs = 0 \<or> (\<exists>t. waiting_at rs t = max_queue_depth rs)"
  proof (cases "max_queue_depth rs = 0")
    case False
    then obtain k where k: "k \<le> length ?es" "max_queue_depth rs = sum_list (map snd (take k ?es))"
      using peak_depth_attained [of ?es 0 0] by (auto simp: peak)
    then obtain u where "max_queue_depth rs \<le> waiting_at rs u"
      using prefix_depth_bound [OF sorted unit k(1)] False pos count by fastforce
    with ge [of u] show ?thesis by (intro disjI2 exI [of _ u]) simp
  qed simp
qed

lemma queue_waits_dispatched:
  "set (queue_wait_values (dispatched_records rs))
   = {d - rec_arrival_time_s r | r d. r \<in> set rs \<and> rec_dispatch_time_s r = Some d}"
  by (force simp: queue_wait_values_def dispatched_records_def map_filter_mem)

lemma max_or_zero_le: "0 \<le> b \<Longrightarrow> max_or_zero vs \<le> b \<longleftrightarrow> (\<forall>v \<in> set vs. v \<le> b)"
  by (auto simp: max_or_zero_def)

lemma verdict_of_facts:
  assumes "0 < threshold" and "0 \<le> margin"
  shows "pc_verdict (policy_facts rs name threshold margin) = verdict (max_queue_depth rs) True 0
    (\<forall>r \<in> set rs. \<forall>d. rec_dispatch_time_s r = Some d \<longrightarrow> d - rec_arrival_time_s r \<le> threshold + margin)"
proof -
  have terminal: "filter (\<lambda>r. rec_status r \<in> terminal_statuses) rs = rs"
    by (rule filter_True) (metis DispatchStatus.exhaust insertCI terminal_statuses_def)
  have "max_or_zero (queue_wait_values (dispatched_records rs)) \<le> threshold + margin \<longleftrightarrow>
      (\<forall>r \<in> set rs. \<forall>d. rec_dispatch_time_s r = Some d \<longrightarrow> d - rec_arrival_time_s r \<le> threshold + margin)"
    using assms by (subst max_or_zero_le) (auto simp: queue_waits_dispatched)
  then show ?thesis by (simp add: policy_facts_def terminal Let_def)
qed

text \<open>
  C30. The starvation verdict says what it seems to say about dispatched requests: on validated
  records with a positive aging threshold and a non-negative margin the analysis never raises; the
  verdict is \<open>NO_CONTENTION\<close> exactly when at no time two dispatched requests were waiting together;
  and it is \<open>WITHIN_BOUND\<close> exactly when there was such a time and every dispatched request was
  dispatched within the threshold plus the margin of its arrival. The event sweep computes the true
  maximum over all times, not only over the recorded ones.
\<close>

theorem starvation_verdict_meaning:
  assumes "\<forall>r \<in> set rs. valid_record r" and "0 < threshold" and "0 \<le> margin"
  shows "\<exists>pc. analyze_policy rs name (Fin threshold) (Fin margin) = Inr pc \<and>
    (pc_verdict pc = NO_CONTENTION \<longleftrightarrow> (\<forall>t. waiting_at rs t < 2)) \<and>
    (pc_verdict pc = WITHIN_BOUND \<longleftrightarrow> (\<exists>t. 2 \<le> waiting_at rs t) \<and>
       (\<forall>r \<in> set rs. \<forall>d. rec_dispatch_time_s r = Some d \<longrightarrow> d - rec_arrival_time_s r \<le> threshold + margin))"
proof -
  let ?pc = "policy_facts rs name threshold margin"
  have "max_queue_depth rs < 2 \<longleftrightarrow> (\<forall>t. waiting_at rs t < 2)"
    using max_queue_depth_exact [OF assms(1)] by (metis not_less_iff_gr_or_eq order.strict_trans1 zero_less_numeral)
  then show ?thesis
    using assms(2,3) verdict_of_facts [OF assms(2,3), of rs name]
    by (intro exI [of _ ?pc]) (auto simp: analyze_policy_def verdict_def not_le)
qed

lemma two_waiting: "waiting_at (sample_record 0 SUCCESS # sample_record 0 SUCCESS # rs) 0 = 2 + waiting_at rs 0"
  by (simp add: waiting_at_def sample_record_def)

theorem starvation_verdict_meaning_witness:
  "\<exists>pc. analyze_policy [sample_record 0 SUCCESS, sample_record 0 SUCCESS] ''fcfs'' (Fin 5) (Fin 2) = Inr pc \<and>
    pc_verdict pc = WITHIN_BOUND"
proof -
  have v: "\<forall>r \<in> set [sample_record 0 SUCCESS, sample_record 0 SUCCESS]. valid_record r"
    by (simp add: sample_record_valid)
  have "2 \<le> waiting_at [sample_record 0 SUCCESS, sample_record 0 SUCCESS] 0"
    by (simp add: two_waiting) (simp add: waiting_at_def)
  moreover have "\<forall>r \<in> set [sample_record 0 SUCCESS, sample_record 0 SUCCESS]. \<forall>d. rec_dispatch_time_s r = Some d \<longrightarrow>
      d - rec_arrival_time_s r \<le> 5 + 2" by (simp add: sample_record_def)
  ultimately show ?thesis using starvation_verdict_meaning [OF v, of 5 2 "''fcfs''"] by auto
qed

text \<open>A request that waited from time 0 to \<open>w\<close> and was never dispatched.\<close>

definition starved_record :: "real \<Rightarrow> RequestRecord" where
  "starved_record w = (sample_record 0 TIMEOUT)\<lparr>rec_dispatch_time_s := None, rec_first_token_time_s := None,
     rec_completion_time_s := w, rec_error_type := Some ''late''\<rparr>"

lemma starved_record_valid: "0 \<le> w \<Longrightarrow> valid_record (starved_record w)"
proof -
  assume "0 \<le> w"
  moreover have "is_sha256 (replicate 64 CHR ''a'')" by (simp add: is_sha256_def list_all_iff)
  ultimately show ?thesis
    by (simp add: valid_record_def RequestRecord_init_def checked_def raise_if.simps Let_def
        identity_guards_def finite_guards_def timeline_guards_def sample_record_def starved_record_def map_times_def)
qed



end
