(* ===== verification/Dispatcher.thy ===== *)
theory Dispatcher
  imports PolicyProperties Admission
begin

text \<open>
  The open-loop dispatcher (src/sloserve/workload/dispatcher.py): requests are launched in policy
  order at their relative arrival times, at most \<open>max_in_flight\<close> at once, and the results come back
  sorted by sequence number.

  The coroutine \<open>run\<close> and the tasks it creates interleave at their \<open>await\<close>s; each step below is the
  code between two of them. A task is known by its position in \<open>tasks\<close>; its result is absent while
  it runs. The semaphore is its counter.
\<close>

section \<open>State and steps\<close>

record DispatchResult =
  dr_request_id :: string
  dr_sequence_id :: int
  dr_status :: DispatchStatus
  dr_error_message :: "string option"

record AsyncDispatcher =
  dispatch_limit :: int
  dispatch_timeout_s :: real
  dispatch_policy :: SchedulingPolicy

definition AsyncDispatcher_init ::
    "RouterConfig \<Rightarrow> BackendConfig \<Rightarrow> SchedulingPolicy option \<Rightarrow> AsyncDispatcher result" where
  "AsyncDispatcher_init router backend policy =
     and_then
       (case policy of
          Some p \<Rightarrow> Inr p
        | None \<Rightarrow>
            if router_policy router \<noteq> FCFS
            then Inl (NotImplementedError
                        (policy_value (router_policy router) @ '' dispatch is outside Week 1 step 4''))
            else Inr FcfsPolicy) (\<lambda>p.
     Inr \<lparr>dispatch_limit = max_in_flight router, dispatch_timeout_s = request_timeout_s backend,
          dispatch_policy = p\<rparr>)"

record DispatchRun =
  run_start_s :: real
  pending :: "RequestEnvelope list"
  head_waited :: bool
  permits :: int
  launched :: "(RequestEnvelope \<times> DispatchResult option) list"

text \<open>The loop's preamble: one clock reading, which is also the \<open>now\<close> of the ordering.\<close>

definition dispatch_begin :: "AsyncDispatcher \<Rightarrow> RequestEnvelope list \<Rightarrow> real \<Rightarrow> DispatchRun result" where
  "dispatch_begin d requests start_s =
     and_then (order (dispatch_policy d) requests start_s) (\<lambda>ordered.
       Inr \<lparr>run_start_s = start_s, pending = ordered, head_waited = False,
            permits = dispatch_limit d, launched = []\<rparr>)"

text \<open>What the loop sleeps before the next launch, if anything.\<close>

definition launch_delay :: "DispatchRun \<Rightarrow> real \<Rightarrow> real option" where
  "launch_delay s now_s =
     (case pending s of
        [] \<Rightarrow> None
      | r # _ \<Rightarrow> (let delay_s = arrival_time_s r - (now_s - run_start_s s) in
                  if delay_s > 0 then Some delay_s else None))"

definition wait_over :: "DispatchRun \<Rightarrow> DispatchRun" where
  "wait_over s = s\<lparr>head_waited := True\<rparr>"

text \<open>The semaphore is acquired and the task is created.\<close>

definition launch_next :: "DispatchRun \<Rightarrow> DispatchRun" where
  "launch_next s = s\<lparr>pending := tl (pending s), head_waited := False, permits := permits s - 1,
     launched := launched s @ [(hd (pending s), None)]\<rparr>"

text \<open>How the awaited call of a task ends, a timeout of \<open>asyncio.timeout\<close> included.\<close>

datatype send_end = SendReturns | SendTimesOut | SendCancelled | SendRaises string

definition dispatch_result :: "RequestEnvelope \<Rightarrow> DispatchStatus \<Rightarrow> string option \<Rightarrow> DispatchResult" where
  "dispatch_result r status message =
     \<lparr>dr_request_id = request_id r, dr_sequence_id = sequence_id r, dr_status = status,
      dr_error_message = message\<rparr>"

fun dispatch_one :: "RequestEnvelope \<Rightarrow> send_end \<Rightarrow> DispatchResult" where
  "dispatch_one r SendReturns = dispatch_result r SUCCESS None"
| "dispatch_one r SendTimesOut = dispatch_result r TIMEOUT None"
| "dispatch_one r SendCancelled = dispatch_result r CANCELLED None"
| "dispatch_one r (SendRaises m) = dispatch_result r ERROR (Some m)"

definition task_ends :: "nat \<Rightarrow> send_end \<Rightarrow> DispatchRun \<Rightarrow> DispatchRun" where
  "task_ends i ending s =
     (let r = fst (launched s ! i) in
      s\<lparr>permits := permits s + 1, launched := (launched s)[i := (r, Some (dispatch_one r ending))]\<rparr>)"

text \<open>\<open>gather\<close> returns when the loop is over and every task has its result.\<close>

definition dispatch_results :: "DispatchRun \<Rightarrow> DispatchResult list option" where
  "dispatch_results s =
     (if pending s = [] \<and> list_all (\<lambda>(r, x). x \<noteq> None) (launched s)
      then Some (sort_key dr_sequence_id (map (\<lambda>(r, x). the x) (launched s))) else None)"

text \<open>
  Cancellation of the caller: every running task is cancelled and awaited, each gives its permit back
  in its \<open>finally\<close>, and the cancellation is raised again, so there are no results.
\<close>

definition running :: "DispatchRun \<Rightarrow> nat" where
  "running s = length (filter (\<lambda>(r, x). x = None) (launched s))"

definition dispatch_cancelled :: "DispatchRun \<Rightarrow> DispatchRun" where
  "dispatch_cancelled s = s\<lparr>permits := permits s + int (running s),
     launched := filter (\<lambda>(r, x). x \<noteq> None) (launched s)\<rparr>"

datatype dispatch_event = WaitOver | Launch | TaskEnds nat send_end

fun dispatch_enabled :: "DispatchRun \<Rightarrow> dispatch_event \<Rightarrow> bool" where
  "dispatch_enabled s WaitOver = (pending s \<noteq> [] \<and> \<not> head_waited s)"
| "dispatch_enabled s Launch = (pending s \<noteq> [] \<and> head_waited s \<and> 0 < permits s)"
| "dispatch_enabled s (TaskEnds i ending) = (i < length (launched s) \<and> snd (launched s ! i) = None)"

fun dispatch_step :: "dispatch_event \<Rightarrow> DispatchRun \<Rightarrow> DispatchRun" where
  "dispatch_step WaitOver s = wait_over s"
| "dispatch_step Launch s = launch_next s"
| "dispatch_step (TaskEnds i ending) s = task_ends i ending s"

inductive dispatch_reach :: "DispatchRun \<Rightarrow> nat \<Rightarrow> DispatchRun \<Rightarrow> bool" for s0 where
  reach_start: "dispatch_reach s0 0 s0"
| reach_step: "dispatch_reach s0 n s \<Longrightarrow> dispatch_enabled s ev \<Longrightarrow>
    dispatch_reach s0 (Suc n) (dispatch_step ev s)"

section \<open>Every request, once, within the limit\<close>

definition task_sound :: "RequestEnvelope \<times> DispatchResult option \<Rightarrow> bool" where
  "task_sound t \<longleftrightarrow> (\<forall>x. snd t = Some x \<longrightarrow> (\<exists>ending. x = dispatch_one (fst t) ending))"

definition dispatch_inv :: "AsyncDispatcher \<Rightarrow> RequestEnvelope list \<Rightarrow> DispatchRun \<Rightarrow> bool" where
  "dispatch_inv d ordered s \<longleftrightarrow>
     map fst (launched s) @ pending s = ordered \<and> permits s + int (running s) = dispatch_limit d \<and>
     0 \<le> permits s \<and> (\<forall>t \<in> set (launched s). task_sound t) \<and> (head_waited s \<longrightarrow> pending s \<noteq> [])"

definition work_left :: "DispatchRun \<Rightarrow> nat" where
  "work_left s = 3 * length (pending s) - (if head_waited s then 1 else 0) + running s"

lemma running_update:
  assumes "i < length ts" and "snd (ts ! i) = None" and "x \<noteq> None"
  shows "Suc (length (filter (\<lambda>(r, y). y = None) (ts[i := (r, x)]))) = length (filter (\<lambda>(r, y). y = None) ts)"
  using assms
proof (induction ts arbitrary: i)
  case (Cons t ts)
  then show ?case by (cases i; cases t) auto
qed simp

lemma dispatch_step_inv:
  assumes "dispatch_inv d ordered s" and "dispatch_enabled s ev"
  shows "dispatch_inv d ordered (dispatch_step ev s)" and "work_left (dispatch_step ev s) < work_left s"
proof -
  have "dispatch_inv d ordered (dispatch_step ev s) \<and> work_left (dispatch_step ev s) < work_left s"
  proof (cases ev)
    case WaitOver
    with assms show ?thesis
      by (cases "pending s") (auto simp: dispatch_inv_def wait_over_def running_def work_left_def)
  next
    case Launch
    with assms show ?thesis
      by (cases "pending s") (auto simp: dispatch_inv_def launch_next_def running_def work_left_def task_sound_def)
  next
    case (TaskEnds i ending)
    obtain r where r: "launched s ! i = (r, None)" "i < length (launched s)"
      using assms(2) TaskEnds by (cases "launched s ! i") auto
    let ?ts = "(launched s)[i := (r, Some (dispatch_one r ending))]"
    have one: "Suc (length (filter (\<lambda>(r, y). y = None) ?ts)) = running s"
      using r running_update [of i "launched s"] by (simp add: running_def)
    have "map fst ?ts = map fst (launched s)"
      using r by (intro nth_equalityI) (auto simp: nth_list_update)
    moreover have "\<forall>t \<in> set ?ts. task_sound t"
      using assms(1) set_update_subset_insert [of "launched s" i] unfolding dispatch_inv_def task_sound_def
      by fastforce
    ultimately show ?thesis
      using assms(1) one r by (auto simp: TaskEnds dispatch_inv_def task_ends_def running_def work_left_def Let_def)
  qed
  then show "dispatch_inv d ordered (dispatch_step ev s)" "work_left (dispatch_step ev s) < work_left s"
    by simp_all
qed

lemma dispatch_reach_inv:
  assumes "dispatch_reach s0 n s" and "dispatch_inv d ordered s0"
  shows "dispatch_inv d ordered s \<and> n + work_left s \<le> work_left s0"
  using assms(1)
proof induction
  case (reach_step n s ev)
  then show ?case using dispatch_step_inv [of d ordered s ev] by fastforce
qed (use assms(2) in simp)

lemma dispatch_progress:
  assumes "dispatch_inv d ordered s" and "1 \<le> dispatch_limit d" and "\<nexists>ev. dispatch_enabled s ev"
  shows "pending s = []" and "list_all (\<lambda>(r, x). x \<noteq> None) (launched s)"
proof -
  have finished: "x \<noteq> None" if t: "(r, x) \<in> set (launched s)" for r x
  proof -
    obtain i where "i < length (launched s)" "launched s ! i = (r, x)" using t by (auto simp: in_set_conv_nth)
    moreover have "\<not> dispatch_enabled s (TaskEnds i SendReturns)" using assms(3) by blast
    ultimately show ?thesis by auto
  qed
  then show "list_all (\<lambda>(r, x). x \<noteq> None) (launched s)" by (auto simp: list_all_iff)
  have "filter (\<lambda>(r, x). x = None) (launched s) = []" using finished by (auto simp: filter_empty_conv)
  then have "permits s = dispatch_limit d" using assms(1) by (simp add: dispatch_inv_def running_def)
  then show "pending s = []"
    using assms(2) assms(3) [simplified, THEN spec, of WaitOver] assms(3) [simplified, THEN spec, of Launch]
    by auto
qed

lemma cancelled_frees_all: "dispatch_inv d ordered s \<Longrightarrow> permits (dispatch_cancelled s) = dispatch_limit d \<and>
    running (dispatch_cancelled s) = 0"
  by (auto simp: dispatch_inv_def dispatch_cancelled_def running_def filter_empty_conv)

text \<open>
  C28. The dispatcher sends everything, in order, within its limit, and comes to an end. For a
  validated policy and a positive limit, ordering never raises; in every state the interleaving of
  the loop and its tasks can reach, at most \<open>max_in_flight\<close> tasks run, the semaphore counts exactly
  the free places, and what was launched is a prefix of the policy's order; no interleaving is
  longer than three steps per request; and a state with nothing left to do has a result for
  every request: the results are those of the tasks, one per request, sorted by sequence number.
\<close>

theorem dispatcher_completes:
  assumes "valid_policy (dispatch_policy d)" and "1 \<le> dispatch_limit d"
  shows "\<exists>s0. dispatch_begin d requests start_s = Inr s0 \<and> mset (pending s0) = mset requests \<and>
    (\<forall>n s. dispatch_reach s0 n s \<longrightarrow>
      n \<le> 3 * length requests \<and> 0 \<le> permits s \<and> permits s + int (running s) = dispatch_limit d \<and>
      map fst (launched s) @ pending s = pending s0 \<and>
      ((\<nexists>ev. dispatch_enabled s ev) \<longrightarrow> (\<exists>rs. dispatch_results s = Some rs \<and>
         sorted (map dr_sequence_id rs) \<and>
         mset (map (\<lambda>x. (dr_request_id x, dr_sequence_id x)) rs)
           = mset (map (\<lambda>r. (request_id r, sequence_id r)) requests))))"
proof -
  let ?ordered = "sort_key (policy_rank (dispatch_policy d) requests start_s) requests"
  define s0 where "s0 = \<lparr>run_start_s = start_s, pending = ?ordered, head_waited = False,
    permits = dispatch_limit d, launched = []\<rparr>"
  have b: "dispatch_begin d requests start_s = Inr s0"
    using order_spec [OF assms(1)] by (simp add: dispatch_begin_def s0_def)
  have i0: "dispatch_inv d ?ordered s0" using assms(2) by (simp add: dispatch_inv_def s0_def running_def)
  have w0: "work_left s0 \<le> 3 * length requests" by (simp add: work_left_def s0_def running_def)
  have results: "\<exists>rs. dispatch_results s = Some rs \<and> sorted (map dr_sequence_id rs) \<and>
      mset (map (\<lambda>x. (dr_request_id x, dr_sequence_id x)) rs) = mset (map (\<lambda>r. (request_id r, sequence_id r)) requests)"
    if i: "dispatch_inv d ?ordered s" and stuck: "\<nexists>ev. dispatch_enabled s ev" for s
  proof -
    note fin = dispatch_progress [OF i assms(2) stuck]
    have "(dr_request_id x, dr_sequence_id x) = (request_id r, sequence_id r)"
      if t: "(r, Some x) \<in> set (launched s)" for r x
    proof -
      have "task_sound (r, Some x)" using i t by (simp add: dispatch_inv_def)
      then obtain ending where "x = dispatch_one r ending" by (auto simp: task_sound_def)
      then show ?thesis by (cases ending) (simp_all add: dispatch_result_def)
    qed
    then have "map (\<lambda>x. (dr_request_id x, dr_sequence_id x)) (map (\<lambda>(r, x). the x) (launched s))
        = map (\<lambda>r. (request_id r, sequence_id r)) (map fst (launched s))"
      using fin(2) by (fastforce simp: list_all_iff)
    moreover have "map fst (launched s) = ?ordered" using i fin(1) by (simp add: dispatch_inv_def)
    ultimately have "mset (map (\<lambda>x. (dr_request_id x, dr_sequence_id x)) (map (\<lambda>(r, x). the x) (launched s)))
        = mset (map (\<lambda>r. (request_id r, sequence_id r)) requests)" by simp
    then show ?thesis using fin by (simp add: dispatch_results_def del: mset_map map_map) (simp only: mset_map mset_sort)
  qed
  have "mset (pending s0) = mset requests" by (simp add: s0_def)
  moreover have "pending s0 = ?ordered" by (simp add: s0_def)
  ultimately show ?thesis
    using b w0 results dispatch_reach_inv [OF _ i0]
    by (intro exI [of _ s0]) (fastforce simp: dispatch_inv_def)
qed

theorem dispatcher_completes_witness:
  "\<exists>s0. dispatch_begin \<lparr>dispatch_limit = 1, dispatch_timeout_s = 10, dispatch_policy = FcfsPolicy\<rparr>
      [sample_request 1 BATCH 5 9, sample_request 0 BATCH 2 9] 0 = Inr s0 \<and>
    (\<forall>n s. dispatch_reach s0 n s \<longrightarrow> n \<le> 6 \<and> running s \<le> 1)"
  using dispatcher_completes [of "\<lparr>dispatch_limit = 1, dispatch_timeout_s = 10, dispatch_policy = FcfsPolicy\<rparr>"
      "[sample_request 1 BATCH 5 9, sample_request 0 BATCH 2 9]" 0] by fastforce

end
