(* ===== verification/Figures.thy ===== *)
theory Figures
  imports Records
begin

text \<open>
  What the sweep figures show (src/sloserve/analysis/plot_results.py): the curves computed from the
  rows of a sweep. A figure is the list of its curves; drawing and saving it are the plotting library's.
  A row is a mapping from columns to values, read from CSV or in memory. The dash in the labels of the
  attainment figure is an ASCII hyphen here.
\<close>

section \<open>Rows\<close>

type_synonym plot_row = "(string \<times> json) list"

text \<open>A CSV file as its header and rows, or \<open>None\<close> when it has no line. \<open>DictReader\<close> skips empty rows,
  and a repeated column keeps its last cell, which is why the cells are looked up from the right.\<close>

definition read_sweep_results_csv :: "(string list \<times> string list list) option \<Rightarrow> plot_row list result" where
  "read_sweep_results_csv file =
     (case file of
        None \<Rightarrow> Inl (ValueError ''sweep results CSV has no header'')
      | Some (header, rows) \<Rightarrow>
          Inr (map (\<lambda>cells. rev (zip header (map JString cells @ replicate (length header - length cells) JNull)))
            (filter (\<lambda>cells. cells \<noteq> []) rows)))"

definition row_value :: "plot_row \<Rightarrow> string \<Rightarrow> json" where
  "row_value row column = (case map_of row column of None \<Rightarrow> JNull | Some v \<Rightarrow> v)"

definition plot_number :: "conversions \<Rightarrow> plot_row \<Rightarrow> string \<Rightarrow> pyfloat option result" where
  "plot_number conv row column =
     (let v = row_value row column in
      if unset v then Inr None
      else case py_float conv v of
          Inl e \<Rightarrow> Inl (ValueError (''invalid numeric value for '' @ column))
        | Inr x \<Rightarrow> Inr (Some x))"

definition plot_policies :: "conversions \<Rightarrow> plot_row list \<Rightarrow> string list result" where
  "plot_policies conv rows =
     (let policies = set (map (\<lambda>row. py_str conv (row_value row ''policy''))
            (filter (\<lambda>row. \<not> unset (row_value row ''policy'')) rows)) in
      if policies = {} then Inl (ValueError ''sweep results contain no policy values'')
      else Inr (sorted_list_of_set policies))"

section \<open>Curves\<close>

text \<open>\<open>pairs.sort()\<close>: tuples compare at the first component that differs; a stable insertion
  sort, which gives the same list as any stable sort unless a coordinate is NaN.\<close>

definition pair_less :: "pyfloat \<times> pyfloat \<Rightarrow> pyfloat \<times> pyfloat \<Rightarrow> bool" where
  "pair_less p q = (if fst p = fst q \<and> fst p \<noteq> NaN then pf_less (snd p) (snd q) else pf_less (fst p) (fst q))"

fun insert_pair :: "pyfloat \<times> pyfloat \<Rightarrow> (pyfloat \<times> pyfloat) list \<Rightarrow> (pyfloat \<times> pyfloat) list" where
  "insert_pair p [] = [p]"
| "insert_pair p (q # qs) = (if pair_less p q then p # q # qs else q # insert_pair p qs)"

definition sort_pairs :: "(pyfloat \<times> pyfloat) list \<Rightarrow> (pyfloat \<times> pyfloat) list" where
  "sort_pairs ps = fold insert_pair ps []"

text \<open>One pass of the loop over the rows.\<close>

definition add_point ::
    "conversions \<Rightarrow> string \<Rightarrow> string \<Rightarrow> string \<Rightarrow> plot_row \<Rightarrow> (pyfloat \<times> pyfloat) list \<Rightarrow> (pyfloat \<times> pyfloat) list result" where
  "add_point conv policy x_column y_column row pairs =
     (if py_str conv (row_value row ''policy'') \<noteq> policy then Inr pairs
      else and_then (plot_number conv row x_column) (\<lambda>x_value.
           and_then (plot_number conv row y_column) (\<lambda>y_value.
           case (x_value, y_value) of
             (Some x, Some y) \<Rightarrow> Inr (pairs @ [(x, y)])
           | _ \<Rightarrow> Inr pairs)))"

definition xy_for_policy ::
    "conversions \<Rightarrow> plot_row list \<Rightarrow> string \<Rightarrow> string \<Rightarrow> string \<Rightarrow> (pyfloat list \<times> pyfloat list) result" where
  "xy_for_policy conv rows policy x_column y_column =
     and_then (fold_result (add_point conv policy x_column y_column) rows []) (\<lambda>pairs.
     Inr (map fst (sort_pairs pairs), map snd (sort_pairs pairs)))"

record Curve =
  curve_label :: string
  curve_x :: "pyfloat list"
  curve_y :: "pyfloat list"

definition curve :: "conversions \<Rightarrow> plot_row list \<Rightarrow> string \<Rightarrow> string \<times> string \<times> string \<Rightarrow> Curve list result" where
  "curve conv rows label = (\<lambda>(policy, x_column, y_column).
     and_then (xy_for_policy conv rows policy x_column y_column) (\<lambda>(xs, ys).
     Inr (if xs = [] then [] else [\<lparr>curve_label = label, curve_x = xs, curve_y = ys\<rparr>])))"

definition one_curve_per_policy :: "conversions \<Rightarrow> plot_row list \<Rightarrow> string \<Rightarrow> string \<Rightarrow> Curve list result" where
  "one_curve_per_policy conv rows x_column y_column =
     and_then (plot_policies conv rows) (\<lambda>policies.
     and_then (map_result (\<lambda>policy. curve conv rows policy (policy, x_column, y_column)) policies) (\<lambda>cs.
     Inr (concat cs)))"

definition plot_throughput_latency :: "conversions \<Rightarrow> plot_row list \<Rightarrow> Curve list result" where
  "plot_throughput_latency conv rows =
     one_curve_per_policy conv rows ''token_throughput_per_s'' ''end_to_end_p99_s''"

definition plot_rate_p99 :: "conversions \<Rightarrow> plot_row list \<Rightarrow> Curve list result" where
  "plot_rate_p99 conv rows = one_curve_per_policy conv rows ''request_rate_rps'' ''end_to_end_p99_s''"

definition rate_columns :: "(string \<times> string) list" where
  "rate_columns =
     [(''slo_overall_rate'', ''overall''), (''slo_interactive_rate'', ''interactive''), (''slo_batch_rate'', ''batch'')]"

definition plot_slo_attainment :: "conversions \<Rightarrow> plot_row list \<Rightarrow> Curve list result" where
  "plot_slo_attainment conv rows =
     and_then (plot_policies conv rows) (\<lambda>policies.
     and_then (map_result (\<lambda>(policy, column, class_label).
         curve conv rows (policy @ '' - '' @ class_label) (policy, ''request_rate_rps'', column))
       (concat (map (\<lambda>policy. map (Pair policy) rate_columns) policies))) (\<lambda>cs.
     Inr (concat cs)))"

definition plot_sweep_results ::
    "conversions \<Rightarrow> plot_row list result \<Rightarrow> string \<Rightarrow> (string \<times> Curve list) list result" where
  "plot_sweep_results conv results out_dir =
     and_then results (\<lambda>rows.
     if rows = [] then Inl (ValueError ''sweep results must contain at least one row'')
     else
       and_then (plot_throughput_latency conv rows) (\<lambda>throughput.
       and_then (plot_rate_p99 conv rows) (\<lambda>rate.
       and_then (plot_slo_attainment conv rows) (\<lambda>attainment.
       Inr [(out_dir @ ''/throughput-latency.png'', throughput), (out_dir @ ''/rate-p99.png'', rate),
            (out_dir @ ''/slo-attainment-rate.png'', attainment)]))))"

section \<open>The points of a curve\<close>

lemma insert_pair_mset [simp]: "mset (insert_pair p qs) = add_mset p (mset qs)"
  by (induction qs) auto

lemma sort_pairs_mset [simp]: "mset (sort_pairs ps) = mset ps"
proof -
  have "mset (fold insert_pair ps qs) = mset ps + mset qs" for qs by (induction ps arbitrary: qs) auto
  then show ?thesis by (simp add: sort_pairs_def)
qed

text \<open>The point a row contributes to a curve.\<close>

definition point_of :: "conversions \<Rightarrow> string \<Rightarrow> string \<Rightarrow> string \<Rightarrow> plot_row \<Rightarrow> (pyfloat \<times> pyfloat) option" where
  "point_of conv policy x_column y_column row =
     (if py_str conv (row_value row ''policy'') \<noteq> policy then None
      else case (plot_number conv row x_column, plot_number conv row y_column) of
             (Inr (Some x), Inr (Some y)) \<Rightarrow> Some (x, y)
           | _ \<Rightarrow> None)"

lemma add_points:
  assumes "fold_result (add_point conv policy x_column y_column) rows pairs = Inr pairs'"
  shows "pairs' = pairs @ List.map_filter (point_of conv policy x_column y_column) rows"
  using assms
proof (induction rows arbitrary: pairs)
  case (Cons row rows)
  obtain pairs1 where 1: "add_point conv policy x_column y_column row pairs = Inr pairs1"
    "fold_result (add_point conv policy x_column y_column) rows pairs1 = Inr pairs'"
    using Cons.prems by (auto simp: and_then_Inr)
  have "pairs1 = pairs @ List.map_filter (point_of conv policy x_column y_column) [row]"
    using 1(1) by (auto simp: add_point_def point_of_def and_then_Inr map_filter_simps split: if_splits option.splits)
  then show ?case using Cons.IH [OF 1(2)] by (simp add: List.map_filter_def)
qed (simp add: List.map_filter_def)

lemma curve_points:
  assumes "xy_for_policy conv rows policy x_column y_column = Inr (xs, ys)"
  shows "length xs = length ys"
    and "mset (zip xs ys) = mset (List.map_filter (point_of conv policy x_column y_column) rows)"
  using assms add_points [of conv policy x_column y_column rows "[]"]
  by (auto simp: xy_for_policy_def and_then_Inr zip_map_fst_snd)

end
