(* ===== verification/FigureProperties.thy ===== *)
theory FigureProperties
  imports Figures SweepProperties
begin

text \<open>
  The figures of a sweep: the rows a sweep returns are always plotted, and every row with both values
  is a point of exactly one curve.
\<close>

section \<open>Rows that can be plotted\<close>

definition numeric :: "plot_row \<Rightarrow> string \<Rightarrow> bool" where
  "numeric row column \<longleftrightarrow> (\<exists>x. row_value row column = JFloat x) \<or> row_value row column = JNull"

definition plottable :: "plot_row \<Rightarrow> bool" where
  "plottable row \<longleftrightarrow> (\<exists>p. row_value row ''policy'' = JString p \<and> p \<noteq> []) \<and>
     (\<forall>column \<in> {''token_throughput_per_s'', ''end_to_end_p99_s'', ''request_rate_rps'', ''slo_overall_rate'',
        ''slo_interactive_rate'', ''slo_batch_rate''}. numeric row column)"

lemma optional_float_cases: "(\<exists>x. optional_float v = JFloat x) \<or> optional_float v = JNull"
  by (cases v) (simp_all add: optional_float_def)

lemma class_rate_cases: "(\<exists>x. class_rate m k = JFloat x) \<or> class_rate m k = JNull"
  by (simp add: class_rate_def split: option.split)

lemma plotted_values:
  "row_value (metric_row dumps label c m) ''policy'' = JString (policy_value (router_policy (exp_router c)))"
  "row_value (metric_row dumps label c m) ''request_rate_rps'' = JFloat (request_rate_rps (exp_workload c))"
  "row_value (metric_row dumps label c m) ''token_throughput_per_s'' = optional_float (ms_token_throughput_per_s m)"
  "row_value (metric_row dumps label c m) ''end_to_end_p99_s'' = optional_float (p99 (ms_end_to_end_s m))"
  "row_value (metric_row dumps label c m) ''slo_overall_rate'' = JFloat (att_rate (ms_slo_overall m))"
  "row_value (metric_row dumps label c m) ''slo_interactive_rate'' = class_rate m INTERACTIVE"
  "row_value (metric_row dumps label c m) ''slo_batch_rate'' = class_rate m BATCH"
  by (simp_all add: row_value_def metric_row_def admission_fields_def realistic_fields_def metric_fields_def
      percentile_fields_def Let_def)

lemma metric_row_plottable: "plottable (metric_row dumps label c m)"
proof -
  have "policy_value p \<noteq> []" for p by (cases p) simp_all
  then show ?thesis
    using optional_float_cases class_rate_cases by (simp add: plottable_def numeric_def plotted_values)
qed

lemma numeric_number: "numeric row column \<Longrightarrow> \<exists>v. plot_number conv row column = Inr v"
  by (auto simp: numeric_def plot_number_def unset_def)

section \<open>Curves of such rows\<close>

lemma xy_total:
  assumes "\<forall>row \<in> set rows. numeric row x_column \<and> numeric row y_column"
  shows "\<exists>xs ys. xy_for_policy conv rows policy x_column y_column = Inr (xs, ys)"
proof -
  have "\<exists>pairs'. fold_result (add_point conv policy x_column y_column) rows pairs = Inr pairs'" for pairs
    using assms
  proof (induction rows arbitrary: pairs)
    case (Cons row rows)
    have "\<exists>pairs1. add_point conv policy x_column y_column row pairs = Inr pairs1"
      using numeric_number [of row x_column conv] numeric_number [of row y_column conv] Cons.prems
      by (auto simp: add_point_def split: option.split)
    then show ?case using Cons by auto
  qed simp
  then obtain pairs' where "fold_result (add_point conv policy x_column y_column) rows [] = Inr pairs'" by blast
  then show ?thesis by (simp add: xy_for_policy_def)
qed

definition curve_points_of :: "Curve list \<Rightarrow> nat" where
  "curve_points_of cs = sum_list (map (length \<circ> curve_x) cs)"

lemma curve_total:
  assumes "\<forall>row \<in> set rows. numeric row x_column \<and> numeric row y_column"
  shows "\<exists>cs. curve conv rows label (policy, x_column, y_column) = Inr cs \<and>
    curve_points_of cs = length (List.map_filter (point_of conv policy x_column y_column) rows)"
proof -
  obtain xs ys where xy: "xy_for_policy conv rows policy x_column y_column = Inr (xs, ys)"
    using xy_total [OF assms] by blast
  have "length (zip xs ys) = length (List.map_filter (point_of conv policy x_column y_column) rows)"
    using curve_points(2) [OF xy] by (metis size_mset)
  then show ?thesis using xy curve_points(1) [OF xy] by (cases xs) (auto simp: curve_def curve_points_of_def)
qed

lemma policies_plottable:
  assumes "rows \<noteq> []" and "\<forall>row \<in> set rows. plottable row"
  shows "plot_policies conv rows = Inr (sorted_list_of_set ((\<lambda>row. py_str conv (row_value row ''policy'')) ` set rows))"
proof -
  have "filter (\<lambda>row. \<not> unset (row_value row ''policy'')) rows = rows"
    using assms(2) by (auto simp: plottable_def unset_def intro!: filter_True)
  then show ?thesis using assms(1) by (simp add: plot_policies_def)
qed

text \<open>The points of all policies are the rows with both values.\<close>

definition both_values :: "conversions \<Rightarrow> string \<Rightarrow> string \<Rightarrow> plot_row \<Rightarrow> bool" where
  "both_values conv x_column y_column row \<longleftrightarrow>
     (\<exists>x y. plot_number conv row x_column = Inr (Some x) \<and> plot_number conv row y_column = Inr (Some y))"

lemma points_of_policy:
  "length (List.map_filter (point_of conv policy x_column y_column) rows)
    = length (filter (\<lambda>row. both_values conv x_column y_column row \<and> py_str conv (row_value row ''policy'') = policy) rows)"
proof -
  have "(\<exists>p. point_of conv policy x_column y_column row = Some p) \<longleftrightarrow>
      both_values conv x_column y_column row \<and> py_str conv (row_value row ''policy'') = policy" for row
    by (auto simp: point_of_def both_values_def split: sum.split option.split)
  then have "filter (\<lambda>row. point_of conv policy x_column y_column row \<noteq> None) rows
      = filter (\<lambda>row. both_values conv x_column y_column row \<and> py_str conv (row_value row ''policy'') = policy) rows"
    by (intro filter_cong) auto
  then show ?thesis by (simp add: List.map_filter_def comp_def)
qed

lemma sum_by_value:
  assumes "finite A" and "\<forall>x \<in> set xs. f x \<in> A"
  shows "(\<Sum>a \<in> A. length (filter (\<lambda>x. P x \<and> f x = a) xs)) = length (filter P xs)"
  using assms(2)
proof (induction xs)
  case (Cons x xs)
  have "(\<Sum>a \<in> A. length (filter (\<lambda>x. P x \<and> f x = a) (x # xs)))
      = (\<Sum>a \<in> A. (if P x \<and> f x = a then 1 else 0) + length (filter (\<lambda>x. P x \<and> f x = a) xs))"
    by (rule sum.cong) auto
  also have "\<dots> = (if P x then 1 else 0) + length (filter P xs)"
    using Cons assms(1) by (simp add: sum.distrib)
  finally show ?case by simp
qed simp

lemma per_policy_total:
  assumes "rows \<noteq> []" and plottable: "\<forall>row \<in> set rows. plottable row"
    and numeric: "\<forall>row \<in> set rows. numeric row x_column \<and> numeric row y_column"
  shows "\<exists>cs. one_curve_per_policy conv rows x_column y_column = Inr cs \<and>
    curve_points_of cs = length (filter (both_values conv x_column y_column) rows)"
proof -
  let ?policy = "\<lambda>row. py_str conv (row_value row ''policy'')"
  let ?policies = "sorted_list_of_set (?policy ` set rows)"
  have "\<exists>cs. curve conv rows policy (policy, x_column, y_column) = Inr cs \<and>
      curve_points_of cs = length (filter (\<lambda>row. both_values conv x_column y_column row \<and> ?policy row = policy) rows)" for policy
    using curve_total [OF numeric] by (metis points_of_policy)
  then obtain f where f: "\<And>policy. curve conv rows policy (policy, x_column, y_column) = Inr (f policy)"
    "\<And>policy. curve_points_of (f policy)
      = length (filter (\<lambda>row. both_values conv x_column y_column row \<and> ?policy row = policy) rows)" by metis
  have "map_result (\<lambda>policy. curve conv rows policy (policy, x_column, y_column)) ?policies = Inr (map f ?policies)"
    by (rule map_result_total) (simp add: f(1))
  then have "one_curve_per_policy conv rows x_column y_column = Inr (concat (map f ?policies))"
    by (simp add: one_curve_per_policy_def policies_plottable [OF assms(1,2)])
  moreover have "curve_points_of (concat (map f ps)) = sum_list (map (curve_points_of \<circ> f) ps)" for ps
    by (induction ps) (simp_all add: curve_points_of_def)
  moreover have "sum_list (map (curve_points_of \<circ> f) ?policies) = (\<Sum>p \<in> ?policy ` set rows. curve_points_of (f p))"
    by (simp add: sum_list_distinct_conv_sum_set comp_def)
  ultimately show ?thesis using sum_by_value [of "?policy ` set rows" rows ?policy] f(2) by simp
qed

lemma map_result_exists:
  assumes "\<And>x. x \<in> set xs \<Longrightarrow> \<exists>y. f x = Inr y"
  shows "\<exists>ys. map_result f xs = Inr ys"
  using map_result_returns [of xs f "\<lambda>_ _. True"] assms by blast

lemma attainment_total:
  assumes "rows \<noteq> []" and plottable: "\<forall>row \<in> set rows. plottable row"
  shows "\<exists>cs. plot_slo_attainment conv rows = Inr cs"
proof -
  let ?curve = "\<lambda>(policy, column, class_label). curve conv rows (policy @ '' - '' @ class_label)
    (policy, ''request_rate_rps'', column)"
  have "\<exists>cs. curve conv rows label (policy, ''request_rate_rps'', column) = Inr cs" if "column \<in> fst ` set rate_columns"
    for policy label column
    using curve_total [of rows "''request_rate_rps''" column conv label policy] plottable that
    by (fastforce simp: plottable_def rate_columns_def)
  then have each: "\<exists>y. ?curve x = Inr y" if "x \<in> set (concat (map (\<lambda>policy. map (Pair policy) rate_columns) ps))" for x ps
    using that by force
  have "\<exists>cs. map_result ?curve (concat (map (\<lambda>policy. map (Pair policy) rate_columns) ps)) = Inr cs" for ps
    by (rule map_result_exists, rule each)
  then obtain cs where "map_result ?curve (concat (map (\<lambda>policy. map (Pair policy) rate_columns)
      (sorted_list_of_set ((\<lambda>row. py_str conv (row_value row ''policy'')) ` set rows)))) = Inr cs" by blast
  then show ?thesis unfolding plot_slo_attainment_def policies_plottable [OF assms] and_then.simps by simp
qed

lemma sweep_rows_written:
  assumes "run_sweep conv urlsplit dumps worlds samples base ps env_version = Inr r" and "row \<in> set (sweep_rows r)"
  shows "\<exists>label c m. row = metric_row dumps label c m"
proof -
  have "map_result (run_point urlsplit dumps worlds samples base env_version) (zip [0..<length ps] ps) = Inr (sweep_rows r)"
    using assms(1) by (auto simp: run_sweep_def and_then_Inr Let_def split: if_splits)
  then obtain i p where "run_point urlsplit dumps worlds samples base env_version (i, p) = Inr row"
    using assms(2) by (fastforce simp: map_result_Inr list_all2_conv_all_nth in_set_conv_nth)
  then show ?thesis by (elim run_point_row) blast
qed

text \<open>
  The figures of a sweep lose no row. The rows of a sweep that returns are always plotted, as three
  figures, and the curves of the first two have as many points as there are rows with both values.
\<close>

theorem sweep_rows_plot:
  assumes "run_sweep conv urlsplit dumps worlds samples base ps env_version = Inr r"
  shows "\<exists>throughput rate attainment. plot_sweep_results conv (Inr (sweep_rows r)) out_dir
      = Inr [(out_dir @ ''/throughput-latency.png'', throughput), (out_dir @ ''/rate-p99.png'', rate),
             (out_dir @ ''/slo-attainment-rate.png'', attainment)] \<and>
    curve_points_of throughput
      = length (filter (both_values conv ''token_throughput_per_s'' ''end_to_end_p99_s'') (sweep_rows r)) \<and>
    curve_points_of rate = length (filter (both_values conv ''request_rate_rps'' ''end_to_end_p99_s'') (sweep_rows r))"
proof -
  have ne: "sweep_rows r \<noteq> []"
    using assms by (auto simp: run_sweep_def and_then_Inr map_result_Inr Let_def split: if_splits
      dest: list_all2_lengthD)
  have "\<exists>label c b. row = metric_row dumps label c b" if "row \<in> set (sweep_rows r)" for row
    using sweep_rows_written [OF assms that] .
  then have ok: "\<forall>row \<in> set (sweep_rows r). plottable row" using metric_row_plottable by metis
  then have "\<forall>row \<in> set (sweep_rows r). numeric row ''token_throughput_per_s'' \<and> numeric row ''end_to_end_p99_s''"
    "\<forall>row \<in> set (sweep_rows r). numeric row ''request_rate_rps'' \<and> numeric row ''end_to_end_p99_s''"
    by (auto simp: plottable_def)
  from this [THEN per_policy_total [OF ne ok, where conv = conv]] attainment_total [OF ne ok, of conv] ne
  show ?thesis
    by (auto simp: plot_sweep_results_def plot_throughput_latency_def plot_rate_p99_def)
qed

end
