(* ===== verification/StudyFigures.thy ===== *)
theory StudyFigures
  imports ExpKB "HOL-Library.Sublist"
begin

text \<open>
  The values drawn by src/scripts/plot_week3_extra.py: the figures of the earlier studies, computed from
  the rows of their sweeps. The files are parameters, and what the statistics library does with values
  that are not finite. A figure is its tick labels and its series, a series its values and, for bars with
  error bars, the deviations; drawing, titles and colours are left out. Line breaks in tick labels are kept.
\<close>

section \<open>Inputs and statistics\<close>

record study_world =
  study_conversions :: conversions
  study_rows :: "string \<Rightarrow> row_cells list result"
  study_json :: "string \<Rightarrow> json result"
  special_mean :: "pyfloat list \<Rightarrow> pyfloat result"
  special_pstdev :: "pyfloat list \<Rightarrow> pyfloat result"

definition st_mean :: "study_world \<Rightarrow> pyfloat list \<Rightarrow> pyfloat result" where
  "st_mean W xs =
     (if xs = [] then Inl (StatisticsError ''mean requires at least one data point'')
      else if list_all isfinite xs then Inr (Fin (average (map real_of xs)))
      else special_mean W xs)"

definition st_pstdev :: "study_world \<Rightarrow> pyfloat list \<Rightarrow> pyfloat result" where
  "st_pstdev W xs =
     (if xs = [] then Inl (StatisticsError ''pstdev requires at least one data point'')
      else if list_all isfinite xs
      then let vs = map real_of xs; mean = average vs in Inr (Fin (sqrt (average (map (\<lambda>x. (x - mean)\<^sup>2) vs))))
      else special_pstdev W xs)"

text \<open>\<open>by[key].append(row)\<close> for every row; a key no row has is the empty group.\<close>

definition grouped_rows ::
    "(row_cells \<Rightarrow> 'k result) \<Rightarrow> row_cells list \<Rightarrow> ('k \<Rightarrow> row_cells list) result" where
  "grouped_rows key rows =
     and_then (map_result key rows) (\<lambda>ks. Inr (\<lambda>k. map snd (filter (\<lambda>(k', _). k' = k) (zip ks rows))))"

definition column_values :: "study_world \<Rightarrow> string \<Rightarrow> row_cells list \<Rightarrow> pyfloat list result" where
  "column_values W column rows = map_result (\<lambda>row. row_float (study_conversions W) row column) rows"

definition mean_of ::
    "study_world \<Rightarrow> ('k \<Rightarrow> row_cells list) \<Rightarrow> 'k list \<Rightarrow> string \<Rightarrow> pyfloat list result" where
  "mean_of W groups order column = map_result (\<lambda>k. and_then (column_values W column (groups k)) (st_mean W)) order"

definition std_of ::
    "study_world \<Rightarrow> ('k \<Rightarrow> row_cells list) \<Rightarrow> 'k list \<Rightarrow> string \<Rightarrow> pyfloat list result" where
  "std_of W groups order column = map_result (\<lambda>k. and_then (column_values W column (groups k)) (st_pstdev W)) order"

section \<open>Labels\<close>

text \<open>\<open>label.rsplit("-", 1)[0]\<close>, and \<open>s.replace(old, new)\<close> for a nonempty \<open>old\<close>.\<close>

definition before_last_dash :: "string \<Rightarrow> string" where
  "before_last_dash s =
     (if CHR ''-'' \<in> set s then rev (drop 1 (dropWhile (\<lambda>ch. ch \<noteq> CHR ''-'') (rev s))) else s)"

fun replace_text :: "string \<Rightarrow> string \<Rightarrow> nat \<Rightarrow> string \<Rightarrow> string" where
  "replace_text old new skip [] = []"
| "replace_text old new (Suc skip) (ch # s) = replace_text old new skip s"
| "replace_text old new 0 (ch # s) =
     (if prefix old (ch # s) then new @ replace_text old new (length old - 1) s
      else ch # replace_text old new 0 s)"

definition str_replace :: "string \<Rightarrow> string \<Rightarrow> string \<Rightarrow> string" where
  "str_replace s old new = replace_text old new 0 s"

text \<open>\<open>int(label.split("-")[0][1:])\<close>\<close>

definition level_of_row :: "conversions \<Rightarrow> row_cells \<Rightarrow> int result" where
  "level_of_row conv row = and_then (row_cell row ''label'') (\<lambda>label.
     case int_text conv (drop 1 (takeWhile (\<lambda>ch. ch \<noteq> CHR ''-'') label)) of
       None \<Rightarrow> Inl (ValueError ''invalid literal for int()'') | Some k \<Rightarrow> Inr k)"

definition variant_of_row :: "row_cells \<Rightarrow> string result" where
  "variant_of_row row = and_then (row_cell row ''label'') (\<lambda>label. Inr (before_last_dash label))"

section \<open>The figures\<close>

record Series =
  series_label :: string
  series_values :: "pyfloat list"
  series_errors :: "pyfloat list option"

record StudyFigure =
  study_file :: string
  study_ticks :: "string list"
  study_series :: "Series list"

definition policy_order :: "string list" where
  "policy_order = [''fcfs'', ''static_priority'', ''slo_aware'']"

definition bars_with_errors ::
    "study_world \<Rightarrow> ('k \<Rightarrow> row_cells list) \<Rightarrow> 'k list \<Rightarrow> string \<Rightarrow> string \<Rightarrow> Series result" where
  "bars_with_errors W groups order label column =
     and_then (mean_of W groups order column) (\<lambda>means.
     and_then (std_of W groups order column) (\<lambda>stds.
     Inr \<lparr>series_label = label, series_values = means, series_errors = Some stds\<rparr>))"

definition means_only ::
    "study_world \<Rightarrow> ('k \<Rightarrow> row_cells list) \<Rightarrow> 'k list \<Rightarrow> string \<Rightarrow> string \<Rightarrow> Series result" where
  "means_only W groups order label column =
     and_then (mean_of W groups order column) (\<lambda>means.
     Inr \<lparr>series_label = label, series_values = means, series_errors = None\<rparr>)"

definition saturation_robustness :: "study_world \<Rightarrow> StudyFigure result" where
  "saturation_robustness W =
     and_then (study_rows W ''results/raw/week3-expG-robust/sweep-results.csv'') (\<lambda>rows.
     and_then (grouped_rows (\<lambda>row. row_cell row ''policy'') rows) (\<lambda>groups.
     and_then (bars_with_errors W groups policy_order ''Interactive SLO attainment'' ''slo_interactive_rate'') (\<lambda>left.
     and_then (bars_with_errors W groups policy_order ''TTFT P99 (s)'' ''ttft_p99_s'') (\<lambda>right.
     Inr \<lparr>study_file = ''saturation-robustness.png'', study_ticks = [''FCFS'', ''Static Priority'', ''SLO-Aware''],
       study_series = [left, right]\<rparr>))))"

definition aging_tradeoff :: "study_world \<Rightarrow> StudyFigure result" where
  "aging_tradeoff W =
     and_then (study_rows W ''results/raw/week3-expF-aging/sweep-results.csv'') (\<lambda>rows.
     and_then (map_result (\<lambda>row. row_cell row ''label'') rows) (\<lambda>labels.
     and_then (column_values W ''slo_interactive_rate'' rows) (\<lambda>slo.
     and_then (column_values W ''longest_queue_wait_s'' rows) (\<lambda>wait.
     Inr \<lparr>study_file = ''aging-tradeoff.png'', study_ticks = map (\<lambda>l. str_replace l ''aging-'' '''') labels,
       study_series = [\<lparr>series_label = ''Interactive SLO'', series_values = slo, series_errors = None\<rparr>,
         \<lparr>series_label = ''Longest queue wait'', series_values = wait, series_errors = None\<rparr>]\<rparr>))))"

text \<open>One pass of the loop over the engine configurations; the last row of a policy is the one read.\<close>

definition engine_combo :: "study_world \<Rightarrow> string \<Rightarrow> (pyfloat \<times> pyfloat) result" where
  "engine_combo W name =
     and_then (study_rows W (''results/raw/week3-expD-'' @ name @ ''/sweep-results.csv'')) (\<lambda>rows.
     and_then (map_result (\<lambda>row. and_then (row_cell row ''policy'') (\<lambda>p. Inr (p, row))) rows) (\<lambda>pairs.
     let read = (\<lambda>policy. case map_of (rev pairs) policy of
           None \<Rightarrow> Inl (KeyError policy)
         | Some row \<Rightarrow> row_float (study_conversions W) row ''slo_interactive_rate'') in
     and_then (read ''fcfs'') (\<lambda>fcfs. and_then (read ''slo_aware'') (\<lambda>slo. Inr (fcfs, slo)))))"

definition engine_params :: "study_world \<Rightarrow> StudyFigure result" where
  "engine_params W =
     and_then (map_result (engine_combo W) [''mns8'', ''mns16'', ''mns32'', ''chunked'']) (\<lambda>pairs.
     Inr \<lparr>study_file = ''engine-params.png'',
       study_ticks = [''max_seqs=8'', ''max_seqs=16'', ''max_seqs=32'', ''chunked prefill''],
       study_series = [\<lparr>series_label = ''FCFS'', series_values = map fst pairs, series_errors = None\<rparr>,
         \<lparr>series_label = ''SLO-Aware'', series_values = map snd pairs, series_errors = None\<rparr>]\<rparr>)"

definition multilevel_aging :: "study_world \<Rightarrow> StudyFigure result" where
  "multilevel_aging W =
     and_then (study_rows W ''results/raw/week4-expI-multiseed/sweep-results.csv'') (\<lambda>rows.
     and_then (grouped_rows (level_of_row (study_conversions W)) rows) (\<lambda>groups.
     and_then (bars_with_errors W groups [1, 2, 3, 5] ''Interactive SLO attainment'' ''slo_interactive_rate'') (\<lambda>left.
     and_then (means_only W groups [1, 2, 3, 5] ''Longest wait'' ''longest_queue_wait_s'') (\<lambda>wait.
     and_then (means_only W groups [1, 2, 3, 5] ''Batch SLO'' ''slo_batch_rate'') (\<lambda>batch.
     Inr \<lparr>study_file = ''multilevel-aging.png'', study_ticks = [''K=1'', ''K=2'', ''K=3'', ''K=5''],
       study_series = [left, wait, batch]\<rparr>)))))"

definition adaptive_ceiling :: "study_world \<Rightarrow> StudyFigure result" where
  "adaptive_ceiling W =
     (let order = [''fix3'', ''fix10'', ''fix30'', ''adp-cap10'', ''adp-cap30''] in
     and_then (study_rows W ''results/raw/week5-expJ-adaptive/sweep-results.csv'') (\<lambda>rows.
     and_then (grouped_rows variant_of_row rows) (\<lambda>groups.
     and_then (bars_with_errors W groups order ''Interactive SLO attainment'' ''slo_interactive_rate'') (\<lambda>left.
     and_then (bars_with_errors W groups order ''Longest queue wait (s)'' ''longest_queue_wait_s'') (\<lambda>right.
     Inr \<lparr>study_file = ''adaptive-ceiling.png'',
       study_ticks = [''fix 3s'', ''fix 10s'', ''fix 30s'', ''adaptive'' @ [CHR 0x0A] @ ''cap 10s'',
         ''adaptive'' @ [CHR 0x0A] @ ''cap 30s''],
       study_series = [left, right]\<rparr>)))))"

definition length_source_comparison :: "study_world \<Rightarrow> StudyFigure result" where
  "length_source_comparison W =
     (let order = [''true'', ''adv'', ''learned''] in
     and_then (study_rows W ''results/raw/week6-expK-A/sweep-results.csv'') (\<lambda>rows.
     and_then (grouped_rows variant_of_row rows) (\<lambda>groups.
     and_then (bars_with_errors W groups order ''Interactive SLO attainment'' ''slo_interactive_rate'') (\<lambda>left.
     and_then (means_only W groups order ''e2e P50'' ''end_to_end_p50_s'') (\<lambda>p50.
     and_then (means_only W groups order ''e2e P99'' ''end_to_end_p99_s'') (\<lambda>p99.
     Inr \<lparr>study_file = ''length-source.png'',
       study_ticks = [''true'' @ [CHR 0x0A] @ ''(oracle)'', ''advertised'' @ [CHR 0x0A] @ ''(naive)'', ''learned''],
       study_series = [left, p50, p99]\<rparr>))))))"

text \<open>\<open>a in analysis["arms"]\<close>, and the mean or deviation of a field, 0 for an empty entry.\<close>

fun json_contains :: "json \<Rightarrow> string \<Rightarrow> bool result" where
  "json_contains (JObject d) key = Inr (map_of d key \<noteq> None)"
| "json_contains (JArray vs) key = Inr (JString key \<in> set vs)"
| "json_contains (JString s) key = Inr (sublist key s)"
| "json_contains v key = Inl (TypeError ''argument is not iterable'')"

definition json_path :: "json \<Rightarrow> string list \<Rightarrow> json result" where
  "json_path v keys = fold_result (\<lambda>key v. json_item v key) keys v"

definition arm_aggregate :: "study_world \<Rightarrow> json \<Rightarrow> string \<Rightarrow> string \<Rightarrow> string \<Rightarrow> pyfloat result" where
  "arm_aggregate W analysis field key arm =
     and_then (json_path analysis [''arms'', arm, ''aggregates'', field]) (\<lambda>entry.
     if json_truth entry then and_then (json_item entry key) (py_float (study_conversions W)) else Inr (Fin 0))"

record ClippingTradeoff =
  tradeoff_ticks :: "string list"
  tradeoff_wait :: "pyfloat list"
  tradeoff_wait_sd :: "pyfloat list"
  tradeoff_clipped :: "pyfloat list"
  tradeoff_second :: "json list"

fun percent :: "pyfloat \<Rightarrow> pyfloat" where
  "percent (Fin x) = Fin (x * 100)"
| "percent x = x"

definition clipping_tradeoff :: "study_world \<Rightarrow> ClippingTradeoff result" where
  "clipping_tradeoff W =
     and_then (study_json W ''results/raw/week6-expK-B/analysis.json'') (\<lambda>analysis.
     and_then (map_result (\<lambda>a. and_then (json_path analysis [''arms'']) (\<lambda>arms.
         and_then (json_contains arms a) (\<lambda>b. Inr (a, b)))) [''no-clip'', ''clip1536'', ''clip1024'', ''clip512'']) (\<lambda>found.
     let arms = map fst (filter snd found) in
     and_then (map_result (arm_aggregate W analysis ''queue_wait_mean_s'' ''mean'') arms) (\<lambda>wait.
     and_then (map_result (arm_aggregate W analysis ''queue_wait_mean_s'' ''std'') arms) (\<lambda>wait_sd.
     and_then (map_result (arm_aggregate W analysis ''clip_applied_rate'' ''mean'') arms) (\<lambda>clipped.
     and_then (map_result (\<lambda>a. json_path analysis [''arms'', a, ''mg1'', ''second_moment_service_s2'']) arms) (\<lambda>second.
     Inr \<lparr>tradeoff_ticks = map (\<lambda>a. str_replace a ''clip'' ''clip '') arms, tradeoff_wait = wait, tradeoff_wait_sd = wait_sd,
       tradeoff_clipped = map percent clipped, tradeoff_second = second\<rparr>))))))"

text \<open>The figures are written one after the other, until one raises.\<close>

definition study_figures :: "study_world \<Rightarrow> string result list" where
  "study_figures W =
     map (\<lambda>f. and_then f (\<lambda>figure. Inr (study_file figure)))
       [saturation_robustness W, aging_tradeoff W, engine_params W, multilevel_aging W, adaptive_ceiling W,
        length_source_comparison W]
     @ [and_then (clipping_tradeoff W) (\<lambda>_. Inr ''clipping-tradeoff.png'')]"

fun written_until :: "'a result list \<Rightarrow> 'a list \<times> unit result" where
  "written_until [] = ([], Inr ())"
| "written_until (Inl e # fs) = ([], Inl e)"
| "written_until (Inr f # fs) = (let (written, outcome) = written_until fs in (f # written, outcome))"

definition study_main :: "study_world \<Rightarrow> string list \<times> unit result" where
  "study_main W = written_until (study_figures W)"

section \<open>What the figures show\<close>

lemma row_groups:
  assumes "grouped_rows key rows = Inr groups"
  shows "groups k = filter (\<lambda>row. key row = Inr k) rows"
proof -
  obtain ks where ks: "list_all2 (\<lambda>row k. key row = Inr k) rows ks"
    and g: "groups = (\<lambda>k. map snd (filter (\<lambda>(k', _). k' = k) (zip ks rows)))"
    using assms by (auto simp: grouped_rows_def and_then_Inr map_result_Inr)
  from ks show ?thesis unfolding g by (induction rule: list_all2_induct) auto
qed

text \<open>
  The bars of a figure stand for the groups in the order of its ticks, each the mean of the column over
  exactly the rows of its group; a group without rows makes the figure raise.
\<close>

theorem study_bars:
  assumes "grouped_rows key rows = Inr groups" and "bars_with_errors W groups order label column = Inr s"
  shows "list_all2 (\<lambda>k m. \<exists>vs. column_values W column (filter (\<lambda>row. key row = Inr k) rows) = Inr vs \<and> vs \<noteq> [] \<and>
      st_mean W vs = Inr m) order (series_values s)"
    and "\<exists>sds. series_errors s = Some sds \<and> length sds = length order"
proof -
  obtain means stds where m: "mean_of W groups order column = Inr means" "std_of W groups order column = Inr stds"
    and s: "s = \<lparr>series_label = label, series_values = means, series_errors = Some stds\<rparr>"
    using assms(2) by (auto simp: bars_with_errors_def and_then_Inr)
  have "list_all2 (\<lambda>k m. and_then (column_values W column (groups k)) (st_mean W) = Inr m) order means"
    using m(1) by (simp add: mean_of_def map_result_Inr)
  then show "list_all2 (\<lambda>k m. \<exists>vs. column_values W column (filter (\<lambda>row. key row = Inr k) rows) = Inr vs \<and> vs \<noteq> [] \<and>
      st_mean W vs = Inr m) order (series_values s)"
    unfolding s by (auto simp: row_groups [OF assms(1)] and_then_Inr st_mean_def elim!: list.rel_mono_strong split: if_splits)
  show "\<exists>sds. series_errors s = Some sds \<and> length sds = length order"
    using m(2) by (auto simp: s std_of_def map_result_Inr dest: list_all2_lengthD)
qed

text \<open>A study without a row of some policy has no robustness figure.\<close>

lemma missing_policy_raises:
  assumes "study_rows W ''results/raw/week3-expG-robust/sweep-results.csv'' = Inr rows"
    and "p \<in> set policy_order" and "\<forall>row \<in> set rows. row_cell row ''policy'' \<noteq> Inr p"
  shows "\<exists>e. saturation_robustness W = Inl e \<and> fst (study_main W) = []"
proof -
  have "saturation_robustness W \<noteq> Inr f" for f
  proof
    assume "saturation_robustness W = Inr f"
    then obtain groups s where g: "grouped_rows (\<lambda>row. row_cell row ''policy'') rows = Inr groups"
      and s: "bars_with_errors W groups policy_order ''Interactive SLO attainment'' ''slo_interactive_rate'' = Inr s"
      using assms(1) by (auto simp: saturation_robustness_def and_then_Inr)
    have "filter (\<lambda>row. row_cell row ''policy'' = Inr p) rows = []" using assms(3) by (simp add: filter_empty_conv)
    with study_bars(1) [OF g s] assms(2) show False
      by (fastforce simp: list_all2_conv_all_nth in_set_conv_nth column_values_def)
  qed
  then obtain e where "saturation_robustness W = Inl e" by (cases "saturation_robustness W") auto
  then show ?thesis by (simp add: study_main_def study_figures_def)
qed

lemma written_until_all:
  "snd (written_until fs) = Inr () \<longleftrightarrow> fs = map Inr (fst (written_until fs))"
  by (induction fs rule: written_until.induct) (auto split: prod.splits)

end
