(* ===== verification/PyText.thy ===== *)
theory PyText
  imports Prelude
begin

text \<open>
  The string methods the readers of tool output use, on characters of one byte: \<open>strip()\<close>,
  \<open>splitlines()\<close>, \<open>split(",")\<close> and \<open>join\<close>. Line ends and white space are Python's.
\<close>

section \<open>Methods of strings\<close>

definition is_space :: "char \<Rightarrow> bool" where
  "is_space ch \<longleftrightarrow> of_char ch \<in> {9, 10, 11, 12, 13, 28, 29, 30, 31, 32, 133, 160 :: nat}"

definition is_line_end :: "char \<Rightarrow> bool" where
  "is_line_end ch \<longleftrightarrow> of_char ch \<in> {10, 11, 12, 13, 28, 29, 30, 133 :: nat}"

definition strip_text :: "string \<Rightarrow> string" where
  "strip_text s = rev (dropWhile is_space (rev (dropWhile is_space s)))"

text \<open>A carriage return and the line feed after it are one line end.\<close>

definition after_line_end :: "char \<Rightarrow> string \<Rightarrow> string" where
  "after_line_end ch rest =
     (if of_char ch = (13 :: nat) \<and> rest \<noteq> [] \<and> of_char (hd rest) = (10 :: nat) then tl rest else rest)"

function lines_from :: "string \<Rightarrow> string \<Rightarrow> string list" where
  "lines_from line [] = (if line = [] then [] else [line])"
| "lines_from line (ch # rest) =
     (if is_line_end ch then line # lines_from [] (after_line_end ch rest)
      else lines_from (line @ [ch]) rest)"
  by pat_completeness auto
termination
  by (relation "measure (\<lambda>(line, s). length s)") (auto simp: after_line_end_def le_imp_less_Suc)

definition splitlines :: "string \<Rightarrow> string list" where
  "splitlines s = lines_from [] s"

fun split_on :: "char \<Rightarrow> string \<Rightarrow> string list" where
  "split_on sep [] = [[]]"
| "split_on sep (ch # s) =
     (if ch = sep then [] # split_on sep s
      else case split_on sep s of [] \<Rightarrow> [[ch]] | w # ws \<Rightarrow> (ch # w) # ws)"

fun join_with :: "string \<Rightarrow> string list \<Rightarrow> string" where
  "join_with sep [] = []"
| "join_with sep [s] = s"
| "join_with sep (s # t # ts) = s @ sep @ join_with sep (t # ts)"

text \<open>\<open>[line.strip() for line in s.splitlines() if line.strip()]\<close>\<close>

definition nonblank_lines :: "string \<Rightarrow> string list" where
  "nonblank_lines s = filter (\<lambda>l. l \<noteq> []) (map strip_text (splitlines s))"

section \<open>Facts\<close>

text \<open>A word has no white space at its ends, and a plain text no line end.\<close>

definition is_word :: "string \<Rightarrow> bool" where
  "is_word s \<longleftrightarrow> s \<noteq> [] \<and> \<not> is_space (hd s) \<and> \<not> is_space (last s)"

definition plain :: "string \<Rightarrow> bool" where
  "plain s \<longleftrightarrow> (\<forall>ch \<in> set s. \<not> is_line_end ch)"

lemma line_end_space: "is_line_end ch \<Longrightarrow> is_space ch"
  by (auto simp: is_line_end_def is_space_def)

lemma drop_spaces: "(\<forall>ch \<in> set a. is_space ch) \<Longrightarrow> s \<noteq> [] \<Longrightarrow> \<not> is_space (hd s) \<Longrightarrow> dropWhile is_space (a @ s) = s"
  by (cases s) (simp_all add: dropWhile_append2)

lemma strip_blanks:
  assumes "is_word s" and "\<forall>ch \<in> set a. is_space ch" and "\<forall>ch \<in> set b. is_space ch"
  shows "strip_text (a @ s @ b) = s"
proof -
  have s: "s \<noteq> []" "\<not> is_space (hd s)" "\<not> is_space (hd (rev s))"
    using assms(1) by (auto simp: is_word_def hd_rev)
  have "dropWhile is_space (a @ s @ b) = s @ b" using drop_spaces [of a "s @ b"] assms(2) s by simp
  moreover have "dropWhile is_space (rev (s @ b)) = rev s" using drop_spaces [of "rev b" "rev s"] assms(3) s by simp
  ultimately show ?thesis by (simp add: strip_text_def)
qed

lemma strip_word: "is_word s \<Longrightarrow> strip_text s = s"
  using strip_blanks [of s "[]" "[]"] by simp

lemma strip_is_word: "strip_text s \<noteq> [] \<Longrightarrow> is_word (strip_text s)"
proof -
  assume ne: "strip_text s \<noteq> []"
  let ?d = "dropWhile is_space s"
  have "?d \<noteq> []" using ne unfolding strip_text_def by fastforce
  then have h: "\<not> is_space (hd ?d)" using hd_dropWhile [of is_space s] by auto
  have ne': "dropWhile is_space (rev ?d) \<noteq> []" using ne by (simp add: strip_text_def)
  obtain b where b: "rev ?d = b @ dropWhile is_space (rev ?d)" by (metis takeWhile_dropWhile_id)
  have "?d = strip_text s @ rev b" using arg_cong [OF b, of rev] by (simp add: strip_text_def)
  then have "hd (strip_text s) = hd ?d" using ne by (metis hd_append2)
  moreover have "last (strip_text s) = hd (dropWhile is_space (rev ?d))"
    using ne' by (simp add: strip_text_def last_rev)
  then have "\<not> is_space (last (strip_text s))" using ne' hd_dropWhile by metis
  ultimately show ?thesis using ne h by (simp add: is_word_def)
qed

lemma lines_from_plain: "plain s \<Longrightarrow> lines_from line (s @ rest) = lines_from (line @ s) rest"
  by (induction s arbitrary: line) (simp_all add: plain_def)

lemma split_on_absent: "sep \<notin> set s \<Longrightarrow> split_on sep s = [s]"
  by (induction s) auto

lemma split_on_append: "sep \<notin> set s \<Longrightarrow> split_on sep (s @ sep # t) = s # split_on sep t"
  by (induction s) auto

text \<open>A first line with a word on it is the first line that is not blank.\<close>

lemma first_nonblank:
  assumes "is_word s" and "plain s"
  shows "\<exists>rest. nonblank_lines (s @ ''\<newline>'' @ more) = s # rest"
proof -
  have "is_line_end CHR ''\<newline>''" by (simp add: is_line_end_def)
  then have "splitlines (s @ ''\<newline>'' @ more) = s # lines_from [] (after_line_end CHR ''\<newline>'' more)"
    using lines_from_plain [OF assms(2), of "[]" "''\<newline>'' @ more"] by (simp add: splitlines_def)
  then show ?thesis using assms(1) strip_word [OF assms(1)] by (simp add: nonblank_lines_def is_word_def)
qed

lemma nonblank_words: "l \<in> set (nonblank_lines s) \<Longrightarrow> is_word l"
  by (auto simp: nonblank_lines_def strip_is_word)

end
