(* ===== verification/ConfigHash.thy ===== *)
theory ConfigHash
  imports Sweep
begin

text \<open>
  The identity of a configuration (src/sloserve/metrics/config_hash.py and the serializer in
  src/sloserve/config.py): the JSON dump of every model, with the projection that hides the settings of
  the adaptive clip while it is disabled, and the hash over it. The digest (the stable JSON text and
  SHA-256 of the standard library) is a parameter.
\<close>

section \<open>The dump of the models\<close>

fun arrival_value :: "ArrivalProcess \<Rightarrow> string" where
  "arrival_value FIXED = ''fixed''"
| "arrival_value POISSON = ''poisson''"
| "arrival_value BURST = ''burst''"

definition optional_bool :: "bool option \<Rightarrow> json" where
  "optional_bool b = (case b of None \<Rightarrow> JNull | Some v \<Rightarrow> JBool v)"

definition floats :: "real list \<Rightarrow> json" where
  "floats xs = JArray (map JFloat xs)"

definition backend_dump :: "BackendConfig \<Rightarrow> json" where
  "backend_dump c = JObject
    [(''base_url'', JString (base_url c)), (''model'', JString (backend_model c)),
     (''model_revision'', JString (model_revision c)), (''tokenizer_revision'', JString (tokenizer_revision c)),
     (''request_timeout_s'', JFloat (request_timeout_s c))]"

definition server_dump :: "ServerConfig \<Rightarrow> json" where
  "server_dump c = JObject
    [(''host'', JString (server_host c)), (''port'', JInt (server_port c)),
     (''gpu_memory_utilization'', JFloat (gpu_memory_utilization c)), (''max_model_len'', JInt (max_model_len c)),
     (''max_num_seqs'', JInt (max_num_seqs c)), (''max_num_batched_tokens'', optional_int (max_num_batched_tokens c)),
     (''enable_chunked_prefill'', optional_bool (enable_chunked_prefill c)),
     (''enable_prefix_caching'', optional_bool (enable_prefix_caching c)),
     (''dtype'', JString (dtype_value (server_dtype c))), (''enforce_eager'', JBool (enforce_eager c))]"

definition router_dump :: "RouterConfig \<Rightarrow> json" where
  "router_dump c = JObject
    [(''policy'', JString (policy_value (router_policy c))), (''listen_host'', JString (listen_host c)),
     (''listen_port'', JInt (listen_port c)), (''max_in_flight'', JInt (max_in_flight c)),
     (''queue_capacity'', JInt (queue_capacity c))]"

definition admission_dump :: "AdmissionControlConfig \<Rightarrow> (string \<times> json) list" where
  "admission_dump c =
    [(''clip_enabled'', JBool (clip_enabled c)), (''clip_max_tokens'', JInt (clip_max_tokens c)),
     (''clip_source'', JString (clip_source_value (clip_source c))),
     (''clip_estimator_path'', optional_string (clip_estimator_path c)),
     (''adaptive_clip_enabled'', JBool (adaptive_clip_enabled c)),
     (''adaptive_clip_signal'', JString (signal_value (adaptive_clip_signal c))),
     (''adaptive_clip_caps'', JArray (map JInt (adaptive_clip_caps c))),
     (''adaptive_clip_tighten_thresholds'', floats (adaptive_clip_tighten_thresholds c)),
     (''adaptive_clip_relax_thresholds'', floats (adaptive_clip_relax_thresholds c)),
     (''adaptive_clip_ewma_tau_s'', JFloat (adaptive_clip_ewma_tau_s c)),
     (''adaptive_clip_tighten_hold_s'', JFloat (adaptive_clip_tighten_hold_s c)),
     (''adaptive_clip_relax_hold_s'', JFloat (adaptive_clip_relax_hold_s c)),
     (''adaptive_clip_capacity_rps'', optional_float (adaptive_clip_capacity_rps c))]"

definition legacy_hidden_fields :: "string list" where
  "legacy_hidden_fields =
    [''adaptive_clip_enabled'', ''adaptive_clip_signal'', ''adaptive_clip_caps'',
     ''adaptive_clip_tighten_thresholds'', ''adaptive_clip_relax_thresholds'', ''adaptive_clip_ewma_tau_s'',
     ''adaptive_clip_tighten_hold_s'', ''adaptive_clip_relax_hold_s'', ''adaptive_clip_capacity_rps'']"

definition serialize_with_legacy_hash_projection :: "bool \<Rightarrow> AdmissionControlConfig \<Rightarrow> (string \<times> json) list" where
  "serialize_with_legacy_hash_projection json_mode c =
    (if json_mode \<and> \<not> adaptive_clip_enabled c
     then fold AList.delete legacy_hidden_fields (admission_dump c) else admission_dump c)"

definition slo_aware_dump :: "SloAwareConfig \<Rightarrow> json" where
  "slo_aware_dump c = JObject
    [(''input_token_seconds'', JFloat (input_token_seconds c)), (''output_token_seconds'', JFloat (output_token_seconds c)),
     (''cost_weight'', JFloat (cost_weight c)), (''slack_weight'', JFloat (slack_weight c)),
     (''waiting_weight'', JFloat (waiting_weight c)), (''aging_threshold_s'', JFloat (aging_threshold_s c)),
     (''disable_length_estimate'', JBool (disable_length_estimate c)), (''aging_levels'', JInt (aging_levels c)),
     (''adaptive_ceiling'', JBool (adaptive_ceiling c)), (''ceiling_margin'', JFloat (ceiling_margin c)),
     (''ceiling_floor_s'', JFloat (ceiling_floor_s c)), (''ceiling_cap_s'', JFloat (ceiling_cap_s c)),
     (''length_source'', JString (length_source_value (length_source c))),
     (''length_estimator_path'', optional_string (length_estimator_path c))]"

definition token_range_dump :: "TokenRangeConfig \<Rightarrow> json" where
  "token_range_dump c = JObject [(''minimum'', JInt (minimum c)), (''maximum'', JInt (maximum c))]"

definition profile_dump :: "RequestProfileConfig \<Rightarrow> json" where
  "profile_dump c = JObject
    [(''input_tokens'', token_range_dump (profile_input_tokens c)),
     (''output_tokens'', token_range_dump (profile_output_tokens c)),
     (''ttft_slo_ms'', JFloat (ttft_slo_ms c)), (''end_to_end_slo_ms'', JFloat (end_to_end_slo_ms c))]"

definition realistic_dump :: "RealisticLengthConfig \<Rightarrow> json" where
  "realistic_dump c = JObject
    [(''kinds'', JArray (map JString (kinds c))), (''kind_fractions'', floats (kind_fractions c)),
     (''log_mu_by_kind'', floats (log_mu_by_kind c)), (''log_sigma'', JFloat (log_sigma c)),
     (''advertised_cap_tokens'', JInt (realistic_advertised_cap_tokens c)),
     (''clamp_min'', JInt (clamp_min c)), (''clamp_max'', JInt (clamp_max c)),
     (''force_exact_output_tokens'', JBool (realistic_force_exact c))]"

definition workload_dump :: "WorkloadConfig \<Rightarrow> json" where
  "workload_dump c = JObject
    [(''arrival_process'', JString (arrival_value (arrival_process c))),
     (''request_rate_rps'', JFloat (request_rate_rps c)), (''total_requests'', JInt (total_requests c)),
     (''interactive_fraction'', JFloat (interactive_fraction c)), (''random_seed'', JInt (random_seed c)),
     (''warmup_requests'', JInt (warmup_requests c)), (''repetitions'', JInt (repetitions c)),
     (''interactive'', profile_dump (interactive_profile c)), (''batch'', profile_dump (batch_profile c)),
     (''length_model'', JString (length_model_value (length_model c))),
     (''realistic_length'', case realistic_length c of None \<Rightarrow> JNull | Some r \<Rightarrow> realistic_dump r)]"

definition metrics_dump :: "MetricsConfig \<Rightarrow> json" where
  "metrics_dump c = JObject
    [(''output_directory'', JString (output_directory c)), (''gpu_sample_interval_s'', JFloat (gpu_sample_interval_s c)),
     (''save_jsonl'', JBool (save_jsonl c)), (''save_csv'', JBool (save_csv c))]"

text \<open>\<open>config.model_dump(mode="json")\<close>\<close>

definition experiment_dump :: "ExperimentConfig \<Rightarrow> json" where
  "experiment_dump c = JObject
    [(''backend'', backend_dump (exp_backend c)), (''server'', server_dump (exp_server c)),
     (''router'', router_dump (exp_router c)),
     (''admission'', JObject (serialize_with_legacy_hash_projection True (exp_admission c))),
     (''slo_aware'', slo_aware_dump (exp_slo_aware c)), (''workload'', workload_dump (exp_workload c)),
     (''metrics'', metrics_dump (exp_metrics c))]"

definition experiment_config_hash :: "(json \<Rightarrow> string) \<Rightarrow> ExperimentConfig \<Rightarrow> string" where
  "experiment_config_hash digest c = digest (experiment_dump c)"

section \<open>What the hash identifies\<close>

named_theorems dump_inject \<open>dumps of equal JSON come from equal values\<close>

lemma map_constructor_inject [dump_inject]:
  "map JInt xs = map JInt ys \<longleftrightarrow> xs = ys" "map JFloat us = map JFloat vs \<longleftrightarrow> us = vs"
  "map JString ss = map JString ts \<longleftrightarrow> ss = ts"
  by (simp_all add: inj_map_eq_map inj_def)

lemma optional_inject [dump_inject]:
  "optional_int a = optional_int b \<longleftrightarrow> a = b" "optional_float x = optional_float y \<longleftrightarrow> x = y"
  "optional_bool p = optional_bool q \<longleftrightarrow> p = q" "optional_string s = optional_string t \<longleftrightarrow> s = t"
  "floats us = floats vs \<longleftrightarrow> us = vs"
  by (auto simp: optional_int_def optional_float_def optional_bool_def optional_string_def floats_def dump_inject
      split: option.splits)

lemma value_inject [dump_inject]:
  "arrival_value a = arrival_value b \<longleftrightarrow> a = b"
  "policy_value p = policy_value q \<longleftrightarrow> p = q"
  "dtype_value d = dtype_value e \<longleftrightarrow> d = e"
  "clip_source_value c = clip_source_value k \<longleftrightarrow> c = k"
  "signal_value s = signal_value t \<longleftrightarrow> s = t"
  "length_source_value l = length_source_value m \<longleftrightarrow> l = m"
  "length_model_value u = length_model_value v \<longleftrightarrow> u = v"
proof -
  show "arrival_value a = arrival_value b \<longleftrightarrow> a = b" by (cases a; cases b) simp_all
  show "policy_value p = policy_value q \<longleftrightarrow> p = q" by (cases p; cases q) simp_all
  show "dtype_value d = dtype_value e \<longleftrightarrow> d = e" by (cases d; cases e) simp_all
  show "clip_source_value c = clip_source_value k \<longleftrightarrow> c = k" by (cases c; cases k) simp_all
  show "signal_value s = signal_value t \<longleftrightarrow> s = t" by (cases s; cases t) simp_all
  show "length_source_value l = length_source_value m \<longleftrightarrow> l = m" by (cases l; cases m) simp_all
  show "length_model_value u = length_model_value v \<longleftrightarrow> u = v" by (cases u; cases v) simp_all
qed

lemma model_dump_inject [dump_inject]:
  "backend_dump b = backend_dump b' \<longleftrightarrow> b = b'"
  "server_dump s = server_dump s' \<longleftrightarrow> s = s'"
  "router_dump r = router_dump r' \<longleftrightarrow> r = r'"
  "slo_aware_dump o' = slo_aware_dump o'' \<longleftrightarrow> o' = o''"
  "token_range_dump t = token_range_dump t' \<longleftrightarrow> t = t'"
  "realistic_dump l = realistic_dump l' \<longleftrightarrow> l = l'"
  "metrics_dump m = metrics_dump m' \<longleftrightarrow> m = m'"
proof -
  show "backend_dump b = backend_dump b' \<longleftrightarrow> b = b'"
    by (cases b; cases b') (auto simp: backend_dump_def dump_inject)
  show "server_dump s = server_dump s' \<longleftrightarrow> s = s'"
    by (cases s; cases s') (auto simp: server_dump_def dump_inject)
  show "router_dump r = router_dump r' \<longleftrightarrow> r = r'"
    by (cases r; cases r') (auto simp: router_dump_def dump_inject)
  show "slo_aware_dump o' = slo_aware_dump o'' \<longleftrightarrow> o' = o''"
    by (cases o'; cases o'') (auto simp: slo_aware_dump_def dump_inject)
  show "token_range_dump t = token_range_dump t' \<longleftrightarrow> t = t'"
    by (cases t; cases t') (auto simp: token_range_dump_def dump_inject)
  show "realistic_dump l = realistic_dump l' \<longleftrightarrow> l = l'"
    by (cases l; cases l') (auto simp: realistic_dump_def dump_inject)
  show "metrics_dump m = metrics_dump m' \<longleftrightarrow> m = m'"
    by (cases m; cases m') (auto simp: metrics_dump_def dump_inject)
qed

lemma workload_dump_inject [dump_inject]:
  "profile_dump p = profile_dump p' \<longleftrightarrow> p = p'" "workload_dump w = workload_dump w' \<longleftrightarrow> w = w'"
proof -
  show profile: "profile_dump p = profile_dump p' \<longleftrightarrow> p = p'" for p p'
    by (cases p; cases p') (auto simp: profile_dump_def dump_inject)
  have realistic: "(case r of None \<Rightarrow> JNull | Some r \<Rightarrow> realistic_dump r)
      = (case r' of None \<Rightarrow> JNull | Some r \<Rightarrow> realistic_dump r) \<longleftrightarrow> r = r'" for r r'
    by (cases r; cases r') (simp_all add: dump_inject, simp_all add: realistic_dump_def)
  show "workload_dump w = workload_dump w' \<longleftrightarrow> w = w'"
    by (cases w; cases w') (auto simp: workload_dump_def profile realistic dump_inject)
qed

text \<open>The settings that matter: while the adaptive clip is disabled its parameters are dormant.\<close>

definition active_settings :: "AdmissionControlConfig \<Rightarrow> AdmissionControlConfig" where
  "active_settings c = (if adaptive_clip_enabled c then c
     else default_admission\<lparr>clip_enabled := clip_enabled c, clip_max_tokens := clip_max_tokens c,
       clip_source := clip_source c, clip_estimator_path := clip_estimator_path c\<rparr>)"

lemma projection_cases:
  "serialize_with_legacy_hash_projection True c =
    (if adaptive_clip_enabled c then admission_dump c else take 4 (admission_dump c))"
  by (simp add: serialize_with_legacy_hash_projection_def legacy_hidden_fields_def admission_dump_def)

lemma admission_dump_inject:
  "serialize_with_legacy_hash_projection True c = serialize_with_legacy_hash_projection True c' \<longleftrightarrow>
   active_settings c = active_settings c'"
  unfolding projection_cases
  by (cases c; cases c')
    (auto simp: active_settings_def admission_dump_def dump_inject default_admission_def)

text \<open>
  The configuration hash ignores the dormant settings and nothing else. Two experiments have the
  same hash under every digest exactly when they agree on every field of every section, except that
  the parameters of the adaptive clip are disregarded in an experiment that does not enable it.
\<close>

theorem config_hash_ignores_only_dormant:
  "(\<forall>digest. experiment_config_hash digest c = experiment_config_hash digest c') \<longleftrightarrow>
   c\<lparr>exp_admission := active_settings (exp_admission c)\<rparr> = c'\<lparr>exp_admission := active_settings (exp_admission c')\<rparr>"
proof -
  have "(\<forall>digest. experiment_config_hash digest c = experiment_config_hash digest c') \<longleftrightarrow>
      experiment_dump c = experiment_dump c'"
  proof
    assume "\<forall>digest. experiment_config_hash digest c = experiment_config_hash digest c'"
    from spec [OF this, of "\<lambda>j. if j = experiment_dump c then ''a'' else ''b''"]
    show "experiment_dump c = experiment_dump c'" by (simp add: experiment_config_hash_def split: if_splits)
  qed (simp add: experiment_config_hash_def)
  also have "\<dots> \<longleftrightarrow> c\<lparr>exp_admission := active_settings (exp_admission c)\<rparr>
      = c'\<lparr>exp_admission := active_settings (exp_admission c')\<rparr>"
    by (cases c; cases c') (auto simp: experiment_dump_def dump_inject admission_dump_inject)
  finally show ?thesis .
qed

end
