(* ===== verification/RunMetadata.thy ===== *)
theory RunMetadata
  imports PyText Benchmark ConfigHash "HOL-Library.Sublist"
begin

text \<open>
  What a run records of its machine: the GPU sampler (src/sloserve/experiments/gpu.py) as a step
  relation over its context manager and the ticks of its task, and the environment string
  (src/sloserve/experiments/metadata.py). The processes and package metadata they read are parameters:
  a finished process is its return code and its decoded output, a read that raises is an error value.
\<close>

section \<open>Reading the GPU\<close>

record process_outcome =
  returncode :: int
  stdout_text :: string
  stderr_text :: string

definition read_nvidia_smi_gpu :: "process_outcome result \<Rightarrow> string result" where
  "read_nvidia_smi_gpu process =
     and_then process (\<lambda>p.
     if returncode p \<noteq> 0
     then let text = strip_text (stderr_text p);
              detail = (if text \<noteq> [] then text else ''unknown nvidia-smi error'') in
          Inl (RuntimeError (''nvidia-smi GPU query failed: '' @ detail))
     else case nonblank_lines (stdout_text p) of
            [] \<Rightarrow> Inl (ValueError ''nvidia-smi GPU query returned no rows'')
          | line # _ \<Rightarrow> Inr line)"

definition float_of_text :: "conversions \<Rightarrow> string \<Rightarrow> pyfloat result" where
  "float_of_text conv s =
     (case float_text conv s of
        None \<Rightarrow> Inl (ValueError ''could not convert string to float'')
      | Some x \<Rightarrow> Inr x)"

definition parse_power :: "conversions \<Rightarrow> string \<Rightarrow> real option" where
  "parse_power conv s =
     (case float_of_text conv s of
        Inl _ \<Rightarrow> None
      | Inr x \<Rightarrow> if isfinite x then Some (real_of x) else None)"

definition parse_gpu_row :: "conversions \<Rightarrow> string \<Rightarrow> (real \<times> real \<times> real option) result" where
  "parse_gpu_row conv raw =
     (case nonblank_lines raw of
        [] \<Rightarrow> Inl (ValueError ''GPU sample is empty'')
      | line # _ \<Rightarrow>
          (case map strip_text (split_on CHR '','' line) of
             [utilization_text, memory_text, power_text] \<Rightarrow>
               and_then (float_of_text conv utilization_text) (\<lambda>utilization.
               and_then (float_of_text conv memory_text) (\<lambda>memory_used.
               if \<not> isfinite utilization \<or> \<not> isfinite memory_used
               then Inl (ValueError ''GPU utilization and memory must be finite'')
               else Inr (real_of utilization, real_of memory_used, parse_power conv power_text)))
           | _ \<Rightarrow> Inl (ValueError ''GPU sample must contain utilization, memory, and power'')))"

section \<open>The sampler\<close>

text \<open>\<open>sampler_running\<close> says whether \<open>_task\<close> is set.\<close>

record NvidiaSmiSampler =
  interval_s :: real
  sampler_samples :: "GpuSample list"
  sampler_running :: bool

definition NvidiaSmiSampler_init :: "real \<Rightarrow> NvidiaSmiSampler result" where
  "NvidiaSmiSampler_init interval =
     checked [(interval \<le> 0, ValueError ''interval_s must be positive'')]
       \<lparr>interval_s = interval, sampler_samples = [], sampler_running = False\<rparr>"

definition sampler_enter :: "NvidiaSmiSampler \<Rightarrow> NvidiaSmiSampler result" where
  "sampler_enter s =
     (if sampler_running s then Inl (RuntimeError ''GPU sampler is already running'')
      else Inr (s\<lparr>sampler_running := True\<rparr>))"

definition sampler_exit :: "NvidiaSmiSampler \<Rightarrow> NvidiaSmiSampler" where
  "sampler_exit s = s\<lparr>sampler_running := False\<rparr>"

text \<open>One pass of \<open>_sample_loop\<close>: what the reader gave, and the clock once the row is parsed.\<close>

definition sample_tick :: "conversions \<Rightarrow> string result \<Rightarrow> real \<Rightarrow> NvidiaSmiSampler \<Rightarrow> NvidiaSmiSampler" where
  "sample_tick conv raw now_s s =
     (case and_then raw (parse_gpu_row conv) of
        Inl _ \<Rightarrow> s
      | Inr (utilization, memory_used, watts) \<Rightarrow>
          s\<lparr>sampler_samples := sampler_samples s @
             [\<lparr>gpu_timestamp_s = now_s, gpu_utilization_percent = utilization,
               gpu_memory_used_mib = memory_used, gpu_power_w = watts\<rparr>]\<rparr>)"

datatype sampler_event = Entered | Ticked "string result" real | Exited

inductive sampler_step :: "conversions \<Rightarrow> NvidiaSmiSampler \<Rightarrow> sampler_event \<Rightarrow> NvidiaSmiSampler \<Rightarrow> bool"
  for conv where
  entered: "sampler_enter s = Inr s' \<Longrightarrow> sampler_step conv s Entered s'"
| ticked: "sampler_running s \<Longrightarrow> sampler_step conv s (Ticked raw now_s) (sample_tick conv raw now_s s)"
| exited: "sampler_step conv s Exited (sampler_exit s)"

inductive_cases sampler_stepE: "sampler_step conv s ev s'"

inductive sampler_run :: "conversions \<Rightarrow> NvidiaSmiSampler \<Rightarrow> sampler_event list \<Rightarrow> NvidiaSmiSampler \<Rightarrow> bool"
  for conv where
  run_none: "sampler_run conv s [] s"
| run_more: "sampler_run conv s evs s' \<Longrightarrow> sampler_step conv s' ev s'' \<Longrightarrow> sampler_run conv s (evs @ [ev]) s''"

section \<open>The environment string\<close>

definition unavailable :: string where
  "unavailable = ''unavailable''"

definition read_or_unavailable :: "string result \<Rightarrow> string" where
  "read_or_unavailable reader =
     (case reader of
        Inl _ \<Rightarrow> unavailable
      | Inr s \<Rightarrow> (let v = strip_text s in if v \<noteq> [] then v else unavailable))"

text \<open>\<open>check=True\<close> makes the process raise when its return code is not zero.\<close>

definition read_driver_version :: "process_outcome result \<Rightarrow> string result" where
  "read_driver_version process =
     and_then process (\<lambda>p.
     if returncode p \<noteq> 0 then Inl (RuntimeError ''CalledProcessError'')
     else case nonblank_lines (stdout_text p) of
            [] \<Rightarrow> Inl (ValueError ''nvidia-smi driver query returned no rows'')
          | line # _ \<Rightarrow> Inr line)"

definition environment_fields ::
    "(json \<Rightarrow> string) \<Rightarrow> int \<times> int \<times> int \<Rightarrow> ExperimentConfig \<Rightarrow> string result \<Rightarrow> string result \<Rightarrow> string result \<Rightarrow>
     (string \<times> string) list" where
  "environment_fields digest python c driver_reader vllm_reader torch_reader =
     (case python of (major, minor, micro) \<Rightarrow>
     [(''python'', join_with ''.'' (map int_str [major, minor, micro])),
      (''driver'', read_or_unavailable driver_reader),
      (''model_revision'', model_revision (exp_backend c)),
      (''config_hash'', experiment_config_hash digest c),
      (''vllm'', read_or_unavailable vllm_reader),
      (''torch'', read_or_unavailable torch_reader)])"

definition capture_environment ::
    "(json \<Rightarrow> string) \<Rightarrow> int \<times> int \<times> int \<Rightarrow> ExperimentConfig \<Rightarrow> string result \<Rightarrow> string result \<Rightarrow> string result \<Rightarrow>
     string" where
  "capture_environment digest python c driver_reader vllm_reader torch_reader =
     join_with '';'' (map (\<lambda>(field_name, v). field_name @ ''='' @ v)
       (environment_fields digest python c driver_reader vllm_reader torch_reader))"

section \<open>What is read\<close>

text \<open>The first row of the tool is read back, whatever it prints for other devices.\<close>

definition cell :: "string \<Rightarrow> bool" where
  "cell s \<longleftrightarrow> is_word s \<and> plain s \<and> CHR '','' \<notin> set s"

lemma cell_strip: "cell s \<Longrightarrow> strip_text s = s" "cell s \<Longrightarrow> strip_text (CHR '' '' # s) = s"
  using strip_word strip_blanks [of s "'' ''" "[]"] by (auto simp: cell_def is_space_def)

lemma row_is_word:
  assumes "cell u" and "cell m" and "cell p"
  shows "is_word (u @ '', '' @ m @ '', '' @ p) \<and> plain (u @ '', '' @ m @ '', '' @ p)"
  using assms by (auto simp: cell_def is_word_def plain_def is_line_end_def)

lemma gpu_row_parsed:
  assumes "cell u" and "cell m" and "cell p" and "float_text conv u = Some (Fin x)" and "float_text conv m = Some (Fin y)"
  shows "parse_gpu_row conv (u @ '', '' @ m @ '', '' @ p @ ''\<newline>'') = Inr (x, y, parse_power conv p)"
proof -
  let ?row = "u @ '', '' @ m @ '', '' @ p"
  obtain rest where "nonblank_lines (?row @ ''\<newline>'' @ []) = ?row # rest"
    using first_nonblank [of ?row "[]"] row_is_word [OF assms(1-3)] by blast
  moreover have "split_on CHR '','' ?row = [u, CHR '' '' # m, CHR '' '' # p]"
    using assms(1-3) split_on_append [of "CHR '',''" u] split_on_append [of "CHR '',''" "CHR '' '' # m"]
      split_on_absent [of "CHR '',''" "CHR '' '' # p"]
    by (simp add: cell_def)
  ultimately show ?thesis
    using assms(4,5) by (simp add: parse_gpu_row_def cell_strip assms(1-3) float_of_text_def)
qed

lemma gpu_row_read:
  assumes "cell u" and "cell m" and "cell p" and "returncode process = 0"
    and "stdout_text process = u @ '', '' @ m @ '', '' @ p @ ''\<newline>'' @ others"
  shows "read_nvidia_smi_gpu (Inr process) = Inr (u @ '', '' @ m @ '', '' @ p)"
  using first_nonblank [of "u @ '', '' @ m @ '', '' @ p" others] row_is_word [OF assms(1-3)] assms(4,5)
  by (auto simp: read_nvidia_smi_gpu_def)

section \<open>Runs of the sampler\<close>

definition reading :: "conversions \<Rightarrow> sampler_event \<Rightarrow> GpuSample option" where
  "reading conv ev =
     (case ev of
        Ticked raw now_s \<Rightarrow>
          (case and_then raw (parse_gpu_row conv) of
             Inl _ \<Rightarrow> None
           | Inr (utilization, memory_used, watts) \<Rightarrow>
               Some \<lparr>gpu_timestamp_s = now_s, gpu_utilization_percent = utilization,
                 gpu_memory_used_mib = memory_used, gpu_power_w = watts\<rparr>)
      | _ \<Rightarrow> None)"

definition is_tick :: "sampler_event \<Rightarrow> bool" where
  "is_tick ev = (case ev of Ticked _ _ \<Rightarrow> True | _ \<Rightarrow> False)"

definition entered_last :: "sampler_event list \<Rightarrow> bool" where
  "entered_last evs = (let es = filter (\<lambda>ev. \<not> is_tick ev) evs in es \<noteq> [] \<and> last es = Entered)"

lemma entered_last_snoc:
  "entered_last [] = False"
  "entered_last (evs @ [ev]) = (if is_tick ev then entered_last evs else ev = Entered)"
  by (simp_all add: entered_last_def Let_def)

lemma sampler_run_facts:
  assumes "sampler_run conv s0 evs s" and "sampler_samples s0 = []" and "\<not> sampler_running s0"
  shows "sampler_samples s = List.map_filter (reading conv) evs \<and> sampler_running s = entered_last evs \<and>
    (\<forall>before ev. prefix (before @ [ev]) evs \<longrightarrow> is_tick ev \<longrightarrow> entered_last before)"
  using assms
proof (induction rule: sampler_run.induct)
  case (run_none s)
  then show ?case by (simp add: entered_last_snoc)
next
  case (run_more s evs s' ev s'')
  have step: "sampler_samples s'' = sampler_samples s' @ List.map_filter (reading conv) [ev] \<and>
      sampler_running s'' = (if is_tick ev then sampler_running s' else ev = Entered) \<and>
      (is_tick ev \<longrightarrow> sampler_running s')"
    using run_more.hyps(2)
    by (cases rule: sampler_stepE)
      (auto simp: sampler_enter_def sampler_exit_def sample_tick_def reading_def is_tick_def map_filter_simps
        split: if_splits sum.split)
  then show ?case
    using run_more.IH [OF run_more.prems] by (auto simp: map_filter_append entered_last_snoc prefix_snoc)
qed

text \<open>
  C39. A run of the sampler keeps exactly the readable ticks. Whatever the reader gives and in whatever
  order the context is entered and left, the samples are the ticks whose row was read and parsed, in
  order and with their clock readings: a failed or malformed tick neither stops the sampling nor leaves
  a placeholder, and ticks happen only while the context is entered. The report of the run then has a
  utilization exactly when some tick was readable, with a mean no larger than a peak that was measured;
  otherwise it gives the reason that there was no sampler, although there was one.
\<close>

theorem sampler_reports_readable_ticks:
  assumes "NvidiaSmiSampler_init interval = Inr s0" and "sampler_run conv s0 evs s"
  shows "sampler_samples s = List.map_filter (reading conv) evs \<and>
    (\<forall>before ev. prefix (before @ [ev]) evs \<longrightarrow> is_tick ev \<longrightarrow> entered_last before) \<and>
    (if \<forall>ev \<in> set evs. reading conv ev = None
     then map_of (gpu_report (Some (sampler_samples s))) ''utilization_percent''
       = Some (missing_field gpu_not_collected_reason)
     else \<exists>mean peak. map_of (gpu_report (Some (sampler_samples s))) ''utilization_percent''
         = Some (value_field (JObject [(''mean'', JFloat mean), (''peak'', JFloat peak)])) \<and> mean \<le> peak \<and>
       peak \<in> gpu_utilization_percent ` set (sampler_samples s) \<and>
       (\<forall>x \<in> set (sampler_samples s). gpu_utilization_percent x \<le> peak))"
proof -
  have "sampler_samples s0 = []" "\<not> sampler_running s0"
    using assms(1) by (auto simp: NvidiaSmiSampler_init_def checked_Inr)
  note facts = sampler_run_facts [OF assms(2) this]
  let ?xs = "sampler_samples s"
  have empty: "(\<forall>ev \<in> set evs. reading conv ev = None) \<longleftrightarrow> ?xs = []"
    using facts by (auto simp: List.map_filter_def filter_empty_conv)
  have "\<exists>mean peak. map_of (gpu_report (Some ?xs)) ''utilization_percent''
         = Some (value_field (JObject [(''mean'', JFloat mean), (''peak'', JFloat peak)])) \<and> mean \<le> peak \<and>
       peak \<in> gpu_utilization_percent ` set ?xs \<and> (\<forall>x \<in> set ?xs. gpu_utilization_percent x \<le> peak)"
    if ne: "?xs \<noteq> []"
  proof -
    let ?us = "map gpu_utilization_percent ?xs"
    have "average ?us \<le> Max (set ?us)" using average_bounds(2) [of ?us "Min (set ?us)"] ne by simp
    moreover have "map_of (gpu_report (Some ?xs)) ''utilization_percent''
        = Some (value_field (JObject [(''mean'', JFloat (average ?us)), (''peak'', JFloat (Max (set ?us)))]))"
      using ne by (cases ?xs) (simp_all add: gpu_report_def Let_def)
    moreover have "Max (set ?us) \<in> set ?us" using ne by (intro Max_in) simp_all
    moreover have "\<forall>x \<in> set ?xs. gpu_utilization_percent x \<le> Max (set ?us)" by (auto intro!: Max_ge)
    ultimately show ?thesis by (intro exI [of _ "average ?us"] exI [of _ "Max (set ?us)"]) auto
  qed
  then show ?thesis using facts empty by (auto simp: gpu_report_def)
qed

text \<open>The run of the sampler's tests: a row without power, then a failed query.\<close>

definition sample_conv :: conversions where
  "sample_conv = \<lparr>int_text = \<lambda>s. None,
     float_text = \<lambda>s. if s = ''45'' then Some (Fin 45) else if s = ''6136'' then Some (Fin 6136) else None,
     str_of = \<lambda>v. []\<rparr>"

theorem sampler_reports_readable_ticks_witness:
  "\<exists>(s :: NvidiaSmiSampler) mean peak. sampler_samples s = [\<lparr>gpu_timestamp_s = 101, gpu_utilization_percent = 45, gpu_memory_used_mib = 6136,
       gpu_power_w = None\<rparr>] \<and>
    map_of (gpu_report (Some (sampler_samples s))) ''utilization_percent''
      = Some (value_field (JObject [(''mean'', JFloat mean), (''peak'', JFloat peak)])) \<and> mean \<le> peak"
proof -
  let ?s0 = "\<lparr>interval_s = 1/2, sampler_samples = [], sampler_running = False\<rparr>"
  let ?row = "Ticked (Inr ''45, 6136, [N/A]\<newline>'') 101" and ?failed = "Ticked (Inl (RuntimeError ''offline'')) 102"
  have row: "parse_gpu_row sample_conv ''45, 6136, [N/A]\<newline>'' = Inr (45, 6136, None)"
    using gpu_row_parsed [of "''45''" "''6136''" "''[N/A]''" sample_conv 45 6136]
    by (simp add: cell_def is_word_def plain_def is_space_def is_line_end_def sample_conv_def parse_power_def float_of_text_def)
  obtain s where s: "sampler_run sample_conv ?s0 [Entered, ?row, ?failed, Exited] s"
    using run_more [OF run_more [OF run_more [OF run_more [OF run_none [of sample_conv ?s0] entered] ticked] ticked] exited,
        of "?s0\<lparr>sampler_running := True\<rparr>" "Inr ''45, 6136, [N/A]\<newline>''" 101 "Inl (RuntimeError ''offline'')" 102]
    by (simp add: sampler_enter_def sample_tick_def row)
  have "NvidiaSmiSampler_init (1/2) = Inr ?s0" by (simp add: NvidiaSmiSampler_init_def checked_def raise_if.simps)
  note facts = sampler_reports_readable_ticks [OF this s]
  have "reading sample_conv ?row \<noteq> None" by (simp add: reading_def row)
  then obtain mean peak where "map_of (gpu_report (Some (sampler_samples s))) ''utilization_percent''
      = Some (value_field (JObject [(''mean'', JFloat mean), (''peak'', JFloat peak)]))" "mean \<le> peak"
    using facts by fastforce
  moreover have "sampler_samples s = [\<lparr>gpu_timestamp_s = 101, gpu_utilization_percent = 45, gpu_memory_used_mib = 6136,
       gpu_power_w = None\<rparr>]"
    using facts by (simp add: reading_def row map_filter_simps)
  ultimately show ?thesis by blast
qed

section \<open>The environment string is read back\<close>

lemma split_on_join:
  assumes "parts \<noteq> []" and "\<forall>f \<in> set parts. sep \<notin> set f"
  shows "split_on sep (join_with [sep] parts) = parts"
  using assms
proof (induction "[sep]" parts rule: join_with.induct)
  case (3 s t ts)
  then show ?case by (simp add: split_on_append)
qed (simp_all add: split_on_absent)

lemma environment_read_back:
  assumes "\<forall>(field_name, v) \<in> set (environment_fields digest python c d w t). CHR '';'' \<notin> set v"
  shows "split_on CHR '';'' (capture_environment digest python c d w t)
    = map (\<lambda>(field_name, v). field_name @ ''='' @ v) (environment_fields digest python c d w t)"
  unfolding capture_environment_def
  by (rule split_on_join) (use assms in \<open>auto simp: environment_fields_def split: prod.splits\<close>)

lemma environment_not_empty: "capture_environment digest python c d w t \<noteq> []"
  by (simp add: capture_environment_def environment_fields_def split: prod.split)

end
