(* ===== verification/Commands.thy ===== *)
theory Commands
  imports RunMetadata Sweep Correctness Figures
begin

text \<open>
  The command line (src/sloserve/cli.py). A command is its parsed arguments and gives the lines it prints, or raises. What the process finds
  outside is the record \<open>cli_world\<close>: files as their parsed YAML, the benchmark's world for every
  backend the command constructs, what the GPU samplers it makes collect, the environment, and the text formats
  (\<open>json.dumps\<close> with sorted keys, \<open>shlex.join\<close>, \<open>str\<close> of a float). Parsing the arguments is argparse's.
\<close>

section \<open>Arguments and surroundings\<close>

datatype serve_format = ShellFormat | JsonFormat | LinesFormat

datatype cli_command =
    ConfigCheck string
  | ServeCommand string serve_format
  | RunBenchmark string
  | RunCorrectness string
  | RunSweep string
  | PlotResults string string

text \<open>The HTTP client a command opens, and the streaming backend over it.\<close>

record ClientSettings =
  client_base_url :: string
  client_timeout_s :: real

record StreamingBackend =
  stream_url :: string
  stream_model :: string
  stream_timeout_s :: real
  stream_client :: ClientSettings

record 'g cli_world =
  yaml_file :: "string \<Rightarrow> yaml_text"
  cli_loader :: loader
  dumps_sorted :: "json \<Rightarrow> string"
  dumps_list :: "string list \<Rightarrow> string"
  shlex_join :: "string list \<Rightarrow> string"
  repr_float :: "real \<Rightarrow> string"
  cli_conversions :: conversions
  cli_urlsplit :: "string \<Rightarrow> string option \<times> int option"
  cli_digest :: "json \<Rightarrow> string"
  python_version :: "int \<times> int \<times> int"
  driver_version :: "string result"
  vllm_version :: "string result"
  torch_version :: "string result"
  single_world :: "StreamingBackend \<Rightarrow> 'g benchmark_world"
  policy_world :: "StreamingBackend \<Rightarrow> SchedulerPolicyName \<Rightarrow> 'g benchmark_world"
  point_world :: "StreamingBackend \<Rightarrow> nat \<Rightarrow> 'g benchmark_world"
  single_samples :: "NvidiaSmiSampler \<Rightarrow> GpuSample list"
  policy_samples :: "NvidiaSmiSampler \<Rightarrow> SchedulerPolicyName \<Rightarrow> GpuSample list"
  point_samples :: "NvidiaSmiSampler \<Rightarrow> nat \<Rightarrow> GpuSample list"
  csv_file :: "string \<Rightarrow> (string list \<times> string list list) option result"

definition read_config :: "'g cli_world \<Rightarrow> string \<Rightarrow> ExperimentConfig result" where
  "read_config W path = load_config (validate_experiment (cli_loader W)) (yaml_file W path)"

definition read_sweep :: "'g cli_world \<Rightarrow> string \<Rightarrow> SweepDefinition result" where
  "read_sweep W path = load_sweep_config (cli_loader W) (yaml_file W path)"

definition cli_environment :: "'g cli_world \<Rightarrow> ExperimentConfig \<Rightarrow> string" where
  "cli_environment W c = capture_environment (cli_digest W) (python_version W) c (driver_version W)
     (vllm_version W) (torch_version W)"

text \<open>\<open>except ValueError\<close>: the subclasses of \<open>ValueError\<close> are caught too.\<close>

fun is_value_error :: "py_error \<Rightarrow> bool" where
  "is_value_error (ValueError _) = True"
| "is_value_error (ValidationError _) = True"
| "is_value_error (StatisticsError _) = True"
| "is_value_error (ExpLIntegrityError _) = True"
| "is_value_error (PreRegistrationFailure _) = True"
| "is_value_error _ = False"

section \<open>What the commands print\<close>

definition config_summary :: "ExperimentConfig \<Rightarrow> nat option \<Rightarrow> json" where
  "config_summary c point_count = JObject
    ([(''model'', JString (backend_model (exp_backend c))),
      (''model_revision'', JString (model_revision (exp_backend c))),
      (''policy'', JString (policy_value (router_policy (exp_router c)))),
      (''random_seed'', JInt (random_seed (exp_workload c))),
      (''repetitions'', JInt (repetitions (exp_workload c))),
      (''tokenizer_revision'', JString (tokenizer_revision (exp_backend c)))]
     @ (case point_count of None \<Rightarrow> [] | Some n \<Rightarrow> [(''sweep_points'', JInt (int n))]))"

definition checked_config :: "'g cli_world \<Rightarrow> string \<Rightarrow> (ExperimentConfig \<times> nat option) result" where
  "checked_config W path =
     (case read_sweep W path of
        Inr sweep \<Rightarrow> Inr (base_config sweep, Some (length (points sweep)))
      | Inl e \<Rightarrow>
          if is_value_error e then and_then (read_config W path) (\<lambda>c. Inr (c, None))
          else Inl e)"

definition config_check :: "'g cli_world \<Rightarrow> string \<Rightarrow> string list result" where
  "config_check W path =
     and_then (checked_config W path) (\<lambda>(c, n). Inr [dumps_sorted W (config_summary c n)])"

definition serve_command :: "'g cli_world \<Rightarrow> string \<Rightarrow> serve_format \<Rightarrow> string list result" where
  "serve_command W path fmt =
     and_then (read_config W path) (\<lambda>c.
     let serve_args = vllm_serve_args (repr_float W) c in
     Inr (case fmt of
        JsonFormat \<Rightarrow> [dumps_list W (''vllm'' # serve_args)]
      | LinesFormat \<Rightarrow> serve_args
      | ShellFormat \<Rightarrow> [shlex_join W (''vllm'' # serve_args)]))"

definition benchmark_summary :: "BenchmarkResult \<Rightarrow> json" where
  "benchmark_summary r = (let m = bench_metrics r in JObject
    [(''scope'', JString (scope_note (bench_report r))),
     (''formal_requests'', JInt (int (ms_request_count m))), (''success'', JInt (int (ms_success_count m))),
     (''error'', JInt (int (ms_error_count m))), (''timeout'', JInt (int (ms_timeout_count m))),
     (''cancelled'', JInt (int (ms_cancelled_count m))), (''rejected'', JInt (int (ms_rejected_count m)))])"

definition correctness_summary :: "CorrectnessReport \<Rightarrow> json" where
  "correctness_summary r = JObject
    [(''scope'', JString (cr_scope_note r)),
     (''policies'', JArray (map (\<lambda>p. JObject
        [(''policy_name'', JString (pc_policy_name p)), (''verdict'', JString (verdict_name (pc_verdict p))),
         (''max_queue_wait_s'', JFloat (pc_max_queue_wait_s p)), (''aging_bound_s'', JFloat (pc_aging_bound_s p)),
         (''max_queue_depth'', JInt (pc_max_queue_depth p))]) (cr_policies r)))]"

definition sweep_summary :: "conversions \<Rightarrow> SweepResult \<Rightarrow> json" where
  "sweep_summary conv r = JObject
    [(''points'', JInt (int (length (sweep_rows r)))),
     (''policies'', JArray (map JString (sorted_list_of_set
        (set (map (\<lambda>row. py_str conv (json_get row ''policy'')) (sweep_rows r))))))]"

section \<open>Runtimes\<close>

definition open_client :: "ExperimentConfig \<Rightarrow> ClientSettings" where
  "open_client c = \<lparr>client_base_url = base_url (exp_backend c), client_timeout_s = request_timeout_s (exp_backend c)\<rparr>"

definition HttpStreamingBackend_init :: "BackendConfig \<Rightarrow> ClientSettings \<Rightarrow> StreamingBackend" where
  "HttpStreamingBackend_init c client =
     \<lparr>stream_url = completions_url c, stream_model = backend_model c, stream_timeout_s = request_timeout_s c,
      stream_client = client\<rparr>"

record BenchmarkRuntime =
  runtime_config :: ExperimentConfig
  runtime_client :: ClientSettings
  runtime_backend :: StreamingBackend
  runtime_sampler :: NvidiaSmiSampler
  runtime_env_version :: string

definition build_benchmark_runtime :: "ExperimentConfig \<Rightarrow> string \<Rightarrow> BenchmarkRuntime result" where
  "build_benchmark_runtime c env_version =
     (let client = open_client c; backend = HttpStreamingBackend_init (exp_backend c) client in
      and_then (NvidiaSmiSampler_init (gpu_sample_interval_s (exp_metrics c))) (\<lambda>sampler.
      Inr \<lparr>runtime_config = c, runtime_client = client, runtime_backend = backend, runtime_sampler = sampler,
        runtime_env_version = env_version\<rparr>))"

text \<open>The factories of the other two runtimes construct the same objects at every call.\<close>

record CorrectnessRuntime =
  lazy_config :: ExperimentConfig
  make_backend :: StreamingBackend
  make_gpu_sampler :: "NvidiaSmiSampler result"
  lazy_env_version :: string

record SweepRuntime = CorrectnessRuntime +
  lazy_points :: "SweepPoint list"

definition build_correctness_runtime :: "ExperimentConfig \<Rightarrow> string \<Rightarrow> CorrectnessRuntime" where
  "build_correctness_runtime c env_version =
     \<lparr>lazy_config = c, make_backend = HttpStreamingBackend_init (exp_backend c) (open_client c),
      make_gpu_sampler = NvidiaSmiSampler_init (gpu_sample_interval_s (exp_metrics c)), lazy_env_version = env_version\<rparr>"

definition build_sweep_runtime :: "ExperimentConfig \<Rightarrow> SweepPoint list \<Rightarrow> string \<Rightarrow> SweepRuntime" where
  "build_sweep_runtime c ps env_version =
     \<lparr>lazy_config = c, make_backend = HttpStreamingBackend_init (exp_backend c) (open_client c),
      make_gpu_sampler = NvidiaSmiSampler_init (gpu_sample_interval_s (exp_metrics c)), lazy_env_version = env_version,
      lazy_points = ps\<rparr>"

definition run_benchmark_runtime :: "'g cli_world \<Rightarrow> BenchmarkRuntime \<Rightarrow> BenchmarkResult result" where
  "run_benchmark_runtime W rt =
     run_benchmark (single_world W (runtime_backend rt)) (runtime_config rt) (runtime_env_version rt) None
       (Some (single_samples W (runtime_sampler rt))) ''benchmark-requests''"

text \<open>
  The sampler is made at the first policy or point, before anything is sent; the environment is not
  empty (below), so a sampler that cannot be made is what the run raises.
\<close>

definition run_correctness_runtime :: "'g cli_world \<Rightarrow> CorrectnessRuntime \<Rightarrow> CorrectnessReport result" where
  "run_correctness_runtime W rt =
     and_then (make_gpu_sampler rt) (\<lambda>sampler.
     run_correctness_experiment (policy_world W (make_backend rt)) (\<lambda>p. Some (policy_samples W sampler p))
       (experiment_config_hash (cli_digest W)) (lazy_config rt) (lazy_env_version rt) default_policies (Fin 2))"

definition run_sweep_runtime :: "'g cli_world \<Rightarrow> SweepRuntime \<Rightarrow> SweepResult result" where
  "run_sweep_runtime W rt =
     and_then (make_gpu_sampler rt) (\<lambda>sampler.
     run_sweep (cli_conversions W) (cli_urlsplit W) (dumps_sorted W) (point_world W (make_backend rt))
       (\<lambda>i. Some (point_samples W sampler i)) (lazy_config rt) (lazy_points rt) (lazy_env_version rt))"

section \<open>The commands\<close>

definition benchmark_command :: "'g cli_world \<Rightarrow> string \<Rightarrow> string list result" where
  "benchmark_command W path =
     and_then (read_config W path) (\<lambda>c.
     and_then (build_benchmark_runtime c (cli_environment W c)) (\<lambda>rt.
     and_then (run_benchmark_runtime W rt) (\<lambda>r.
     Inr [''completeness_report='' @ bench_report_path r, dumps_sorted W (benchmark_summary r)])))"

definition correctness_command :: "'g cli_world \<Rightarrow> string \<Rightarrow> string list result" where
  "correctness_command W path =
     and_then (read_config W path) (\<lambda>c.
     and_then (run_correctness_runtime W (build_correctness_runtime c (cli_environment W c))) (\<lambda>r.
     Inr [''correctness_report='' @ correctness_report_path (output_directory (exp_metrics c)),
          dumps_sorted W (correctness_summary r)]))"

definition sweep_command :: "'g cli_world \<Rightarrow> string \<Rightarrow> string list result" where
  "sweep_command W path =
     and_then (read_sweep W path) (\<lambda>d.
     and_then (run_sweep_runtime W (build_sweep_runtime (base_config d) (points d) (cli_environment W (base_config d))))
       (\<lambda>r. Inr [''sweep_results_csv='' @ sweep_csv_path r,
                 dumps_sorted W (sweep_summary (cli_conversions W) r)]))"

fun cli_main :: "'g cli_world \<Rightarrow> cli_command \<Rightarrow> string list result" where
  "cli_main W (ConfigCheck path) = config_check W path"
| "cli_main W (ServeCommand path fmt) = serve_command W path fmt"
| "cli_main W (RunBenchmark path) = benchmark_command W path"
| "cli_main W (RunCorrectness path) = correctness_command W path"
| "cli_main W (RunSweep path) = sweep_command W path"
| "cli_main W (PlotResults results out) =
     and_then (plot_sweep_results (cli_conversions W) (and_then (csv_file W results) read_sweep_results_csv) out)
       (\<lambda>written. Inr (map (\<lambda>(path, _). ''figure='' @ path) written))"

section \<open>What a command reads and runs\<close>

text \<open>
  Checking a configuration accepts a file exactly when it is a sweep, or is no sweep for a reason that
  is a value error and an experiment; then it prints one line. It runs nothing, whatever the world.
\<close>

lemma config_check_accepts:
  "(\<exists>out. cli_main W (ConfigCheck path) = Inr out) \<longleftrightarrow>
   (\<exists>d. read_sweep W path = Inr d) \<or>
   (\<exists>e c. read_sweep W path = Inl e \<and> is_value_error e \<and> read_config W path = Inr c)"
  by (cases "read_sweep W path"; cases "read_config W path") (auto simp: config_check_def checked_config_def)

text \<open>
  A broken sweep is not taken for an experiment: models forbid unknown fields, so a file with points
  never validates as an experiment, and the check fails with the sweep.
\<close>

lemma broken_sweep_rejected:
  assumes "yaml_file W path = Yaml (JObject raw)" and "map_of raw ''points'' \<noteq> None" and "read_sweep W path = Inl e"
    and forbidden: "\<And>raw. map_of raw ''points'' \<noteq> None \<Longrightarrow> \<exists>e. validate_experiment (cli_loader W) raw = Inl e"
  shows "\<exists>e'. cli_main W (ConfigCheck path) = Inl e'"
  using forbidden [OF assms(2)] assms(1,3)
  by (auto simp: config_check_def checked_config_def read_config_def load_config_def)

text \<open>The environment a command passes on is never empty, so no run is refused for it.\<close>

lemma cli_environment_not_empty: "cli_environment W c \<noteq> []"
  by (simp add: cli_environment_def environment_not_empty)

text \<open>
  A validated configuration builds its runtime, whose client and backend time out together with the
  queue and call the completions endpoint of the configured server.
\<close>

lemma valid_experiment_metrics:
  assumes "valid_experiment urlsplit c"
  shows "0 < gpu_sample_interval_s (exp_metrics c)"
  using assms
  by (auto simp: valid_experiment_def ExperimentConfig_init_def and_then_Inr MetricsConfig_init_def raise_simps)

lemma runtime_of_valid_config:
  assumes "valid_experiment urlsplit c"
  shows "\<exists>rt. build_benchmark_runtime c env = Inr rt \<and> runtime_config rt = c \<and>
    stream_url (runtime_backend rt) = completions_url (exp_backend c) \<and>
    stream_timeout_s (runtime_backend rt) = request_timeout_s (exp_backend c) \<and>
    client_timeout_s (stream_client (runtime_backend rt)) = request_timeout_s (exp_backend c) \<and>
    sampler_samples (runtime_sampler rt) = [] \<and> \<not> sampler_running (runtime_sampler rt)"
  using valid_experiment_metrics [OF assms]
  by (simp add: build_benchmark_runtime_def Let_def NvidiaSmiSampler_init_def checked_def raise_if.simps
      HttpStreamingBackend_init_def open_client_def)

lemma benchmark_command_prints:
  assumes "cli_main W (RunBenchmark path) = Inr out"
  obtains c rt r where "read_config W path = Inr c" and "build_benchmark_runtime c (cli_environment W c) = Inr rt"
    and "run_benchmark_runtime W rt = Inr r"
    and "out = [''completeness_report='' @ bench_report_path r, dumps_sorted W (benchmark_summary r)]"
  using assms by (auto simp: benchmark_command_def and_then_Inr)

end
