(* ===== verification/Arguments.thy ===== *)
theory Arguments
  imports Labels "HOL-Library.Sublist"
begin

text \<open>
  What the command line and the scripts use of the standard library's argument parser (Python 3.11): a
  parser has options, which take one value, none, or show the help, and no positional argument but the
  name of a subcommand. Arguments are classified first, all of them; then options are taken from left
  to right. Options may be abbreviated and written with \<open>=\<close>. A parse accepts, exits after the help
  (status 0) or exits with a usage error (status 2).
\<close>

section \<open>Parsers\<close>

text \<open>A value is converted and checked when its option is taken.\<close>

datatype option_kind = TakesValue "string \<Rightarrow> bool" | TakesNone | ShowsHelp

type_synonym option_table = "(string \<times> option_kind) list"

datatype 'a parse_outcome = Accepted 'a | HelpShown | UsageError

fun then_parse :: "'a parse_outcome \<Rightarrow> ('a \<Rightarrow> 'b parse_outcome) \<Rightarrow> 'b parse_outcome" where
  "then_parse (Accepted x) f = f x"
| "then_parse HelpShown f = HelpShown"
| "then_parse UsageError f = UsageError"

definition with_help :: "option_table \<Rightarrow> option_table" where
  "with_help table = (''-h'', ShowsHelp) # (''--help'', ShowsHelp) # table"

section \<open>Classification\<close>

text \<open>An option carries the text written with it, and whether \<open>=\<close> separates the two.\<close>

datatype arg_class =
    AsArgument
  | AfterSeparator
  | UnknownOption
  | KnownOption string "(bool \<times> string) option"

text \<open>\<open>arg.partition("=")\<close>\<close>

definition before_equals :: "string \<Rightarrow> string" where
  "before_equals s = takeWhile (\<lambda>ch. ch \<noteq> CHR ''='') s"

definition after_equals :: "string \<Rightarrow> (bool \<times> string) option" where
  "after_equals s = (if CHR ''='' \<in> set s then Some (True, drop (Suc (length (before_equals s))) s) else None)"

text \<open>\<open>^-\d+$|^-\d*\.\d+$\<close>, for an argument that starts with a dash.\<close>

definition looks_negative :: "string \<Rightarrow> bool" where
  "looks_negative s = (let number = chop_newline (tl s); whole = takeWhile is_digit number; rest = dropWhile is_digit number in
     if rest = [] then whole \<noteq> []
     else hd rest = CHR ''.'' \<and> tl rest \<noteq> [] \<and> list_all is_digit (tl rest))"

text \<open>The options an unknown string may abbreviate; a short option may be followed by its text.\<close>

definition option_matches :: "option_table \<Rightarrow> string \<Rightarrow> (string \<times> (bool \<times> string) option) list" where
  "option_matches table s =
     (if take 2 s = ''--''
      then map (\<lambda>(name, _). (name, after_equals s)) (filter (\<lambda>(name, _). prefix (before_equals s) name) table)
      else List.map_filter (\<lambda>(name, _). if name = take 2 s then Some (name, Some (False, drop 2 s))
          else if prefix s name then Some (name, None) else None) table)"

text \<open>\<open>None\<close> is the error of an ambiguous abbreviation.\<close>

definition classify :: "option_table \<Rightarrow> string \<Rightarrow> arg_class option" where
  "classify table s =
     (if s = [] \<or> hd s \<noteq> CHR ''-'' then Some AsArgument
      else if s \<in> fst ` set table then Some (KnownOption s None)
      else if length s = 1 then Some AsArgument
      else if CHR ''='' \<in> set s \<and> before_equals s \<in> fst ` set table
        then Some (KnownOption (before_equals s) (after_equals s))
      else case option_matches table s of
          _ # _ # _ \<Rightarrow> None
        | [(name, explicit)] \<Rightarrow> Some (KnownOption name explicit)
        | [] \<Rightarrow> if looks_negative s \<or> CHR '' '' \<in> set s then Some AsArgument else Some UnknownOption)"

fun classify_all :: "option_table \<Rightarrow> string list \<Rightarrow> (string \<times> arg_class) list option" where
  "classify_all table [] = Some []"
| "classify_all table (s # ss) =
     (if s = ''--'' then Some ((s, AfterSeparator) # map (\<lambda>t. (t, AfterSeparator)) ss)
      else case (classify table s, classify_all table ss) of
          (Some cl, Some cls) \<Rightarrow> Some ((s, cl) # cls)
        | _ \<Rightarrow> None)"

section \<open>Taking options\<close>

text \<open>
  Text written with the help option: \<open>-hx\<close> shows the help and reports \<open>-x\<close> as unrecognised, but
  a dash or an equals sign is an error.
\<close>

fun help_cluster :: "bool \<Rightarrow> string \<Rightarrow> bool" where
  "help_cluster separated [] = False"
| "help_cluster separated (ch # rest) =
     (if separated \<or> ch = CHR ''-'' then False
      else if ch \<noteq> CHR ''h'' then True
      else case rest of
          [] \<Rightarrow> True
        | next_ch # text \<Rightarrow> if next_ch = CHR ''='' then help_cluster True text else help_cluster False rest)"

definition help_outcome :: "string \<Rightarrow> (bool \<times> string) option \<Rightarrow> 'a parse_outcome" where
  "help_outcome name explicit = (case explicit of
     None \<Rightarrow> HelpShown
   | Some (separated, t) \<Rightarrow> if name = ''-h'' \<and> help_cluster separated t then HelpShown else UsageError)"

text \<open>The options taken so far, in order, and whether something was not recognised.\<close>

type_synonym taken_options = "(string \<times> string) list"

function (sequential) consume ::
    "option_table \<Rightarrow> taken_options \<Rightarrow> bool \<Rightarrow> (string \<times> arg_class) list \<Rightarrow> (taken_options \<times> bool) parse_outcome" where
  "consume table taken extras [] = Accepted (taken, extras)"
| "consume table taken extras ((s, KnownOption name explicit) # rest) =
     (case map_of table name of
        None \<Rightarrow> consume table taken True rest
      | Some ShowsHelp \<Rightarrow> help_outcome name explicit
      | Some TakesNone \<Rightarrow> if explicit \<noteq> None then UsageError else consume table (taken @ [(name, [])]) extras rest
      | Some (TakesValue ok) \<Rightarrow>
          (case (explicit, rest) of
             (Some (_, v), _) \<Rightarrow> if ok v then consume table (taken @ [(name, v)]) extras rest else UsageError
           | (None, (v, AsArgument) # rest') \<Rightarrow>
               if ok v then consume table (taken @ [(name, v)]) extras rest' else UsageError
           | _ \<Rightarrow> UsageError))"
| "consume table taken extras (_ # rest) = consume table taken True rest"
  by pat_completeness auto
termination by (relation "measure (\<lambda>(table, taken, extras, rest). length rest)") auto

definition parse_known :: "option_table \<Rightarrow> string list \<Rightarrow> string list \<Rightarrow> (taken_options \<times> bool) parse_outcome" where
  "parse_known table required argv = (case classify_all table argv of
     None \<Rightarrow> UsageError
   | Some cls \<Rightarrow> then_parse (consume table [] False cls) (\<lambda>(taken, extras).
       if \<exists>name \<in> set required. name \<notin> fst ` set taken then UsageError else Accepted (taken, extras)))"

definition parse_options :: "option_table \<Rightarrow> string list \<Rightarrow> string list \<Rightarrow> taken_options parse_outcome" where
  "parse_options table required argv =
     then_parse (parse_known table required argv) (\<lambda>(taken, extras). if extras then UsageError else Accepted taken)"

text \<open>The value of an option that is stored (the last one counts) and of one that is appended.\<close>

definition stored :: "taken_options \<Rightarrow> string \<Rightarrow> string option" where
  "stored taken name = map_of (rev taken) name"

definition appended :: "taken_options \<Rightarrow> string \<Rightarrow> string list" where
  "appended taken name = map snd (filter (\<lambda>(n, _). n = name) taken)"

text \<open>
  The parser of subcommands: unknown options before the name are skipped, everything after it is the
  subcommand's, and what was not recognised is an error at the end.
\<close>

fun parse_subcommand ::
    "(string \<Rightarrow> string list \<Rightarrow> ('a \<times> bool) parse_outcome) \<Rightarrow> bool \<Rightarrow> string list \<Rightarrow> 'a parse_outcome" where
  "parse_subcommand sub extras [] = UsageError"
| "parse_subcommand sub extras (s # ss) =
     (if s = ''--'' then UsageError
      else case classify (with_help []) s of
          Some (KnownOption name explicit) \<Rightarrow> help_outcome name explicit
        | Some UnknownOption \<Rightarrow> parse_subcommand sub True ss
        | Some _ \<Rightarrow> then_parse (sub s ss) (\<lambda>(x, unrecognised). if extras \<or> unrecognised then UsageError else Accepted x)
        | None \<Rightarrow> UsageError)"

section \<open>Reading what was written\<close>

text \<open>An option table as the programs declare them: long names without \<open>=\<close>, each once.\<close>

definition proper_table :: "option_table \<Rightarrow> bool" where
  "proper_table table \<longleftrightarrow> distinct (map fst table) \<and>
     (\<forall>name \<in> fst ` set table. CHR ''='' \<notin> set name \<and> hd name = CHR ''-'' \<and> 2 \<le> length name)"

lemma proper_with_help:
  "proper_table (with_help table) \<longleftrightarrow> proper_table table \<and> ''-h'' \<notin> fst ` set table \<and> ''--help'' \<notin> fst ` set table"
  by (auto simp: proper_table_def with_help_def)

definition equals_form :: "string \<times> string \<Rightarrow> string" where
  "equals_form = (\<lambda>(name, v). name @ ''='' @ v)"

lemma classify_equals_form:
  assumes "proper_table table" and "name \<in> fst ` set table"
  shows "classify table (equals_form (name, v)) = Some (KnownOption name (Some (True, v)))"
    and "equals_form (name, v) \<noteq> ''--''"
proof -
  let ?s = "name @ ''='' @ v"
  have name: "CHR ''='' \<notin> set name" "hd name = CHR ''-''" "2 \<le> length name" using assms by (auto simp: proper_table_def)
  have "before_equals ?s = name" "after_equals ?s = Some (True, v)"
    using name(1) by (simp_all add: before_equals_def after_equals_def takeWhile_append)
  moreover have "?s \<notin> fst ` set table" using assms(1) by (force simp: proper_table_def)
  moreover have "name \<noteq> []" using name(3) by auto
  ultimately show "classify table (equals_form (name, v)) = Some (KnownOption name (Some (True, v)))"
    using name assms(2) by (simp add: classify_def equals_form_def)
  show "equals_form (name, v) \<noteq> ''--''" using name(3) by (auto simp: equals_form_def dest: arg_cong [where f = length])
qed

text \<open>A value that reads as an argument after its option: empty, a lone dash, or without a leading dash.\<close>

definition plain_value :: "string \<Rightarrow> bool" where
  "plain_value v \<longleftrightarrow> v = [] \<or> v = ''-'' \<or> hd v \<noteq> CHR ''-''"

lemma classify_plain:
  assumes "proper_table table" and "plain_value v"
  shows "classify table v = Some AsArgument" and "v \<noteq> ''--''"
  using assms by (auto simp: classify_def plain_value_def proper_table_def)

lemma classify_name:
  assumes "proper_table table" and "name \<in> fst ` set table"
  shows "classify table name = Some (KnownOption name None)"
  using assms by (auto simp: classify_def proper_table_def)

text \<open>Acceptable values of options that take one are taken in order, in either form.\<close>

definition acceptable :: "option_table \<Rightarrow> string \<times> string \<Rightarrow> bool" where
  "acceptable table = (\<lambda>(name, v). \<exists>ok. map_of table name = Some (TakesValue ok) \<and> ok v)"

lemma acceptable_name: "acceptable table (name, v) \<Longrightarrow> name \<in> fst ` set table"
  by (auto simp: acceptable_def dest!: map_of_SomeD intro: rev_image_eqI)

definition spaced_form :: "string \<times> string \<Rightarrow> string list" where
  "spaced_form = (\<lambda>(name, v). [name, v])"

text \<open>The arguments of a list of options, each written with \<open>=\<close> or, where the flag says so, spaced.\<close>

definition written_options :: "(bool \<times> string \<times> string) list \<Rightarrow> string list" where
  "written_options os = concat (map (\<lambda>(spaced, opt). if spaced then spaced_form opt else [equals_form opt]) os)"

definition classes_of :: "(bool \<times> string \<times> string) list \<Rightarrow> (string \<times> arg_class) list" where
  "classes_of os = concat (map (\<lambda>(spaced, name, v).
     if spaced then [(name, KnownOption name None), (v, AsArgument)]
     else [(equals_form (name, v), KnownOption name (Some (True, v)))]) os)"

definition writable :: "option_table \<Rightarrow> (bool \<times> string \<times> string) \<Rightarrow> bool" where
  "writable table = (\<lambda>(spaced, name, v). acceptable table (name, v) \<and> name \<noteq> ''--'' \<and> (spaced \<longrightarrow> plain_value v))"

lemma classify_written:
  assumes "proper_table table" and "\<forall>opt \<in> set os. writable table opt"
  shows "classify_all table (written_options os) = Some (classes_of os)"
  using assms(2)
proof (induction os)
  case (Cons opt os)
  obtain spaced name v where opt: "opt = (spaced, name, v)" by (cases opt)
  have a: "name \<in> fst ` set table" "name \<noteq> ''--''" "spaced \<longrightarrow> plain_value v"
    using Cons.prems acceptable_name by (auto simp: opt writable_def)
  note eq = classify_equals_form [OF assms(1) a(1), of v]
  show ?case
    using Cons a eq classify_plain [OF assms(1), of v] classify_name [OF assms(1) a(1)]
    by (auto simp: opt written_options_def classes_of_def spaced_form_def)
qed (simp add: written_options_def classes_of_def)

lemma consume_written:
  assumes "\<forall>opt \<in> set os. writable table opt"
  shows "consume table taken extras (classes_of os) = Accepted (taken @ map snd os, extras)"
  using assms
proof (induction os arbitrary: taken)
  case (Cons opt os)
  obtain spaced name v where opt: "opt = (spaced, name, v)" by (cases opt)
  obtain ok where "map_of table name = Some (TakesValue ok)" "ok v"
    using Cons.prems by (auto simp: opt writable_def acceptable_def)
  then show ?case using Cons by (auto simp: opt classes_of_def)
qed (simp add: classes_of_def)

lemma parse_written:
  assumes "proper_table table" and "\<forall>opt \<in> set os. writable table opt"
    and "\<forall>name \<in> set required. name \<in> fst ` snd ` set os"
  shows "parse_known table required (written_options os) = Accepted (map snd os, False)"
    and "parse_options table required (written_options os) = Accepted (map snd os)"
  using assms(3) by (auto simp: parse_options_def parse_known_def classify_written [OF assms(1,2)]
      consume_written [OF assms(2)])

text \<open>A parse that accepts has taken every required option.\<close>

lemma parse_options_required:
  "parse_options table required argv = Accepted taken \<Longrightarrow> name \<in> set required \<Longrightarrow> name \<in> fst ` set taken"
  by (cases "classify_all table argv"; cases "parse_known table required argv")
    (auto simp: parse_options_def parse_known_def split: if_splits prod.splits elim!: then_parse.elims)

end
