(* ===== verification/CommandLine.thy ===== *)
theory CommandLine
  imports Commands Arguments
begin

text \<open>
  The argument grammar of the command line (build_parser of src/sloserve/cli.py), and \<open>main\<close> from the
  argument list to the lines it prints.
\<close>

section \<open>The grammar\<close>

definition any_value :: "string \<Rightarrow> bool" where
  "any_value v = True"

definition config_options :: option_table where
  "config_options = with_help [(''--config'', TakesValue any_value)]"

definition serve_options :: option_table where
  "serve_options = with_help [(''--config'', TakesValue any_value),
     (''--format'', TakesValue (\<lambda>v. v \<in> {''shell'', ''json'', ''lines''}))]"

definition plot_options :: option_table where
  "plot_options = with_help [(''--results'', TakesValue any_value), (''--out'', TakesValue any_value)]"

definition stored_text :: "taken_options \<Rightarrow> string \<Rightarrow> string" where
  "stored_text taken name = (case stored taken name of None \<Rightarrow> [] | Some v \<Rightarrow> v)"

definition format_of :: "string option \<Rightarrow> serve_format" where
  "format_of v = (if v = Some ''json'' then JsonFormat else if v = Some ''lines'' then LinesFormat else ShellFormat)"

definition command_grammar ::
    "(string \<times> option_table \<times> string list \<times> (taken_options \<Rightarrow> cli_command)) list" where
  "command_grammar =
     [(''config-check'', config_options, [''--config''], \<lambda>t. ConfigCheck (stored_text t ''--config'')),
      (''serve-command'', serve_options, [''--config''],
         \<lambda>t. ServeCommand (stored_text t ''--config'') (format_of (stored t ''--format''))),
      (''benchmark'', config_options, [''--config''], \<lambda>t. RunBenchmark (stored_text t ''--config'')),
      (''correctness'', config_options, [''--config''], \<lambda>t. RunCorrectness (stored_text t ''--config'')),
      (''sweep'', config_options, [''--config''], \<lambda>t. RunSweep (stored_text t ''--config'')),
      (''plot'', plot_options, [''--results'', ''--out''],
         \<lambda>t. PlotResults (stored_text t ''--results'') (stored_text t ''--out''))]"

definition parse_command :: "string \<Rightarrow> string list \<Rightarrow> (cli_command \<times> bool) parse_outcome" where
  "parse_command name argv = (case map_of command_grammar name of
     None \<Rightarrow> UsageError
   | Some (table, required, build) \<Rightarrow>
       then_parse (parse_known table required argv) (\<lambda>(taken, extras). Accepted (build taken, extras)))"

definition build_parser :: "string list \<Rightarrow> cli_command parse_outcome" where
  "build_parser argv = parse_subcommand parse_command False argv"

text \<open>How the process ends: with a status, or an exception.\<close>

datatype cli_exit = Printed "string list" | HelpExit | UsageExit | Raised py_error

definition cli_process :: "'g cli_world \<Rightarrow> string list \<Rightarrow> cli_exit" where
  "cli_process W argv = (case build_parser argv of
     HelpShown \<Rightarrow> HelpExit
   | UsageError \<Rightarrow> UsageExit
   | Accepted command \<Rightarrow> (case cli_main W command of Inl e \<Rightarrow> Raised e | Inr out \<Rightarrow> Printed out))"

section \<open>Writing a command\<close>

fun format_text :: "serve_format \<Rightarrow> string" where
  "format_text ShellFormat = ''shell''"
| "format_text JsonFormat = ''json''"
| "format_text LinesFormat = ''lines''"

fun command_name :: "cli_command \<Rightarrow> string" where
  "command_name (ConfigCheck c) = ''config-check''"
| "command_name (ServeCommand c f) = ''serve-command''"
| "command_name (RunBenchmark c) = ''benchmark''"
| "command_name (RunCorrectness c) = ''correctness''"
| "command_name (RunSweep c) = ''sweep''"
| "command_name (PlotResults r p) = ''plot''"

fun command_options :: "cli_command \<Rightarrow> (string \<times> string) list" where
  "command_options (ServeCommand c f) = [(''--config'', c), (''--format'', format_text f)]"
| "command_options (PlotResults r p) = [(''--results'', r), (''--out'', p)]"
| "command_options (ConfigCheck c) = [(''--config'', c)]"
| "command_options (RunBenchmark c) = [(''--config'', c)]"
| "command_options (RunCorrectness c) = [(''--config'', c)]"
| "command_options (RunSweep c) = [(''--config'', c)]"

text \<open>A command written with some choice of spaced options.\<close>

definition argv_of :: "bool list \<Rightarrow> cli_command \<Rightarrow> string list" where
  "argv_of spaced cmd = command_name cmd # written_options (zip spaced (command_options cmd))"

lemma grammar_tables:
  "proper_table config_options" "proper_table serve_options" "proper_table plot_options"
  by (auto simp: config_options_def serve_options_def plot_options_def with_help_def proper_table_def)

lemma option_kinds:
  "map_of config_options ''--config'' = Some (TakesValue any_value)"
  "map_of serve_options ''--config'' = Some (TakesValue any_value)"
  "map_of serve_options ''--format'' = Some (TakesValue (\<lambda>v. v \<in> {''shell'', ''json'', ''lines''}))"
  "map_of plot_options ''--results'' = Some (TakesValue any_value)"
  "map_of plot_options ''--out'' = Some (TakesValue any_value)"
  by (simp_all add: config_options_def serve_options_def plot_options_def with_help_def)

lemma format_text_back: "format_of (Some (format_text f)) = f"
  by (cases f) (simp_all add: format_of_def)

text \<open>The parser of a command's name and what its parse builds from its own options.\<close>

lemma command_parser:
  obtains table required build where "map_of command_grammar (command_name cmd) = Some (table, required, build)"
    and "proper_table table" and "\<forall>name \<in> set required. name \<in> fst ` set (command_options cmd)"
    and "\<forall>opt \<in> set (command_options cmd). acceptable table opt" and "build (command_options cmd) = cmd"
proof (cases cmd)
  case (ServeCommand c f)
  have "format_text f \<in> {''shell'', ''json'', ''lines''}" by (cases f) simp_all
  then show ?thesis using that grammar_tables ServeCommand
    by (simp add: command_grammar_def option_kinds acceptable_def any_value_def stored_text_def stored_def format_text_back)
qed (use that grammar_tables in \<open>simp_all add: command_grammar_def option_kinds acceptable_def any_value_def
  stored_text_def stored_def\<close>)

text \<open>
  The command line says what it means. A command written with its options, each with an equals sign or
  as two arguments, is read back as itself; written with equals signs this holds for every path, and an
  option followed by its value needs a value without a leading dash. So the process runs that command.
\<close>

theorem command_line_roundtrip:
  assumes "length spaced = length (command_options cmd)"
    and "\<forall>(s, name, v) \<in> set (zip spaced (command_options cmd)). s \<longrightarrow> plain_value v"
  shows "build_parser (argv_of spaced cmd) = Accepted cmd \<and>
    cli_process W (argv_of spaced cmd) = (case cli_main W cmd of Inl e \<Rightarrow> Raised e | Inr out \<Rightarrow> Printed out)"
proof -
  let ?os = "zip spaced (command_options cmd)"
  obtain table required build where p: "map_of command_grammar (command_name cmd) = Some (table, required, build)"
    "proper_table table" "\<forall>name \<in> set required. name \<in> fst ` set (command_options cmd)"
    "\<forall>opt \<in> set (command_options cmd). acceptable table opt" "build (command_options cmd) = cmd"
    by (rule command_parser)
  have os: "map snd ?os = command_options cmd" using assms(1) by simp
  have "name \<noteq> ''--''" if "(name, v) \<in> set (command_options cmd)" for name v using that by (cases cmd) auto
  then have "\<forall>opt \<in> set ?os. writable table opt"
    using assms(2) p(4) by (fastforce simp: writable_def dest: set_zip_rightD)
  moreover have "\<forall>name \<in> set required. name \<in> fst ` snd ` set ?os" using p(3) os by (metis list.set_map)
  ultimately have "parse_known table required (written_options ?os) = Accepted (command_options cmd, False)"
    using parse_written(1) [OF p(2)] os by metis
  then have "parse_command (command_name cmd) (written_options ?os) = Accepted (cmd, False)"
    by (simp add: parse_command_def p(1,5))
  moreover have "classify (with_help []) (command_name cmd) = Some AsArgument" "command_name cmd \<noteq> ''--''"
    by (cases cmd; simp add: classify_def)+
  ultimately show ?thesis by (simp add: build_parser_def argv_of_def cli_process_def)
qed

theorem command_line_roundtrip_witness:
  "build_parser [''serve-command'', ''--config=-x.yaml'', ''--format'', ''json''] = Accepted (ServeCommand ''-x.yaml'' JsonFormat)"
proof -
  let ?cmd = "ServeCommand ''-x.yaml'' JsonFormat"
  have "build_parser (argv_of [False, True] ?cmd) = Accepted ?cmd"
    by (rule command_line_roundtrip [THEN conjunct1]) (simp_all add: plain_value_def)
  then show ?thesis by (simp add: argv_of_def written_options_def spaced_form_def equals_form_def)
qed

text \<open>
  A path that starts with a dash is refused when it is the next argument, since it reads as an option:
  the value must be written with an equals sign.
\<close>

lemma dashed_value_refused:
  "build_parser [''config-check'', ''--config'', ''-x.yaml''] = UsageError"
  by (simp add: build_parser_def classify_def parse_command_def command_grammar_def parse_known_def config_options_def
      with_help_def option_matches_def looks_negative_def before_equals_def chop_newline_def is_digit_def
      List.map_filter_def prefix_def Let_def)

text \<open>A command without a required option never runs.\<close>

lemma nothing_runs_without_config:
  assumes "map_of command_grammar name = Some (table, required, build)" and "parse_command name argv = Accepted (cmd, extras)"
  shows "\<exists>taken. parse_known table required argv = Accepted (taken, extras) \<and> cmd = build taken \<and> set required \<subseteq> fst ` set taken"
proof -
  obtain taken where t: "parse_known table required argv = Accepted (taken, extras)" "cmd = build taken"
    using assms by (cases "parse_known table required argv") (auto simp: parse_command_def)
  then have "set required \<subseteq> fst ` set taken"
    by (auto simp: parse_known_def split: option.splits if_splits elim!: then_parse.elims)
  with t show ?thesis by blast
qed

end
