(* ===== verification/AnalysisScripts.thy ===== *)
theory AnalysisScripts
  imports ExpKB ExpLAnalysis "HOL-Library.Sublist"
begin

text \<open>
  The scripts that run the two studies' analyses (src/scripts/analyze_expl.py, src/scripts/analyze_expkb.py)
  from their parsed arguments on: what they write, in which order, what they raise, and the values of the
  figure of the clipping study. Writing the file and drawing are the libraries'.
\<close>

section \<open>The evidence gates\<close>

record 'a script_run =
  written_report :: "'a option"
  script_end :: "unit result"

text \<open>The report is written before a failed gate ends the process.\<close>

definition expl_script ::
    "conversions \<Rightarrow> (string \<Rightarrow> string option \<times> int option) \<Rightarrow> analysis_files \<Rightarrow> SweepDefinition \<Rightarrow>
     ExpLResult script_run" where
  "expl_script conv urlsplit F d =
     (case analyze_expl conv urlsplit F d False of
        Inl e \<Rightarrow> \<lparr>written_report = None, script_end = Inl e\<rparr>
      | Inr r \<Rightarrow> \<lparr>written_report = Some r, script_end = require_gate_results (gate_results r)\<rparr>)"

text \<open>
  The script ends as the enforced analysis does, with the same exception or none. The only difference is
  that the report of an analysis that fails its gates is still written.
\<close>

lemma expl_script_ends_enforced:
  "script_end (expl_script conv urlsplit F d)
     = and_then (analyze_expl conv urlsplit F d True) (\<lambda>_. Inr ())"
  by (cases "analyze_expl conv urlsplit F d False")
    (auto simp: expl_script_def analyze_expl_enforced require_gate_results_cases)

lemma expl_script_report:
  "written_report (expl_script conv urlsplit F d) = Some r \<longleftrightarrow> analyze_expl conv urlsplit F d False = Inr r"
  "analyze_expl conv urlsplit F d True = Inr r \<Longrightarrow> written_report (expl_script conv urlsplit F d) = Some r"
  by (auto simp: expl_script_def analyze_expl_enforced and_then_Inr split: sum.split)

section \<open>The figure of the clipping study\<close>

definition figure_arm_names :: "string list" where
  "figure_arm_names = [''no-clip'', ''clip1536'', ''clip1024'', ''clip512'']"

definition figure_arms :: "ExpKBResult \<Rightarrow> string list" where
  "figure_arms r = filter (\<lambda>arm. map_of (kb_arms r) arm \<noteq> None) figure_arm_names"

definition figure_labels :: "string list \<Rightarrow> string list" where
  "figure_labels arms = take (length arms) [''none'', ''1536'', ''1024'', ''512'']"

definition normalized :: "real list \<Rightarrow> real list result" where
  "normalized values = map_result (\<lambda>v. if hd values = 0 then Inl (ZeroDivisionError ''float division by zero'')
     else Inr (v / hd values)) values"

text \<open>\<open>analysis["arms"][arm]\<close>, and the mean of one of its aggregates, 0 when there is none.\<close>

definition report_arm :: "ExpKBResult \<Rightarrow> string \<Rightarrow> ArmResult result" where
  "report_arm r arm = (case map_of (kb_arms r) arm of None \<Rightarrow> Inl (KeyError arm) | Some a \<Rightarrow> Inr a)"

definition mean_field :: "ExpKBResult \<Rightarrow> string \<Rightarrow> string \<Rightarrow> real result" where
  "mean_field r field arm =
     and_then (report_arm r arm) (\<lambda>a.
     case map_of (arm_aggregates a) field of
       None \<Rightarrow> Inl (KeyError field)
     | Some None \<Rightarrow> Inr 0
     | Some (Some g) \<Rightarrow> Inr (real_of (agg_mean g)))"

record ClipFigure =
  fig_arms :: "string list"
  fig_labels :: "string list"
  fig_second_moments :: "real list"
  fig_predicted_waits :: "real list option"
  fig_measured_waits :: "real list"
  fig_interactive_slo :: "real list"
  fig_truncated :: "real list"
  fig_throughput :: "real list"
  fig_throughput_limit :: real

text \<open>The values \<open>_plot\<close> draws, for a report whose numbers are finite.\<close>

definition plot_clip_figure :: "ExpKBResult \<Rightarrow> ClipFigure result" where
  "plot_clip_figure r =
     (let arms = figure_arms r in
      and_then (map_result (\<lambda>arm. and_then (report_arm r arm) (\<lambda>a. Inr (second_moment_service_s2 (arm_mg1 a)))) arms) (\<lambda>seconds.
      and_then (normalized seconds) (\<lambda>second_moments.
      and_then (map_result (\<lambda>arm. and_then (report_arm r arm) (\<lambda>a. Inr (mean_queue_wait_s (arm_mg1 a)))) arms) (\<lambda>waits.
      and_then (map_result (mean_field r ''queue_wait_mean_s'') arms) (\<lambda>measured_waits.
      and_then (normalized measured_waits) (\<lambda>measured.
      and_then (if None \<notin> set waits then and_then (normalized (map the waits)) (\<lambda>ws. Inr (Some ws)) else Inr None) (\<lambda>predicted.
      and_then (map_result (mean_field r ''slo_interactive_rate'') arms) (\<lambda>interactive.
      and_then (map_result (mean_field r ''realized_truncation_rate'') arms) (\<lambda>truncated.
      and_then (map_result (mean_field r ''token_throughput_per_s'') arms) (\<lambda>throughput.
      if arms = [] then Inl (ValueError ''max() arg is an empty sequence'')
      else Inr \<lparr>fig_arms = arms, fig_labels = figure_labels arms, fig_second_moments = second_moments,
        fig_predicted_waits = predicted, fig_measured_waits = measured, fig_interactive_slo = interactive,
        fig_truncated = truncated, fig_throughput = throughput,
        fig_throughput_limit = Max (set throughput) * 1.25\<rparr>))))))))))"

text \<open>\<open>json.dumps\<close> refuses a number that is not finite, before anything is written.\<close>

definition report_finite :: "ExpKBResult \<Rightarrow> bool" where
  "report_finite r \<longleftrightarrow> isfinite (kb_arrival_rate_rps r) \<and>
     list_all (\<lambda>(_, a). list_all (\<lambda>(_, g). case g of None \<Rightarrow> True | Some g \<Rightarrow> isfinite (agg_mean g) \<and> isfinite (agg_std g))
       (arm_aggregates a)) (kb_arms r)"

record clip_script_run = "ExpKBResult script_run" +
  drawn_figure :: "ClipFigure option"

definition expkb_script ::
    "conversions \<Rightarrow> (pyfloat list \<Rightarrow> (pyfloat \<times> pyfloat) result) \<Rightarrow> result_dir \<Rightarrow> result_dir list \<Rightarrow> int \<Rightarrow>
     clip_script_run" where
  "expkb_script conv special results additional warmup =
     (case analyze_expkb conv special (results # additional) warmup of
        Inl e \<Rightarrow> \<lparr>written_report = None, script_end = Inl e, drawn_figure = None\<rparr>
      | Inr r \<Rightarrow>
          if \<not> report_finite r
          then \<lparr>written_report = None, script_end = Inl (ValueError ''Out of range float values are not JSON compliant''),
                drawn_figure = None\<rparr>
          else (case plot_clip_figure r of
              Inl e \<Rightarrow> \<lparr>written_report = Some r, script_end = Inl e, drawn_figure = None\<rparr>
            | Inr f \<Rightarrow> \<lparr>written_report = Some r, script_end = Inr (), drawn_figure = Some f\<rparr>))"

section \<open>What the figure shows\<close>

text \<open>The tick label an arm should have.\<close>

definition arm_tick :: "string \<Rightarrow> string" where
  "arm_tick arm = (if arm = ''no-clip'' then ''none'' else drop 4 arm)"

lemma figure_labels_right:
  assumes "''no-clip'' \<in> set (map fst (kb_arms r))"
  shows "figure_labels (figure_arms r) = map arm_tick (figure_arms r) \<longleftrightarrow> prefix (figure_arms r) figure_arm_names"
proof -
  have "map_of (kb_arms r) ''no-clip'' \<noteq> None" using assms by (simp add: map_of_eq_None_iff)
  then show ?thesis
    by (cases "map_of (kb_arms r) ''clip1536''"; cases "map_of (kb_arms r) ''clip1024''"; cases "map_of (kb_arms r) ''clip512''")
      (auto simp: figure_arms_def figure_arm_names_def figure_labels_def arm_tick_def)
qed

lemma normalized_first:
  assumes "normalized vs = Inr ns" and "vs \<noteq> []"
  shows "length ns = length vs \<and> hd ns = 1 \<and> hd vs \<noteq> 0 \<and> ns = map (\<lambda>v. v / hd vs) vs"
proof -
  have each: "list_all2 (\<lambda>v n. hd vs \<noteq> 0 \<and> n = v / hd vs) vs ns"
    using assms(1) unfolding normalized_def map_result_Inr by (rule list.rel_mono_strong) (auto split: if_splits)
  then have "ns = map (\<lambda>v. v / hd vs) vs" by (auto simp: list_all2_conv_all_nth intro: nth_equalityI)
  moreover have "hd vs \<noteq> 0" using each assms(2) by (cases vs) (auto simp: list_all2_Cons1)
  ultimately show ?thesis using assms(2) by (cases vs) auto
qed

lemma analysis_has_baseline:
  assumes "analyze_expkb conv special dirs warmup = Inr r"
  shows "''no-clip'' \<in> set (map fst (kb_arms r))"
proof -
  obtain rows where "''no-clip'' \<in> set (map located_arm rows)"
    and "map_result (arm_result conv special (kb_arrival_rate_rps r) (kb_service_fit r) (kb_concurrency r))
        (group_by located_arm rows) = Inr (kb_arms r)"
    using assms by (rule analysis_parts)
  then show ?thesis using arms_of_groups(1) by fastforce
qed

lemma figure_arms_baseline:
  "''no-clip'' \<in> set (map fst (kb_arms r)) \<Longrightarrow> figure_arms r \<noteq> [] \<and> hd (figure_arms r) = ''no-clip''"
  by (auto simp: figure_arms_def figure_arm_names_def map_of_eq_None_iff)

text \<open>
  Every curve of a drawn figure has a value for each arm and starts at the unclipped baseline, where the
  normalised curves are 1. The tick labels are right exactly when the arms of the study are the first
  ones of the list: when an arm is missing before another, the later arm gets the label of the missing one.
\<close>

theorem clip_figure_labels:
  assumes "drawn_figure (expkb_script conv special results additional warmup) = Some f"
  shows "written_report (expkb_script conv special results additional warmup) \<noteq> None"
    and "hd (fig_arms f) = ''no-clip'' \<and> hd (fig_second_moments f) = 1 \<and> hd (fig_measured_waits f) = 1"
    and "\<forall>curve \<in> {fig_second_moments f, fig_measured_waits f, fig_interactive_slo f, fig_truncated f, fig_throughput f}.
      length curve = length (fig_arms f)"
    and "fig_labels f = map arm_tick (fig_arms f) \<longleftrightarrow> prefix (fig_arms f) figure_arm_names"
proof -
  obtain r where r: "analyze_expkb conv special (results # additional) warmup = Inr r" and plot: "plot_clip_figure r = Inr f"
    and written: "written_report (expkb_script conv special results additional warmup) = Some r"
    using assms by (auto simp: expkb_script_def split: sum.splits if_splits)
  note base = analysis_has_baseline [OF r]
  obtain seconds measured where f: "fig_arms f = figure_arms r" "fig_labels f = figure_labels (figure_arms r)"
    and lengths: "length seconds = length (figure_arms r)" "length measured = length (figure_arms r)"
      "length (fig_interactive_slo f) = length (figure_arms r)" "length (fig_truncated f) = length (figure_arms r)"
      "length (fig_throughput f) = length (figure_arms r)"
    and norm: "normalized seconds = Inr (fig_second_moments f)" "normalized measured = Inr (fig_measured_waits f)"
    using plot by (auto simp: plot_clip_figure_def and_then_Inr map_result_Inr Let_def
      dest!: list_all2_lengthD split: if_splits)
  have ne: "seconds \<noteq> []" "measured \<noteq> []" using lengths figure_arms_baseline [OF base] by auto
  note n = normalized_first [OF norm(1) ne(1)] normalized_first [OF norm(2) ne(2)]
  show "written_report (expkb_script conv special results additional warmup) \<noteq> None" using written by simp
  show "hd (fig_arms f) = ''no-clip'' \<and> hd (fig_second_moments f) = 1 \<and> hd (fig_measured_waits f) = 1"
    using n f figure_arms_baseline [OF base] by metis
  show "\<forall>curve \<in> {fig_second_moments f, fig_measured_waits f, fig_interactive_slo f, fig_truncated f, fig_throughput f}.
      length curve = length (fig_arms f)" using n f lengths by simp
  show "fig_labels f = map arm_tick (fig_arms f) \<longleftrightarrow> prefix (fig_arms f) figure_arm_names"
    using f figure_labels_right [OF base] by simp
qed

text \<open>A study of the arms \<open>no-clip\<close> and \<open>clip512\<close> is drawn with 512 labelled as 1536.\<close>

lemma clip_figure_mislabels:
  assumes "map fst (kb_arms r) = [''no-clip'', ''clip512'']"
  shows "zip (figure_arms r) (figure_labels (figure_arms r)) = [(''no-clip'', ''none''), (''clip512'', ''1536'')]"
proof -
  have "map_of (kb_arms r) arm \<noteq> None \<longleftrightarrow> arm \<in> {''no-clip'', ''clip512''}" for arm
    unfolding map_of_eq_None_iff list.set_map [symmetric] assms by auto
  then have "figure_arms r = [''no-clip'', ''clip512'']"
    by (simp add: figure_arms_def figure_arm_names_def)
  then show ?thesis by (simp add: figure_labels_def)
qed

end
