(* ===== verification/TrainingScript.thy ===== *)
theory TrainingScript
  imports Commands PredictorProperties AdmissionProperties
begin

text \<open>
  The training script (src/scripts/train_length_predictor.py): the workload of a sweep or of an
  experiment, training pairs of one seed and held-out pairs of another, the predictor, its quality and
  its artifact. It composes the loaders, the generator and the predictor.
\<close>

section \<open>The training script\<close>

text \<open>The file is read twice: as a sweep, and as an experiment when it is not one.\<close>

definition load_workload :: "loader \<Rightarrow> yaml_text \<Rightarrow> WorkloadConfig result" where
  "load_workload L text_read =
     (case load_sweep_config L text_read of
        Inr d \<Rightarrow> Inr (exp_workload (base_config d))
      | Inl sweep_error \<Rightarrow>
          if \<not> is_value_error sweep_error then Inl sweep_error
          else (case load_config (validate_experiment L) text_read of
                  Inr c \<Rightarrow> Inr (exp_workload c)
                | Inl e \<Rightarrow> if is_value_error e then Inl sweep_error else Inl e))"

record training_outcome =
  trained_predictor :: LengthPredictor
  trained_quality :: PredictorQuality
  saved_artifact :: json

definition train_main ::
    "loader \<Rightarrow> 'r random_source \<Rightarrow> yaml_text \<Rightarrow> int \<Rightarrow> int \<Rightarrow> int \<Rightarrow> training_outcome result" where
  "train_main L R text_read train_seed eval_seed n =
     (if train_seed = eval_seed then Inl (ValueError ''train-seed and eval-seed must differ'')
      else
        and_then (load_workload L text_read) (\<lambda>w.
        and_then (build_training_pairs R w train_seed n) (\<lambda>training_pairs.
        and_then (build_training_pairs R w eval_seed n) (\<lambda>held_out_pairs.
        and_then (LengthPredictor_train training_pairs) (\<lambda>p.
        and_then (evaluate_predictor_quality p held_out_pairs) (\<lambda>q.
        Inr \<lparr>trained_predictor = p, trained_quality = q, saved_artifact = to_json p\<rparr>))))))"

section \<open>Its result is fit for use\<close>

lemma sample_lengths_advertised:
  assumes "sample_lengths R c profile g = Inr ((outp, advertised, kind, force), g')"
    and "length_model c = REALISTIC" and "realistic_length c = Some r"
  shows "advertised = Some (realistic_advertised_cap_tokens r)"
  using assms by (auto simp: sample_lengths_def and_then_Inr Let_def case_prod_beta)

lemma generate_from_advertised:
  assumes "generate_from R c seq ts g = Inr es" and "length_model c = REALISTIC" and "realistic_length c = Some r"
  shows "\<forall>e \<in> set es. advertised_cap_tokens e = Some (realistic_advertised_cap_tokens r)"
  using assms(1)
proof (induction ts arbitrary: seq g es)
  case (Cons t ts)
  obtain e g' es' where e: "generate_one R c seq t g = Inr (e, g')" "es = e # es'"
    "generate_from R c (Suc seq) ts g' = Inr es'"
    using Cons.prems by (auto simp: and_then_Inr)
  have "advertised_cap_tokens e = Some (realistic_advertised_cap_tokens r)"
    using e(1) assms(2,3)
    by (auto simp: generate_one_def and_then_Inr Let_def RequestEnvelope_init_Inr split: prod.splits
        dest: sample_lengths_advertised)
  then show ?case using Cons.IH [OF e(3)] e(2) by simp
qed simp

lemma training_pairs_advertised:
  assumes "build_training_pairs R c seed n = Inr ps" and "length_model c = REALISTIC" and "realistic_length c = Some r"
  shows "\<forall>p \<in> set ps. pair_advertised_cap p = Some (realistic_advertised_cap_tokens r)"
proof -
  obtain c' es where c': "WorkloadConfig_init (c\<lparr>random_seed := seed, total_requests := n, warmup_requests := 0\<rparr>) = Inr c'"
    and es: "generate_requests R c' None = Inr es" "ps = map pair_of_request es"
    using assms(1) by (auto simp: build_training_pairs_def and_then_Inr split: if_splits)
  have c: "length_model c' = REALISTIC" "realistic_length c' = Some r"
    using c' assms(2,3) by (auto simp: WorkloadConfig_init_def and_then_Inr raise_simps)
  obtain seq ts g where "generate_from R c' seq ts g = Inr es"
    using es(1) by (auto simp: generate_requests_def and_then_Inr Let_def split: if_splits)
  from generate_from_advertised [OF this c] show ?thesis by (simp add: es(2) pair_of_request_def)
qed

lemma fmean_average: "xs \<noteq> [] \<Longrightarrow> fmean xs = Inr (average xs)"
  by (simp add: fmean_def average_def)

lemma pearson_total:
  "xs \<noteq> [] \<Longrightarrow> length ys = length xs \<Longrightarrow> \<exists>r. pearson_corr xs ys = Inr r"
  by (cases ys) (auto simp: pearson_corr_def fmean_average centered_def Let_def)

lemma absolute_error_bounds:
  assumes "xs \<noteq> []" and "length ys = length xs" and "\<forall>x \<in> set xs \<union> set ys. l \<le> x \<and> x \<le> u"
  shows "\<exists>m. mean_absolute_error xs ys = Inr m \<and> 0 \<le> m \<and> m \<le> u - l"
proof -
  let ?ds = "map (\<lambda>(obs, est). \<bar>obs - est\<bar>) (zip xs ys)"
  have "?ds \<noteq> []" using assms(1,2) by (cases xs; cases ys) auto
  moreover have "0 \<le> d \<and> d \<le> u - l" if d: "d \<in> set ?ds" for d
  proof -
    obtain a b where "(a, b) \<in> set (zip xs ys)" "d = \<bar>a - b\<bar>" using d by auto
    then have "l \<le> a" "a \<le> u" "l \<le> b" "b \<le> u" "d = \<bar>a - b\<bar>"
      using assms(3) by (auto dest: set_zip_leftD set_zip_rightD)
    then show ?thesis by linarith
  qed
  ultimately have "0 \<le> average ?ds \<and> average ?ds \<le> u - l" using average_bounds [of ?ds 0 "u - l"] by blast
  then show ?thesis using \<open>?ds \<noteq> []\<close> assms(2) by (simp add: mean_absolute_error_def fmean_average)
qed

lemma evaluation_total:
  assumes "ps \<noteq> []" and "predicts_within l u p"
    and "\<forall>q \<in> set ps. pair_advertised_cap q = Some cap \<and> l \<le> of_int (pair_target_tokens q) \<and> of_int (pair_target_tokens q) \<le> u"
  shows "\<exists>q. evaluate_predictor_quality p ps = Inr q \<and> 0 \<le> learned_mae q \<and> learned_mae q \<le> u - l"
proof -
  let ?actual = "map (\<lambda>q. real_of_int (pair_target_tokens q)) ps"
  let ?learned = "map (\<lambda>q. predict p (pair_class q) (pair_prompt_kind q)) ps"
  let ?naive = "map (\<lambda>q. real_of_int cap) ps"
  have naive: "map_result (\<lambda>q. predict_advertised_cap (pair_advertised_cap q)) ps = Inr ?naive"
    by (rule map_result_total) (use assms(3) in \<open>simp add: predict_advertised_cap_def\<close>)
  obtain lm where lm: "mean_absolute_error ?actual ?learned = Inr lm" "0 \<le> lm" "lm \<le> u - l"
    using absolute_error_bounds [of ?actual ?learned l u] assms predicts_within_predict [OF assms(2)] by auto
  obtain lp np where "pearson_corr ?actual ?learned = Inr lp" "pearson_corr ?actual ?naive = Inr np"
    using pearson_total [of ?actual ?learned] pearson_total [of ?actual ?naive] assms(1) by auto
  moreover have "mean_absolute_error ?actual ?naive
      = Inr (average (map (\<lambda>(obs, est). \<bar>obs - est\<bar>) (zip ?actual ?naive)))"
    using assms(1) by (simp add: mean_absolute_error_def) (intro fmean_average, cases ps, auto)
  ultimately show ?thesis using assms(1) lm by (simp add: evaluate_predictor_quality_def naive Let_def)
qed


text \<open>A file that is an experiment and no sweep.\<close>

definition sample_loader :: loader where
  "sample_loader =
    \<lparr>validate_experiment = \<lambda>raw. Inr (sample_experiment\<lparr>exp_workload := sample_workload\<rparr>),
     dump_experiment = \<lambda>c. [], validate_point = \<lambda>v. Inl (ValidationError ''label''),
     load_referenced = \<lambda>path. Inl (ValueError ''cannot read configuration file'')\<rparr>"


end
