(* ===== verification/ProbeStatistics.thy ===== *)
theory ProbeStatistics
  imports TimeTable AdaptiveClipping
begin

text \<open>
  The accumulator of the queue probe (src/scripts/probe_week7_lowload_depth.py, \<open>TraceStatistics\<close>) and
  its summary: time per stable depth and per controller level, the episodes at or above each depth
  threshold, transitions, and the merge of several traces. A dataclass that is mutated is a record
  the operations return updated; lists indexed by a level or by a threshold stay lists.
\<close>

section \<open>The accumulator\<close>

definition depth_thresholds :: "int list" where
  "depth_thresholds = [1, 2, 3]"

definition probe_levels :: "AdaptiveClipLevel list" where
  "probe_levels = [L0, L1, L2, L3]"

record TraceStatistics =
  total_time_s :: real
  depth_time_s :: "(int \<times> real) list"
  level_time_s :: "real list"
  peak_depth :: int
  level_entry_counts :: "nat list"
  non_l0_entry_count :: nat
  non_l0_decision_count :: nat
  output_clipper_condition_met_count :: nat
  clip_applied_count :: nat
  tighten_hold_reset_count :: nat
  depth_episode_durations_s :: "real list list"
  first_positive_depth_to_first_tighten_s :: "real list"
  tightest_level :: AdaptiveClipLevel
  depth_current_durations_s :: "real list"
  positive_depth_start_s :: "real option"
  positive_episode_has_tightened :: bool

definition TraceStatistics_init :: TraceStatistics where
  "TraceStatistics_init =
    \<lparr>total_time_s = 0, depth_time_s = [], level_time_s = replicate (length probe_levels) 0, peak_depth = 0,
     level_entry_counts = replicate (length probe_levels) 0, non_l0_entry_count = 0, non_l0_decision_count = 0,
     output_clipper_condition_met_count = 0, clip_applied_count = 0, tighten_hold_reset_count = 0,
     depth_episode_durations_s = replicate (length depth_thresholds) [],
     first_positive_depth_to_first_tighten_s = [], tightest_level = L0,
     depth_current_durations_s = replicate (length depth_thresholds) 0,
     positive_depth_start_s = None, positive_episode_has_tightened = False\<rparr>"

definition finish_depth_episode :: "nat \<Rightarrow> TraceStatistics \<Rightarrow> TraceStatistics" where
  "finish_depth_episode index st =
    (let duration = depth_current_durations_s st ! index in
     if 0 < duration
     then st\<lparr>depth_episode_durations_s :=
               (depth_episode_durations_s st)[index := depth_episode_durations_s st ! index @ [duration]],
             depth_current_durations_s := (depth_current_durations_s st)[index := 0]\<rparr>
     else st)"

definition finish_episodes :: "TraceStatistics \<Rightarrow> TraceStatistics" where
  "finish_episodes st = fold finish_depth_episode [0..<length depth_thresholds] st"

definition charge_trace_depth :: "int \<Rightarrow> real \<Rightarrow> TraceStatistics \<Rightarrow> TraceStatistics" where
  "charge_trace_depth depth duration st = st\<lparr>depth_time_s := add_at depth duration (depth_time_s st)\<rparr>"

definition charge_trace_level :: "AdaptiveClipLevel \<Rightarrow> real \<Rightarrow> TraceStatistics \<Rightarrow> TraceStatistics" where
  "charge_trace_level lev duration st =
    st\<lparr>level_time_s := (level_time_s st)[level_int lev := level_time_s st ! level_int lev + duration]\<rparr>"

definition watch_depth :: "real \<Rightarrow> int \<Rightarrow> nat \<times> int \<Rightarrow> TraceStatistics \<Rightarrow> TraceStatistics" where
  "watch_depth duration depth = (\<lambda>(index, threshold) st.
     if threshold \<le> depth
     then st\<lparr>depth_current_durations_s :=
            (depth_current_durations_s st)[index := depth_current_durations_s st ! index + duration]\<rparr>
     else finish_depth_episode index st)"

definition add_interval :: "real \<Rightarrow> int \<Rightarrow> AdaptiveClipLevel \<Rightarrow> TraceStatistics \<Rightarrow> TraceStatistics result" where
  "add_interval duration depth lev st =
    (if duration < 0 then Inl (ValueError ''trace intervals must have non-negative duration'')
     else if duration = 0 then Inr st
     else let st1 = charge_trace_level lev duration
                (charge_trace_depth depth duration (st\<lparr>total_time_s := total_time_s st + duration\<rparr>));
              st2 = st1\<lparr>peak_depth := max (peak_depth st1) depth\<rparr> in
          Inr (fold (watch_depth duration depth)
            (zip [0..<length depth_thresholds] depth_thresholds) st2))"

section \<open>Decisions\<close>

definition start_positive :: "real \<Rightarrow> TraceStatistics \<Rightarrow> TraceStatistics" where
  "start_positive now_s st =
     st\<lparr>positive_depth_start_s := Some now_s, positive_episode_has_tightened := False\<rparr>"

definition count_response :: "real \<Rightarrow> TraceStatistics \<Rightarrow> TraceStatistics" where
  "count_response now_s st =
    (case positive_depth_start_s st of
       Some start \<Rightarrow>
         if positive_episode_has_tightened st then st
         else st\<lparr>first_positive_depth_to_first_tighten_s :=
                   first_positive_depth_to_first_tighten_s st @ [now_s - start],
                 positive_episode_has_tightened := True\<rparr>
     | None \<Rightarrow> st)"

definition observe_tighten :: "AdaptiveClipDecision \<Rightarrow> TraceStatistics \<Rightarrow> TraceStatistics" where
  "observe_tighten d st =
    (let k = level_int (new_level d);
         st1 = st\<lparr>level_entry_counts := (level_entry_counts st)[k := level_entry_counts st ! k + 1]\<rparr>;
         st2 = (if old_level d = L0 then st1\<lparr>non_l0_entry_count := non_l0_entry_count st1 + 1\<rparr> else st1) in
     count_response (decision_time_s d) st2)"

definition observe_decision :: "AdaptiveClipDecision \<Rightarrow> TraceStatistics \<Rightarrow> TraceStatistics" where
  "observe_decision d st =
    (let st1 = (if 0 < decision_q_inst d \<and> positive_depth_start_s st = None
                then start_positive (decision_time_s d) st else st);
         st2 = (if old_level d < new_level d then observe_tighten d st1 else st1);
         st3 = (if new_level d \<noteq> L0 then st2\<lparr>non_l0_decision_count := non_l0_decision_count st2 + 1\<rparr> else st2);
         st4 = (if trigger_reason d = TIGHTEN_HOLD_RESET
                then st3\<lparr>tighten_hold_reset_count := tighten_hold_reset_count st3 + 1\<rparr> else st3) in
     st4\<lparr>tightest_level := max (tightest_level st4) (new_level d)\<rparr>)"

definition observe_depth :: "int \<Rightarrow> int \<Rightarrow> real \<Rightarrow> TraceStatistics \<Rightarrow> TraceStatistics" where
  "observe_depth previous_depth depth now_s st =
    (if previous_depth = 0 \<and> 0 < depth \<and> positive_depth_start_s st = None then start_positive now_s st
     else if 0 < previous_depth \<and> depth = 0
     then st\<lparr>positive_depth_start_s := None, positive_episode_has_tightened := False\<rparr>
     else st)"

section \<open>Merging\<close>

definition merge_depth_times :: "(int \<times> real) list \<Rightarrow> (int \<times> real) list \<Rightarrow> (int \<times> real) list" where
  "merge_depth_times other own = fold (\<lambda>(depth, duration). add_at depth duration) other own"

definition merge_statistics :: "TraceStatistics \<Rightarrow> TraceStatistics \<Rightarrow> TraceStatistics" where
  "merge_statistics other st = st\<lparr>
     total_time_s := total_time_s st + total_time_s other,
     depth_time_s := merge_depth_times (depth_time_s other) (depth_time_s st),
     level_time_s := map2 (+) (level_time_s st) (level_time_s other),
     level_entry_counts := map2 (+) (level_entry_counts st) (level_entry_counts other),
     peak_depth := max (peak_depth st) (peak_depth other),
     non_l0_entry_count := non_l0_entry_count st + non_l0_entry_count other,
     non_l0_decision_count := non_l0_decision_count st + non_l0_decision_count other,
     output_clipper_condition_met_count :=
       output_clipper_condition_met_count st + output_clipper_condition_met_count other,
     clip_applied_count := clip_applied_count st + clip_applied_count other,
     tighten_hold_reset_count := tighten_hold_reset_count st + tighten_hold_reset_count other,
     depth_episode_durations_s := map2 (@) (depth_episode_durations_s st) (depth_episode_durations_s other),
     first_positive_depth_to_first_tighten_s :=
       first_positive_depth_to_first_tighten_s st @ first_positive_depth_to_first_tighten_s other,
     tightest_level := max (tightest_level st) (tightest_level other)\<rparr>"

section \<open>The summary\<close>

definition fraction_of :: "real \<Rightarrow> real \<Rightarrow> real" where
  "fraction_of numerator denominator = (if 0 < denominator then numerator / denominator else 0)"

record DurationDistribution =
  dist_count :: nat
  dist_p50_s :: "real option"
  dist_p95_s :: "real option"
  dist_max_s :: "real option"
  dist_durations_s :: "real list"

definition duration_distribution :: "real list \<Rightarrow> DurationDistribution" where
  "duration_distribution durations =
    (let ordered = sort durations in
     \<lparr>dist_count = length ordered, dist_p50_s = nearest_rank ordered (1/2), dist_p95_s = nearest_rank ordered (95/100),
      dist_max_s = (if ordered \<noteq> [] then Some (Max (set ordered)) else None), dist_durations_s = ordered\<rparr>)"

record TimeShare =
  share_time_s :: real
  share_fraction :: real

record LevelShare = TimeShare +
  share_entry_count :: nat

record TraceSummary =
  sum_total_time_s :: real
  depth_distribution :: "(int \<times> TimeShare) list"
  peak_stable_waiting_depth :: int
  depth_episode_distributions :: "(int \<times> DurationDistribution) list"
  sum_non_l0_time_s :: real
  sum_non_l0_time_fraction :: real
  sum_non_l0_entry_count :: nat
  sum_non_l0_decision_count :: nat
  level_residence :: "(AdaptiveClipLevel \<times> LevelShare) list"
  tightest_level_reached :: AdaptiveClipLevel
  sum_tighten_hold_reset_count :: nat
  response_distribution :: DurationDistribution
  sum_clip_applied_count :: nat
  sum_condition_met_count :: nat

definition depth_share :: "TraceStatistics \<Rightarrow> int \<Rightarrow> TimeShare" where
  "depth_share st depth =
    (let t = (case map_of (depth_time_s st) depth of Some x \<Rightarrow> x | None \<Rightarrow> 0) in
     \<lparr>share_time_s = t, share_fraction = fraction_of t (total_time_s st)\<rparr>)"

definition level_share :: "TraceStatistics \<Rightarrow> AdaptiveClipLevel \<Rightarrow> LevelShare" where
  "level_share st lev =
    (let t = level_time_s st ! level_int lev in
     \<lparr>share_time_s = t, share_fraction = fraction_of t (total_time_s st),
      share_entry_count = level_entry_counts st ! level_int lev\<rparr>)"

definition summarize_trace :: "TraceStatistics \<Rightarrow> TraceSummary" where
  "summarize_trace st =
    (let non_l0 = sum_list (tl (level_time_s st)) in
     \<lparr>sum_total_time_s = total_time_s st,
      depth_distribution = map (\<lambda>depth. (depth, depth_share st depth)) [0..peak_depth st],
      peak_stable_waiting_depth = peak_depth st,
      depth_episode_distributions = map (\<lambda>(index, threshold).
          (threshold, duration_distribution (depth_episode_durations_s st ! index)))
        (zip [0..<length depth_thresholds] depth_thresholds),
      sum_non_l0_time_s = non_l0,
      sum_non_l0_time_fraction = fraction_of non_l0 (total_time_s st),
      sum_non_l0_entry_count = non_l0_entry_count st,
      sum_non_l0_decision_count = non_l0_decision_count st,
      level_residence = map (\<lambda>lev. (lev, level_share st lev)) probe_levels,
      tightest_level_reached = tightest_level st,
      sum_tighten_hold_reset_count = tighten_hold_reset_count st,
      response_distribution = duration_distribution (first_positive_depth_to_first_tighten_s st),
      sum_clip_applied_count = clip_applied_count st,
      sum_condition_met_count = output_clipper_condition_met_count st\<rparr>)"

section \<open>Accounts\<close>

interpretation trace_depth: time_table depth_time_s charge_trace_depth
  by unfold_locales (simp add: charge_trace_depth_def)

text \<open>
  The invariant of an accumulator: the depths and the levels each account for the whole time, and
  the episodes at or above a threshold, with the one still open, for the time spent there.
\<close>

definition times_ok :: "TraceStatistics \<Rightarrow> bool" where
  "times_ok st \<longleftrightarrow>
     trace_depth.total st = total_time_s st \<and> sum_list (level_time_s st) = total_time_s st \<and>
     length (level_time_s st) = 4 \<and> (\<forall>x \<in> set (level_time_s st). 0 \<le> x) \<and>
     length (level_entry_counts st) = 4 \<and> 0 \<le> peak_depth st \<and> distinct (map fst (depth_time_s st)) \<and>
     (\<forall>(k, v) \<in> set (depth_time_s st). 0 \<le> v) \<and> fst ` set (depth_time_s st) \<subseteq> {0..peak_depth st}"

definition episodes_ok :: "TraceStatistics \<Rightarrow> bool" where
  "episodes_ok st \<longleftrightarrow> length (depth_episode_durations_s st) = 3 \<and> length (depth_current_durations_s st) = 3 \<and>
     (\<forall>i < 3. 0 \<le> depth_current_durations_s st ! i \<and> (\<forall>x \<in> set (depth_episode_durations_s st ! i). 0 < x))"

definition episode_time :: "TraceStatistics \<Rightarrow> nat \<Rightarrow> real" where
  "episode_time st i = sum_list (depth_episode_durations_s st ! i) + depth_current_durations_s st ! i"

definition accounted :: "TraceStatistics \<Rightarrow> bool" where
  "accounted st \<longleftrightarrow> times_ok st \<and> episodes_ok st \<and>
     (\<forall>i < 3. episode_time st i = trace_depth.time_in (\<lambda>d. depth_thresholds ! i \<le> d) st)"

definition all_finished :: "TraceStatistics \<Rightarrow> bool" where
  "all_finished st \<longleftrightarrow> (\<forall>i < 3. depth_current_durations_s st ! i = 0)"

lemma depth_thresholds_length [simp]: "length depth_thresholds = 3"
  by (simp add: depth_thresholds_def)

lemma accounted_init: "accounted TraceStatistics_init \<and> all_finished TraceStatistics_init"
  by (simp add: accounted_def times_ok_def episodes_ok_def episode_time_def all_finished_def TraceStatistics_init_def
      probe_levels_def trace_depth.total_def trace_depth.time_in_def sum_list_replicate)

text \<open>What an operation on the episodes may change.\<close>

definition same_times :: "TraceStatistics \<Rightarrow> TraceStatistics \<Rightarrow> bool" where
  "same_times st st' \<longleftrightarrow> total_time_s st' = total_time_s st \<and> depth_time_s st' = depth_time_s st \<and>
     level_time_s st' = level_time_s st \<and> peak_depth st' = peak_depth st \<and>
     length (level_entry_counts st') = length (level_entry_counts st)"

definition same_counts :: "TraceStatistics \<Rightarrow> TraceStatistics \<Rightarrow> bool" where
  "same_counts st st' \<longleftrightarrow> clip_applied_count st' = clip_applied_count st \<and>
     output_clipper_condition_met_count st' = output_clipper_condition_met_count st \<and>
     non_l0_decision_count st' = non_l0_decision_count st"

lemma same_refl [simp]: "same_times st st" "same_counts st st"
  by (simp_all add: same_times_def same_counts_def)

lemma same_trans:
  "same_times a b \<Longrightarrow> same_times b c \<Longrightarrow> same_times a c" "same_counts a b \<Longrightarrow> same_counts b c \<Longrightarrow> same_counts a c"
  by (simp_all add: same_times_def same_counts_def)

lemma same_times_facts:
  assumes "same_times st st'"
  shows "trace_depth.total st' = trace_depth.total st" "trace_depth.time_in P st' = trace_depth.time_in P st"
    "times_ok st' = times_ok st"
  using assms by (simp_all add: same_times_def times_ok_def trace_depth.total_def trace_depth.time_in_def)

lemma finish_depth_episode_ok:
  assumes "episodes_ok st" and "i < 3"
  shows "episodes_ok (finish_depth_episode i st)" and "same_times st (finish_depth_episode i st)"
    and "same_counts st (finish_depth_episode i st)" and "episode_time (finish_depth_episode i st) j = episode_time st j"
    and "depth_current_durations_s (finish_depth_episode i st) ! j
      = (if j = i then 0 else depth_current_durations_s st ! j)"
  using assms
  by (auto simp: finish_depth_episode_def episodes_ok_def same_times_def same_counts_def episode_time_def
      nth_list_update Let_def not_less order.antisym)

lemma watch_depth_ok:
  assumes "episodes_ok st" and "i < 3" and "0 \<le> duration"
  shows "episodes_ok (watch_depth duration depth (i, th) st)" and "same_times st (watch_depth duration depth (i, th) st)"
    and "same_counts st (watch_depth duration depth (i, th) st)"
    and "episode_time (watch_depth duration depth (i, th) st) j
      = episode_time st j + (if j = i \<and> th \<le> depth then duration else 0)"
proof -
  have open_episode: "episodes_ok (st\<lparr>depth_current_durations_s :=
      (depth_current_durations_s st)[i := depth_current_durations_s st ! i + duration]\<rparr>)"
    using assms by (auto simp: episodes_ok_def nth_list_update)
  show "episodes_ok (watch_depth duration depth (i, th) st)" "same_times st (watch_depth duration depth (i, th) st)"
    "same_counts st (watch_depth duration depth (i, th) st)"
    using assms open_episode finish_depth_episode_ok [OF assms(1,2)]
    by (auto simp: watch_depth_def same_times_def same_counts_def)
  show "episode_time (watch_depth duration depth (i, th) st) j
      = episode_time st j + (if j = i \<and> th \<le> depth then duration else 0)"
    using assms finish_depth_episode_ok(4) [OF assms(1,2)]
    by (auto simp: watch_depth_def episode_time_def episodes_ok_def nth_list_update)
qed

lemma watch_all_ok:
  assumes "episodes_ok st" and "0 \<le> duration"
    and fold: "st' = fold (watch_depth duration depth) (zip [0..<length depth_thresholds] depth_thresholds) st"
  shows "episodes_ok st'" and "same_times st st'" and "same_counts st st'"
    and "i < 3 \<Longrightarrow> episode_time st' i = episode_time st i + (if depth_thresholds ! i \<le> depth then duration else 0)"
proof -
  have st': "st' = watch_depth duration depth (2, 3) (watch_depth duration depth (1, 2) (watch_depth duration depth (0, 1) st))"
    by (simp add: fold depth_thresholds_def numeral_eq_Suc)
  note w0 = watch_depth_ok [OF assms(1) _ assms(2), of 0 depth 1]
  note w1 = watch_depth_ok [OF w0(1) _ assms(2), of 1 depth 2]
  note w2 = watch_depth_ok [OF w1(1) _ assms(2), of 2 depth 3]
  show "episodes_ok st'" unfolding st' using w2(1) by simp
  show "same_times st st'" unfolding st' using same_trans(1) [OF same_trans(1) [OF w0(2) w1(2)] w2(2)] by simp
  show "same_counts st st'" unfolding st' using same_trans(2) [OF same_trans(2) [OF w0(3) w1(3)] w2(3)] by simp
  show "episode_time st' i = episode_time st i + (if depth_thresholds ! i \<le> depth then duration else 0)" if "i < 3"
  proof -
    have "i = 0 \<or> i = 1 \<or> i = 2" using that by auto
    then show ?thesis
      unfolding st' by (elim disjE) (simp_all add: w0(4) w1(4) w2(4) depth_thresholds_def del: One_nat_def)
  qed
qed

lemma charge_trace_level_ok:
  assumes "times_ok st" and "0 < duration" and "0 \<le> depth"
    and st1: "st1 = charge_trace_level l duration
      (charge_trace_depth depth duration (st\<lparr>total_time_s := total_time_s st + duration\<rparr>))"
  shows "times_ok (st1\<lparr>peak_depth := max (peak_depth st1) depth\<rparr>)"
proof -
  let ?st0 = "st\<lparr>total_time_s := total_time_s st + duration\<rparr>"
  let ?d = "charge_trace_depth depth duration ?st0"
  have tot: "trace_depth.total ?st0 = trace_depth.total st" by (simp add: trace_depth.total_def)
  have k: "level_int l < length (level_time_s st)"
    using assms(1) le_imp_less_Suc [OF level_int_le_3 [of l]] by (simp add: times_ok_def)
  have depth: "depth_time_s st1 = depth_time_s ?d" "trace_depth.total st1 = trace_depth.total st + duration"
    using trace_depth.total_charge [of depth duration ?st0] by (simp_all add: st1 charge_trace_level_def trace_depth.total_def)
  have lev: "level_time_s st1 = (level_time_s st)[level_int l := level_time_s st ! level_int l + duration]"
    "total_time_s st1 = total_time_s st + duration" "peak_depth st1 = peak_depth st"
    "level_entry_counts st1 = level_entry_counts st"
    by (simp_all add: st1 charge_trace_level_def charge_trace_depth_def)
  have "sum_list (level_time_s st1) = sum_list (level_time_s st) + duration"
    using k by (simp add: lev sum_list_charge)
  moreover have "\<forall>x \<in> set (level_time_s st1). 0 \<le> x"
    using assms(1,2) k nth_mem [OF k] unfolding lev(1)
    by (auto simp: times_ok_def dest!: subsetD [OF set_update_subset_insert])
  moreover have "distinct (map fst (depth_time_s st1))" "\<forall>(k, v) \<in> set (depth_time_s st1). 0 \<le> v"
    using trace_depth.charged_distinct [of ?st0 depth duration] trace_depth.charged_nonneg [of ?st0 duration depth] assms(1,2)
    by (simp_all add: depth times_ok_def)
  moreover have "fst ` set (depth_time_s st1) \<subseteq> {0..max (peak_depth st) depth}"
  proof -
    have "fst ` set (depth_time_s st) \<subseteq> {0..peak_depth st}" using assms(1) by (simp add: times_ok_def)
    then have "fst ` set (depth_time_s st) \<subseteq> {0..max (peak_depth st) depth}" by (rule order_trans) auto
    then show ?thesis using assms(3) by (simp add: depth charge_trace_depth_def)
  qed
  ultimately show ?thesis
    using assms(1) depth(2) by (simp add: times_ok_def lev trace_depth.total_def le_max_iff_disj)
qed

lemma add_interval_ok:
  assumes "accounted st" and "0 \<le> depth" and "0 \<le> duration"
  shows "\<exists>st'. add_interval duration depth l st = Inr st' \<and> accounted st' \<and> same_counts st st' \<and>
    total_time_s st' = total_time_s st + duration"
proof (cases "duration = 0")
  case False
  then have pos: "0 < duration" using assms(3) by simp
  let ?st0 = "st\<lparr>total_time_s := total_time_s st + duration\<rparr>"
  let ?st1 = "charge_trace_level l duration (charge_trace_depth depth duration ?st0)"
  let ?st2 = "?st1\<lparr>peak_depth := max (peak_depth ?st1) depth\<rparr>"
  define st3 where "st3 = fold (watch_depth duration depth) (zip [0..<length depth_thresholds] depth_thresholds) ?st2"
  have parts: "depth_episode_durations_s ?st2 = depth_episode_durations_s st"
    "depth_current_durations_s ?st2 = depth_current_durations_s st" "same_counts st ?st2"
    "total_time_s ?st2 = total_time_s st + duration"
    by (simp_all add: charge_trace_level_def charge_trace_depth_def same_counts_def)
  have e: "episodes_ok ?st2" "\<And>i. episode_time ?st2 i = episode_time st i"
    using assms(1) by (simp_all add: accounted_def episodes_ok_def episode_time_def parts)
  have t: "times_ok ?st2"
    using charge_trace_level_ok [OF _ pos assms(2) refl] assms(1) by (simp add: accounted_def)
  have charge: "trace_depth.time_in P ?st2 = trace_depth.time_in P st + (if P depth then duration else 0)" for P
    using trace_depth.time_in_charge [of P depth duration ?st0]
    by (simp add: trace_depth.time_in_def charge_trace_level_def)
  note w = watch_all_ok [OF e(1) less_imp_le [OF pos] st3_def]
  have "accounted st3"
    using w t assms(1) by (simp add: accounted_def same_times_facts [OF w(2)] e charge)
  moreover have "same_counts st st3" "total_time_s st3 = total_time_s st + duration"
    using same_trans(2) [OF parts(3) w(3)] w(2) parts(4) by (simp_all add: same_times_def)
  moreover have "add_interval duration depth l st = Inr st3"
    using pos by (simp add: add_interval_def Let_def st3_def)
  ultimately show ?thesis by blast
qed (simp add: add_interval_def assms)

lemma finish_episodes_ok:
  assumes "accounted st"
  shows "accounted (finish_episodes st) \<and> all_finished (finish_episodes st) \<and> same_counts st (finish_episodes st) \<and>
    total_time_s (finish_episodes st) = total_time_s st"
proof -
  have st': "finish_episodes st = finish_depth_episode 2 (finish_depth_episode 1 (finish_depth_episode 0 st))"
    by (simp add: finish_episodes_def numeral_eq_Suc)
  have e: "episodes_ok st" using assms by (simp add: accounted_def)
  note f0 = finish_depth_episode_ok [OF e, of 0]
  note f1 = finish_depth_episode_ok [OF f0(1), of 1]
  note f2 = finish_depth_episode_ok [OF f1(1), of 2]
  have times: "same_times st (finish_episodes st)"
    unfolding st' using same_trans(1) [OF same_trans(1) [OF f0(2) f1(2)] f2(2)] by simp
  have counts: "same_counts st (finish_episodes st)"
    unfolding st' using same_trans(2) [OF same_trans(2) [OF f0(3) f1(3)] f2(3)] by simp
  have "episode_time (finish_episodes st) i = episode_time st i" for i
    unfolding st' by (simp add: f0(4) f1(4) f2(4) del: One_nat_def)
  moreover have "all_finished (finish_episodes st)"
    unfolding st' all_finished_def by (auto simp: f0(5) f1(5) f2(5) simp del: One_nat_def)
  moreover have "episodes_ok (finish_episodes st)" unfolding st' using f2(1) by simp
  ultimately show ?thesis
    using assms times counts by (simp add: accounted_def same_times_facts [OF times]) (simp add: same_times_def)
qed

text \<open>Observations count decisions and leave the time alone.\<close>

lemma accounted_cong:
  assumes "same_times st st'" and "depth_episode_durations_s st' = depth_episode_durations_s st"
    and "depth_current_durations_s st' = depth_current_durations_s st"
  shows "accounted st' = accounted st"
  using assms(2,3)
  by (simp add: accounted_def same_times_facts [OF assms(1)] episodes_ok_def episode_time_def)

lemma count_response_frame:
  "same_times st (count_response t st) \<and> same_counts st (count_response t st) \<and>
   depth_episode_durations_s (count_response t st) = depth_episode_durations_s st \<and>
   depth_current_durations_s (count_response t st) = depth_current_durations_s st"
  by (simp add: count_response_def same_times_def same_counts_def split: option.split)

lemma observe_tighten_frame:
  "same_times st (observe_tighten d st) \<and> same_counts st (observe_tighten d st) \<and>
   depth_episode_durations_s (observe_tighten d st) = depth_episode_durations_s st \<and>
   depth_current_durations_s (observe_tighten d st) = depth_current_durations_s st"
  using count_response_frame [of _ "decision_time_s d"]
  by (simp add: observe_tighten_def Let_def same_times_def same_counts_def)

lemma observe_decision_frame:
  "accounted (observe_decision d st) = accounted st"
  "non_l0_decision_count (observe_decision d st) = non_l0_decision_count st + (if new_level d = L0 then 0 else 1)"
  "clip_applied_count (observe_decision d st) = clip_applied_count st"
  "output_clipper_condition_met_count (observe_decision d st) = output_clipper_condition_met_count st"
  "total_time_s (observe_decision d st) = total_time_s st"
proof -
  have "same_times st (observe_decision d st) \<and>
    depth_episode_durations_s (observe_decision d st) = depth_episode_durations_s st \<and>
    depth_current_durations_s (observe_decision d st) = depth_current_durations_s st \<and>
    non_l0_decision_count (observe_decision d st) = non_l0_decision_count st + (if new_level d = L0 then 0 else 1) \<and>
    clip_applied_count (observe_decision d st) = clip_applied_count st \<and>
    output_clipper_condition_met_count (observe_decision d st) = output_clipper_condition_met_count st"
    using observe_tighten_frame [of _ d]
    by (simp add: observe_decision_def start_positive_def Let_def same_times_def same_counts_def)
  then show "accounted (observe_decision d st) = accounted st"
    "non_l0_decision_count (observe_decision d st) = non_l0_decision_count st + (if new_level d = L0 then 0 else 1)"
    "clip_applied_count (observe_decision d st) = clip_applied_count st"
    "output_clipper_condition_met_count (observe_decision d st) = output_clipper_condition_met_count st"
    "total_time_s (observe_decision d st) = total_time_s st"
    using accounted_cong [of st "observe_decision d st"] by (simp_all add: same_times_def)
qed

lemma observe_depth_frame:
  "accounted (observe_depth a b t st) = accounted st" "same_counts st (observe_depth a b t st)"
  "total_time_s (observe_depth a b t st) = total_time_s st"
  using accounted_cong [of st "observe_depth a b t st"]
  by (simp_all add: observe_depth_def start_positive_def same_times_def same_counts_def)

section \<open>Merged accounts\<close>

lemma merge_depth_times_sum:
  assumes "\<And>k x y. f k (x + y) = f k x + f k y"
  shows "entry_sum f (merge_depth_times other own) = entry_sum f own + entry_sum f other"
  by (induction other arbitrary: own) (auto simp: merge_depth_times_def entry_sum_add_at assms)

lemma merge_depth_times_keys:
  "fst ` set (merge_depth_times other own) = fst ` set own \<union> fst ` set other"
  "distinct (map fst own) \<Longrightarrow> distinct (map fst (merge_depth_times other own))"
proof -
  show "fst ` set (merge_depth_times other own) = fst ` set own \<union> fst ` set other"
    by (induction other arbitrary: own) (simp_all add: merge_depth_times_def case_prod_unfold)
  show "distinct (map fst own) \<Longrightarrow> distinct (map fst (merge_depth_times other own))"
    by (induction other arbitrary: own) (simp_all add: merge_depth_times_def case_prod_unfold add_at_distinct)
qed

lemma merge_depth_times_nonneg:
  "\<forall>(k, v) \<in> set own. 0 \<le> v \<Longrightarrow> \<forall>(k, v) \<in> set other. 0 \<le> v \<Longrightarrow>
   \<forall>(k, v) \<in> set (merge_depth_times other own). 0 \<le> (v :: real)"
proof (induction other arbitrary: own)
  case (Cons e other)
  obtain k x where e: "e = (k, x)" by (cases e)
  have x: "0 \<le> x" "\<forall>(k, v) \<in> set other. 0 \<le> v" using Cons.prems(2) e by auto
  have "\<forall>(k, v) \<in> set (add_at k x m). 0 \<le> v" if "\<forall>(k, v) \<in> set m. 0 \<le> v" for m :: "(int \<times> real) list"
    using that x(1) by (induction m) (auto split: if_splits)
  from Cons.IH [OF this [OF Cons.prems(1)] x(2)] show ?case unfolding e merge_depth_times_def fold_simps by simp
qed (simp add: merge_depth_times_def)

lemma sum_list_map2_plus:
  "length xs = length ys \<Longrightarrow> sum_list (map2 (+) xs ys) = sum_list xs + (sum_list ys :: real)"
  by (induction xs ys rule: list_induct2) auto

lemma merge_times_ok:
  assumes o: "times_ok other" and s: "times_ok st"
  shows "times_ok (merge_statistics other st)"
proof -
  let ?m = "merge_statistics other st"
  have total: "trace_depth.total ?m = trace_depth.total st + trace_depth.total other"
    by (simp add: merge_statistics_def trace_depth.total_def merge_depth_times_sum)
  have wider: "{0..peak_depth st} \<subseteq> {0..peak_depth ?m}" "{0..peak_depth other} \<subseteq> {0..peak_depth ?m}"
    by (auto simp: merge_statistics_def)
  have "fst ` set (depth_time_s ?m) = fst ` set (depth_time_s st) \<union> fst ` set (depth_time_s other)"
    by (simp add: merge_statistics_def merge_depth_times_keys)
  moreover have "fst ` set (depth_time_s st) \<subseteq> {0..peak_depth st}"
    and "fst ` set (depth_time_s other) \<subseteq> {0..peak_depth other}"
    using o s by (simp_all only: times_ok_def)
  ultimately have keys: "fst ` set (depth_time_s ?m) \<subseteq> {0..peak_depth ?m}"
    using order_trans [OF _ wider(1)] order_trans [OF _ wider(2)] by simp
  have "depth_time_s ?m = merge_depth_times (depth_time_s other) (depth_time_s st)"
    and levs: "level_time_s ?m = map2 (+) (level_time_s st) (level_time_s other)"
    and rest: "total_time_s ?m = total_time_s st + total_time_s other"
      "level_entry_counts ?m = map2 (+) (level_entry_counts st) (level_entry_counts other)"
      "peak_depth ?m = max (peak_depth st) (peak_depth other)"
    by (simp_all add: merge_statistics_def)
  moreover have "\<forall>(k, v) \<in> set (merge_depth_times (depth_time_s other) (depth_time_s st)). 0 \<le> v"
    by (rule merge_depth_times_nonneg) (use o s in \<open>simp_all add: times_ok_def\<close>)
  moreover have "\<forall>x \<in> set (level_time_s ?m). 0 \<le> x"
    using o s unfolding levs times_ok_def by (auto dest: set_zip_leftD set_zip_rightD intro!: add_nonneg_nonneg)
  moreover have "sum_list (level_time_s ?m) = total_time_s st + total_time_s other"
    using o s unfolding levs times_ok_def by (simp add: sum_list_map2_plus)
  ultimately show ?thesis
    using o s total keys merge_depth_times_keys(2) unfolding times_ok_def by (simp add: le_max_iff_disj)
qed

lemma merge_ok:
  assumes "accounted st" and "all_finished st" and "accounted other" and "all_finished other"
  shows "accounted (merge_statistics other st) \<and> all_finished (merge_statistics other st)"
proof -
  let ?m = "merge_statistics other st"
  have o: "times_ok other" "episodes_ok other" and s: "times_ok st" "episodes_ok st"
    using assms by (simp_all add: accounted_def)
  have "trace_depth.time_in P ?m = trace_depth.time_in P st + trace_depth.time_in P other" for P
    by (simp add: merge_statistics_def trace_depth.time_in_def merge_depth_times_sum)
  moreover have "all_finished ?m" using assms(2) by (simp add: all_finished_def merge_statistics_def)
  moreover have "episodes_ok ?m"
    using o(2) s(2) by (auto simp: episodes_ok_def merge_statistics_def)
  moreover have "episode_time ?m i = episode_time st i + episode_time other i" if "i < 3" for i
    using that assms(2,4) o(2) s(2) by (simp add: episode_time_def episodes_ok_def merge_statistics_def all_finished_def)
  ultimately show ?thesis using assms(1,3) merge_times_ok [OF o(1) s(1)] by (simp add: accounted_def)
qed

section \<open>What a summary says\<close>

definition share_sum :: "(int \<times> TimeShare) list \<Rightarrow> (int \<Rightarrow> bool) \<Rightarrow> real" where
  "share_sum shares P = sum_list (map (\<lambda>(depth, share). if P depth then share_time_s share else 0) shares)"

text \<open>
  A summary partitions its time: by depth, by level, and its episodes make up the time at or above
  each threshold.
\<close>

definition time_partitioned :: "TraceSummary \<Rightarrow> bool" where
  "time_partitioned s \<longleftrightarrow>
     map fst (depth_distribution s) = [0..peak_stable_waiting_depth s] \<and>
     map fst (level_residence s) = probe_levels \<and>
     share_sum (depth_distribution s) (\<lambda>d. True) = sum_total_time_s s \<and>
     sum_list (map (\<lambda>(l, share). share_time_s share) (level_residence s)) = sum_total_time_s s \<and>
     sum_list (map (\<lambda>(l, share). if l = L0 then 0 else share_time_s share) (level_residence s)) = sum_non_l0_time_s s \<and>
     (0 < sum_total_time_s s \<longrightarrow>
        sum_list (map (\<lambda>(d, share). share_fraction share) (depth_distribution s)) = 1 \<and>
        sum_list (map (\<lambda>(l, share). share_fraction share) (level_residence s)) = 1) \<and>
     (\<forall>(d, share) \<in> set (depth_distribution s). 0 \<le> share_time_s share) \<and>
     (\<forall>(l, share) \<in> set (level_residence s). 0 \<le> share_time_s share) \<and>
     map fst (depth_episode_distributions s) = depth_thresholds \<and>
     (\<forall>(th, dist) \<in> set (depth_episode_distributions s).
        sum_list (dist_durations_s dist) = share_sum (depth_distribution s) (\<lambda>d. th \<le> d) \<and>
        (\<forall>x \<in> set (dist_durations_s dist). 0 < x))"

lemma sum_list_sort: "sum_list (sort xs) = sum_list (xs :: real list)"
  by (metis mset_sort sum_mset_sum_list)

lemma depth_share_sum:
  assumes "times_ok st"
  shows "share_sum (map (\<lambda>d. (d, depth_share st d)) [0..peak_depth st]) P = trace_depth.time_in P st"
proof -
  have "sum_list (map (\<lambda>k. case map_of (depth_time_s st) k of Some v \<Rightarrow> (if P k then v else 0) | None \<Rightarrow> 0)
      [0..peak_depth st]) = trace_depth.time_in P st"
    unfolding trace_depth.time_in_def
    by (rule entry_sum_lookup) (use assms in \<open>simp_all add: times_ok_def\<close>)
  moreover have "(\<lambda>d. if P d then share_time_s (depth_share st d) else 0)
      = (\<lambda>k. case map_of (depth_time_s st) k of Some v \<Rightarrow> (if P k then v else 0) | None \<Rightarrow> 0)"
    by (auto simp: depth_share_def Let_def split: option.split)
  ultimately show ?thesis by (simp add: share_sum_def comp_def)
qed

lemma fraction_sum:
  "0 < t \<Longrightarrow> sum_list (map (\<lambda>x. fraction_of (f x) t) xs) = sum_list (map f xs) / t"
  by (induction xs) (simp_all add: fraction_of_def add_divide_distrib)

lemma depth_fractions_sum:
  assumes "accounted st" and "0 < total_time_s st"
  shows "sum_list (map (\<lambda>(d, share). share_fraction share) (map (\<lambda>d. (d, depth_share st d)) [0..peak_depth st])) = 1"
proof -
  let ?dist = "map (\<lambda>d. (d, depth_share st d)) [0..peak_depth st]"
  have ok: "times_ok st" using assms(1) by (simp add: accounted_def)
  have "sum_list (map (\<lambda>(d, share). share_fraction share) ?dist)
      = sum_list (map (\<lambda>d. fraction_of (share_time_s (depth_share st d)) (total_time_s st)) [0..peak_depth st])"
    by (simp add: comp_def depth_share_def Let_def)
  also have "\<dots> = share_sum ?dist (\<lambda>d. True) / total_time_s st"
    unfolding fraction_sum [OF assms(2)] by (simp add: share_sum_def comp_def)
  also have "share_sum ?dist (\<lambda>d. True) = trace_depth.time_in (\<lambda>d. True) st" by (rule depth_share_sum [OF ok])
  also have "\<dots> = total_time_s st" using ok by (simp add: times_ok_def trace_depth.time_in_def trace_depth.total_def)
  finally show ?thesis using assms(2) by simp
qed

lemma summary_episodes:
  assumes "accounted st" and "all_finished st" and "(th, dd) \<in> set (depth_episode_distributions (summarize_trace st))"
  shows "sum_list (dist_durations_s dd) = trace_depth.time_in (\<lambda>d. th \<le> d) st \<and> (\<forall>x \<in> set (dist_durations_s dd). 0 < x)"
proof -
  obtain i where i: "i < 3" "th = depth_thresholds ! i" "dd = duration_distribution (depth_episode_durations_s st ! i)"
    using assms(3) by (auto simp: summarize_trace_def Let_def in_set_zip)
  have "sum_list (depth_episode_durations_s st ! i) = trace_depth.time_in (\<lambda>d. th \<le> d) st"
    using assms(1,2) i(1) by (simp add: accounted_def all_finished_def episode_time_def i(2))
  moreover have "\<forall>x \<in> set (depth_episode_durations_s st ! i). 0 < x"
    using assms(1) i(1) by (simp add: accounted_def episodes_ok_def)
  ultimately show ?thesis by (simp add: i(3) duration_distribution_def Let_def sum_list_sort)
qed

lemma summary_partitions_time:
  assumes "accounted st" and "all_finished st"
  shows "time_partitioned (summarize_trace st)"
proof -
  let ?s = "summarize_trace st"
  have ok: "times_ok st" "episodes_ok st" using assms(1) by (simp_all add: accounted_def)
  obtain a b c d where lv: "level_time_s st = [a, b, c, d]"
    using ok(1) by (auto simp: times_ok_def numeral_eq_Suc length_Suc_conv)
  have lv0: "0 \<le> a" "0 \<le> b" "0 \<le> c" "0 \<le> d" "a + (b + (c + d)) = total_time_s st"
    using ok(1) by (simp_all add: times_ok_def lv)
  have dist: "depth_distribution ?s = map (\<lambda>d. (d, depth_share st d)) [0..peak_depth st]"
    "sum_total_time_s ?s = total_time_s st" "peak_stable_waiting_depth ?s = peak_depth st"
    "level_residence ?s = map (\<lambda>l. (l, level_share st l)) probe_levels" "sum_non_l0_time_s ?s = b + (c + d)"
    by (simp_all add: summarize_trace_def Let_def lv)
  have depth: "share_sum (depth_distribution ?s) P = trace_depth.time_in P st" for P
    unfolding dist(1) by (rule depth_share_sum [OF ok(1)])
  have all: "trace_depth.time_in (\<lambda>d. True) st = total_time_s st"
    using ok(1) by (simp add: times_ok_def trace_depth.time_in_def trace_depth.total_def)
  have "sum_list (map (\<lambda>(d, share). share_fraction share) (depth_distribution ?s)) = 1" if "0 < total_time_s st"
    unfolding dist(1) by (rule depth_fractions_sum [OF assms(1) that])
  moreover have "sum_list (map (\<lambda>(l, share). share_fraction share) (level_residence ?s)) = 1" if "0 < total_time_s st"
    using that lv0(5) by (simp add: dist(4) probe_levels_def level_share_def lv fraction_of_def Let_def
        flip: add_divide_distrib)
  moreover have "0 \<le> share_time_s (depth_share st k)" for k
    using ok(1) by (auto simp: depth_share_def times_ok_def Let_def split: option.split dest!: map_of_SomeD)
  moreover have "(\<forall>(th, dist) \<in> set (depth_episode_distributions ?s).
        sum_list (dist_durations_s dist) = share_sum (depth_distribution ?s) (\<lambda>d. th \<le> d) \<and>
        (\<forall>x \<in> set (dist_durations_s dist). 0 < x))"
    unfolding depth using summary_episodes [OF assms] by blast
  moreover have "map fst (depth_episode_distributions ?s) = depth_thresholds"
    by (simp add: summarize_trace_def Let_def comp_def case_prod_unfold)
  ultimately show ?thesis
    using lv0 by (simp add: time_partitioned_def depth all)
      (simp add: dist probe_levels_def level_share_def lv Let_def comp_def)
qed

end
