(* ===== verification/Probe.thy ===== *)
theory Probe
  imports ProbeStatistics Clipping Generator ControllerLemmas
begin

text \<open>
  The event-driven queue of the probe (src/scripts/probe_week7_lowload_depth.py): \<open>_simulate_trace\<close>
  replays a generated workload against the real controller and clipper with four slots and a fitted
  service time, \<open>run_probe\<close> merges the repetitions of three seeds and \<open>run_matrix\<close> varies load and
  hold. The injected clock is the argument \<open>now_s\<close>; the random source of the generator, the
  artifact and configuration files are parameters.
\<close>

section \<open>The simulation\<close>

definition probe_slots :: nat where
  "probe_slots = 4"

definition service_time_s :: "int \<Rightarrow> real" where
  "service_time_s output_tokens = 1494/100000 * of_int output_tokens + 156/10000"

text \<open>
  The local variables of \<open>_simulate_trace\<close>. \<open>sim_arrivals\<close> is \<open>requests[next_arrival:]\<close>; the heap of
  completions is the list of its pairs in the order \<open>heapq\<close> pops them.
\<close>

record Simulation =
  sim_controller :: AdaptiveClipController
  sim_waiting :: "RequestEnvelope list"
  sim_completions :: "(real \<times> nat) list"
  sim_arrivals :: "RequestEnvelope list"
  sim_completion_order :: nat
  sim_depth :: int
  sim_level :: AdaptiveClipLevel
  sim_previous_time_s :: real
  sim_last_dispatch_time_s :: real
  sim_statistics :: TraceStatistics

definition completion_push :: "real \<times> nat \<Rightarrow> (real \<times> nat) list \<Rightarrow> (real \<times> nat) list" where
  "completion_push e h = insort_key (\<lambda>(t, n). [t, real n]) e h"

definition completions_pop_due :: "real \<Rightarrow> (real \<times> nat) list \<Rightarrow> (real \<times> nat) list" where
  "completions_pop_due now_s h = dropWhile (\<lambda>(t, n). t = now_s) h"

definition clip_condition :: "LengthPredictor \<Rightarrow> RequestEnvelope \<Rightarrow> int option \<Rightarrow> bool" where
  "clip_condition p r cap_tokens =
    (case cap_tokens of
       None \<Rightarrow> False
     | Some cap \<Rightarrow> of_int cap < predict p (request_class r) (prompt_kind r) \<and> cap < max_output_tokens r)"

definition probe_dispatch ::
    "AdmissionControlConfig \<Rightarrow> OutputClipper \<Rightarrow> LengthPredictor \<Rightarrow> real \<Rightarrow> RequestEnvelope \<Rightarrow> RequestEnvelope list \<Rightarrow>
     Simulation \<Rightarrow> Simulation result" where
  "probe_dispatch c k p now_s r rest s =
    (let free_slots = int probe_slots - int (length (sim_completions s)) - 1;
         stable_depth = max 0 (int (length rest) - free_slots) in
     case update c (sim_controller s) stable_depth (Fin now_s) of (ctl, outcome) \<Rightarrow>
     and_then outcome (\<lambda>d.
     let st1 = observe_decision d (sim_statistics s);
         st2 = (if clip_condition p r (decision_selected_cap d)
                then st1\<lparr>output_clipper_condition_met_count := output_clipper_condition_met_count st1 + 1\<rparr>
                else st1) in
     and_then (apply_adaptive_cap k r (decision_selected_cap d)) (\<lambda>effective.
     let st3 = (if clip_applied effective then st2\<lparr>clip_applied_count := clip_applied_count st2 + 1\<rparr> else st2);
         completion_order = sim_completion_order s + 1 in
     Inr (s\<lparr>sim_controller := ctl, sim_waiting := rest,
        sim_completions := completion_push
          (now_s + service_time_s (effective_max_output_tokens effective), completion_order) (sim_completions s),
        sim_completion_order := completion_order, sim_level := new_level d,
        sim_last_dispatch_time_s := now_s, sim_statistics := st3\<rparr>))))"

fun probe_dispatch_loop ::
    "AdmissionControlConfig \<Rightarrow> OutputClipper \<Rightarrow> LengthPredictor \<Rightarrow> real \<Rightarrow> RequestEnvelope list \<Rightarrow>
     Simulation \<Rightarrow> Simulation result" where
  "probe_dispatch_loop c k p now_s [] s = Inr s"
| "probe_dispatch_loop c k p now_s (r # rest) s =
     (if length (sim_completions s) < probe_slots
      then and_then (probe_dispatch c k p now_s r rest s) (probe_dispatch_loop c k p now_s rest)
      else Inr s)"

definition dispatch_available ::
    "AdmissionControlConfig \<Rightarrow> OutputClipper \<Rightarrow> LengthPredictor \<Rightarrow> real \<Rightarrow> Simulation \<Rightarrow> Simulation result" where
  "dispatch_available c k p now_s s =
     and_then (probe_dispatch_loop c k p now_s (sim_waiting s) s) (\<lambda>s1.
     let depth = int (length (sim_waiting s1));
         st = observe_depth (sim_depth s) depth now_s (sim_statistics s1) in
     Inr (s1\<lparr>sim_depth := depth, sim_statistics := st\<lparr>peak_depth := max (peak_depth st) depth\<rparr>\<rparr>))"

text \<open>\<open>min(arrival_time_s, completion_time_s)\<close>, where \<open>None\<close> is infinity.\<close>

definition next_event :: "RequestEnvelope list \<Rightarrow> (real \<times> nat) list \<Rightarrow> real option" where
  "next_event arrivals completions =
    (case (arrivals, completions) of
       ([], []) \<Rightarrow> None
     | (r # _, []) \<Rightarrow> Some (arrival_time_s r)
     | ([], (t, _) # _) \<Rightarrow> Some t
     | (r # _, (t, _) # _) \<Rightarrow> Some (min (arrival_time_s r) t))"

text \<open>
  One pass of the main loop. With nothing to arrive and nothing to complete the time would be
  infinite; the first waiting request would then be offered to the controller, which refuses it.
\<close>

definition simulate_step ::
    "AdmissionControlConfig \<Rightarrow> OutputClipper \<Rightarrow> LengthPredictor \<Rightarrow> Simulation \<Rightarrow> Simulation result" where
  "simulate_step c k p s =
    (case next_event (sim_arrivals s) (sim_completions s) of
       None \<Rightarrow> Inl (ValueError ''clock must return a finite timestamp'')
     | Some now_s \<Rightarrow>
         and_then (add_interval (now_s - sim_previous_time_s s) (sim_depth s) (sim_level s) (sim_statistics s)) (\<lambda>st.
         and_then (dispatch_available c k p now_s (s\<lparr>sim_statistics := st, sim_previous_time_s := now_s,
             sim_completions := completions_pop_due now_s (sim_completions s)\<rparr>)) (\<lambda>s1.
         dispatch_available c k p now_s (s1\<lparr>
           sim_waiting := sim_waiting s1 @ takeWhile (\<lambda>r. arrival_time_s r = now_s) (sim_arrivals s1),
           sim_arrivals := dropWhile (\<lambda>r. arrival_time_s r = now_s) (sim_arrivals s1)\<rparr>))))"

section \<open>Termination\<close>

definition work_left :: "Simulation \<Rightarrow> nat" where
  "work_left s = 3 * length (sim_arrivals s) + 2 * length (sim_waiting s) + length (sim_completions s)"

lemma completion_push_set [simp]:
  "set (completion_push e h) = insert e (set h)" "length (completion_push e h) = Suc (length h)"
  by (simp_all add: completion_push_def set_insort_key)

lemma probe_dispatch_frame:
  assumes "probe_dispatch c k p now_s r rest s = Inr s'"
  shows "sim_arrivals s' = sim_arrivals s \<and> sim_waiting s' = rest \<and> sim_depth s' = sim_depth s \<and>
    sim_previous_time_s s' = sim_previous_time_s s \<and> sim_last_dispatch_time_s s' = now_s \<and>
    length (sim_completions s') = Suc (length (sim_completions s)) \<and>
    sim_completion_order s' = Suc (sim_completion_order s)"
  using assms by (auto simp: probe_dispatch_def and_then_Inr Let_def split: prod.splits)

lemma probe_dispatch_loop_frame:
  assumes "probe_dispatch_loop c k p now_s ws s = Inr s'" and "sim_waiting s = ws"
  shows "sim_arrivals s' = sim_arrivals s \<and> sim_depth s' = sim_depth s \<and>
    sim_previous_time_s s' = sim_previous_time_s s \<and> work_left s' \<le> work_left s \<and>
    sim_completion_order s' + length (sim_waiting s') = sim_completion_order s + length ws \<and>
    (if sim_waiting s' = ws then s' = s else sim_last_dispatch_time_s s' = now_s) \<and>
    length (sim_waiting s') \<le> length ws"
  using assms
proof (induction ws arbitrary: s)
  case (Cons r rest)
  show ?case
  proof (cases "length (sim_completions s) < probe_slots")
    case True
    then obtain s1 where s1: "probe_dispatch c k p now_s r rest s = Inr s1"
      "probe_dispatch_loop c k p now_s rest s1 = Inr s'"
      using Cons.prems by (auto simp: and_then_Inr)
    note f = probe_dispatch_frame [OF s1(1)]
    note IH = Cons.IH [OF s1(2)]
    have "length (sim_waiting s') \<le> length rest" using IH f by simp
    then have "sim_waiting s' \<noteq> r # rest" by auto
    then show ?thesis using IH f Cons.prems(2) by (auto simp: work_left_def split: if_splits)
  qed (use Cons.prems in auto)
qed simp

lemma dispatch_available_frame:
  assumes "dispatch_available c k p now_s s = Inr s'"
  shows "sim_arrivals s' = sim_arrivals s \<and> sim_previous_time_s s' = sim_previous_time_s s \<and> work_left s' \<le> work_left s"
  using assms probe_dispatch_loop_frame
  by (fastforce simp: dispatch_available_def and_then_Inr Let_def work_left_def)

lemma dropWhile_hd_length:
  "xs \<noteq> [] \<Longrightarrow> P (hd xs) \<Longrightarrow> length (dropWhile P xs) < length xs"
  by (cases xs) (simp_all add: length_dropWhile_le le_imp_less_Suc)

lemma takeWhile_dropWhile_length: "length (takeWhile P xs) + length (dropWhile P xs) = length xs"
  by (metis length_append takeWhile_dropWhile_id)

lemma next_event_cases:
  assumes "next_event arrivals completions = Some t"
  shows "(arrivals \<noteq> [] \<and> arrival_time_s (hd arrivals) = t) \<or> (completions \<noteq> [] \<and> fst (hd completions) = t)"
  using assms by (cases arrivals; cases completions) (auto simp: next_event_def min_def split: if_splits)

text \<open>Every pass takes an arrival or a completion, so it leaves less to do.\<close>

lemma simulate_step_progress:
  assumes "simulate_step c k p s = Inr s'"
  shows "work_left s' < work_left s"
proof -
  obtain now_s st s1 where now: "next_event (sim_arrivals s) (sim_completions s) = Some now_s"
    and 1: "dispatch_available c k p now_s (s\<lparr>sim_statistics := st, sim_previous_time_s := now_s,
             sim_completions := completions_pop_due now_s (sim_completions s)\<rparr>) = Inr s1"
    and 2: "dispatch_available c k p now_s (s1\<lparr>
           sim_waiting := sim_waiting s1 @ takeWhile (\<lambda>r. arrival_time_s r = now_s) (sim_arrivals s1),
           sim_arrivals := dropWhile (\<lambda>r. arrival_time_s r = now_s) (sim_arrivals s1)\<rparr>) = Inr s'"
    using assms by (auto simp: simulate_step_def and_then_Inr split: option.splits)
  let ?drop = "dropWhile (\<lambda>r. arrival_time_s r = now_s) (sim_arrivals s)"
  let ?take = "takeWhile (\<lambda>r. arrival_time_s r = now_s) (sim_arrivals s)"
  note f1 = dispatch_available_frame [OF 1] and f2 = dispatch_available_frame [OF 2]
  have due: "length (completions_pop_due now_s (sim_completions s)) \<le> length (sim_completions s)"
    by (simp add: completions_pop_due_def length_dropWhile_le)
  have moved: "length ?take + length ?drop = length (sim_arrivals s)" by (rule takeWhile_dropWhile_length)
  have "length ?drop < length (sim_arrivals s) \<or>
      length (completions_pop_due now_s (sim_completions s)) < length (sim_completions s)"
    using next_event_cases [OF now] unfolding completions_pop_due_def
    by (elim disjE) (auto intro!: dropWhile_hd_length simp: case_prod_unfold)
  then show ?thesis using f1 f2 due moved by (auto simp: work_left_def)
qed

function simulate_loop ::
    "AdmissionControlConfig \<Rightarrow> OutputClipper \<Rightarrow> LengthPredictor \<Rightarrow> Simulation \<Rightarrow> Simulation result" where
  "simulate_loop c k p s =
    (if sim_arrivals s = [] \<and> sim_waiting s = [] then Inr s
     else case simulate_step c k p s of
       Inl e \<Rightarrow> Inl e
     | Inr s' \<Rightarrow> simulate_loop c k p s')"
  by pat_completeness auto
termination
  by (relation "measure (\<lambda>(c, k, p, s). work_left s)") (auto dest: simulate_step_progress)

declare simulate_loop.simps [simp del]

section \<open>One trace\<close>

definition simulation_start :: "AdaptiveClipController \<Rightarrow> RequestEnvelope list \<Rightarrow> Simulation" where
  "simulation_start ctl requests =
    \<lparr>sim_controller = ctl, sim_waiting = [], sim_completions = [], sim_arrivals = requests,
     sim_completion_order = 0, sim_depth = 0, sim_level = L0,
     sim_previous_time_s = arrival_time_s (hd requests), sim_last_dispatch_time_s = arrival_time_s (hd requests),
     sim_statistics = TraceStatistics_init\<rparr>"

definition simulate_trace ::
    "(string \<Rightarrow> LengthPredictor result) \<Rightarrow> AdmissionControlConfig \<Rightarrow> LengthPredictor \<Rightarrow> RequestEnvelope list \<Rightarrow>
     TraceStatistics result" where
  "simulate_trace load c p requests =
     and_then (AdaptiveClipController_init c) (\<lambda>ctl.
     and_then (OutputClipper_init load c) (\<lambda>k.
     if requests = [] then Inl (IndexError ''tuple index out of range'')
     else and_then (simulate_loop c k p (simulation_start ctl requests)) (\<lambda>s.
       if sim_last_dispatch_time_s s < sim_previous_time_s s
       then Inl (RuntimeError ''probe integrated beyond the final dispatch'')
       else let st = finish_episodes (sim_statistics s) in
         if output_clipper_condition_met_count st \<noteq> clip_applied_count st
         then Inl (RuntimeError ''OutputClipper condition count disagrees with applied clips'')
         else Inr st)))"

end
