(* ===== verification/ProbeTrace.thy ===== *)
theory ProbeTrace
  imports Probe ControllerContract
begin

text \<open>
  What a simulated trace is: the invariant of the event loop of the probe, its preservation by a
  dispatch and by a pass of the loop, and with it that \<open>simulate_trace\<close> always returns, that neither
  of its two internal errors can be raised, and that its statistics account for the whole time.
\<close>

section \<open>Completions\<close>

abbreviation completion_key :: "real \<times> nat \<Rightarrow> real list" where
  "completion_key \<equiv> \<lambda>(t, n). [t, real n]"

definition completions_ok :: "real \<Rightarrow> (real \<times> nat) list \<Rightarrow> bool" where
  "completions_ok now_s h \<longleftrightarrow> sorted (map completion_key h) \<and> (\<forall>(t, n) \<in> set h. now_s \<le> t)"

lemma completions_head:
  assumes "sorted (map completion_key (e # h))" and "(t, n) \<in> set h"
  shows "fst e \<le> t"
proof -
  have "\<forall>e' \<in> set h. completion_key e \<le> completion_key e'" using assms(1) by simp
  from bspec [OF this assms(2)] show ?thesis by (cases e) auto
qed

lemma completions_push_ok:
  "completions_ok now_s h \<Longrightarrow> now_s \<le> t \<Longrightarrow> completions_ok now_s (completion_push (t, n) h)"
  unfolding completions_ok_def completion_push_def by (auto simp: sorted_insort_key set_insort_key)

lemma completions_pop_ok:
  assumes "completions_ok now_s h" and "\<forall>e \<in> set h. t \<le> fst e"
  shows "completions_ok t (completions_pop_due t h)"
proof -
  have "sorted (map completion_key (dropWhile P h))" for P
    using assms(1) unfolding completions_ok_def by (metis sorted_wrt_drop dropWhile_eq_drop drop_map)
  moreover have "e \<in> set h" if "e \<in> set (dropWhile P h)" for e P using that by (rule set_dropWhileD)
  ultimately show ?thesis using assms(2) by (force simp: completions_ok_def completions_pop_due_def)
qed

section \<open>The invariant\<close>

definition ready :: "RequestEnvelope \<Rightarrow> bool" where
  "ready r \<longleftrightarrow> valid_envelope r \<and> backend_max_output_tokens r = None"

definition sim_core :: "nat \<Rightarrow> real \<Rightarrow> real \<Rightarrow> Simulation \<Rightarrow> bool" where
  "sim_core n start_s now_s s \<longleftrightarrow>
     controller_ready (sim_controller s) now_s \<and>
     accounted (sim_statistics s) \<and> total_time_s (sim_statistics s) = now_s - start_s \<and>
     clip_applied_count (sim_statistics s) = output_clipper_condition_met_count (sim_statistics s) \<and>
     clip_applied_count (sim_statistics s) \<le> non_l0_decision_count (sim_statistics s) \<and>
     non_l0_decision_count (sim_statistics s) \<le> sim_completion_order s \<and>
     sim_completion_order s + length (sim_waiting s) + length (sim_arrivals s) = n \<and>
     (\<forall>r \<in> set (sim_waiting s). ready r) \<and> (\<forall>r \<in> set (sim_arrivals s). ready r \<and> now_s \<le> arrival_time_s r) \<and>
     sorted (map arrival_time_s (sim_arrivals s)) \<and>
     completions_ok now_s (sim_completions s) \<and> length (sim_completions s) \<le> probe_slots \<and>
     sim_last_dispatch_time_s s \<le> now_s"

text \<open>Between two passes: no request waits beside a free slot, and an empty system has just dispatched.\<close>

definition sim_inv :: "nat \<Rightarrow> real \<Rightarrow> Simulation \<Rightarrow> bool" where
  "sim_inv n start_s s \<longleftrightarrow> sim_core n start_s (sim_previous_time_s s) s \<and>
     sim_depth s = int (length (sim_waiting s)) \<and>
     (sim_waiting s \<noteq> [] \<longrightarrow> length (sim_completions s) = probe_slots) \<and>
     (sim_waiting s = [] \<and> sim_arrivals s = [] \<longrightarrow> sim_last_dispatch_time_s s = sim_previous_time_s s)"

text \<open>The clipper the simulation builds reads the predictor the condition is computed with.\<close>

definition probe_setup :: "AdmissionControlConfig \<Rightarrow> OutputClipper \<Rightarrow> LengthPredictor \<Rightarrow> bool" where
  "probe_setup c k p \<longleftrightarrow> valid_admission c \<and> adaptive_clip_enabled c \<and> valid_clipper k \<and> clip_config k = c \<and>
     clip_source c = CLIP_LEARNED \<and> clip_predictor k = Some p"

lemma service_time_pos: "1 \<le> n \<Longrightarrow> 0 < service_time_s n"
  by (simp add: service_time_s_def)

lemma applied_iff_condition:
  assumes "probe_setup c k p" and "ready r" and "apply_adaptive_cap k r cap = Inr r'"
    and "\<And>x. cap = Some x \<Longrightarrow> 1 \<le> x"
  shows "clip_applied r' \<longleftrightarrow> clip_condition p r cap" and "valid_envelope r'"
proof -
  have r: "valid_envelope r" "backend_max_output_tokens r = None" using assms(2) by (simp_all add: ready_def)
  have none: "\<not> clip_applied r" using r by (simp add: clip_applied_iff)
  have est: "clip_estimated_output_tokens k r = Inr (predict p (request_class r) (prompt_kind r))"
    using assms(1) by (simp add: probe_setup_def clip_estimated_output_tokens_def)
  show "clip_applied r' \<longleftrightarrow> clip_condition p r cap"
  proof (cases cap)
    case None
    then show ?thesis using assms(1,3) none by (simp add: apply_adaptive_cap_def clip_condition_def probe_setup_def)
  next
    case (Some x)
    have x: "1 \<le> x" using assms(4) Some by simp
    show ?thesis
    proof (cases "clip_condition p r cap")
      case True
      then have "r' = r\<lparr>backend_max_output_tokens := Some x\<rparr>" "x < max_output_tokens r"
        using assms(1,3) Some x est replace_backend_cap_valid(1) [OF r(1) x]
        by (auto simp: apply_adaptive_cap_def clip_condition_def probe_setup_def)
      then show ?thesis using True x by (simp add: clip_applied_def effective_max_output_tokens_def)
    next
      case False
      then have "r' = r"
        using assms(1,3) Some x est
        by (auto simp: apply_adaptive_cap_def clip_condition_def probe_setup_def split: if_splits)
      then show ?thesis using False none by simp
    qed
  qed
  obtain r'' where "apply_adaptive_cap k r cap = Inr r''"
      "case cap of None \<Rightarrow> r'' = r | Some cap \<Rightarrow> clip_outcome r cap r''"
    using apply_adaptive_cap_outcome [of k r cap] assms(1,4) r(1) by (auto simp: probe_setup_def)
  then show "valid_envelope r'"
    using assms(3,4) r(1) clip_outcome_valid [OF r(1)] by (auto split: option.splits)
qed

section \<open>A dispatch\<close>

lemma probe_dispatch_ok:
  assumes "probe_setup c k p" and "sim_core n start_s now_s s" and "sim_waiting s = r # rest"
    and "length (sim_completions s) < probe_slots"
  shows "\<exists>s'. probe_dispatch c k p now_s r rest s = Inr s' \<and> sim_core n start_s now_s s'"
proof -
  have c: "valid_admission c" "adaptive_clip_enabled (clip_config k)" "valid_clipper k"
    using assms(1) by (auto simp: probe_setup_def)
  have r: "ready r" using assms(2,3) by (simp add: sim_core_def)
  let ?q = "max 0 (int (length rest) - (int probe_slots - int (length (sim_completions s)) - 1))"
  have q: "controller_ready (sim_controller s) now_s" "0 \<le> ?q" using assms(2) by (simp_all add: sim_core_def)
  obtain ctl d where up: "update c (sim_controller s) ?q (Fin now_s) = (ctl, Inr d)"
    and seen: "(decision_q_inst d, decision_time_s d) = (?q, now_s)"
    and ctl: "controller_ready ctl now_s" and cap: "\<And>x. decision_selected_cap d = Some x \<Longrightarrow> 1 \<le> x"
    and acting: "decision_selected_cap d \<noteq> None \<Longrightarrow> new_level d \<noteq> L0"
    by (rule ctl.decides [OF c(1) q order_refl]) (rule that)
  let ?cap = "decision_selected_cap d"
  obtain r' where r': "apply_adaptive_cap k r ?cap = Inr r'"
    using apply_adaptive_cap_outcome [OF c(3,2), of r ?cap] cap r by (auto simp: ready_def)
  note e = applied_iff_condition [OF assms(1) r r' cap]
  have pos: "now_s \<le> now_s + service_time_s (effective_max_output_tokens r')"
    using service_time_pos [OF effective_bounds(1) [OF e(2)]] by simp
  have l0: "new_level d \<noteq> L0" if "clip_condition p r ?cap"
    using that acting by (auto simp: clip_condition_def split: option.splits)
  let ?st1 = "observe_decision d (sim_statistics s)"
  let ?st2 = "if clip_condition p r ?cap
     then ?st1\<lparr>output_clipper_condition_met_count := output_clipper_condition_met_count ?st1 + 1\<rparr> else ?st1"
  let ?st3 = "if clip_applied r' then ?st2\<lparr>clip_applied_count := clip_applied_count ?st2 + 1\<rparr> else ?st2"
  have acc: "accounted ?st3 = accounted ?st1"
    using accounted_cong [of ?st1 ?st3] by (simp add: same_times_def)
  have "accounted ?st3" "total_time_s ?st3 = now_s - start_s"
    "clip_applied_count ?st3 = output_clipper_condition_met_count ?st3"
    "clip_applied_count ?st3 \<le> non_l0_decision_count ?st3" "non_l0_decision_count ?st3 \<le> Suc (sim_completion_order s)"
    using assms(2) l0 unfolding acc by (auto simp: sim_core_def observe_decision_frame e(1))
  then show ?thesis
    using assms(2-4) ctl pos
    by (simp add: probe_dispatch_def up r' Let_def sim_core_def completions_push_ok)
qed

lemma probe_dispatch_loop_ok:
  assumes "probe_setup c k p" and "sim_core n start_s now_s s" and "sim_waiting s = ws"
  shows "\<exists>s'. probe_dispatch_loop c k p now_s ws s = Inr s' \<and> sim_core n start_s now_s s' \<and>
    (sim_waiting s' \<noteq> [] \<longrightarrow> length (sim_completions s') = probe_slots)"
  using assms(2,3)
proof (induction ws arbitrary: s)
  case (Cons r rest)
  show ?case
  proof (cases "length (sim_completions s) < probe_slots")
    case True
    obtain s1 where s1: "probe_dispatch c k p now_s r rest s = Inr s1" "sim_core n start_s now_s s1"
      using probe_dispatch_ok [OF assms(1) Cons.prems True] by blast
    have "sim_waiting s1 = rest" using probe_dispatch_frame [OF s1(1)] by simp
    from Cons.IH [OF s1(2) this] s1(1) True show ?thesis by simp
  next
    case False
    then show ?thesis using Cons.prems by (simp add: sim_core_def)
  qed
qed simp

lemma dispatch_available_ok:
  assumes "probe_setup c k p" and "sim_core n start_s now_s s"
  shows "\<exists>s'. dispatch_available c k p now_s s = Inr s' \<and> sim_core n start_s now_s s' \<and>
    sim_depth s' = int (length (sim_waiting s')) \<and>
    (sim_waiting s' \<noteq> [] \<longrightarrow> length (sim_completions s') = probe_slots) \<and>
    (if sim_waiting s' = sim_waiting s then sim_last_dispatch_time_s s' = sim_last_dispatch_time_s s
     else sim_last_dispatch_time_s s' = now_s)"
proof -
  obtain s1 where s1: "probe_dispatch_loop c k p now_s (sim_waiting s) s = Inr s1" "sim_core n start_s now_s s1"
    "sim_waiting s1 \<noteq> [] \<longrightarrow> length (sim_completions s1) = probe_slots"
    using probe_dispatch_loop_ok [OF assms refl] by blast
  note f = probe_dispatch_loop_frame [OF s1(1) refl]
  let ?d = "int (length (sim_waiting s1))"
  let ?st = "observe_depth (sim_depth s) ?d now_s (sim_statistics s1)"
  have "accounted (?st\<lparr>peak_depth := max (peak_depth ?st) ?d\<rparr>)"
  proof -
    have acc: "accounted ?st" using s1(2) by (simp add: sim_core_def observe_depth_frame)
    then have "times_ok ?st" by (simp add: accounted_def)
    then have "times_ok (?st\<lparr>peak_depth := max (peak_depth ?st) ?d\<rparr>)"
      by (auto simp: times_ok_def trace_depth.total_def le_max_iff_disj)
    with acc show ?thesis
      by (simp add: accounted_def episodes_ok_def episode_time_def trace_depth.time_in_def)
  qed
  then have "sim_core n start_s now_s (s1\<lparr>sim_depth := ?d, sim_statistics := ?st\<lparr>peak_depth := max (peak_depth ?st) ?d\<rparr>\<rparr>)"
    using s1(2) observe_depth_frame(2) [of "sim_statistics s1" "sim_depth s" ?d now_s]
    by (simp add: sim_core_def observe_depth_frame same_counts_def)
  moreover have "if sim_waiting s1 = sim_waiting s then sim_last_dispatch_time_s s1 = sim_last_dispatch_time_s s
     else sim_last_dispatch_time_s s1 = now_s"
    using f by (auto split: if_splits)
  ultimately show ?thesis using s1 by (simp add: dispatch_available_def Let_def)
qed

section \<open>A pass\<close>

lemma next_event_least:
  assumes "next_event arrivals completions = Some t" and "sorted (map arrival_time_s arrivals)"
    and "sorted (map completion_key completions)"
  shows "(\<forall>r \<in> set arrivals. t \<le> arrival_time_s r) \<and> (\<forall>e \<in> set completions. t \<le> fst e)"
proof -
  have head: "arrivals \<noteq> [] \<Longrightarrow> t \<le> arrival_time_s (hd arrivals)" "completions \<noteq> [] \<Longrightarrow> t \<le> fst (hd completions)"
    using assms(1) by (cases arrivals; cases completions; force simp: next_event_def)+
  have "arrival_time_s (hd arrivals) \<le> arrival_time_s r" if "r \<in> set arrivals" for r
    using assms(2) that by (cases arrivals) auto
  moreover have "fst (hd completions) \<le> fst e" if e: "e \<in> set completions" for e
  proof (cases completions)
    case (Cons x h)
    then show ?thesis using completions_head [of x h "fst e" "snd e"] assms(3) e by auto
  qed (use e in simp)
  ultimately show ?thesis using head by (metis empty_iff empty_set order_trans)
qed

text \<open>The first part of a pass: time moves to the next event and the completions due then leave.\<close>

definition advanced :: "real \<Rightarrow> TraceStatistics \<Rightarrow> Simulation \<Rightarrow> Simulation" where
  "advanced now_s st s = s\<lparr>sim_statistics := st, sim_previous_time_s := now_s,
     sim_completions := completions_pop_due now_s (sim_completions s)\<rparr>"

lemma advanced_ok:
  assumes inv: "sim_inv n start_s s" and busy: "\<not> (sim_arrivals s = [] \<and> sim_waiting s = [])"
  obtains now_s st where "next_event (sim_arrivals s) (sim_completions s) = Some now_s"
    and "add_interval (now_s - sim_previous_time_s s) (sim_depth s) (sim_level s) (sim_statistics s) = Inr st"
    and "sim_previous_time_s s \<le> now_s" and "\<forall>r \<in> set (sim_arrivals s). now_s \<le> arrival_time_s r"
    and "sim_core n start_s now_s (advanced now_s st s)"
proof -
  have core: "sim_core n start_s (sim_previous_time_s s) s" using inv by (simp add: sim_inv_def)
  have "sim_arrivals s \<noteq> [] \<or> sim_completions s \<noteq> []" using busy inv by (auto simp: sim_inv_def probe_slots_def)
  then obtain now_s where now: "next_event (sim_arrivals s) (sim_completions s) = Some now_s"
    by (cases "sim_arrivals s"; cases "sim_completions s") (auto simp: next_event_def)
  have least: "\<forall>r \<in> set (sim_arrivals s). now_s \<le> arrival_time_s r" "\<forall>e \<in> set (sim_completions s). now_s \<le> fst e"
    using next_event_least [OF now] core by (auto simp: sim_core_def completions_ok_def)
  have "sim_previous_time_s s \<le> arrival_time_s r" if "r \<in> set (sim_arrivals s)" for r
    using core that by (simp add: sim_core_def)
  moreover have "sim_previous_time_s s \<le> fst e" if "e \<in> set (sim_completions s)" for e
    using core that by (auto simp: sim_core_def completions_ok_def)
  ultimately have later: "sim_previous_time_s s \<le> now_s" using next_event_cases [OF now] by (metis list.set_sel(1))
  obtain st where st: "add_interval (now_s - sim_previous_time_s s) (sim_depth s) (sim_level s) (sim_statistics s) = Inr st"
    "accounted st" "same_counts (sim_statistics s) st"
    "total_time_s st = total_time_s (sim_statistics s) + (now_s - sim_previous_time_s s)"
    using add_interval_ok [of "sim_statistics s" "sim_depth s" "now_s - sim_previous_time_s s" "sim_level s"]
      core later inv by (auto simp: sim_core_def sim_inv_def)
  have "length (completions_pop_due now_s (sim_completions s)) \<le> length (sim_completions s)"
    by (simp add: completions_pop_due_def length_dropWhile_le)
  then have "sim_core n start_s now_s (advanced now_s st s)"
    using core st later least completions_pop_ok [OF _ least(2)] ctl.ready_mono [OF _ later]
    by (auto simp: sim_core_def same_counts_def advanced_def)
  then show thesis using that [OF now st(1) later least(1)] by simp
qed

text \<open>The second part: the requests arriving now join the waiting list.\<close>

definition arrived :: "real \<Rightarrow> Simulation \<Rightarrow> Simulation" where
  "arrived now_s s = s\<lparr>sim_waiting := sim_waiting s @ takeWhile (\<lambda>r. arrival_time_s r = now_s) (sim_arrivals s),
     sim_arrivals := dropWhile (\<lambda>r. arrival_time_s r = now_s) (sim_arrivals s)\<rparr>"

lemma arrived_ok:
  assumes "sim_core n start_s now_s s"
  shows "sim_core n start_s now_s (arrived now_s s)"
    and "sim_previous_time_s (arrived now_s s) = sim_previous_time_s s"
    and "r \<in> set (sim_arrivals s) \<Longrightarrow> r \<notin> set (sim_arrivals (arrived now_s s)) \<Longrightarrow> arrival_time_s r = now_s"
    and "sim_waiting (arrived now_s s) = [] \<Longrightarrow> sim_arrivals (arrived now_s s) = [] \<Longrightarrow> sim_arrivals s = []"
proof -
  let ?take = "takeWhile (\<lambda>r. arrival_time_s r = now_s) (sim_arrivals s)"
  let ?drop = "dropWhile (\<lambda>r. arrival_time_s r = now_s) (sim_arrivals s)"
  have parts: "set ?take \<subseteq> set (sim_arrivals s)" "set ?drop \<subseteq> set (sim_arrivals s)"
    by (auto dest: set_takeWhileD set_dropWhileD)
  have sorted: "sorted (map arrival_time_s ?drop)"
    using assms unfolding sim_core_def by (metis dropWhile_eq_drop drop_map sorted_wrt_drop)
  have lengths: "length ?take + length ?drop = length (sim_arrivals s)" by (rule takeWhile_dropWhile_length)
  show "sim_core n start_s now_s (arrived now_s s)"
    using assms parts sorted lengths by (auto simp: sim_core_def arrived_def)
  show "sim_previous_time_s (arrived now_s s) = sim_previous_time_s s" by (simp add: arrived_def)
  show "arrival_time_s r = now_s" if "r \<in> set (sim_arrivals s)" "r \<notin> set (sim_arrivals (arrived now_s s))"
  proof -
    have "r \<in> set ?take"
      using that by (simp add: arrived_def) (metis Un_iff set_append takeWhile_dropWhile_id)
    then show ?thesis by (auto dest: set_takeWhileD)
  qed
  show "sim_arrivals s = []" if "sim_waiting (arrived now_s s) = []" "sim_arrivals (arrived now_s s) = []"
  proof -
    have "?take = []" using that(1) by (simp add: arrived_def)
    moreover have "?drop = []" using that(2) unfolding arrived_def by simp
    ultimately show ?thesis by (metis append_Nil takeWhile_dropWhile_id)
  qed
qed

lemma simulate_step_parts:
  assumes "next_event (sim_arrivals s) (sim_completions s) = Some now_s"
    and "add_interval (now_s - sim_previous_time_s s) (sim_depth s) (sim_level s) (sim_statistics s) = Inr st"
    and "dispatch_available c k p now_s (advanced now_s st s) = Inr s1"
  shows "simulate_step c k p s = dispatch_available c k p now_s (arrived now_s s1)"
  using assms by (simp add: simulate_step_def advanced_def arrived_def)

lemma simulate_step_ok:
  assumes "probe_setup c k p" and inv: "sim_inv n start_s s" and busy: "\<not> (sim_arrivals s = [] \<and> sim_waiting s = [])"
  shows "\<exists>s'. simulate_step c k p s = Inr s' \<and> sim_inv n start_s s' \<and> sim_previous_time_s s \<le> sim_previous_time_s s' \<and>
    (\<forall>r \<in> set (sim_arrivals s) - set (sim_arrivals s'). arrival_time_s r \<le> sim_previous_time_s s')"
proof -
  obtain now_s st where now: "next_event (sim_arrivals s) (sim_completions s) = Some now_s"
    "add_interval (now_s - sim_previous_time_s s) (sim_depth s) (sim_level s) (sim_statistics s) = Inr st"
    and later: "sim_previous_time_s s \<le> now_s" and core: "sim_core n start_s now_s (advanced now_s st s)"
    using advanced_ok [OF inv busy] by metis
  obtain s1 where s1: "dispatch_available c k p now_s (advanced now_s st s) = Inr s1" "sim_core n start_s now_s s1"
    "if sim_waiting s1 = sim_waiting s then True else sim_last_dispatch_time_s s1 = now_s"
    using dispatch_available_ok [OF assms(1) core] by (auto simp: advanced_def split: if_splits)
  have arr: "sim_arrivals s1 = sim_arrivals s" "sim_previous_time_s s1 = now_s"
    using dispatch_available_frame [OF s1(1)] by (simp_all add: advanced_def)
  note arrive = arrived_ok [OF s1(2)]
  from dispatch_available_ok [OF assms(1) arrive(1)] obtain s' where
    s': "dispatch_available c k p now_s (arrived now_s s1) = Inr s'"
    "sim_core n start_s now_s s'" "sim_depth s' = int (length (sim_waiting s'))"
    "sim_waiting s' \<noteq> [] \<longrightarrow> length (sim_completions s') = probe_slots"
    "if sim_waiting s' = sim_waiting (arrived now_s s1)
     then sim_last_dispatch_time_s s' = sim_last_dispatch_time_s (arrived now_s s1)
     else sim_last_dispatch_time_s s' = now_s" by blast
  have frame: "sim_arrivals s' = sim_arrivals (arrived now_s s1)" "sim_previous_time_s s' = now_s"
    using dispatch_available_frame [OF s'(1)] arrive(2) arr by simp_all
  have "sim_last_dispatch_time_s s' = now_s" if "sim_waiting s' = []" "sim_arrivals s' = []"
  proof (cases "sim_waiting (arrived now_s s1) = []")
    case True
    then have "sim_arrivals s = []" using arrive(4) that(2) frame(1) arr(1) by simp
    moreover have "sim_waiting s1 = []" using True by (simp add: arrived_def)
    ultimately have "sim_waiting s \<noteq> sim_waiting s1" using busy by auto
    then show ?thesis using s1(3) s'(5) that(1) True by (auto simp: arrived_def split: if_splits)
  next
    case False
    then show ?thesis using s'(5) that(1) by (auto split: if_splits)
  qed
  then have "sim_inv n start_s s'" using s' frame by (simp add: sim_inv_def)
  moreover have "simulate_step c k p s = Inr s'" by (simp add: simulate_step_parts [OF now s1(1)] s'(1))
  moreover have "\<forall>r \<in> set (sim_arrivals s) - set (sim_arrivals s'). arrival_time_s r \<le> sim_previous_time_s s'"
    using arrive(3) frame arr(1) by fastforce
  ultimately show ?thesis using later frame(2) by auto
qed

lemma simulate_loop_ok:
  assumes "probe_setup c k p" and "sim_inv n start_s s"
    and "\<forall>r \<in> R - set (sim_arrivals s). arrival_time_s r \<le> sim_previous_time_s s"
  shows "\<exists>s'. simulate_loop c k p s = Inr s' \<and> sim_inv n start_s s' \<and> sim_arrivals s' = [] \<and> sim_waiting s' = [] \<and>
    (\<forall>r \<in> R. arrival_time_s r \<le> sim_previous_time_s s')"
  using assms(2,3)
proof (induction "work_left s" arbitrary: s rule: less_induct)
  case less
  show ?case
  proof (cases "sim_arrivals s = [] \<and> sim_waiting s = []")
    case True
    then show ?thesis using less.prems by (simp add: simulate_loop.simps)
  next
    case False
    obtain s1 where s1: "simulate_step c k p s = Inr s1" "sim_inv n start_s s1"
      "sim_previous_time_s s \<le> sim_previous_time_s s1"
      "\<forall>r \<in> set (sim_arrivals s) - set (sim_arrivals s1). arrival_time_s r \<le> sim_previous_time_s s1"
      using simulate_step_ok [OF assms(1) less.prems(1) False] by blast
    have "\<forall>r \<in> R - set (sim_arrivals s1). arrival_time_s r \<le> sim_previous_time_s s1"
      using s1(3,4) less.prems(2) by (meson DiffI order_trans DiffE)
    from less.hyps [OF simulate_step_progress [OF s1(1)] s1(2) this] show ?thesis
      using s1(1) False by (subst simulate_loop.simps) auto
  qed
qed

section \<open>A trace\<close>

text \<open>What the statistics of one trace satisfy.\<close>

definition trace_sound :: "nat \<Rightarrow> TraceStatistics \<Rightarrow> bool" where
  "trace_sound n st \<longleftrightarrow> accounted st \<and> all_finished st \<and>
     clip_applied_count st = output_clipper_condition_met_count st \<and>
     clip_applied_count st \<le> non_l0_decision_count st \<and> non_l0_decision_count st \<le> n"

lemma simulate_trace_ok:
  assumes "valid_admission c" and "adaptive_clip_enabled c" and "adaptive_clip_signal c = QUEUE_DEPTH_EWMA"
    and "clip_source c = CLIP_LEARNED" and "clip_estimator_path c = Some path" and "load path = Inr p"
    and "requests \<noteq> []" and "\<forall>r \<in> set requests. ready r" and "sorted (map arrival_time_s requests)"
  shows "\<exists>st. simulate_trace load c p requests = Inr st \<and> trace_sound (length requests) st \<and>
    arrival_time_s (last requests) - arrival_time_s (hd requests) \<le> total_time_s st"
proof -
  have enabled: "clip_enabled c" using valid_adaptive_needs_clip assms(1,2) by blast
  let ?k = "\<lparr>clip_config = c, clip_predictor = Some p\<rparr>"
  have k: "OutputClipper_init load c = Inr ?k" using assms(4-6) enabled by (simp add: OutputClipper_init_def)
  have ctl: "AdaptiveClipController_init c = Inr (controller_start c)"
    using assms(2,3) by (simp add: AdaptiveClipController_init_def raise_simps)
  have ps: "probe_setup c ?k p" using assms(1,2,4) by (simp add: probe_setup_def valid_clipper_def)
  let ?start = "arrival_time_s (hd requests)"
  let ?s0 = "simulation_start (controller_start c) requests"
  have hd: "\<forall>r \<in> set requests. ?start \<le> arrival_time_s r" using assms(9) by (cases requests) auto
  have "sim_inv (length requests) ?start ?s0"
    using assms(7-9) hd accounted_init ctl.initial_ready [OF assms(1)]
    by (auto simp: sim_inv_def sim_core_def simulation_start_def completions_ok_def)
      (simp_all add: TraceStatistics_init_def)
  then obtain s where s: "simulate_loop c ?k p ?s0 = Inr s" "sim_inv (length requests) ?start s"
    "sim_arrivals s = []" "sim_waiting s = []" "\<forall>r \<in> set requests. arrival_time_s r \<le> sim_previous_time_s s"
    using simulate_loop_ok [OF ps, of "length requests" ?start ?s0 "set requests"]
    by (auto simp: simulation_start_def)
  let ?st = "finish_episodes (sim_statistics s)"
  have core: "sim_core (length requests) ?start (sim_previous_time_s s) s"
    "sim_last_dispatch_time_s s = sim_previous_time_s s"
    using s by (auto simp: sim_inv_def)
  have f: "accounted ?st" "all_finished ?st" "same_counts (sim_statistics s) ?st"
    "total_time_s ?st = total_time_s (sim_statistics s)"
    using finish_episodes_ok core by (auto simp: sim_core_def)
  have "trace_sound (length requests) ?st"
    using core f s(3,4) by (auto simp: trace_sound_def sim_core_def same_counts_def)
  moreover have "arrival_time_s (last requests) - ?start \<le> total_time_s ?st"
    using s(5) assms(7) f(4) core(1) by (simp add: sim_core_def)
  moreover have "simulate_trace load c p requests = Inr ?st"
    using calculation(1) assms(7) s(1) core(2) by (simp add: simulate_trace_def k ctl Let_def trace_sound_def)
  ultimately show ?thesis by blast
qed


definition sample_probe_config :: AdmissionControlConfig where
  "sample_probe_config = default_admission\<lparr>clip_enabled := True, clip_source := CLIP_LEARNED,
     clip_estimator_path := Some ''p'', adaptive_clip_enabled := True\<rparr>"

lemma sample_probe_config_valid: "valid_admission sample_probe_config"
  by (simp add: valid_admission_def AdmissionControlConfig_init_def checked_def raise_if.simps
      admission_field_guards_def learned_clip_source_has_estimator_def sample_probe_config_def
      validate_adaptive_clip_contract_def default_admission_def Let_def)


end
