(* ===== verification/ProbeReference.thy ===== *)
theory ProbeReference
  imports ProbeStatistics ExpLReplay
begin

text \<open>
  The probe's own reconstruction of the waiting depth of an earlier run
  (src/scripts/probe_week7_lowload_depth.py, \<open>_reconstruct_expkb_no_clip\<close>), written independently of
  the replay in src/sloserve/analysis/expl.py. The two walk the same events with different loops;
  they agree. The JSON rows are those the record writer produced, given as records.
\<close>

section \<open>The reconstruction\<close>

definition reference_interval :: "RequestRecord \<Rightarrow> (real \<times> int) list \<Rightarrow> (real \<times> int) list result" where
  "reference_interval r events =
    (case rec_dispatch_time_s r of
       None \<Rightarrow> Inl (ValueError ''expK-B no-clip row is missing dispatch_time_s'')
     | Some dispatch \<Rightarrow>
         if dispatch < rec_enqueue_time_s r
         then Inl (ValueError ''expK-B enqueue_time_s exceeds dispatch_time_s'')
         else Inr (add_at dispatch (-1) (add_at (rec_enqueue_time_s r) 1 events)))"

text \<open>The local variables of the loop over one threshold.\<close>

record ThresholdScan =
  scan_depth :: int
  scan_previous_s :: "real option"
  scan_start_s :: "real option"
  scan_durations :: "real list"

definition scan_episode :: "int \<Rightarrow> real \<Rightarrow> ThresholdScan \<Rightarrow> ThresholdScan" where
  "scan_episode threshold previous s =
    (case scan_start_s s of
       None \<Rightarrow> if threshold \<le> scan_depth s then s\<lparr>scan_start_s := Some previous\<rparr> else s
     | Some start \<Rightarrow> if scan_depth s < threshold
         then s\<lparr>scan_durations := scan_durations s @ [previous - start], scan_start_s := None\<rparr> else s)"

definition scan_event :: "int \<Rightarrow> real \<times> int \<Rightarrow> ThresholdScan \<Rightarrow> ThresholdScan result" where
  "scan_event threshold = (\<lambda>(event_time, change) s.
    (let s1 = (case scan_previous_s s of
           None \<Rightarrow> s
         | Some previous \<Rightarrow> if previous < event_time then scan_episode threshold previous s else s);
         depth = scan_depth s1 + change in
     if depth < 0 then Inl (ValueError ''expK-B depth reconstruction became negative'')
     else Inr (s1\<lparr>scan_depth := depth, scan_previous_s := Some event_time\<rparr>)))"

definition scan_threshold ::
    "(real \<times> int) list \<Rightarrow> int \<Rightarrow> (int \<Rightarrow> real list) \<Rightarrow> (int \<Rightarrow> real list) result" where
  "scan_threshold events threshold durations =
     and_then (fold_result (scan_event threshold) (sort_key fst events)
       \<lparr>scan_depth = 0, scan_previous_s = None, scan_start_s = None, scan_durations = durations threshold\<rparr>) (\<lambda>s.
     case scan_previous_s s of
       None \<Rightarrow> Inl (ValueError ''expK-B depth reconstruction did not close cleanly'')
     | Some previous \<Rightarrow>
         if scan_depth s \<noteq> 0 then Inl (ValueError ''expK-B depth reconstruction did not close cleanly'')
         else Inr (durations(threshold := scan_durations s @
           (case scan_start_s s of None \<Rightarrow> [] | Some start \<Rightarrow> [previous - start]))))"

definition reference_repetition ::
    "string \<Rightarrow> RequestRecord list \<Rightarrow> int \<Rightarrow> (int \<Rightarrow> real list) \<times> string list \<Rightarrow>
     ((int \<Rightarrow> real list) \<times> string list) result" where
  "reference_repetition name rows repetition = (\<lambda>(durations, sources).
     and_then (fold_result reference_interval (filter (\<lambda>r. rec_repetition_index r = repetition) rows) []) (\<lambda>events.
     and_then (fold_result (scan_threshold events) depth_thresholds durations) (\<lambda>durations'.
     Inr (durations', sources @ [name @ '':repetition-'' @ int_str repetition]))))"

definition reference_file ::
    "string \<times> RequestRecord list \<Rightarrow> (int \<Rightarrow> real list) \<times> string list \<Rightarrow>
     ((int \<Rightarrow> real list) \<times> string list) result" where
  "reference_file = (\<lambda>(name, rows) s.
     fold_result (reference_repetition name rows) (sorted_list_of_set (set (map rec_repetition_index rows))) s)"

record ReferenceReport =
  reference_sources :: "string list"
  reference_distributions :: "(int \<times> DurationDistribution) list"

definition reconstruct_expkb_no_clip :: "(string \<times> RequestRecord list) list \<Rightarrow> ReferenceReport result" where
  "reconstruct_expkb_no_clip files =
    (if files = [] then Inl (ValueError ''expK-B no-clip JSONL files are missing'')
     else and_then (fold_result reference_file files (\<lambda>_. [], [])) (\<lambda>(durations, sources).
       Inr \<lparr>reference_sources = sources,
         reference_distributions = map (\<lambda>th. (th, duration_distribution (durations th))) depth_thresholds\<rparr>))"

section \<open>Two programs with one outcome\<close>

text \<open>Both raise, or both return values in the relation \<open>R\<close>.\<close>

definition same_outcome :: "('a \<Rightarrow> 'b \<Rightarrow> bool) \<Rightarrow> 'a result \<Rightarrow> 'b result \<Rightarrow> bool" where
  "same_outcome R = rel_sum (\<lambda>_ _. True) R"

lemma same_outcome_simps [simp]:
  "same_outcome R (Inr x) (Inr y) = R x y" "same_outcome R (Inl e) (Inl e')"
  "\<not> same_outcome R (Inl e) (Inr y)" "\<not> same_outcome R (Inr x) (Inl e)"
  by (simp_all add: same_outcome_def)

lemma same_outcome_then:
  assumes "same_outcome R a b" and "\<And>x y. a = Inr x \<Longrightarrow> b = Inr y \<Longrightarrow> R x y \<Longrightarrow> same_outcome Q (f x) (g y)"
  shows "same_outcome Q (and_then a f) (and_then b g)"
  using assms by (cases a; cases b) simp_all

lemma same_outcome_fold:
  assumes "R s t" and "\<And>x s t. x \<in> set xs \<Longrightarrow> R s t \<Longrightarrow> same_outcome R (f x s) (g (h x) t)"
  shows "same_outcome R (fold_result f xs s) (fold_result g (map h xs) t)"
  using assms
proof (induction xs arbitrary: s t)
  case (Cons x xs)
  have "same_outcome R (f x s) (g (h x) t)" using Cons.prems by simp
  then show ?case
    using Cons.IH Cons.prems(2) by (auto intro!: same_outcome_then)
qed simp

lemma same_intervals:
  "same_outcome (=) (fold_result waiting_interval rs es) (fold_result reference_interval rs es)"
  using same_outcome_fold [of "(=)" es es rs waiting_interval reference_interval id]
  by (simp add: waiting_interval_def reference_interval_def split: option.split)

section \<open>One threshold of the replay\<close>

definition scan_of :: "int \<Rightarrow> ReplayRun \<Rightarrow> ThresholdScan" where
  "scan_of th s = \<lparr>scan_depth = replay_depth s, scan_previous_s = replay_previous s,
     scan_start_s = episode_starts s th, scan_durations = episode_durations (totals s) th\<rparr>"

lemma scan_of_watch:
  "scan_of th (watch_threshold p th' s) = (if th' = th then scan_episode th p (scan_of th s) else scan_of th s)"
  by (auto simp: scan_of_def watch_threshold_def scan_episode_def end_episode_def split: option.splits)

lemma scan_of_watch_all:
  "distinct ths \<Longrightarrow> scan_of th (fold (watch_threshold p) ths s)
    = (if th \<in> set ths then scan_episode th p (scan_of th s) else scan_of th s)"
  by (induction ths arbitrary: s) (auto simp: scan_of_watch)

lemma scan_of_charge [simp]:
  "scan_of th (s\<lparr>totals := charge_depth d x (totals s)\<rparr>) = scan_of th s"
  by (simp add: scan_of_def charge_depth_def)

lemma scan_episode_frame [simp]:
  "scan_depth (scan_episode th p s) = scan_depth s" "scan_previous_s (scan_episode th p s) = scan_previous_s s"
  by (simp_all add: scan_episode_def split: option.split)

lemma same_event:
  assumes "distinct ths" and "th \<in> set ths" and "\<And>p. replay_previous s = Some p \<Longrightarrow> p < fst e"
  shows "same_outcome (\<lambda>s' sc. sc = scan_of th s') (replay_event ths e s) (scan_event th e (scan_of th s))"
proof -
  obtain t n where e: "e = (t, n)" by (cases e)
  define s1 where "s1 = (case replay_previous s of None \<Rightarrow> s
     | Some p \<Rightarrow> fold (watch_threshold p) ths (s\<lparr>totals := charge_depth (replay_depth s) (t - p) (totals s)\<rparr>))"
  have i: "replay_interval ths t s = Inr s1"
    using assms(3) e by (auto simp: replay_interval_def s1_def Let_def split: option.split)
  have sc: "(case scan_previous_s (scan_of th s) of None \<Rightarrow> scan_of th s
      | Some p \<Rightarrow> if p < t then scan_episode th p (scan_of th s) else scan_of th s) = scan_of th s1"
    using assms e by (auto simp: s1_def scan_of_watch_all split: option.split) (simp_all add: scan_of_def)
  have d: "replay_depth s1 = scan_depth (scan_of th s1)" by (simp add: scan_of_def)
  show ?thesis
    unfolding e replay_event_def scan_event_def case_prod_conv i and_then.simps sc Let_def d
    by (simp add: scan_of_def)
qed

lemma same_events:
  assumes "distinct ths" and "th \<in> set ths" and "sorted_wrt (<) (map fst es)"
    and "\<And>p. replay_previous s = Some p \<Longrightarrow> \<forall>e \<in> set es. p < fst e"
  shows "same_outcome (\<lambda>s' sc. sc = scan_of th s') (fold_result (replay_event ths) es s)
    (fold_result (scan_event th) es (scan_of th s))"
  using assms(3,4)
proof (induction es arbitrary: s)
  case (Cons e es)
  have first: "same_outcome (\<lambda>s' sc. sc = scan_of th s') (replay_event ths e s) (scan_event th e (scan_of th s))"
    using Cons.prems by (intro same_event [OF assms(1,2)]) simp
  show ?case
    unfolding fold_result.simps
  proof (rule same_outcome_then [OF first])
    fix s1 sc assume 1: "replay_event ths e s = Inr s1" "sc = scan_of th s1"
    have "replay_previous s1 = Some (fst e)"
      using 1(1) by (auto simp: replay_event_def and_then_Inr Let_def split: prod.splits if_splits)
    then show "same_outcome (\<lambda>s' sc. sc = scan_of th s') (fold_result (replay_event ths) es s1)
        (fold_result (scan_event th) es sc)"
      unfolding 1(2) using Cons.prems by (intro Cons.IH) auto
  qed
qed simp

section \<open>Repetitions and files\<close>

definition same_episodes :: "ReplayTotals \<Rightarrow> (int \<Rightarrow> real list) \<Rightarrow> bool" where
  "same_episodes t d \<longleftrightarrow> (\<forall>th \<in> set depth_thresholds. episode_durations t th = d th)"

lemma events_strict:
  assumes "fold_result waiting_interval rs [] = Inr es"
  shows "sorted_wrt (<) (map fst (sort_key fst es))"
proof -
  have "distinct (map fst es)"
    by (rule fold_result_invariant [OF assms, of "\<lambda>es. distinct (map fst es)"])
      (auto simp: waiting_interval_def add_at_distinct split: option.splits if_splits)
  then have "distinct (map fst (sort_key fst es))"
    by (metis distinct_map distinct_sort set_sort)
  then show ?thesis using strict_sorted_iff [of "map fst (sort_key fst es)"] by simp
qed

text \<open>A repetition, as the replay walks it: the events, then whether every interval closed.\<close>

definition replay_start :: "ReplayTotals \<Rightarrow> int \<Rightarrow> ReplayRun" where
  "replay_start t peak = \<lparr>totals = t, replay_depth = 0, replay_previous = None, episode_starts = \<lambda>_. None, seed_peak = peak\<rparr>"

definition closed_episodes :: "ReplayRun \<Rightarrow> int \<Rightarrow> real list" where
  "closed_episodes s th = episode_durations (totals s) th @
     (case (episode_starts s th, replay_previous s) of (Some a, Some p) \<Rightarrow> [p - a] | _ \<Rightarrow> [])"

lemma scan_threshold_replay:
  assumes "sorted_wrt (<) (map fst (sort_key fst es))" and "th \<in> set depth_thresholds"
    and "episode_durations t th = d th"
  shows "case fold_result (replay_event depth_thresholds) (sort_key fst es) (replay_start t peak) of
      Inl e \<Rightarrow> \<exists>e'. scan_threshold es th d = Inl e'
    | Inr s \<Rightarrow> if replay_previous s = None \<or> replay_depth s \<noteq> 0 then \<exists>e'. scan_threshold es th d = Inl e'
        else scan_threshold es th d = Inr (d(th := closed_episodes s th))"
proof -
  let ?A = "fold_result (replay_event depth_thresholds) (sort_key fst es) (replay_start t peak)"
  have start: "scan_of th (replay_start t peak)
      = \<lparr>scan_depth = 0, scan_previous_s = None, scan_start_s = None, scan_durations = d th\<rparr>"
    using assms(3) by (simp add: scan_of_def replay_start_def)
  have same: "same_outcome (\<lambda>s' sc. sc = scan_of th s') ?A
      (fold_result (scan_event th) (sort_key fst es) (scan_of th (replay_start t peak)))"
    by (rule same_events [OF _ assms(2,1)]) (simp_all add: depth_thresholds_def replay_start_def)
  show ?thesis
  proof (cases ?A)
    case (Inl e)
    then obtain e' where "fold_result (scan_event th) (sort_key fst es) (scan_of th (replay_start t peak)) = Inl e'"
      using same by (cases "fold_result (scan_event th) (sort_key fst es) (scan_of th (replay_start t peak))") auto
    then show ?thesis using Inl by (simp add: scan_threshold_def start)
  next
    case (Inr s)
    then have "fold_result (scan_event th) (sort_key fst es) (scan_of th (replay_start t peak)) = Inr (scan_of th s)"
      using same by (cases "fold_result (scan_event th) (sort_key fst es) (scan_of th (replay_start t peak))") auto
    then have "scan_threshold es th d = and_then (Inr (scan_of th s)) (\<lambda>s.
     case scan_previous_s s of
       None \<Rightarrow> Inl (ValueError ''expK-B depth reconstruction did not close cleanly'')
     | Some previous \<Rightarrow>
         if scan_depth s \<noteq> 0 then Inl (ValueError ''expK-B depth reconstruction did not close cleanly'')
         else Inr (d(th := scan_durations s @
           (case scan_start_s s of None \<Rightarrow> [] | Some start \<Rightarrow> [previous - start]))))"
      by (simp only: scan_threshold_def start)
    then show ?thesis
      by (simp add: Inr scan_of_def closed_episodes_def split: option.split)
  qed
qed

text \<open>The three scans of one repetition succeed exactly when the replay closes, with its episodes.\<close>

lemma scan_all_replay:
  assumes "A = fold_result (replay_event depth_thresholds) (sort_key fst es) (replay_start t peak)"
    and "sorted_wrt (<) (map fst (sort_key fst es))" and "same_episodes t d"
  shows "A = Inr s \<Longrightarrow> replay_previous s = Some p \<Longrightarrow> replay_depth s = 0 \<Longrightarrow>
      fold_result (scan_threshold es) depth_thresholds d
        = Inr (d(1 := closed_episodes s 1, 2 := closed_episodes s 2, 3 := closed_episodes s 3))"
    and "\<nexists>s p. A = Inr s \<and> replay_previous s = Some p \<and> replay_depth s = 0 \<Longrightarrow>
      \<exists>e. fold_result (scan_threshold es) depth_thresholds d = Inl e"
proof -
  have "th \<in> set depth_thresholds \<Longrightarrow> episode_durations t th = d' th \<Longrightarrow> case A of
      Inl e \<Rightarrow> \<exists>e'. scan_threshold es th d' = Inl e'
    | Inr s \<Rightarrow> if replay_previous s = None \<or> replay_depth s \<noteq> 0 then \<exists>e'. scan_threshold es th d' = Inl e'
        else scan_threshold es th d' = Inr (d'(th := closed_episodes s th))" for th d'
    unfolding assms(1) by (rule scan_threshold_replay [OF assms(2)])
  note scans = this [of 1] this [of 2] this [of 3]
  have d: "episode_durations t 1 = d 1" "episode_durations t 2 = d 2" "episode_durations t 3 = d 3"
    using assms(3) by (simp_all add: same_episodes_def depth_thresholds_def)
  have ths: "depth_thresholds = [1, 2, 3]" by (simp add: depth_thresholds_def)
  show "fold_result (scan_threshold es) depth_thresholds d
      = Inr (d(1 := closed_episodes s 1, 2 := closed_episodes s 2, 3 := closed_episodes s 3))"
    if "A = Inr s" "replay_previous s = Some p" "replay_depth s = 0"
    using scans(1) [of d] scans(2) [of "d(1 := closed_episodes s 1)"]
      scans(3) [of "d(1 := closed_episodes s 1, 2 := closed_episodes s 2)"] that d by (simp add: ths)
  assume "\<nexists>s p. A = Inr s \<and> replay_previous s = Some p \<and> replay_depth s = 0"
  then have "\<exists>e. scan_threshold es 1 d = Inl e"
    using scans(1) [of d] d(1) by (cases "A") (auto simp: ths split: if_splits)
  then show "\<exists>e. fold_result (scan_threshold es) depth_thresholds d = Inl e" by (auto simp: ths)
qed

lemma same_repetition:
  assumes "same_episodes t d"
  shows "same_outcome (\<lambda>(t', peak') (d', src'). same_episodes t' d')
    (replay_repetition depth_thresholds rs k (t, peak)) (reference_repetition name rs k (d, src))"
  unfolding replay_repetition_def reference_repetition_def case_prod_conv
proof (rule same_outcome_then [OF same_intervals], fold replay_start_def)
  fix es es' assume es: "fold_result waiting_interval (filter (\<lambda>r. rec_repetition_index r = k) rs) [] = Inr es" "es = es'"
  let ?A = "fold_result (replay_event depth_thresholds) (sort_key fst es) (replay_start t peak)"
  note scans = scan_all_replay [OF refl events_strict [OF es(1)] assms, of peak]
  have ths: "depth_thresholds = [1, 2, 3]" "first_occurrences [1, 2, 3 :: int] = [1, 2, 3]"
    by (simp_all add: depth_thresholds_def first_occurrences_def)
  show "same_outcome (\<lambda>(t', peak') (d', src'). same_episodes t' d')
     (and_then ?A (\<lambda>s. case replay_previous s of
       None \<Rightarrow> Inl (ExpLIntegrityError ''expK-B waiting intervals did not close'')
     | Some previous \<Rightarrow>
         if replay_depth s \<noteq> 0 then Inl (ExpLIntegrityError ''expK-B waiting intervals did not close'')
         else Inr (fold (close_episode (episode_starts s) previous) (first_occurrences depth_thresholds) (totals s),
                   seed_peak s)))
     (and_then (fold_result (scan_threshold es') depth_thresholds d) (\<lambda>durations'.
     Inr (durations', src @ [name @ '':repetition-'' @ int_str k])))"
  proof (cases "\<exists>s p. ?A = Inr s \<and> replay_previous s = Some p \<and> replay_depth s = 0")
    case True
    then obtain s p where s: "?A = Inr s" "replay_previous s = Some p" "replay_depth s = 0" by blast
    have "episode_durations (fold (close_episode (episode_starts s) p) [1, 2, 3] (totals s)) th = closed_episodes s th"
      if "th \<in> {1, 2, 3}" for th
      using that s(2) by (subst close_all_durations) (auto simp: closed_episodes_def split: option.split)
    then show ?thesis
      using s scans(1) [OF s] es(2) by (simp add: ths(2) same_episodes_def) (simp add: ths)
  next
    case False
    obtain e where "fold_result (scan_threshold es) depth_thresholds d = Inl e" using scans(2) [OF False] by blast
    then show ?thesis
      using False es(2) by (cases ?A) (auto split: option.splits)
  qed
qed

lemma same_file:
  assumes "same_episodes t d" and "\<forall>r \<in> set rs. valid_record r"
  shows "same_outcome (\<lambda>(t', peaks') (d', src'). same_episodes t' d')
    (replay_file conv 0 depth_thresholds (name, write_request_records_jsonl rs) (t, peaks))
    (reference_file (name, rs) (d, src))"
proof -
  have all: "filter (\<lambda>r. 0 \<le> rec_sequence_id r) rs = rs"
  proof (intro filter_True ballI)
    fix r assume "r \<in> set rs"
    then have "valid_record r" using assms(2) by blast
    then show "0 \<le> rec_sequence_id r"
      by (auto simp: valid_record_def RequestRecord_init_def and_then_Inr raise_simps identity_guards_def)
  qed
  have "same_outcome (\<lambda>(t', peak') (d', src'). same_episodes t' d')
     (fold_result (replay_repetition depth_thresholds rs) ks (t, 0)) (fold_result (reference_repetition name rs) ks (d, src))" for ks
    using same_outcome_fold [of "\<lambda>(t', peak') (d', src'). same_episodes t' d'" "(t, 0)" "(d, src)" ks
        "replay_repetition depth_thresholds rs" "reference_repetition name rs" id] assms(1) same_repetition
    by auto
  then have "same_outcome (\<lambda>(t', peaks') (d', src'). same_episodes t' d')
     (and_then (fold_result (replay_repetition depth_thresholds rs) ks (t, 0)) (\<lambda>(t', peak). Inr (t', f peak)))
     (and_then (fold_result (reference_repetition name rs) ks (d, src)) Inr)" for ks and f :: "int \<Rightarrow> (string \<times> int) list"
    by (rule same_outcome_then [of "\<lambda>(t', peak') (d', src'). same_episodes t' d'"]) auto
  note same = this
  have return: "and_then x Inr = x" for x :: "'z result" by (cases x) simp_all
  show ?thesis
    unfolding replay_file_def reference_file_def case_prod_conv read_written_records [OF assms(2)] and_then.simps(2)
      all Let_def
    by (rule same [unfolded return])
qed


definition no_conversions :: conversions where
  "no_conversions = \<lparr>int_text = \<lambda>s. None, float_text = \<lambda>s. None, str_of = \<lambda>v. []\<rparr>"


end
