(* ===== verification/ProbeRuns.thy ===== *)
theory ProbeRuns
  imports ProbeTrace ProbeReference
begin

text \<open>
  The runs of the probe (src/scripts/probe_week7_lowload_depth.py): the workload and the controller
  configuration of a load point, the merge of three repetitions of three seeds, the comparison with
  the recorded history, and the matrix of loads and holds. The base configuration, the predictor
  artifact, the recorded history and the random source are the record \<open>probe_inputs\<close>; the generated
  trace is the same in every repetition, as in the script.
\<close>

section \<open>Configuration\<close>

definition probe_seeds :: "int list" where
  "probe_seeds = [20250825, 11, 202]"

definition probe_repetitions :: nat where
  "probe_repetitions = 3"

definition default_rps :: real where
  "default_rps = 8/100"

record 'g probe_inputs =
  project_root :: string
  base_workload :: "WorkloadConfig result"
  load_predictor :: "string \<Rightarrow> LengthPredictor result"
  probe_random :: "'g random_source"
  recorded_history :: "json result"
  reference_rows :: "(string \<times> RequestRecord list) list"

definition default_realistic :: RealisticLengthConfig where
  "default_realistic =
    \<lparr>kinds = [''short'', ''medium'', ''long''], kind_fractions = [1/2, 35/100, 15/100],
     log_mu_by_kind = [62/10, 7, 78/10], log_sigma = 7/10, realistic_advertised_cap_tokens = 2048,
     clamp_min = 8, clamp_max = 2048, realistic_force_exact = False\<rparr>"

definition workload_for_seed :: "'g probe_inputs \<Rightarrow> int \<Rightarrow> real \<Rightarrow> WorkloadConfig result" where
  "workload_for_seed I seed rps =
     and_then (base_workload I) (\<lambda>base.
     and_then (RealisticLengthConfig_init (default_realistic\<lparr>realistic_force_exact := True\<rparr>)) (\<lambda>realistic.
     WorkloadConfig_init (base\<lparr>arrival_process := POISSON, request_rate_rps := rps, total_requests := 24,
       warmup_requests := 4, repetitions := int probe_repetitions, interactive_fraction := 1/2,
       random_seed := seed, length_model := REALISTIC, realistic_length := Some realistic\<rparr>)))"

definition adaptive_config :: "'g probe_inputs \<Rightarrow> real option \<Rightarrow> AdmissionControlConfig result" where
  "adaptive_config I hold =
     and_then (AdmissionControlConfig_init (default_admission\<lparr>clip_enabled := True, clip_source := CLIP_LEARNED,
         clip_estimator_path := Some (project_root I @ ''/results/artifacts/length-predictor.json''),
         adaptive_clip_enabled := True\<rparr>)) (\<lambda>c.
     case hold of None \<Rightarrow> Inr c | Some h \<Rightarrow> Inr (c\<lparr>adaptive_clip_tighten_hold_s := h\<rparr>))"

section \<open>One load point\<close>

text \<open>The loop over the repetitions of a seed.\<close>

definition merge_seed ::
    "'g probe_inputs \<Rightarrow> AdmissionControlConfig \<Rightarrow> LengthPredictor \<Rightarrow> real \<Rightarrow> int \<Rightarrow> TraceStatistics \<Rightarrow>
     TraceStatistics result" where
  "merge_seed I c p rps seed st =
     and_then (workload_for_seed I seed rps) (\<lambda>w.
     and_then (generate_requests (probe_random I) w None) (\<lambda>requests.
     fold_result (\<lambda>_ st. and_then (simulate_trace (load_predictor I) c p requests) (\<lambda>other.
       Inr (merge_statistics other st))) [0..<probe_repetitions] st))"

definition probe_seed ::
    "'g probe_inputs \<Rightarrow> AdmissionControlConfig \<Rightarrow> LengthPredictor \<Rightarrow> real \<Rightarrow> int \<Rightarrow>
     TraceStatistics \<times> (int \<times> TraceSummary) list \<Rightarrow> (TraceStatistics \<times> (int \<times> TraceSummary) list) result" where
  "probe_seed I c p rps seed = (\<lambda>(total_statistics, per_seed).
     and_then (merge_seed I c p rps seed TraceStatistics_init) (\<lambda>st.
     Inr (merge_statistics st total_statistics, per_seed @ [(seed, summarize_trace st)])))"

record HistoricalBaseline =
  recorded_clip_applied_count :: json
  recorded_non_l0_time_fraction :: json
  reproduced_summary :: TraceSummary

definition historical_baseline :: "'g probe_inputs \<Rightarrow> LengthPredictor \<Rightarrow> HistoricalBaseline result" where
  "historical_baseline I p =
     and_then (recorded_history I) (\<lambda>baseline.
     and_then (json_item baseline ''aggregate'') (\<lambda>recorded.
     and_then (adaptive_config I (Some 0)) (\<lambda>c.
     and_then (fold_result (merge_seed I c p default_rps) probe_seeds TraceStatistics_init) (\<lambda>reproduced.
     and_then (json_item recorded ''clip_applied_count'') (\<lambda>clips.
     if json_number clips \<noteq> Some (real (clip_applied_count reproduced))
     then Inl (ValueError ''zero-hold reproduction does not match historical clip count'')
     else and_then (json_item recorded ''non_l0_time_fraction'') (\<lambda>fraction.
     Inr \<lparr>recorded_clip_applied_count = clips, recorded_non_l0_time_fraction = fraction,
       reproduced_summary = summarize_trace reproduced\<rparr>))))))"

record ProbeResult =
  probe_rate_rps :: real
  probe_controller :: AdmissionControlConfig
  probe_aggregate :: TraceSummary
  probe_per_seed :: "(int \<times> TraceSummary) list"
  probe_history :: "HistoricalBaseline option"
  probe_reference :: "ReferenceReport option"

definition cross_check :: "'g probe_inputs \<Rightarrow> bool \<Rightarrow> ReferenceReport option result" where
  "cross_check I wanted =
     (if wanted then and_then (reconstruct_expkb_no_clip (reference_rows I)) (\<lambda>r. Inr (Some r)) else Inr None)"

definition run_probe :: "'g probe_inputs \<Rightarrow> real \<Rightarrow> real option \<Rightarrow> bool \<Rightarrow> ProbeResult result" where
  "run_probe I rps hold include_reference =
     and_then (adaptive_config I hold) (\<lambda>c.
     and_then (load_predictor I (case clip_estimator_path c of None \<Rightarrow> [] | Some path \<Rightarrow> path)) (\<lambda>p.
     and_then (fold_result (probe_seed I c p rps) probe_seeds (TraceStatistics_init, [])) (\<lambda>(total_statistics, per_seed).
     and_then (if rps = default_rps \<and> hold = None
       then and_then (historical_baseline I p) (\<lambda>h. Inr (Some h)) else Inr None) (\<lambda>history.
     and_then (cross_check I include_reference) (\<lambda>reference.
     Inr \<lparr>probe_rate_rps = rps, probe_controller = c, probe_aggregate = summarize_trace total_statistics,
       probe_per_seed = per_seed, probe_history = history, probe_reference = reference\<rparr>)))))"

section \<open>The matrix\<close>

definition run_matrix :: "'g probe_inputs \<Rightarrow> real list \<Rightarrow> real list \<Rightarrow> ProbeResult list result" where
  "run_matrix I rates holds =
     map_result (\<lambda>(hold, rate). run_probe I rate (Some hold) False) (concat (map (\<lambda>hold. map (Pair hold) rates) holds))"

section \<open>Arguments\<close>

definition positive_float :: "conversions \<Rightarrow> string \<Rightarrow> real result" where
  "positive_float conv v =
    (case float_text conv v of
       None \<Rightarrow> Inl (ValueError ''could not convert string to float'')
     | Some x \<Rightarrow> if \<not> isfinite x \<or> real_of x \<le> 0 then Inl (ValueError ''rps must be a finite positive number'')
         else Inr (real_of x))"

definition non_negative_float :: "conversions \<Rightarrow> string \<Rightarrow> real result" where
  "non_negative_float conv v =
    (case float_text conv v of
       None \<Rightarrow> Inl (ValueError ''could not convert string to float'')
     | Some x \<Rightarrow> if \<not> isfinite x \<or> real_of x < 0 then Inl (ValueError ''hold must be a finite non-negative number'')
         else Inr (real_of x))"

datatype probe_outcome = OnePoint ProbeResult | Matrix "ProbeResult list" "ReferenceReport option"

text \<open>The choice \<open>main\<close> makes from the parsed arguments.\<close>

definition probe_main :: "'g probe_inputs \<Rightarrow> real list \<Rightarrow> real list \<Rightarrow> bool \<Rightarrow> probe_outcome result" where
  "probe_main I rates_given holds_given include_reference =
    (let rates = (if rates_given = [] then [default_rps] else rates_given) in
     if length rates = 1 \<and> holds_given = []
     then and_then (run_probe I (hd rates) None include_reference) (\<lambda>r. Inr (OnePoint r))
     else and_then (adaptive_config I None) (\<lambda>c.
       and_then (run_matrix I rates (if holds_given = [] then [adaptive_clip_tighten_hold_s c] else holds_given)) (\<lambda>rs.
       and_then (cross_check I include_reference) (\<lambda>reference. Inr (Matrix rs reference)))))"

section \<open>Every run is accounted for\<close>

text \<open>The inputs the runs rely on: a valid base workload, draws in their ranges, a readable artifact.\<close>

definition probe_inputs_ok :: "'g probe_inputs \<Rightarrow> bool" where
  "probe_inputs_ok I \<longleftrightarrow> random_laws (probe_random I) \<and>
     (\<exists>w. base_workload I = Inr w \<and> valid_workload w) \<and>
     (\<exists>p. load_predictor I (project_root I @ ''/results/artifacts/length-predictor.json'') = Inr p)"

definition merged_sound :: "TraceStatistics \<Rightarrow> bool" where
  "merged_sound st \<longleftrightarrow> accounted st \<and> all_finished st \<and>
     clip_applied_count st = output_clipper_condition_met_count st"

definition summary_sound :: "TraceSummary \<Rightarrow> bool" where
  "summary_sound s \<longleftrightarrow> time_partitioned s \<and> sum_clip_applied_count s = sum_condition_met_count s"

lemma summarize_sound: "merged_sound st \<Longrightarrow> summary_sound (summarize_trace st)"
  using summary_partitions_time [of st] by (simp add: merged_sound_def summary_sound_def summarize_trace_def Let_def)

lemma summarize_totals [simp]:
  "sum_total_time_s (summarize_trace st) = total_time_s st"
  "sum_clip_applied_count (summarize_trace st) = clip_applied_count st"
  by (simp_all add: summarize_trace_def Let_def)

lemma merged_sound_init: "merged_sound TraceStatistics_init"
  using accounted_init by (simp add: merged_sound_def) (simp add: TraceStatistics_init_def)

lemma merge_sound:
  assumes "merged_sound st" and "merged_sound other"
  shows "merged_sound (merge_statistics other st)"
  using merge_ok [of st other] assms by (simp add: merged_sound_def) (simp add: merge_statistics_def)

lemma merge_totals [simp]:
  "total_time_s (merge_statistics other st) = total_time_s st + total_time_s other"
  "clip_applied_count (merge_statistics other st) = clip_applied_count st + clip_applied_count other"
  by (simp_all add: merge_statistics_def)

lemma workload_for_seed_ok:
  assumes "probe_inputs_ok I" and "0 < rps" and "0 \<le> seed"
  shows "\<exists>w. workload_for_seed I seed rps = Inr w \<and> valid_workload w \<and> arrival_process w = POISSON \<and>
    0 < warmup_requests w + total_requests w"
proof -
  let ?realistic = "default_realistic\<lparr>realistic_force_exact := True\<rparr>"
  obtain base where base: "base_workload I = Inr base" "valid_workload base"
    using assms(1) by (auto simp: probe_inputs_ok_def)
  have profiles: "\<exists>x. RequestProfileConfig_init (interactive_profile base) = Inr x"
    "\<exists>x. RequestProfileConfig_init (batch_profile base) = Inr x"
    using base(2) by (auto simp: valid_workload_def WorkloadConfig_init_def and_then_Inr)
  have realistic: "RealisticLengthConfig_init ?realistic = Inr ?realistic"
    by (simp add: RealisticLengthConfig_init_def default_realistic_def checked_def raise_if.simps)
  let ?w = "base\<lparr>arrival_process := POISSON, request_rate_rps := rps, total_requests := 24,
       warmup_requests := 4, repetitions := int probe_repetitions, interactive_fraction := 1/2,
       random_seed := seed, length_model := REALISTIC, realistic_length := Some ?realistic\<rparr>"
  have "WorkloadConfig_init ?w = Inr ?w"
    using profiles realistic assms(2,3)
    by (auto simp: WorkloadConfig_init_def checked_def raise_if.simps probe_repetitions_def)
  then show ?thesis by (simp add: workload_for_seed_def base(1) realistic valid_workload_def)
qed

definition probe_config_ok :: "'g probe_inputs \<Rightarrow> AdmissionControlConfig \<Rightarrow> LengthPredictor \<Rightarrow> bool" where
  "probe_config_ok I c p \<longleftrightarrow> valid_admission c \<and> adaptive_clip_enabled c \<and>
     adaptive_clip_signal c = QUEUE_DEPTH_EWMA \<and> clip_source c = CLIP_LEARNED \<and>
     (\<exists>path. clip_estimator_path c = Some path \<and> load_predictor I path = Inr p)"

lemma adaptive_config_ok:
  assumes "probe_inputs_ok I" and "0 \<le> h"
  obtains c p where "adaptive_config I (Some h) = Inr c" and "probe_config_ok I c p"
    and "load_predictor I (case clip_estimator_path c of None \<Rightarrow> [] | Some path \<Rightarrow> path) = Inr p"
    and "adaptive_clip_tighten_hold_s c = h"
proof -
  let ?path = "project_root I @ ''/results/artifacts/length-predictor.json''"
  obtain p where p: "load_predictor I ?path = Inr p" using assms(1) by (auto simp: probe_inputs_ok_def)
  let ?c = "default_admission\<lparr>clip_enabled := True, clip_source := CLIP_LEARNED, clip_estimator_path := Some ?path,
    adaptive_clip_enabled := True\<rparr>"
  have v: "AdmissionControlConfig_init ?c = Inr ?c"
    "valid_admission (?c\<lparr>adaptive_clip_tighten_hold_s := h\<rparr>)"
    using assms(2)
    by (simp_all add: valid_admission_def AdmissionControlConfig_init_def checked_def raise_if.simps
        admission_field_guards_def learned_clip_source_has_estimator_def validate_adaptive_clip_contract_def
        default_admission_def Let_def)
  show thesis
    by (rule that [of "?c\<lparr>adaptive_clip_tighten_hold_s := h\<rparr>" p])
      (use v p in \<open>simp_all add: adaptive_config_def probe_config_ok_def default_admission_def\<close>)
qed

lemma adaptive_default_ok:
  "\<exists>c. adaptive_config I None = Inr c \<and> 0 \<le> adaptive_clip_tighten_hold_s c"
  by (simp add: adaptive_config_def AdmissionControlConfig_init_def checked_def raise_if.simps admission_field_guards_def
      learned_clip_source_has_estimator_def validate_adaptive_clip_contract_def default_admission_def Let_def)

lemma merge_seed_ok:
  assumes "probe_inputs_ok I" and "probe_config_ok I c p" and "0 < rps" and "0 \<le> seed" and "merged_sound st"
  shows "\<exists>st'. merge_seed I c p rps seed st = Inr st' \<and> merged_sound st'"
proof -
  obtain w where w: "workload_for_seed I seed rps = Inr w" "valid_workload w" "arrival_process w = POISSON"
    "0 < warmup_requests w + total_requests w"
    using workload_for_seed_ok [OF assms(1,3,4)] by blast
  have "random_laws (probe_random I)" using assms(1) by (simp add: probe_inputs_ok_def)
  then obtain requests where g: "generate_requests (probe_random I) w None = Inr requests"
    "int (length requests) = warmup_requests w + total_requests w" "sorted (map arrival_time_s requests)"
    "\<forall>i < length requests. generated_ok w i (arrival_time_s (requests ! i)) (requests ! i)"
    using generate_requests_ok [OF _ w(2)] w(3) by auto
  have ne: "requests \<noteq> []" using g(2) w(4) by auto
  have "\<forall>r \<in> set requests. ready r"
    using g(4) by (auto simp: in_set_conv_nth generated_ok_def ready_def)
  moreover obtain path where c: "valid_admission c" "adaptive_clip_enabled c" "adaptive_clip_signal c = QUEUE_DEPTH_EWMA"
    "clip_source c = CLIP_LEARNED" "clip_estimator_path c = Some path" "load_predictor I path = Inr p"
    using assms(2) by (auto simp: probe_config_ok_def)
  ultimately obtain other where other: "simulate_trace (load_predictor I) c p requests = Inr other"
    "trace_sound (length requests) other"
    using simulate_trace_ok [where load = "load_predictor I", OF c ne _ g(3)] by blast
  have "merged_sound other" using other(2) by (simp add: merged_sound_def trace_sound_def)
  then have "\<exists>st'. fold_result (\<lambda>_ st. and_then (simulate_trace (load_predictor I) c p requests) (\<lambda>other.
       Inr (merge_statistics other st))) [0..<probe_repetitions] st = Inr st' \<and> merged_sound st'"
    by (intro fold_result_returns) (simp_all add: assms(5) other(1) merge_sound)
  then show ?thesis by (simp add: merge_seed_def w(1) g(1))
qed

text \<open>What the loop over the seeds maintains.\<close>

definition seeds_accounted :: "TraceStatistics \<times> (int \<times> TraceSummary) list \<Rightarrow> bool" where
  "seeds_accounted = (\<lambda>(st, per_seed). merged_sound st \<and>
     total_time_s st = sum_list (map (\<lambda>(seed, s). sum_total_time_s s) per_seed) \<and>
     clip_applied_count st = sum_list (map (\<lambda>(seed, s). sum_clip_applied_count s) per_seed) \<and>
     (\<forall>(seed, s) \<in> set per_seed. summary_sound s))"

lemma probe_seed_ok:
  assumes "probe_inputs_ok I" and "probe_config_ok I c p" and "0 < rps" and "0 \<le> seed" and "seeds_accounted acc"
  shows "\<exists>acc'. probe_seed I c p rps seed acc = Inr acc' \<and> seeds_accounted acc'"
proof -
  obtain st per_seed where acc: "acc = (st, per_seed)" by (cases acc)
  obtain st' where "merge_seed I c p rps seed TraceStatistics_init = Inr st'" "merged_sound st'"
    using merge_seed_ok [OF assms(1-4) merged_sound_init] by blast
  then show ?thesis
    using assms(5) merge_sound summarize_sound
    by (auto simp: probe_seed_def acc seeds_accounted_def)
qed

lemma probe_seeds_listed:
  assumes "fold_result (probe_seed I c p rps) seeds (st, per_seed) = Inr (st', per_seed')"
  shows "map fst per_seed' = map fst per_seed @ seeds"
  using assms
proof (induction seeds arbitrary: st per_seed)
  case (Cons seed seeds)
  obtain st1 per1 where 1: "probe_seed I c p rps seed (st, per_seed) = Inr (st1, per1)"
    "fold_result (probe_seed I c p rps) seeds (st1, per1) = Inr (st', per_seed')"
    using Cons.prems by (auto simp: and_then_Inr)
  have "map fst per1 = map fst per_seed @ [seed]" using 1(1) by (auto simp: probe_seed_def and_then_Inr)
  with Cons.IH [OF 1(2)] show ?case by simp
qed simp

definition probe_accounted :: "ProbeResult \<Rightarrow> bool" where
  "probe_accounted r \<longleftrightarrow> summary_sound (probe_aggregate r) \<and> map fst (probe_per_seed r) = probe_seeds \<and>
     (\<forall>(seed, s) \<in> set (probe_per_seed r). summary_sound s) \<and>
     sum_total_time_s (probe_aggregate r) = sum_list (map (\<lambda>(seed, s). sum_total_time_s s) (probe_per_seed r)) \<and>
     sum_clip_applied_count (probe_aggregate r)
       = sum_list (map (\<lambda>(seed, s). sum_clip_applied_count s) (probe_per_seed r))"

lemma run_probe_ok:
  assumes "probe_inputs_ok I" and "0 < rps" and "0 \<le> h"
  shows "\<exists>r. run_probe I rps (Some h) False = Inr r \<and> probe_accounted r \<and> probe_rate_rps r = rps \<and>
    adaptive_clip_tighten_hold_s (probe_controller r) = h"
proof -
  obtain c p where c: "adaptive_config I (Some h) = Inr c" "probe_config_ok I c p"
    "load_predictor I (case clip_estimator_path c of None \<Rightarrow> [] | Some path \<Rightarrow> path) = Inr p"
    "adaptive_clip_tighten_hold_s c = h"
    using adaptive_config_ok [OF assms(1,3)] by blast
  have start: "seeds_accounted (TraceStatistics_init, [])"
    using merged_sound_init by (simp add: seeds_accounted_def) (simp add: TraceStatistics_init_def)
  have "\<exists>acc. fold_result (probe_seed I c p rps) probe_seeds (TraceStatistics_init, []) = Inr acc \<and> seeds_accounted acc"
    by (intro fold_result_returns start probe_seed_ok [OF assms(1) c(2) assms(2)]) (auto simp: probe_seeds_def)
  then obtain st per_seed where f: "fold_result (probe_seed I c p rps) probe_seeds (TraceStatistics_init, []) = Inr (st, per_seed)"
    "seeds_accounted (st, per_seed)" by auto
  have "map fst per_seed = probe_seeds" using probe_seeds_listed [OF f(1)] by simp
  then show ?thesis
    using f(2) c(4) summarize_sound by (simp add: run_probe_def cross_check_def c(1,3) f(1) probe_accounted_def seeds_accounted_def)
qed

lemma run_matrix_returns:
  assumes "probe_inputs_ok I" and "\<forall>rate \<in> set rates. 0 < rate" and "\<forall>h \<in> set holds. 0 \<le> h"
  shows "\<exists>rs. run_matrix I rates holds = Inr rs \<and>
    list_all2 (\<lambda>x r. probe_accounted r \<and> (adaptive_clip_tighten_hold_s (probe_controller r), probe_rate_rps r) = x)
      (concat (map (\<lambda>h. map (Pair h) rates) holds)) rs"
  unfolding run_matrix_def
proof (rule map_result_returns)
  fix x assume "x \<in> set (concat (map (\<lambda>h. map (Pair h) rates) holds))"
  then have "0 \<le> fst x" "0 < snd x" using assms(2,3) by auto
  from run_probe_ok [OF assms(1) this(2,1)]
  show "\<exists>r. (\<lambda>(h, rate). run_probe I rate (Some h) False) x = Inr r \<and>
      probe_accounted r \<and> (adaptive_clip_tighten_hold_s (probe_controller r), probe_rate_rps r) = x"
    by (cases x) auto
qed

text \<open>
  C37. The probe accounts for what it simulates. With a valid base workload, random draws in their
  documented ranges and a readable artifact, a matrix of positive loads and non-negative holds always
  runs to the end, hold by hold and load by load. In every run the aggregate and each seed's summary
  partition their time by depth and by level, fractions adding up to one, the episodes at or above a
  threshold make up the time spent there, the predicted clips are the applied ones, and the aggregate's
  time and clips are the sums over the three seeds.
\<close>

theorem matrix_accounts_for_time:
  assumes "probe_inputs_ok I" and "\<forall>rate \<in> set rates. 0 < rate" and "\<forall>h \<in> set holds. 0 \<le> h"
  shows "\<exists>rs. run_matrix I rates holds = Inr rs \<and> length rs = length holds * length rates \<and>
    map (\<lambda>r. (adaptive_clip_tighten_hold_s (probe_controller r), probe_rate_rps r)) rs
      = concat (map (\<lambda>h. map (Pair h) rates) holds) \<and>
    (\<forall>r \<in> set rs. probe_accounted r)"
proof -
  let ?points = "concat (map (\<lambda>h. map (Pair h) rates) holds)"
  let ?at = "\<lambda>x r. probe_accounted r \<and> (adaptive_clip_tighten_hold_s (probe_controller r), probe_rate_rps r) = x"
  obtain rs where rs: "run_matrix I rates holds = Inr rs" "list_all2 ?at ?points rs"
    using run_matrix_returns [OF assms] by blast
  have "map (\<lambda>x. x) ?points = map (\<lambda>r. (adaptive_clip_tighten_hold_s (probe_controller r), probe_rate_rps r)) rs"
    by (rule map_eq_by_list_all2, rule list.rel_mono_strong [OF rs(2)]) simp
  moreover have "length ?points = length holds * length rates" by (induction holds) simp_all
  moreover have "\<forall>r \<in> set rs. probe_accounted r"
    using rs(2) by (induction rule: list_all2_induct) simp_all
  ultimately show ?thesis using rs(1) list_all2_lengthD [OF rs(2)] by simp
qed

definition sample_inputs :: "unit probe_inputs" where
  "sample_inputs = \<lparr>project_root = [], base_workload = Inr sample_workload,
     load_predictor = \<lambda>path. Inr \<lparr>bucket_medians = [], global_median = 900\<rparr>, probe_random = constant_source,
     recorded_history = Inl (KeyError []), reference_rows = []\<rparr>"

theorem matrix_accounts_for_time_witness:
  "\<exists>rs. run_matrix sample_inputs [8/100, 17/100] [0, 4] = Inr rs \<and> length rs = 4 \<and> (\<forall>r \<in> set rs. probe_accounted r)"
proof -
  have "probe_inputs_ok sample_inputs"
    using constant_source_laws sample_workload_valid by (simp add: probe_inputs_ok_def sample_inputs_def)
  from matrix_accounts_for_time [OF this, of "[8/100, 17/100]" "[0, 4]"] show ?thesis by auto
qed

end
