(* ===== verification/ProbeReport.thy ===== *)
theory ProbeReport
  imports ProbeRuns DecisionLog ConfigHash
begin

text \<open>
  The JSON the probe writes (src/scripts/probe_week7_lowload_depth.py): the summary of a trace, the
  metadata of the trace and of the controller, the result of a point and of a matrix. The Chinese half
  of the scope note is in English here. A written result is what the next run reads as its history.
\<close>

section \<open>Values\<close>

definition json_count :: "nat \<Rightarrow> json" where
  "json_count n = JInt (int n)"

definition depth_key :: "int \<Rightarrow> string" where
  "depth_key threshold = ''depth_ge_'' @ int_str threshold"

definition EVIDENCE_SCOPE :: string where
  "EVIDENCE_SCOPE = ''This is a deterministic CPU simulation fitted to expK-B; not measured on a real machine. ''
     @ ''Deterministic CPU simulation using the expK-B no-clip service-time fit; ''
     @ ''this is not a real-machine measurement and must not be treated as one.''"

section \<open>The summary\<close>

definition distribution_json :: "DurationDistribution \<Rightarrow> json" where
  "distribution_json d = JObject
    [(''count'', json_count (dist_count d)), (''p50_s'', optional_float (dist_p50_s d)),
     (''p95_s'', optional_float (dist_p95_s d)), (''max_s'', optional_float (dist_max_s d)),
     (''durations_s'', JArray (map JFloat (dist_durations_s d)))]"

definition summary_fields :: "TraceSummary \<Rightarrow> (string \<times> json) list" where
  "summary_fields s =
    [(''total_time_s'', JFloat (sum_total_time_s s)),
     (''stable_depth_time_weighted_distribution'', JObject (map (\<lambda>(depth, share). (int_str depth, JObject
        [(''time_s'', JFloat (share_time_s share)), (''time_fraction'', JFloat (share_fraction share))]))
       (depth_distribution s))),
     (''peak_stable_waiting_depth'', JInt (peak_stable_waiting_depth s)),
     (''depth_episode_duration_distributions'', JObject (map (\<lambda>(threshold, d). (depth_key threshold, distribution_json d))
       (depth_episode_distributions s))),
     (''non_l0_time_s'', JFloat (sum_non_l0_time_s s)),
     (''non_l0_time_fraction'', JFloat (sum_non_l0_time_fraction s)),
     (''non_l0_entry_count'', json_count (sum_non_l0_entry_count s)),
     (''non_l0_decision_count'', json_count (sum_non_l0_decision_count s)),
     (''level_residence'', JObject (map (\<lambda>(lev, share). (level_name lev, JObject
        [(''time_s'', JFloat (share_time_s share)), (''time_fraction'', JFloat (share_fraction share)),
         (''entry_count'', json_count (share_entry_count share))])) (level_residence s))),
     (''tightest_level_reached'', JString (level_name (tightest_level_reached s))),
     (''tighten_hold_reset_count'', json_count (sum_tighten_hold_reset_count s)),
     (''first_positive_depth_to_first_tighten_distribution'', distribution_json (response_distribution s)),
     (''clip_applied_count'', json_count (sum_clip_applied_count s)),
     (''output_clipper_condition_met_count'', json_count (sum_condition_met_count s))]"

section \<open>Metadata\<close>

definition trace_metadata :: "real \<Rightarrow> json" where
  "trace_metadata rate = JObject
    [(''arrival_process'', JString ''poisson''), (''request_rate_rps'', JFloat rate),
     (''length_model'', JString ''realistic''), (''force_exact_output_tokens'', JBool True),
     (''max_in_flight'', json_count probe_slots), (''total_requests'', JInt 24), (''warmup_requests'', JInt 4),
     (''repetitions_per_seed'', json_count probe_repetitions), (''seeds'', JArray (map JInt probe_seeds)),
     (''statistics_request_scope'', JString ''warmup and formal requests on the controller timeline''),
     (''repetition_method'', JString (''Each repetition regenerates and replays the same seeded request trace, ''
        @ ''matching run_benchmark semantics.'')),
     (''time_weighting_window'', JString ''first enqueue through final dispatch''),
     (''stable_depth_method'', JString (''Integrate the post-fill waiting-list length over each event delta; ''
        @ ''a selected request and all immediately fillable slots are excluded.''))]"

definition controller_metadata :: "AdmissionControlConfig \<Rightarrow> json" where
  "controller_metadata c = JObject
    [(''tighten_thresholds'', JArray (map JFloat (adaptive_clip_tighten_thresholds c))),
     (''relax_thresholds'', JArray (map JFloat (adaptive_clip_relax_thresholds c))),
     (''ewma_tau_s'', JFloat (adaptive_clip_ewma_tau_s c)),
     (''tighten_hold_s'', JFloat (adaptive_clip_tighten_hold_s c)),
     (''relax_hold_s'', JFloat (adaptive_clip_relax_hold_s c)),
     (''caps'', JArray (map JInt (adaptive_clip_caps c))),
     (''clip_source'', JString (clip_source_value (clip_source c))),
     (''default_source'', JString (''Adaptive thresholds, EWMA tau, holds, and caps are inherited from ''
        @ ''AdmissionControlConfig; the established probe explicitly enables learned clipping.''))]"

section \<open>Results\<close>

definition history_json :: "HistoricalBaseline \<Rightarrow> json" where
  "history_json h = JObject
    [(''artifact'', JString ''results/raw/week7-lowload-depth-probe/probe.json''),
     (''controller_semantics'', JString ''before tighten-side hold; threshold crossing tightened immediately''),
     (''reproduction_tighten_hold_s'', JFloat 0),
     (''recorded_clip_applied_count'', recorded_clip_applied_count h),
     (''recorded_non_l0_time_fraction'', recorded_non_l0_time_fraction h),
     (''reproduced'', JObject (summary_fields (reproduced_summary h)))]"

definition rounded_reference :: "string \<Rightarrow> int \<Rightarrow> real \<Rightarrow> real \<Rightarrow> real \<Rightarrow> string \<times> json" where
  "rounded_reference key n half high longest = (key, JObject
    [(''count'', JInt n), (''p50_s'', JFloat half), (''p95_s'', JFloat high), (''max_s'', JFloat longest)])"

definition reference_json :: "ReferenceReport \<Rightarrow> json" where
  "reference_json r = JObject
    [(''evidence_scope'', JString (''This subsection is a recomputation from real expK-B no-clip JSONL, ''
        @ ''not an output of the CPU simulation.'')),
     (''request_scope'', JString ''all requests, including four warmups per repetition''),
     (''quantile_method'', JString ''nearest rank''),
     (''sources'', JArray (map JString (reference_sources r))),
     (''depth_episode_duration_distributions'', JObject (map (\<lambda>(threshold, d). (depth_key threshold, distribution_json d))
        (reference_distributions r))),
     (''reviewer_reference_rounded'', JObject
        [rounded_reference ''depth_ge_1'' 213 0 6.1 43.2, rounded_reference ''depth_ge_2'' 10 7.6 42.5 42.5,
         rounded_reference ''depth_ge_3'' 14 4.2 21.8 21.8]),
     (''cross_check'', JString (''Counts and rounded p95/max agree. Q>=1 p50 is 0.0000557s and rounds ''
        @ ''to 0.0s. Q>=2 p50 is 7.5034s by nearest rank (7.5s at one decimal), ''
        @ ''rather than the supplied 7.6s; selecting the upper middle observation ''
        @ ''gives 7.5598s and explains the 0.1s quantile-convention difference.''))]"

definition probe_json :: "ProbeResult \<Rightarrow> json" where
  "probe_json r = JObject
    ([(''evidence_scope'', JString EVIDENCE_SCOPE),
      (''service_time_model'', JObject
         [(''formula'', JString ''S_seconds = 0.01494 * output_tokens + 0.0156''),
          (''source'', JString ''expK-B no-clip fit''), (''r_squared'', JFloat 0.9998)]),
      (''trace'', trace_metadata (probe_rate_rps r)),
      (''controller'', controller_metadata (probe_controller r)),
      (''aggregate'', JObject (summary_fields (probe_aggregate r))),
      (''per_seed'', JArray (map (\<lambda>(seed, s). JObject ((''seed'', JInt seed) # summary_fields s)) (probe_per_seed r)))]
     @ (case probe_history r of None \<Rightarrow> [] | Some h \<Rightarrow> [(''historical_before_tighten_hold'', history_json h)])
     @ (case probe_reference r of None \<Rightarrow> []
        | Some k \<Rightarrow> [(''expkb_no_clip_reference_recomputation'', reference_json k)]))"

definition matrix_json :: "real list \<Rightarrow> real list \<Rightarrow> ProbeResult list \<Rightarrow> (string \<times> json) list" where
  "matrix_json rates holds runs =
    [(''evidence_scope'', JString EVIDENCE_SCOPE),
     (''matrix'', JObject
        [(''request_rates_rps'', JArray (map JFloat rates)), (''tighten_hold_values_s'', JArray (map JFloat holds)),
         (''all_other_controller_fields'', JString ''AdmissionControlConfig defaults''),
         (''seeds'', JArray (map JInt probe_seeds)), (''repetitions_per_seed'', json_count probe_repetitions)]),
     (''runs'', JArray (map probe_json runs))]"

text \<open>The text \<open>main\<close> writes and prints is the dump of this value.\<close>

definition probe_output :: "'g probe_inputs \<Rightarrow> real list \<Rightarrow> real list \<Rightarrow> bool \<Rightarrow> json result" where
  "probe_output I rates_given holds_given include_reference =
     (let rates = (if rates_given = [] then [default_rps] else rates_given) in
      and_then (probe_main I rates_given holds_given include_reference) (\<lambda>outcome.
      case outcome of
        OnePoint r \<Rightarrow> Inr (probe_json r)
      | Matrix runs reference \<Rightarrow>
          and_then (adaptive_config I None) (\<lambda>c.
          let holds = (if holds_given = [] then [adaptive_clip_tighten_hold_s c] else holds_given) in
          Inr (JObject (matrix_json rates holds runs
            @ (case reference of None \<Rightarrow> [] | Some k \<Rightarrow> [(''expkb_no_clip_reference_recomputation'', reference_json k)]))))))"

section \<open>Reading a result back\<close>

lemma summary_items:
  "json_item (JObject (summary_fields s)) ''clip_applied_count'' = Inr (json_count (sum_clip_applied_count s))"
  "json_item (JObject (summary_fields s)) ''non_l0_time_fraction'' = Inr (JFloat (sum_non_l0_time_fraction s))"
  by (simp_all add: json_item_def summary_fields_def)

text \<open>
  A written point serves the next run as its history: its aggregate is found, and with the clip count and
  the time fraction of that point; a run whose reproduction clips as often accepts it.
\<close>

theorem report_is_history:
  assumes "recorded_history I = Inr (probe_json r)" and "adaptive_config I (Some 0) = Inr c"
    and "fold_result (merge_seed I c p default_rps) probe_seeds TraceStatistics_init = Inr reproduced"
  shows "historical_baseline I p =
    (if clip_applied_count reproduced \<noteq> sum_clip_applied_count (probe_aggregate r)
     then Inl (ValueError ''zero-hold reproduction does not match historical clip count'')
     else Inr \<lparr>recorded_clip_applied_count = json_count (sum_clip_applied_count (probe_aggregate r)),
       recorded_non_l0_time_fraction = JFloat (sum_non_l0_time_fraction (probe_aggregate r)),
       reproduced_summary = summarize_trace reproduced\<rparr>)"
proof -
  have "json_item (probe_json r) ''aggregate'' = Inr (JObject (summary_fields (probe_aggregate r)))"
    by (simp add: json_item_def probe_json_def)
  moreover have "json_number (json_count n) = Some (real n)" for n by (simp add: json_count_def)
  ultimately show ?thesis using assms by (simp add: historical_baseline_def summary_items)
qed

end
