(* ===== verification/SmokeCheck.thy ===== *)
theory SmokeCheck
  imports Records
begin

text \<open>
  The functional check of a running server (src/scripts/vllm_smoke.py): three calls, whose responses are
  written out before they are judged. What the server answers is a parameter, one outcome per call; the
  first-chunk time and the printed lines are left out.
\<close>

section \<open>Outcomes\<close>

text \<open>A call fails with a \<open>URLError\<close>, which the script reports, or with another exception, which it does not catch.\<close>

datatype call_failure = UrlError | OtherError py_error

text \<open>
  What the server answers to a GET of a URL, and to a POST of a payload: a whole body, or a streamed one
  with its lines and the failure that ends it early.
\<close>

record smoke_server =
  get_json :: "string \<Rightarrow> call_failure + json"
  post_json :: "string \<Rightarrow> json \<Rightarrow> call_failure + json"
  post_lines :: "string \<Rightarrow> json \<Rightarrow> call_failure + string list \<times> call_failure option"

datatype smoke_stop = SystemExit string | Failed call_failure

datatype artifact = JsonArtifact json | LinesArtifact "string list"

text \<open>What has been written, and the outcome.\<close>

type_synonym 'a smoke_run = "(string \<times> artifact) list \<times> (smoke_stop + 'a)"

definition smoke_then :: "'a smoke_run \<Rightarrow> ('a \<Rightarrow> 'b smoke_run) \<Rightarrow> 'b smoke_run" where
  "smoke_then r f = (case r of
     (written, Inl e) \<Rightarrow> (written, Inl e)
   | (written, Inr x) \<Rightarrow> (case f x of (rest_written, y) \<Rightarrow> (written @ rest_written, y)))"

definition raising :: "'a result \<Rightarrow> 'a smoke_run" where
  "raising r = ([], case r of Inl e \<Rightarrow> Inl (Failed (OtherError e)) | Inr x \<Rightarrow> Inr x)"

section \<open>The checks\<close>

text \<open>Iterating over a JSON value, its first item, and \<open>body.get(key, default)\<close>.\<close>

definition json_items :: "json \<Rightarrow> json list result" where
  "json_items v = (case v of
     JArray vs \<Rightarrow> Inr vs
   | JObject d \<Rightarrow> Inr (map (\<lambda>(key, _). JString key) d)
   | JString s \<Rightarrow> Inr (map (\<lambda>ch. JString [ch]) s)
   | _ \<Rightarrow> Inl (TypeError ''object is not iterable''))"

definition json_first :: "json \<Rightarrow> json result" where
  "json_first v = (case v of
     JArray vs \<Rightarrow> (case vs of [] \<Rightarrow> Inl (IndexError ''list index out of range'') | x # _ \<Rightarrow> Inr x)
   | JString s \<Rightarrow> (case s of [] \<Rightarrow> Inl (IndexError ''string index out of range'') | ch # _ \<Rightarrow> Inr (JString [ch]))
   | JObject _ \<Rightarrow> Inl (KeyError ''0'')
   | _ \<Rightarrow> Inl (TypeError ''object is not subscriptable''))"

definition json_get_or :: "json \<Rightarrow> string \<Rightarrow> json \<Rightarrow> json result" where
  "json_get_or v key fallback = (case v of
     JObject d \<Rightarrow> Inr (case map_of d key of None \<Rightarrow> fallback | Some x \<Rightarrow> x)
   | _ \<Rightarrow> Inl (TypeError ''object has no attribute get''))"

definition check_models :: "smoke_server \<Rightarrow> string \<Rightarrow> json smoke_run" where
  "check_models server server_url = (case get_json server (server_url @ ''/models'') of
     Inl e \<Rightarrow> ([], Inl (Failed e))
   | Inr body \<Rightarrow>
       smoke_then ([(''models.json'', JsonArtifact body)], Inr ()) (\<lambda>_.
       smoke_then (raising (and_then (json_get_or body ''data'' (JArray [])) (\<lambda>data.
           and_then (json_items data) (map_result (\<lambda>entry. json_item entry ''id''))))) (\<lambda>served.
       case served of
         [] \<Rightarrow> ([], Inl (SystemExit ''no model advertised by /v1/models''))
       | model # _ \<Rightarrow> ([], Inr model))))"

definition chat_content :: "json \<Rightarrow> json result" where
  "chat_content body =
     and_then (json_item body ''choices'') (\<lambda>choices.
     and_then (json_first choices) (\<lambda>choice.
     and_then (json_item choice ''message'') (\<lambda>message.
     json_item message ''content'')))"

text \<open>The payload of a chat call, and the two the script sends.\<close>

definition chat_payload :: "json \<Rightarrow> string \<Rightarrow> int \<Rightarrow> bool \<Rightarrow> json" where
  "chat_payload model content max_tokens stream = JObject
    [(''model'', model),
     (''messages'', JArray [JObject [(''role'', JString ''user''), (''content'', JString content)]]),
     (''max_tokens'', JInt max_tokens), (''temperature'', JFloat 0), (''stream'', JBool stream)]"

definition whole_payload :: "json \<Rightarrow> json" where
  "whole_payload model = chat_payload model ''Reply with the single word: ready'' 16 False"

definition streamed_payload :: "json \<Rightarrow> json" where
  "streamed_payload model = chat_payload model ''Count from one to five.'' 48 True"

definition chat_url :: "string \<Rightarrow> string" where
  "chat_url server_url = server_url @ ''/chat/completions''"

definition check_non_streaming :: "smoke_server \<Rightarrow> string \<Rightarrow> json \<Rightarrow> unit smoke_run" where
  "check_non_streaming server server_url model = (case post_json server (chat_url server_url) (whole_payload model) of
     Inl e \<Rightarrow> ([], Inl (Failed e))
   | Inr body \<Rightarrow>
       smoke_then ([(''non_streaming.json'', JsonArtifact body)], Inr ()) (\<lambda>_.
       smoke_then (raising (chat_content body)) (\<lambda>content.
       if json_truth content then ([], Inr ())
       else ([], Inl (SystemExit ''non-streaming response had empty content'')))))"

text \<open>The loop over the streamed lines: the lines kept, and what was seen.\<close>

record stream_scan =
  raw_lines :: "string list"
  first_chunk_seen :: bool
  done_seen :: bool

definition strip_newlines :: "string \<Rightarrow> string" where
  "strip_newlines s = rev (dropWhile (\<lambda>ch. ch = CHR 0x0A) (rev s))"

definition data_of :: "string \<Rightarrow> string option" where
  "data_of line = (if take 6 line = ''data: '' then Some (drop 6 line) else None)"

text \<open>The loop breaks at the terminator; the last component tells whether it did.\<close>

fun scan_stream :: "stream_scan \<Rightarrow> string list \<Rightarrow> stream_scan" where
  "scan_stream st [] = st"
| "scan_stream st (raw # raws) =
     (let line = strip_newlines raw; st1 = st\<lparr>raw_lines := raw_lines st @ [line]\<rparr> in
      case data_of line of
        None \<Rightarrow> scan_stream st1 raws
      | Some data \<Rightarrow>
          if data = ''[DONE]'' then st1\<lparr>done_seen := True\<rparr>
          else scan_stream (st1\<lparr>first_chunk_seen := True\<rparr>) raws)"

definition stream_start :: stream_scan where
  "stream_start = \<lparr>raw_lines = [], first_chunk_seen = False, done_seen = False\<rparr>"

definition check_streaming :: "smoke_server \<Rightarrow> string \<Rightarrow> json \<Rightarrow> unit smoke_run" where
  "check_streaming server server_url model = (case post_lines server (chat_url server_url) (streamed_payload model) of
     Inl e \<Rightarrow> ([], Inl (Failed e))
   | Inr (raws, failure) \<Rightarrow>
       (let st = scan_stream stream_start raws in
        case failure of
          Some e \<Rightarrow>
            if done_seen st then ([(''streaming.sse'', LinesArtifact (raw_lines st))],
              if first_chunk_seen st then Inr ()
              else Inl (SystemExit ''streaming response missing first chunk or [DONE] terminator''))
            else ([], Inl (Failed e))
        | None \<Rightarrow> ([(''streaming.sse'', LinesArtifact (raw_lines st))],
            if first_chunk_seen st \<and> done_seen st then Inr ()
            else Inl (SystemExit ''streaming response missing first chunk or [DONE] terminator''))))"

definition smoke_checks :: "smoke_server \<Rightarrow> string \<Rightarrow> unit smoke_run" where
  "smoke_checks server server_url =
     smoke_then (check_models server server_url) (\<lambda>model.
     smoke_then (check_non_streaming server server_url model) (\<lambda>_. check_streaming server server_url model))"

text \<open>The artifacts written and the exit status, or the exception that ends the process.\<close>

definition smoke_main :: "smoke_server \<Rightarrow> string \<Rightarrow> (string \<times> artifact) list \<times> (smoke_stop + int)" where
  "smoke_main server server_url = (case smoke_checks server server_url of
     (written, Inl (Failed UrlError)) \<Rightarrow> (written, Inr 2)
   | (written, Inl e) \<Rightarrow> (written, Inl e)
   | (written, Inr _) \<Rightarrow> (written, Inr 0))"

section \<open>What a passing check shows\<close>

text \<open>The lines up to the terminator, and the data lines among them.\<close>

definition is_done :: "string \<Rightarrow> bool" where
  "is_done raw \<longleftrightarrow> data_of (strip_newlines raw) = Some ''[DONE]''"

definition is_chunk :: "string \<Rightarrow> bool" where
  "is_chunk raw \<longleftrightarrow> data_of (strip_newlines raw) \<noteq> None \<and> \<not> is_done raw"

lemma scan_stream_seen:
  "done_seen (scan_stream st raws) \<longleftrightarrow> done_seen st \<or> list_ex is_done raws"
  "first_chunk_seen (scan_stream st raws) \<longleftrightarrow>
     first_chunk_seen st \<or> list_ex is_chunk (takeWhile (\<lambda>raw. \<not> is_done raw) raws)"
  by (induction st raws rule: scan_stream.induct)
    (auto simp: Let_def is_done_def is_chunk_def split: option.split)

text \<open>
  The check exits with 0 exactly when the server advertises a model, answers the chat call for the first
  model with content, and streams for it a data line and after it the terminator; then all three responses have been written.
\<close>

definition streams_well :: "string list \<Rightarrow> bool" where
  "streams_well raws \<longleftrightarrow> (\<exists>before terminator after. raws = before @ terminator # after \<and> is_done terminator \<and>
     list_ex is_chunk before \<and> \<not> list_ex is_done before)"

lemma streams_well_iff:
  "streams_well raws \<longleftrightarrow> list_ex is_done raws \<and> list_ex is_chunk (takeWhile (\<lambda>raw. \<not> is_done raw) raws)"
proof
  assume "streams_well raws"
  then obtain before t after where r: "raws = before @ t # after" "is_done t" "list_ex is_chunk before"
    "\<not> list_ex is_done before" by (auto simp: streams_well_def)
  then have "takeWhile (\<lambda>raw. \<not> is_done raw) raws = before"
    by (auto simp: takeWhile_append list_ex_iff)
  then show "list_ex is_done raws \<and> list_ex is_chunk (takeWhile (\<lambda>raw. \<not> is_done raw) raws)" using r by simp
next
  let ?before = "takeWhile (\<lambda>raw. \<not> is_done raw) raws"
  assume s: "list_ex is_done raws \<and> list_ex is_chunk ?before"
  then obtain t after where d: "dropWhile (\<lambda>raw. \<not> is_done raw) raws = t # after"
    by (cases "dropWhile (\<lambda>raw. \<not> is_done raw) raws") (auto simp: dropWhile_eq_Nil_conv list_ex_iff)
  then have "is_done t" by (metis dropWhile_eq_Cons_conv)
  moreover have "raws = ?before @ t # after" using d by (metis takeWhile_dropWhile_id)
  moreover have "\<not> list_ex is_done ?before" by (auto simp: list_ex_iff dest: set_takeWhileD)
  ultimately show "streams_well raws" using s unfolding streams_well_def by blast
qed

lemma smoke_then_Inr:
  "smoke_then r f = (written, Inr y) \<longleftrightarrow>
     (\<exists>first x rest_written. r = (first, Inr x) \<and> f x = (rest_written, Inr y) \<and> written = first @ rest_written)"
  by (auto simp: smoke_then_def split: prod.splits sum.splits)

lemma raising_Inr: "raising r = (written, Inr x) \<longleftrightarrow> r = Inr x \<and> written = []"
  by (auto simp: raising_def split: sum.splits)

lemma first_served:
  "(case served of [] \<Rightarrow> ([], Inl e) | model # _ \<Rightarrow> ([], Inr model)) = (written, Inr m) \<longleftrightarrow>
     written = [] \<and> (\<exists>rest. served = m # rest)"
  by (cases served) auto

lemma check_models_Inr:
  "check_models server server_url = (written, Inr model) \<longleftrightarrow> (\<exists>body data entries rest.
     get_json server (server_url @ ''/models'') = Inr body \<and> json_get_or body ''data'' (JArray []) = Inr data \<and>
     json_items data = Inr entries \<and> map_result (\<lambda>entry. json_item entry ''id'') entries = Inr (model # rest) \<and>
     written = [(''models.json'', JsonArtifact body)])"
  by (auto simp: check_models_def smoke_then_Inr raising_Inr and_then_Inr first_served split: sum.splits)

lemma check_non_streaming_Inr:
  "check_non_streaming server server_url model = (written, Inr x) \<longleftrightarrow> (\<exists>body content. post_json server (chat_url server_url) (whole_payload model) = Inr body \<and>
     chat_content body = Inr content \<and> json_truth content \<and> written = [(''non_streaming.json'', JsonArtifact body)])"
  by (auto simp: check_non_streaming_def smoke_then_Inr raising_Inr split: sum.splits if_splits)

lemma check_streaming_Inr:
  "check_streaming server server_url model = (written, Inr x) \<longleftrightarrow> (\<exists>raws failure. post_lines server (chat_url server_url) (streamed_payload model) = Inr (raws, failure) \<and>
     streams_well raws \<and> written = [(''streaming.sse'', LinesArtifact (raw_lines (scan_stream stream_start raws)))])"
  by (auto simp: check_streaming_def streams_well_iff scan_stream_seen stream_start_def Let_def
      split: sum.splits option.splits if_splits)

theorem smoke_check_passes:
  "snd (smoke_main server server_url) = Inr 0 \<longleftrightarrow>
     (\<exists>model. snd (check_models server server_url) = Inr model \<and>
     (\<exists>body content. post_json server (chat_url server_url) (whole_payload model) = Inr body \<and> chat_content body = Inr content \<and> json_truth content) \<and>
     (\<exists>raws failure. post_lines server (chat_url server_url) (streamed_payload model) = Inr (raws, failure) \<and> streams_well raws))"
  and "snd (smoke_main server server_url) = Inr 0 \<Longrightarrow>
     map fst (fst (smoke_main server server_url)) = [''models.json'', ''non_streaming.json'', ''streaming.sse'']"
proof -
  have pass: "snd (smoke_main server server_url) = Inr 0 \<longleftrightarrow> (\<exists>written. smoke_checks server server_url = (written, Inr ()))"
    by (auto simp: smoke_main_def split: prod.splits sum.splits smoke_stop.splits call_failure.splits)
  show "snd (smoke_main server server_url) = Inr 0 \<longleftrightarrow>
     (\<exists>model. snd (check_models server server_url) = Inr model \<and>
     (\<exists>body content. post_json server (chat_url server_url) (whole_payload model) = Inr body \<and> chat_content body = Inr content \<and> json_truth content) \<and>
     (\<exists>raws failure. post_lines server (chat_url server_url) (streamed_payload model) = Inr (raws, failure) \<and> streams_well raws))"
    unfolding pass smoke_checks_def smoke_then_Inr check_non_streaming_Inr check_streaming_Inr
    by (auto simp: prod_eq_iff)
  assume "snd (smoke_main server server_url) = Inr 0"
  then obtain written where w: "smoke_checks server server_url = (written, Inr ())" using pass by blast
  then have "map fst written = [''models.json'', ''non_streaming.json'', ''streaming.sse'']"
    unfolding smoke_checks_def smoke_then_Inr check_models_Inr check_non_streaming_Inr check_streaming_Inr by auto
  then show "map fst (fst (smoke_main server server_url)) = [''models.json'', ''non_streaming.json'', ''streaming.sse'']"
    by (simp add: smoke_main_def w)
qed

end
