(* ===== verification/ScriptArguments.thy ===== *)
theory ScriptArguments
  imports Arguments AnalysisScripts TrainingScript ProbeReport SmokeCheck
begin

text \<open>
  The argument grammars of the scripts (src/scripts): tables of options with their conversions and
  defaults, and the probe from its argument list to the JSON it writes. A path is its text.
\<close>

section \<open>Values\<close>

definition any_text :: "string \<Rightarrow> bool" where
  "any_text v = True"

definition int_value :: "conversions \<Rightarrow> string \<Rightarrow> bool" where
  "int_value conv v \<longleftrightarrow> int_text conv v \<noteq> None"

definition float_value :: "conversions \<Rightarrow> string \<Rightarrow> bool" where
  "float_value conv v \<longleftrightarrow> float_text conv v \<noteq> None"

definition returns :: "'a result \<Rightarrow> bool" where
  "returns r = (case r of Inl _ \<Rightarrow> False | Inr _ \<Rightarrow> True)"

definition stored_or :: "string \<Rightarrow> taken_options \<Rightarrow> string \<Rightarrow> string" where
  "stored_or absent taken name = (case stored taken name of None \<Rightarrow> absent | Some v \<Rightarrow> v)"

text \<open>Values that were converted when their option was taken.\<close>

definition converted :: "(string \<Rightarrow> 'a result) \<Rightarrow> string list \<Rightarrow> 'a list" where
  "converted f vs = List.map_filter (\<lambda>v. case f v of Inl _ \<Rightarrow> None | Inr x \<Rightarrow> Some x) vs"

section \<open>The analyses\<close>

record expl_arguments =
  expl_results :: string
  expl_config :: string
  expl_reference :: string

definition expl_parse_args :: "string list \<Rightarrow> expl_arguments parse_outcome" where
  "expl_parse_args argv =
     then_parse (parse_options (with_help [(''--results'', TakesValue any_text), (''--config'', TakesValue any_text),
         (''--expkb-reference'', TakesValue any_text)]) [] argv) (\<lambda>taken.
     Accepted \<lparr>expl_results = stored_or ''results/raw/week7-expL'' taken ''--results'',
       expl_config = stored_or ''configs/sweeps/expL-adaptive-clipping.yaml'' taken ''--config'',
       expl_reference = stored_or ''results/raw/week6-expK-B'' taken ''--expkb-reference''\<rparr>)"

record expkb_arguments =
  expkb_results :: string
  expkb_additional_results :: "string list"
  expkb_warmup_requests :: int
  expkb_figure :: string

definition expkb_parse_args :: "conversions \<Rightarrow> string list \<Rightarrow> expkb_arguments parse_outcome" where
  "expkb_parse_args conv argv =
     then_parse (parse_options (with_help [(''--results'', TakesValue any_text),
         (''--additional-results'', TakesValue any_text), (''--warmup-requests'', TakesValue (int_value conv)),
         (''--figure'', TakesValue any_text)]) [] argv) (\<lambda>taken.
     Accepted \<lparr>expkb_results = stored_or ''results/raw/week6-expK-B'' taken ''--results'',
       expkb_additional_results = appended taken ''--additional-results'',
       expkb_warmup_requests = (case stored taken ''--warmup-requests'' of None \<Rightarrow> 4
         | Some v \<Rightarrow> (case int_text conv v of None \<Rightarrow> 4 | Some n \<Rightarrow> n)),
       expkb_figure = stored_or ''results/figures/clipping-tradeoff.png'' taken ''--figure''\<rparr>)"

section \<open>The training script\<close>

definition positive_int :: "conversions \<Rightarrow> string \<Rightarrow> int result" where
  "positive_int conv v = (case int_text conv v of
     None \<Rightarrow> Inl (ValueError ''invalid literal for int()'')
   | Some n \<Rightarrow> if n < 1 then Inl (ValueError ''must be positive'') else Inr n)"

record training_arguments =
  training_config :: string
  train_seed :: int
  eval_seed :: int
  training_count :: int
  training_out :: string

definition training_options :: "conversions \<Rightarrow> option_table" where
  "training_options conv = with_help [(''--config'', TakesValue any_text), (''--train-seed'', TakesValue (int_value conv)),
     (''--eval-seed'', TakesValue (int_value conv)), (''--n'', TakesValue (\<lambda>v. returns (positive_int conv v))),
     (''--out'', TakesValue any_text)]"

definition stored_int :: "conversions \<Rightarrow> taken_options \<Rightarrow> string \<Rightarrow> int" where
  "stored_int conv taken name = (case int_text conv (stored_or [] taken name) of None \<Rightarrow> 0 | Some n \<Rightarrow> n)"

definition training_parse_args :: "conversions \<Rightarrow> string list \<Rightarrow> training_arguments parse_outcome" where
  "training_parse_args conv argv =
     then_parse (parse_options (training_options conv)
         [''--config'', ''--train-seed'', ''--eval-seed'', ''--n'', ''--out''] argv) (\<lambda>taken.
     Accepted \<lparr>training_config = stored_or [] taken ''--config'', train_seed = stored_int conv taken ''--train-seed'',
       eval_seed = stored_int conv taken ''--eval-seed'', training_count = stored_int conv taken ''--n'',
       training_out = stored_or [] taken ''--out''\<rparr>)"

section \<open>The smoke check\<close>

record smoke_arguments =
  smoke_base_url :: string
  smoke_timeout :: pyfloat
  smoke_out_dir :: string

definition smoke_parse_args :: "conversions \<Rightarrow> string list \<Rightarrow> smoke_arguments parse_outcome" where
  "smoke_parse_args conv argv =
     then_parse (parse_options (with_help [(''--base-url'', TakesValue any_text), (''--timeout'', TakesValue (float_value conv)),
         (''--out-dir'', TakesValue any_text)]) [] argv) (\<lambda>taken.
     Accepted \<lparr>smoke_base_url = stored_or ''http://127.0.0.1:8000/v1'' taken ''--base-url'',
       smoke_timeout = (case stored taken ''--timeout'' of None \<Rightarrow> Fin 180
         | Some v \<Rightarrow> (case float_text conv v of None \<Rightarrow> Fin 180 | Some x \<Rightarrow> x)),
       smoke_out_dir = stored_or ''results/raw/week1-step3-smoke'' taken ''--out-dir''\<rparr>)"

definition smoke_process ::
    "conversions \<Rightarrow> smoke_server \<Rightarrow> string list \<Rightarrow> ((string \<times> artifact) list \<times> (smoke_stop + int)) parse_outcome" where
  "smoke_process conv server argv =
     then_parse (smoke_parse_args conv argv) (\<lambda>a.
     Accepted (case smoke_main server (smoke_base_url a) of (written, ending) \<Rightarrow>
       (map (\<lambda>(name, body). (smoke_out_dir a @ ''/'' @ name, body)) written, ending)))"

section \<open>The probe\<close>

record probe_arguments =
  request_rates_rps :: "real list"
  tighten_hold_values_s :: "real list"
  include_expkb_reference :: bool
  probe_out :: string

definition probe_options :: "conversions \<Rightarrow> option_table" where
  "probe_options conv = with_help [(''--rps'', TakesValue (\<lambda>v. returns (positive_float conv v))),
     (''--tighten-hold-s'', TakesValue (\<lambda>v. returns (non_negative_float conv v))),
     (''--include-expkb-reference'', TakesNone), (''--out'', TakesValue any_text)]"

definition probe_parse_args :: "conversions \<Rightarrow> string \<Rightarrow> string list \<Rightarrow> probe_arguments parse_outcome" where
  "probe_parse_args conv project argv =
     then_parse (parse_options (probe_options conv) [] argv) (\<lambda>taken.
     Accepted \<lparr>request_rates_rps = converted (positive_float conv) (appended taken ''--rps''),
       tighten_hold_values_s = converted (non_negative_float conv) (appended taken ''--tighten-hold-s''),
       include_expkb_reference = (stored taken ''--include-expkb-reference'' \<noteq> None),
       probe_out = stored_or (project @ ''/results/raw/week7-highload-depth-probe/probe-current-defaults.json'') taken ''--out''\<rparr>)"

text \<open>The file the probe writes, and the value whose dump it holds.\<close>

definition probe_process ::
    "conversions \<Rightarrow> 'g probe_inputs \<Rightarrow> string list \<Rightarrow> (string \<times> json) result parse_outcome" where
  "probe_process conv I argv =
     then_parse (probe_parse_args conv (project_root I) argv) (\<lambda>a.
     Accepted (and_then (probe_output I (request_rates_rps a) (tighten_hold_values_s a) (include_expkb_reference a))
       (\<lambda>v. Inr (probe_out a, v))))"

section \<open>Accepted arguments are in range\<close>

lemma converted_in: "x \<in> set (converted f vs) \<Longrightarrow> \<exists>v \<in> set vs. f v = Inr x"
  by (auto simp: converted_def List.map_filter_def split: sum.splits)

lemma probe_arguments_in_range:
  assumes "probe_parse_args conv project argv = Accepted a"
  shows "\<forall>rate \<in> set (request_rates_rps a). 0 < rate" and "\<forall>hold \<in> set (tighten_hold_values_s a). 0 \<le> hold"
  using assms
  by (auto simp: probe_parse_args_def positive_float_def non_negative_float_def
      elim!: then_parse.elims dest!: converted_in split: option.splits if_splits)

text \<open>
  A probe that is asked for a matrix, by more than one rate or by a hold, and not for the recomputation of
  earlier runs, always writes its file, whatever rates and holds the command line accepts.
\<close>

theorem probe_matrix_written:
  assumes "probe_inputs_ok I" and "probe_parse_args conv (project_root I) argv = Accepted a"
    and "\<not> include_expkb_reference a" and "1 < length (request_rates_rps a) \<or> tighten_hold_values_s a \<noteq> []"
  shows "\<exists>v. probe_process conv I argv = Accepted (Inr (probe_out a, v))"
proof -
  let ?rates = "if request_rates_rps a = [] then [default_rps] else request_rates_rps a"
  obtain c where c: "adaptive_config I None = Inr c" "0 \<le> adaptive_clip_tighten_hold_s c"
    using adaptive_default_ok by blast
  let ?holds = "if tighten_hold_values_s a = [] then [adaptive_clip_tighten_hold_s c] else tighten_hold_values_s a"
  note range = probe_arguments_in_range [OF assms(2)]
  have "\<forall>rate \<in> set ?rates. 0 < rate" "\<forall>h \<in> set ?holds. 0 \<le> h"
    using range c(2) by (simp_all add: default_rps_def)
  from run_matrix_returns [OF assms(1) this] obtain rs where "run_matrix I ?rates ?holds = Inr rs" by blast
  moreover have "\<not> (length ?rates = 1 \<and> tighten_hold_values_s a = [])" using assms(4) by auto
  ultimately have "probe_main I (request_rates_rps a) (tighten_hold_values_s a) False = Inr (Matrix rs None)"
    unfolding probe_main_def Let_def using c(1) by (simp only: if_False cross_check_def and_then.simps)
  then have "\<exists>v. probe_output I (request_rates_rps a) (tighten_hold_values_s a) False = Inr v"
    using c(1) by (simp add: probe_output_def Let_def)
  then show ?thesis using assms(2,3) by (auto simp: probe_process_def)
qed

end
