(* ===== verification/PatchScript.thy ===== *)
theory PatchScript
  imports PyText
begin

text \<open>
  The script that makes a pinned package importable on an older interpreter
  (src/scripts/patch_flashinfer_py311.py): it inserts a future import before the first line of code of one
  module, once. A text file is the list of its characters after decoding; reading turns every line end
  of a file into a line feed. The files of the search path are a parameter.
\<close>

section \<open>Lines\<close>

text \<open>Reading in text mode: \<open>\r\n\<close> and \<open>\r\<close> become \<open>\n\<close>.\<close>

fun universal_newlines :: "string \<Rightarrow> string" where
  "universal_newlines [] = []"
| "universal_newlines (ch # s) =
     (if ch \<noteq> CHR 0x0D then ch # universal_newlines s
      else case s of
          [] \<Rightarrow> [CHR 0x0A]
        | next_ch # rest \<Rightarrow>
            if next_ch = CHR 0x0A then CHR 0x0A # universal_newlines rest else CHR 0x0A # universal_newlines s)"

text \<open>\<open>splitlines(keepends=True)\<close>: a carriage return and the line feed after it end one line.\<close>

fun kept_lines :: "string \<Rightarrow> string \<Rightarrow> string list" where
  "kept_lines line [] = (if line = [] then [] else [line])"
| "kept_lines line (ch # rest) =
     (if is_line_end ch \<and> \<not> (ch = CHR 0x0D \<and> rest \<noteq> [] \<and> hd rest = CHR 0x0A)
      then (line @ [ch]) # kept_lines [] rest
      else kept_lines (line @ [ch]) rest)"

section \<open>The patch\<close>

definition FUTURE_IMPORT :: string where
  "FUTURE_IMPORT = ''from __future__ import annotations'' @ [CHR 0x0A]"

definition is_code :: "string \<Rightarrow> bool" where
  "is_code line \<longleftrightarrow> (let stripped = strip_text line in stripped \<noteq> [] \<and> hd stripped \<noteq> CHR ''#'')"

text \<open>The index of the first line of code, or 0 when there is none.\<close>

fun first_code_line :: "nat \<Rightarrow> string list \<Rightarrow> nat" where
  "first_code_line index [] = 0"
| "first_code_line index (line # ls) = (if is_code line then index else first_code_line (Suc index) ls)"

text \<open>What is written to the file, or \<open>None\<close> when it is left alone.\<close>

definition patch :: "string \<Rightarrow> string option" where
  "patch content =
     (let lines = kept_lines [] (universal_newlines content) in
      if list_ex (\<lambda>line. strip_text line = strip_text FUTURE_IMPORT) lines then None
      else let insert_at = first_code_line 0 lines in
        Some (concat (take insert_at lines @ [FUTURE_IMPORT] @ drop insert_at lines)))"

definition target_file :: "(string \<Rightarrow> string option) \<Rightarrow> string list \<Rightarrow> string option" where
  "target_file files sys_path =
     find (\<lambda>candidate. files candidate \<noteq> None)
       (map (\<lambda>entry. entry @ ''/flashinfer/comm/fd_exchange.py'') (filter (\<lambda>entry. entry \<noteq> []) sys_path))"

text \<open>The exit status and the files afterwards.\<close>

definition patch_main ::
    "int \<times> int \<Rightarrow> (string \<Rightarrow> string option) \<Rightarrow> string list \<Rightarrow> int \<times> (string \<Rightarrow> string option)" where
  "patch_main python files sys_path =
     (if fst python > 3 \<or> fst python = 3 \<and> snd python \<ge> 12 then (0, files)
      else case target_file files sys_path of
          None \<Rightarrow> (1, files)
        | Some target \<Rightarrow>
            (case patch (the (files target)) of
               None \<Rightarrow> (0, files)
             | Some text_written \<Rightarrow> (0, files(target \<mapsto> text_written))))"

section \<open>Splitting and joining\<close>

lemma universal_newlines_no_return: "CHR 0x0D \<notin> set (universal_newlines s)"
  by (induction s rule: universal_newlines.induct) (auto split: list.splits)

lemma universal_newlines_id: "CHR 0x0D \<notin> set s \<Longrightarrow> universal_newlines s = s"
  by (induction s) auto

lemma concat_kept_lines [simp]: "concat (kept_lines line s) = line @ s"
  by (induction line s rule: kept_lines.induct) auto

definition ends_line :: "string \<Rightarrow> bool" where
  "ends_line s \<longleftrightarrow> s = [] \<or> is_line_end (last s)"

lemma kept_lines_append:
  assumes "CHR 0x0D \<notin> set s" and "s = [] \<Longrightarrow> line = []" and "ends_line s"
  shows "kept_lines line (s @ t) = kept_lines line s @ kept_lines [] t"
  using assms
proof (induction s arbitrary: line)
  case (Cons ch s)
  then show ?case by (cases "s = []") (auto simp: ends_line_def)
qed simp

lemma kept_lines_end: "line \<in> set (butlast (kept_lines part s)) \<Longrightarrow> line \<noteq> [] \<and> is_line_end (last line)"
  by (induction part s rule: kept_lines.induct) (auto split: if_splits)

lemma taken_lines_end:
  assumes "i < length (kept_lines [] s)"
  shows "ends_line (concat (take i (kept_lines [] s)))"
proof (cases i)
  case (Suc j)
  let ?ls = "kept_lines [] s"
  have "take i ?ls = take j ?ls @ [?ls ! j]" using Suc assms by (simp add: take_Suc_conv_app_nth)
  moreover have "?ls ! j \<in> set (butlast ?ls)"
    using Suc assms nth_mem [of j "butlast ?ls"] by (simp add: nth_butlast)
  then have "?ls ! j \<noteq> [] \<and> is_line_end (last (?ls ! j))" by (rule kept_lines_end)
  ultimately show ?thesis by (simp add: ends_line_def)
qed (simp add: ends_line_def)

lemma first_code_line_bounds:
  "first_code_line k ls = (if list_ex is_code ls then k + length (takeWhile (\<lambda>l. \<not> is_code l) ls) else 0)"
  by (induction ls arbitrary: k) auto

lemma first_code_line_before:
  "\<forall>l \<in> set (take (first_code_line 0 ls) ls). \<not> is_code l"
  by (auto simp: first_code_line_bounds takeWhile_eq_take [symmetric] dest: set_takeWhileD)

lemma first_code_line_less: "ls \<noteq> [] \<Longrightarrow> first_code_line 0 ls < length ls"
proof (cases "list_ex is_code ls")
  case True
  then have "length (takeWhile (\<lambda>l. \<not> is_code l) ls) < length ls"
    by (induction ls) auto
  then show ?thesis using True by (simp add: first_code_line_bounds)
qed (simp add: first_code_line_bounds)

section \<open>The patch is applied once\<close>

lemma strip_future: "kept_lines [] (FUTURE_IMPORT @ s) = FUTURE_IMPORT # kept_lines [] s"
  by (simp add: FUTURE_IMPORT_def is_line_end_def)

lemma patch_idempotent:
  assumes "patch content = Some content'"
  shows "patch content' = None"
proof -
  let ?ls = "kept_lines [] (universal_newlines content)"
  let ?i = "first_code_line 0 ?ls"
  let ?before = "concat (take ?i ?ls)" and ?after = "concat (drop ?i ?ls)"
  have written: "content' = ?before @ FUTURE_IMPORT @ ?after"
    using assms by (auto simp: patch_def Let_def split: if_splits)
  have ends: "ends_line ?before"
    using taken_lines_end [of ?i] first_code_line_less [of ?ls] by (cases "?ls = []") (auto simp: ends_line_def)
  have "?before @ ?after = universal_newlines content"
    by (simp flip: concat_append)
  then have clean: "CHR 0x0D \<notin> set ?before" "CHR 0x0D \<notin> set ?after"
    using universal_newlines_no_return [of content] by (metis UnI1 UnI2 set_append)+
  then have no_return: "CHR 0x0D \<notin> set content'" by (simp add: written FUTURE_IMPORT_def)
  have "kept_lines [] (universal_newlines content') = kept_lines [] ?before @ FUTURE_IMPORT # kept_lines [] ?after"
    unfolding universal_newlines_id [OF no_return] unfolding written
    using kept_lines_append [OF clean(1) _ ends, of "[]" "FUTURE_IMPORT @ ?after"] unfolding strip_future by simp
  then show ?thesis by (simp add: patch_def)
qed

text \<open>
  The patch inserts the import before the first line of code and nothing else: what precedes it are
  blank lines and comments, and the script leaves a file it has patched alone.
\<close>

theorem patch_flashinfer:
  assumes "patch content = Some content'"
  obtains before after where "kept_lines [] (universal_newlines content) = before @ after"
    and "content' = concat (before @ [FUTURE_IMPORT] @ after)" and "\<forall>l \<in> set before. \<not> is_code l"
    and "list_ex is_code after \<Longrightarrow> is_code (hd after)" and "\<not> list_ex is_code after \<Longrightarrow> before = []"
proof -
  let ?ls = "kept_lines [] (universal_newlines content)"
  let ?i = "first_code_line 0 ?ls"
  have code: "list_ex is_code (drop ?i ?ls) \<longleftrightarrow> list_ex is_code ?ls"
    using first_code_line_before [of ?ls] list_ex_append [of is_code "take ?i ?ls" "drop ?i ?ls"]
    by (simp add: list_ex_iff)
  show thesis
  proof (rule that [of "take ?i ?ls" "drop ?i ?ls"])
    show "content' = concat (take ?i ?ls @ [FUTURE_IMPORT] @ drop ?i ?ls)"
      using assms by (auto simp: patch_def Let_def split: if_splits)
    show "\<forall>l \<in> set (take ?i ?ls). \<not> is_code l" by (rule first_code_line_before)
    show "is_code (hd (drop ?i ?ls))" if "list_ex is_code (drop ?i ?ls)"
    proof -
      have "drop ?i ?ls = dropWhile (\<lambda>l. \<not> is_code l) ?ls"
        using that unfolding code by (simp add: first_code_line_bounds dropWhile_eq_drop)
      then show ?thesis using that hd_dropWhile [of "\<lambda>l. \<not> is_code l" ?ls] by fastforce
    qed
    show "take ?i ?ls = []" if "\<not> list_ex is_code (drop ?i ?ls)"
      using that unfolding code by (simp add: first_code_line_bounds)
  qed simp
qed

text \<open>A second run of the script changes nothing and succeeds as the first did.\<close>

lemma target_file_readable: "target_file files sys_path = Some target \<Longrightarrow> files target \<noteq> None"
  by (auto simp: target_file_def find_Some_iff)

lemma patch_main_twice:
  assumes "patch_main python files sys_path = (0, files')"
  shows "patch_main python files' sys_path = (0, files')"
proof (cases "files' = files")
  case False
  then obtain target content content' where t: "target_file files sys_path = Some target" "files target = Some content"
    "patch content = Some content'" "files' = files(target \<mapsto> content')" "\<not> (fst python > 3 \<or> fst python = 3 \<and> snd python \<ge> 12)"
    using assms target_file_readable [of files sys_path] by (auto simp: patch_main_def split: if_splits option.splits)
  have "files' c \<noteq> None \<longleftrightarrow> files c \<noteq> None" for c using t(2,4) by simp
  then have "target_file files' sys_path = Some target" using t(1) unfolding target_file_def by presburger
  then show ?thesis using t(4,5) patch_idempotent [OF t(3)] by (auto simp: patch_main_def)
qed (use assms in simp)

end
