(* ===== verification/ReportFiles.thy ===== *)
theory ReportFiles
  imports Correctness
begin

text \<open>
  The JSON of the two reports of the experiments: the completeness report of a benchmark
  (src/sloserve/experiments/benchmark.py) and the starvation report of the correctness experiment
  (src/sloserve/experiments/correctness.py). Each is the dictionary of a dataclass, and it determines
  the report it was written from.
\<close>

section \<open>The completeness report\<close>

definition or_null :: "json option \<Rightarrow> json" where
  "or_null v = (case v of None \<Rightarrow> JNull | Some x \<Rightarrow> x)"

definition field_json :: "ReportField \<Rightarrow> json" where
  "field_json f = JObject [(''value'', or_null (field_value f)), (''missing_reason'', optional_string (missing_reason f))]"

definition fields_json :: "(string \<times> ReportField) list \<Rightarrow> json" where
  "fields_json fs = JObject (map (\<lambda>(name, f). (name, field_json f)) fs)"

definition completeness_json :: "CompletenessReport \<Rightarrow> json" where
  "completeness_json r = JObject
    [(''scope_note'', JString (scope_note r)), (''request_scope'', JString (request_scope r)),
     (''metrics'', fields_json (report_metrics r)), (''gpu'', fields_json (report_gpu r))]"

section \<open>The starvation report\<close>

definition class_wait_json :: "ClassWaitSummary \<Rightarrow> json" where
  "class_wait_json w = JObject
    [(''request_class'', JString (cw_request_class w)), (''dispatched_count'', JInt (int (cw_dispatched_count w))),
     (''max_queue_wait_s'', optional_float (cw_max_queue_wait_s w)), (''p95_queue_wait_s'', optional_float (cw_p95_queue_wait_s w))]"

definition policy_json :: "PolicyCorrectness \<Rightarrow> json" where
  "policy_json p = JObject
    [(''policy_name'', JString (pc_policy_name p)), (''formal_count'', JInt (int (pc_formal_count p))),
     (''terminal_count'', JInt (int (pc_terminal_count p))), (''all_terminal'', JBool (pc_all_terminal p)),
     (''dispatched_count'', JInt (int (pc_dispatched_count p))), (''rejected_count'', JInt (int (pc_rejected_count p))),
     (''unfinished_count'', JInt (int (pc_unfinished_count p))), (''max_queue_wait_s'', JFloat (pc_max_queue_wait_s p)),
     (''max_queue_depth'', JInt (pc_max_queue_depth p)), (''observed_max_service_s'', JFloat (pc_observed_max_service_s p)),
     (''aging_threshold_s'', JFloat (pc_aging_threshold_s p)), (''bound_margin_s'', JFloat (pc_bound_margin_s p)),
     (''aging_bound_s'', JFloat (pc_aging_bound_s p)), (''within_aging_bound'', JBool (pc_within_aging_bound p)),
     (''class_waits'', JArray (map class_wait_json (pc_class_waits p))), (''verdict'', JString (verdict_name (pc_verdict p)))]"

definition correctness_json :: "CorrectnessReport \<Rightarrow> json" where
  "correctness_json r = JObject
    [(''scope_note'', JString (cr_scope_note r)), (''config_hash'', JString (cr_config_hash r)),
     (''env_version'', JString (cr_env_version r)), (''bound_margin_s'', JFloat (cr_bound_margin_s r)),
     (''policies'', JArray (map policy_json (cr_policies r)))]"

section \<open>Nothing is lost in writing\<close>

lemma optional_json_inj [simp]:
  "optional_string x = optional_string y \<longleftrightarrow> x = y"
  "optional_float t = optional_float u \<longleftrightarrow> t = u"
  by (auto simp: optional_string_def optional_float_def split: option.splits)

lemma verdict_name_inj [simp]: "verdict_name v = verdict_name w \<longleftrightarrow> v = w"
  by (cases v; cases w) simp_all

text \<open>A value is never \<open>null\<close>, since a field that has none gives its reason.\<close>

definition no_null :: "ReportField \<Rightarrow> bool" where
  "no_null f \<longleftrightarrow> field_value f \<noteq> Some JNull"

lemma field_json_inj: "no_null f \<Longrightarrow> no_null g \<Longrightarrow> field_json f = field_json g \<longleftrightarrow> f = g"
  by (auto simp: no_null_def field_json_def or_null_def split: option.splits)

lemma fields_json_inj:
  assumes "\<forall>(name, f) \<in> set fs. no_null f" and "\<forall>(name, f) \<in> set gs. no_null f"
  shows "fields_json fs = fields_json gs \<longleftrightarrow> fs = gs"
  using assms
proof (induction fs arbitrary: gs)
  case Nil
  then show ?case by (cases gs) (auto simp: fields_json_def)
next
  case (Cons x fs)
  obtain name f where x: "x = (name, f)" by fastforce
  show ?case
  proof (cases gs)
    case (Cons y gs')
    obtain name' g where y: "y = (name', g)" by fastforce
    have "fields_json fs = fields_json gs' \<longleftrightarrow> fs = gs'"
      by (rule Cons.IH) (use Cons.prems \<open>gs = y # gs'\<close> in auto)
    moreover have "field_json f = field_json g \<longleftrightarrow> f = g"
      by (rule field_json_inj) (use Cons.prems Cons x y in auto)
    ultimately show ?thesis by (auto simp: fields_json_def x y Cons)
  qed (simp add: fields_json_def)
qed

lemma class_wait_json_inj [simp]: "class_wait_json v = class_wait_json w \<longleftrightarrow> v = w"
  by (auto simp: class_wait_json_def)

lemma map_inj_eq: "(\<And>x y. f x = f y \<longleftrightarrow> x = y) \<Longrightarrow> map f xs = map f ys \<longleftrightarrow> xs = ys"
  by (simp add: inj_def inj_map_eq_map)

lemma policy_json_inj [simp]: "policy_json p = policy_json q \<longleftrightarrow> p = q"
  by (auto simp: policy_json_def map_inj_eq)

theorem correctness_json_determines: "correctness_json r = correctness_json r' \<longleftrightarrow> r = r'"
  by (auto simp: correctness_json_def map_inj_eq)

text \<open>The fields a benchmark reports are values or reasons, so its file determines them too.\<close>

theorem completeness_json_determines:
  assumes "\<forall>(name, f) \<in> set (report_metrics r @ report_gpu r). no_null f"
    and "\<forall>(name, f) \<in> set (report_metrics r' @ report_gpu r'). no_null f"
  shows "completeness_json r = completeness_json r' \<longleftrightarrow> r = r'"
  using assms by (auto simp: completeness_json_def fields_json_inj)

lemma field_no_null [simp]:
  "v \<noteq> JNull \<Longrightarrow> no_null (value_field v)" "no_null (missing_field reason)" "no_null (optional_field x reason)"
  "no_null (attainment_field a)" "no_null (count_field n)"
  by (simp_all add: no_null_def value_field_def missing_field_def optional_field_def attainment_field_def count_field_def
      split: option.split)

lemma latency_group_no_null: "\<forall>(name, f) \<in> set (latency_group group_name p). no_null f"
  by (simp add: latency_group_def)

lemma gpu_report_no_null: "\<forall>(name, f) \<in> set (gpu_report samples). no_null f"
  by (simp add: gpu_report_def Let_def split: option.split list.split)

lemma report_fields_no_null:
  "\<forall>(name, f) \<in> set (report_metrics (build_completeness_report m samples) @
     report_gpu (build_completeness_report m samples)). no_null f"
  unfolding build_completeness_report_def CompletenessReport.select_convs set_append ball_Un list.set
  by (intro conjI latency_group_no_null gpu_report_no_null) (auto simp: case_prod_beta split: option.split)

text \<open>So what a benchmark writes of its metrics and samples is what it reported.\<close>

lemma written_completeness_determines:
  "completeness_json (build_completeness_report m samples) = completeness_json (build_completeness_report m' samples') \<longleftrightarrow>
     build_completeness_report m samples = build_completeness_report m' samples'"
  by (rule completeness_json_determines) (rule report_fields_no_null)+

end
