(* ===== verification/Spec2Isabelle.thy ===== *)
theory Spec2Isabelle
  imports AdmissionProperties MetricsCalc ExpLAnalysis ExpKB PredictorProperties HttpBackend Correctness Dispatcher
    FigureProperties StudyFigures BenchmarkProperties CommandLine ScriptArguments PatchScript ReportFiles
begin

text \<open>
  SLOServe is an admission, queueing and routing layer in front of an LLM server, with the workload
  generator, the experiments and the analyses that measure it. This development models the Python
  package src/sloserve and the scripts that hold logic of their own, and proves what makes each part
  correct. File names below are relative to src/sloserve.

  \<^bold>\<open>The program's parts and how they interact.\<close> A configuration (config.py) is validated once; every other
  part is built from it. The generator (workload/arrivals.py, workload/generator.py) draws a workload
  of requests (router/models.py). The benchmark (experiments/benchmark.py) places them on the clock,
  clips them (router/clipping.py, with estimates of workload/length_predictor.py) and submits each to
  the admission queue (router/admission.py). The queue holds at most \<open>capacity\<close> requests, lets at most
  \<open>in_flight_limit\<close> into the backend, picks the next one by a policy (router/policies) and asks the
  adaptive controller (router/adaptive_clipping.py) for a cap at every dispatch. The backend
  (workload/http_backend.py) streams one completion and keeps its telemetry. Results and telemetry are
  joined to records (metrics/records.py, metrics/serialization.py), decisions are logged
  (metrics/adaptive_cap.py), and the analyses compute figures and gates from the persisted facts
  (analysis/metrics.py, queueing.py, expkb.py, expl.py). Sweeps, the correctness experiment and the
  command line repeat the benchmark over configurations (experiments/sweep.py, correctness.py, cli.py).

  \<^bold>\<open>Which theory models which part.\<close>
  \<^item> Prelude: errors as values, guard chains, sorting by a key that may raise, dictionaries, averages
    and ranks. TimeTable: tables of time per key, a locale for accounts that charge time to a key.
    PyText, Labels: the string methods and the label grammar the readers use.
  \<^item> Models, Config: requests, and every configuration model with its field bounds and validators; a
    constructor is a function \<open>X_init\<close> that returns the record or the error it raises.
  \<^item> LengthPredictor, PredictorProperties: training, prediction, the JSON artifact, the quality figures;
    TrainingScript: the script that composes them (scripts/train_length_predictor.py).
  \<^item> Policies, PolicyOrder, PolicyProperties: keys and orderings of the three policies.
  \<^item> Clipping: the static and the adaptive clip of one request.
  \<^item> AdaptiveClipping: the controller's state and \<open>update\<close>; ControllerContract: what the queue and the probe
    rely on, as a locale interpreted on the controller; ControllerLemmas, ControllerRuns: one update
    and runs of updates, with the history the state summarises; ControllerProperties: hold times,
    answers to pressure, absence of errors.
  \<^item> Admission: the queue's state (entries by index, the waiting list, running and watching tasks) and
    one operation per method; AdmissionShape, AdmissionInv, AdmissionOps, AdmissionRuns: the invariant,
    its preservation by every operation, and the event relation with reachability;
    AdmissionProperties: the contract of the queue.
  \<^item> Generator, HttpBackend, Dispatcher: the workload, the streaming call, the open-loop dispatcher as a
    step relation.
  \<^item> Records, DecisionLog, MetricsCalc, Queueing: the persisted facts with both directions of their
    mappings, the figures of a summary, the service-time fit and the M/G/1 estimate.
  \<^item> Benchmark, BenchmarkProperties, Sweep, SweepProperties, Correctness: the experiments;
    ReportFiles: the JSON of their reports, which determines the report.
  \<^item> Figures, FigureProperties: the curves of the sweep's figures (analysis/plot_results.py). StudyFigures:
    the values of the figures of the earlier studies (scripts/plot_week3_extra.py). AnalysisScripts: what
    scripts/analyze_expl.py and scripts/analyze_expkb.py write, raise and draw.
  \<^item> RunMetadata: the GPU sampler as a step relation over its context and its ticks, and the environment
    string (experiments/gpu.py, experiments/metadata.py). ConfigHash: the dumps and the hash that
    identify a configuration (metrics/config_hash.py).
  \<^item> Commands: what each command of cli.py runs and prints. Arguments: the part of the standard library's
    argument parser the program uses. CommandLine: the grammar of cli.py over it, and \<open>main\<close> from the
    argument list on. ScriptArguments: the grammars of the scripts.
  \<^item> ExpLStats, ExpLControl, ExpLControlProperties, ExpLReconcile, ExpLReplay, ExpLAnalysis: the gates of
    analysis/expl.py; ExpKB: the clipping study.
  \<^item> ProbeStatistics, Probe, ProbeTrace, ProbeReference, ProbeRuns: the event-driven probe
    (scripts/probe_week7_lowload_depth.py) with its own queue simulation over the real controller;
    ProbeReport: the JSON it writes, and that a later run reads its history from it.
  \<^item> SmokeCheck: the check of a running server (scripts/vllm_smoke.py). PatchScript: the patch of a pinned
    package (scripts/patch_flashinfer_py311.py).

  \<^bold>\<open>Conventions.\<close> A dataclass is a record and a mutated object a record returned updated; an enumeration
  is a datatype. Python's integers are \<open>int\<close>, or \<open>nat\<close> where they count. Floats are \<open>real\<close>, so rounding
  is not modelled; where the code tests for finiteness or reads text, they are \<open>pyfloat\<close> with the
  infinities and NaN. Strings are character lists, dictionaries association lists in insertion order,
  tuples and lists are lists. Every exception is a value of \<open>py_error\<close>; texts of messages are shortened
  where they only quote a value, and the Chinese notes of the reports are in English. What is outside
  the program is a parameter: files as their parsed JSON, YAML or CSV, the random source (with the
  ranges of its draws as the hypothesis \<open>random_laws\<close>), clocks as functions of the number of readings
  (monotone where that matters), URL splitting, text formats of numbers, digests, the HTTP client's
  outcomes, processes, globbing. In the event loop a section under the queue's lock is atomic and
  everything between two sections is an arbitrary sequence of events, so the queue's properties hold
  for every interleaving.

  \<^bold>\<open>What the lemmas show.\<close> For the queue: no reachable event raises, the bounds hold and slots are never
  left idle, results and dispatch times are final and truthful, nothing is sent twice, watchers enforce
  deadlines, closing stops dispatch and can always finish, admission follows the policy, and the logged
  decisions are a run of the controller. For the controller: it never raises, tightens only after the
  whole hold time and always after it, and relaxes one level at a time. For the orderings: stable
  permutations that put aged requests first. For the experiments: a benchmark that returns has exactly
  one valid record per request and its persisted records read back; a sweep has one complete row per
  point, its rows reconcile with their records and are plotted without loss; the probe accounts for all simulated time. A command
  line is read back as the command that was written, and the patch is applied once. For the
  analyses: well-formed metrics, the least-squares fit, the meaning of the starvation verdict, the
  gates' agreement or disagreement with a correct controller, time conservation of the replay, and the
  equivalence of its two independent implementations. The findings name the theorems that show a defect.

  \<^bold>\<open>Termination.\<close> No fuel is used. The admission loop decreases the waiting list, the probe's event loop
  the measure \<open>work_left\<close>, the line splitter the text, the argument parser the arguments left; the dispatcher has a bound on its steps; all other
  recursion is structural.

  \<^bold>\<open>Not modelled.\<close> Of the figures, the drawing, titles, axes and colours are the plotting library's. Help
  texts, log output, and the creation of directories and files are left out: a script's result is the
  value it writes. Of the argument parser, only options with one value, flags, the help option, required
  options, conversions, choices and subcommands are modelled, which is what the program declares. How asyncio
  schedules tasks is not modelled beyond the freedom of the event sequences, and the floating-point
  error of the figures is outside the model.
\<close>

end
